(* ===== verification/Go_Prelude.thy ===== *)
theory Go_Prelude
  imports
    Main
    "HOL-Library.Word"
    "HOL-Library.AList"
    "HOL-Library.List_Lexorder"
    "HOL-Library.Char_ord"
    "HOL-Library.Sublist"
    "HOL-Library.Multiset"
begin

text \<open>
  Shared ground of the development: the pieces of Go and of its standard library that the
  programs under \<open>src/tools/socgen\<close> use everywhere, with the lemmas the components share.

  \<^item> A Go \<open>string\<close> is a byte string; it is a \<open>string\<close> (a char list) here. \<open>strings.ToLower\<close>
    and \<open>strings.TrimSpace\<close> are modelled on ASCII, which is all that VHDL and the board
    descriptions contain.
  \<^item> A Go \<open>map\<close> is an association list with distinct keys: lookup is \<open>map_of\<close>, assignment is
    \<open>AList.update\<close>. Where Go ranges over a map in its unspecified order, the order of the
    list stands for that order, so a theorem about every list holds for every order.
  \<^item> \<open>sort.Strings\<close> is \<open>sort\<close> for the lexicographic byte order of \<open>List_Lexorder\<close>.
  \<^item> \<open>strconv.Itoa\<close>, \<open>strconv.ParseInt\<close> and the format verbs \<open>%d\<close> and \<open>%#x\<close>.
\<close>

named_theorems go_simps \<open>unfolding rules of the modelled standard-library functions\<close>

section \<open>Characters and strings\<close>

definition char_code :: "char \<Rightarrow> nat" where
  "char_code c = of_char c"

definition is_upper :: "char \<Rightarrow> bool" where
  "is_upper c \<longleftrightarrow> 65 \<le> char_code c \<and> char_code c \<le> 90"

definition to_lower_char :: "char \<Rightarrow> char" where
  "to_lower_char c = (if is_upper c then char_of (char_code c + 32) else c)"

definition is_space :: "char \<Rightarrow> bool" where
  "is_space c \<longleftrightarrow> char_code c \<in> {9, 10, 11, 12, 13, 32}"

definition is_digit :: "char \<Rightarrow> bool" where
  "is_digit c \<longleftrightarrow> 48 \<le> char_code c \<and> char_code c \<le> 57"

definition is_lower :: "char \<Rightarrow> bool" where
  "is_lower c \<longleftrightarrow> 97 \<le> char_code c \<and> char_code c \<le> 122"

definition to_lower :: "string \<Rightarrow> string" where
  "to_lower s = map to_lower_char s"

definition trim_space :: "string \<Rightarrow> string" where
  "trim_space s = rev (dropWhile is_space (rev (dropWhile is_space s)))"

definition to_upper_char :: "char \<Rightarrow> char" where
  "to_upper_char c = (if is_lower c then char_of (char_code c - 32) else c)"

definition to_upper :: "string \<Rightarrow> string" where
  "to_upper s = map to_upper_char s"

text \<open>\<open>strings.Join\<close>.\<close>

fun join_strings :: "string list \<Rightarrow> string \<Rightarrow> string" where
  "join_strings [] sep = []"
| "join_strings [s] sep = s"
| "join_strings (s # t # ss) sep = s @ sep @ join_strings (t # ss) sep"

lemma char_code_bound [simp]: "char_code c < 256"
  by (simp add: char_code_def)

lemma char_code_char_of [simp]: "n < 256 \<Longrightarrow> char_code (char_of n) = n"
  by (simp add: char_code_def)

lemma char_code_inject [simp]: "char_code c = char_code d \<longleftrightarrow> c = d"
  by (auto simp: char_code_def)

lemma not_upper_to_lower_char [simp]: "\<not> is_upper (to_lower_char c)"
  by (auto simp: to_lower_char_def is_upper_def)

lemma to_lower_char_id: "\<not> is_upper c \<Longrightarrow> to_lower_char c = c"
  by (simp add: to_lower_char_def)

lemma to_lower_char_idem [simp]: "to_lower_char (to_lower_char c) = to_lower_char c"
  by (simp add: to_lower_char_id)

lemma to_lower_idem [simp]: "to_lower (to_lower s) = to_lower s"
  by (simp add: to_lower_def)

lemma length_to_lower [simp]: "length (to_lower s) = length s"
  by (simp add: to_lower_def)

lemma is_space_to_lower_char [simp]: "is_space (to_lower_char c) \<longleftrightarrow> is_space c"
  by (auto simp: to_lower_char_def is_space_def is_upper_def)

lemma dropWhile_space_to_lower:
  "dropWhile is_space (map to_lower_char s) = map to_lower_char (dropWhile is_space s)"
  by (induction s) auto

lemma trim_space_to_lower: "trim_space (to_lower s) = to_lower (trim_space s)"
  by (simp add: trim_space_def to_lower_def dropWhile_space_to_lower rev_map)

lemma dropWhile_rev_dropWhile:
  "dropWhile P (rev (dropWhile P (rev (dropWhile P s)))) = rev (dropWhile P (rev (dropWhile P s)))"
proof (cases "rev (dropWhile P (rev (dropWhile P s)))")
  case Nil
  show ?thesis unfolding Nil by simp
next
  case (Cons c t)
  let ?d = "dropWhile P s"
  have pre: "\<exists>zs. ?d = rev (dropWhile P (rev ?d)) @ zs"
    by (metis rev_append rev_rev_ident takeWhile_dropWhile_id)
  then obtain zs where "?d = c # t @ zs" using Cons by auto
  then have "\<not> P c" by (metis hd_dropWhile list.distinct(1) list.sel(1))
  with Cons show ?thesis by simp
qed

lemma trim_space_idem [simp]: "trim_space (trim_space s) = trim_space s"
  using dropWhile_rev_dropWhile [of is_space s] by (simp add: trim_space_def)

section \<open>Decimal and hexadecimal formatting, and parsing\<close>

definition digit_char :: "nat \<Rightarrow> char" where
  "digit_char d = char_of (if d < 10 then 48 + d else 87 + d)"

fun radix_str :: "nat \<Rightarrow> nat \<Rightarrow> string" where
  "radix_str b n =
     (if b < 2 \<or> n < b then [digit_char n]
      else radix_str b (n div b) @ [digit_char (n mod b)])"

declare radix_str.simps [simp del]

definition nat_str :: "nat \<Rightarrow> string" where
  "nat_str n = radix_str 10 n"

text \<open>\<open>strconv.Itoa\<close>, the format verb \<open>%d\<close>.\<close>

definition itoa :: "int \<Rightarrow> string" where
  "itoa i = (if i < 0 then CHR ''-'' # nat_str (nat (- i)) else nat_str (nat i))"

text \<open>The format verb \<open>%#x\<close>.\<close>

definition hex_str :: "int \<Rightarrow> string" where
  "hex_str i = (if i < 0 then ''-0x'' @ radix_str 16 (nat (- i)) else ''0x'' @ radix_str 16 (nat i))"

text \<open>The format verb \<open>%08X\<close> of an unsigned value.\<close>

definition hex_pad8 :: "nat \<Rightarrow> string" where
  "hex_pad8 n = (let s = to_upper (radix_str 16 n) in replicate (8 - length s) (CHR ''0'') @ s)"

text \<open>
  \<open>strconv.Quote\<close>, the format verb \<open>%q\<close>, on ASCII text.
\<close>

definition quote_char_esc :: "char \<Rightarrow> string" where
  "quote_char_esc c =
     (let bs = CHR 0x5C; n = char_code c in
      if c = CHR 0x22 \<or> c = bs then [bs, c]
      else if n = 7 then [bs, CHR ''a''] else if n = 8 then [bs, CHR ''b'']
      else if n = 12 then [bs, CHR ''f''] else if n = 10 then [bs, CHR ''n'']
      else if n = 13 then [bs, CHR ''r''] else if n = 9 then [bs, CHR ''t'']
      else if n = 11 then [bs, CHR ''v'']
      else if n < 32 \<or> n = 127
      then [bs, CHR ''x'', digit_char (n div 16), digit_char (n mod 16)]
      else [c])"

definition go_quote :: "string \<Rightarrow> string" where
  "go_quote s = CHR 0x22 # concat (map quote_char_esc s) @ [CHR 0x22]"

definition digit_val :: "char \<Rightarrow> nat" where
  "digit_val c = char_code c - 48"

definition dec_val :: "string \<Rightarrow> nat" where
  "dec_val s = foldl (\<lambda>n c. 10 * n + digit_val c) 0 s"

text \<open>
  \<open>strconv.ParseInt(s, 10, 64)\<close>: an optional sign, then one or more decimal digits (with an
  explicit base, underscores are rejected), and the value must fit 64 bits.
\<close>

definition parse_int64 :: "string \<Rightarrow> int option" where
  "parse_int64 s =
     (let (neg, ds) = (case s of
            c # cs \<Rightarrow> if c = CHR ''-'' then (True, cs) else if c = CHR ''+'' then (False, cs)
                      else (False, s)
          | [] \<Rightarrow> (False, []))
      in if ds = [] \<or> \<not> list_all is_digit ds then None
         else let v = (if neg then - int (dec_val ds) else int (dec_val ds))
              in if - (2 ^ 63) \<le> v \<and> v < 2 ^ 63 then Some v else None)"

lemma radix_str_nonempty [simp]: "radix_str b n \<noteq> []"
  by (subst radix_str.simps) simp

lemma nat_str_nonempty [simp]: "nat_str n \<noteq> []"
  by (simp add: nat_str_def)

lemma digit_val_digit_char [simp]: "d < 10 \<Longrightarrow> digit_val (digit_char d) = d"
  by (simp add: digit_val_def digit_char_def)

lemma is_digit_digit_char [simp]: "d < 10 \<Longrightarrow> is_digit (digit_char d)"
  by (simp add: is_digit_def digit_char_def)

lemma nat_str_digits: "list_all is_digit (nat_str n)"
proof (induction n rule: less_induct)
  case (less n)
  show ?case
  proof (cases "n < 10")
    case True
    then show ?thesis by (simp add: nat_str_def radix_str.simps)
  next
    case False
    then have "list_all is_digit (nat_str (n div 10))" using less by simp
    with False show ?thesis
      by (subst nat_str_def, subst radix_str.simps) (simp add: nat_str_def)
  qed
qed

lemma dec_val_snoc: "dec_val (s @ [c]) = 10 * dec_val s + digit_val c"
  by (simp add: dec_val_def)

lemma dec_val_nat_str [simp]: "dec_val (nat_str n) = n"
proof (induction n rule: less_induct)
  case (less n)
  show ?case
  proof (cases "n < 10")
    case True
    then show ?thesis by (simp add: nat_str_def radix_str.simps dec_val_def)
  next
    case False
    then have "dec_val (nat_str (n div 10)) = n div 10" using less by simp
    with False show ?thesis
      by (subst nat_str_def, subst radix_str.simps) (simp add: nat_str_def dec_val_snoc)
  qed
qed

lemma nat_str_inject [simp]: "nat_str m = nat_str n \<longleftrightarrow> m = n"
  by (metis dec_val_nat_str)

lemma minus_notin_nat_str: "CHR ''-'' \<notin> set (nat_str n)"
  using nat_str_digits [of n] by (auto simp: list_all_iff is_digit_def char_code_def)

lemma itoa_inject [simp]: "itoa i = itoa j \<longleftrightarrow> i = j"
proof -
  have "nat_str m \<noteq> CHR ''-'' # nat_str n" for m n
    using minus_notin_nat_str [of m] by (metis list.set_intros(1))
  moreover have "CHR ''-'' # nat_str n \<noteq> nat_str m" for m n
    using minus_notin_nat_str [of m] by (metis list.set_intros(1))
  ultimately show ?thesis by (auto simp: itoa_def)
qed

lemma parse_int64_itoa:
  assumes "- (2 ^ 63) \<le> i" "i < 2 ^ 63"
  shows "parse_int64 (itoa i) = Some i"
proof (cases "i < 0")
  case True
  with assms show ?thesis
    by (simp add: itoa_def parse_int64_def nat_str_digits)
next
  case False
  obtain c cs where cs: "nat_str (nat i) = c # cs"
    by (meson nat_str_nonempty neq_Nil_conv)
  have "is_digit c" using nat_str_digits [of "nat i"] cs by simp
  then have "c \<noteq> CHR ''-''" "c \<noteq> CHR ''+''" by (auto simp: is_digit_def char_code_def)
  with False assms cs nat_str_digits [of "nat i"] dec_val_nat_str [of "nat i"]
  show ?thesis by (simp add: itoa_def parse_int64_def Let_def)
qed

section \<open>Go maps as association lists\<close>

type_synonym 'v strmap = "(string \<times> 'v) list"

definition sorted_keys :: "'v strmap \<Rightarrow> string list" where
  "sorted_keys m = sort (map fst m)"

lemma set_sorted_keys [simp]: "set (sorted_keys m) = fst ` set m"
  by (simp add: sorted_keys_def)

lemma distinct_sorted_keys [simp]: "distinct (map fst m) \<Longrightarrow> distinct (sorted_keys m)"
  by (simp add: sorted_keys_def)

lemma sorted_sorted_keys [simp]: "sorted (sorted_keys m)"
  by (simp add: sorted_keys_def)

lemma map_of_update [simp]: "map_of (AList.update k v m) = (map_of m)(k \<mapsto> v)"
  by (rule update_conv')

lemma distinct_update_fst [simp]:
  "distinct (map fst m) \<Longrightarrow> distinct (map fst (AList.update k v m))"
  by (rule distinct_update)

lemma sort_eq_of_mset: "mset xs = mset ys \<Longrightarrow> sort xs = sort ys"
  by (rule properties_for_sort) simp_all

section \<open>Slices\<close>

text \<open>The first element, if any, that satisfies a test: the \<open>for ... if ... break\<close> idiom.\<close>

lemma find_SomeD: "List.find P xs = Some x \<Longrightarrow> x \<in> set xs \<and> P x"
  by (metis find_Some_iff nth_mem)

lemma find_None_iff_ball: "List.find P xs = None \<longleftrightarrow> (\<forall>x \<in> set xs. \<not> P x)"
  by (auto simp: find_None_iff)

text \<open>All pairs \<open>i < j\<close> of a slice, in the order of the nested index loops.\<close>

fun index_pairs :: "'a list \<Rightarrow> ('a \<times> 'a) list" where
  "index_pairs [] = []"
| "index_pairs (x # xs) = map (\<lambda>y. (x, y)) xs @ index_pairs xs"

lemma index_pairs_nth:
  "i < j \<Longrightarrow> j < length xs \<Longrightarrow> (xs ! i, xs ! j) \<in> set (index_pairs xs)"
proof (induction xs arbitrary: i j)
  case Nil
  then show ?case by simp
next
  case (Cons x xs)
  show ?case
  proof (cases i)
    case 0
    with Cons.prems show ?thesis by (cases j) auto
  next
    case (Suc i')
    with Cons.prems obtain j' where "j = Suc j'" by (cases j) auto
    with Suc Cons show ?thesis by simp
  qed
qed

lemma set_index_pairs:
  "set (index_pairs xs) = {(xs ! i, xs ! j) | i j. i < j \<and> j < length xs}"
proof
  show "set (index_pairs xs) \<subseteq> {(xs ! i, xs ! j) | i j. i < j \<and> j < length xs}"
  proof (induction xs)
    case Nil
    then show ?case by simp
  next
    case (Cons x xs)
    show ?case
    proof
      fix p assume "p \<in> set (index_pairs (x # xs))"
      then consider y where "y \<in> set xs" "p = (x, y)" | "p \<in> set (index_pairs xs)" by auto
      then show "p \<in> {((x # xs) ! i, (x # xs) ! j) | i j. i < j \<and> j < length (x # xs)}"
      proof cases
        case 1
        then obtain j where "j < length xs" "xs ! j = y" by (auto simp: in_set_conv_nth)
        with 1 show ?thesis
          by (intro CollectI exI [of _ 0] exI [of _ "Suc j"]) auto
      next
        case 2
        with Cons obtain i j where "i < j" "j < length xs" "p = (xs ! i, xs ! j)" by auto
        then show ?thesis
          by (intro CollectI exI [of _ "Suc i"] exI [of _ "Suc j"]) auto
      qed
    qed
  qed
  show "{(xs ! i, xs ! j) | i j. i < j \<and> j < length xs} \<subseteq> set (index_pairs xs)"
    using index_pairs_nth by fastforce
qed

lemma index_pairs_symp:
  assumes "\<And>x y. P x y \<Longrightarrow> P y x"
  shows "(\<forall>(x, y) \<in> set (index_pairs xs). P x y) \<longleftrightarrow>
    (\<forall>i j. i < length xs \<longrightarrow> j < length xs \<longrightarrow> i \<noteq> j \<longrightarrow> P (xs ! i) (xs ! j))"
    (is "?l \<longleftrightarrow> ?r")
proof
  assume l: ?l
  show ?r
  proof (intro allI impI)
    fix i j assume ij: "i < length xs" "j < length xs" "i \<noteq> j"
    then consider "i < j" | "j < i" by linarith
    then show "P (xs ! i) (xs ! j)"
      using l ij assms index_pairs_nth [of i j xs] index_pairs_nth [of j i xs] by cases auto
  qed
next
  assume ?r then show ?l by (auto simp: set_index_pairs)
qed

lemma index_pairs_sorted_wrt:
  "(\<forall>(x, y) \<in> set (index_pairs xs). P x y) \<longleftrightarrow> sorted_wrt P xs"
  by (induction xs) auto

end
