(* ===== verification/Design_Model.thy ===== *)
theory Design_Model
  imports Go_Prelude
begin

text \<open>
  Model of the data of \<open>src/tools/socgen/design\<close> (\<open>model.go\<close>, \<open>pins.go\<close>): a board description
  as it stands after YAML decoding. Pointers that may be nil are options; Go maps are
  association lists.

  A \<open>Value\<close> carries all the fields of the Go struct. The float is kept as its IEEE bit pattern
  (the modelled code only carries it) and of a structured map value only the keys are kept,
  since the code asks it for nothing else (\<open>hasKey\<close>).
\<close>

type_synonym u64 = "64 word"

section \<open>Generic and port values\<close>

datatype value_kind = KindExpr | KindStr | KindInt | KindFloat | KindBool | KindMap

record go_value =
  v_kind :: value_kind
  v_text :: string
  v_int :: int
  v_float :: u64
  v_bool :: bool
  v_map :: "string list"

definition zero_value :: go_value where
  "zero_value = \<lparr>v_kind = KindExpr, v_text = [], v_int = 0, v_float = 0, v_bool = False, v_map = []\<rparr>"

section \<open>Device-tree properties\<close>

text \<open>
  A property value is whatever YAML decodes to (\<open>any\<close>): a float is its IEEE bit pattern, and of the
  kinds the code never looks into (maps, time stamps) only the fact that it is one is kept.
\<close>

datatype go_any =
    AnyNil
  | AnyBool bool
  | AnyInt int
  | AnyUint u64
  | AnyFloat u64
  | AnyStr string
  | AnyList "go_any list"
  | AnyOther

type_synonym dt_props = "(string \<times> go_any) list"

datatype dt_child = DtChild string dt_props "dt_child list"

text \<open>\<open>DtProps.Get\<close>: the first property of that name.\<close>

definition dt_get :: "dt_props \<Rightarrow> string \<Rightarrow> go_any option" where
  "dt_get ps k = map_of ps k"

section \<open>Devices, classes and entities of the specification\<close>

record irq_entry =
  ie_cpu :: int
  ie_irq :: int
  ie_dt :: "bool option"

record irq_ref =
  ir_int :: "int option"
  ir_named :: "irq_entry strmap option"

record reg =
  rg_name :: string
  rg_addr :: "int option"
  rg_width :: "int option"
  rg_mode :: string
  rg_type :: string

record device_class =
  dc_entity :: string
  dc_configuration :: string
  dc_architecture :: string
  dc_left_addr_bit :: int
  dc_regs :: "reg list"
  dc_generics :: "go_value strmap"
  dc_ports :: "go_value strmap"
  dc_dt_name :: string
  dc_dt_props :: dt_props
  dc_dt_children :: "dt_child list"

record device =
  dev_class :: string
  dev_name :: string
  dev_cpu :: "int option"
  dev_base_addr :: "u64 option"
  dev_irq :: "irq_ref option"
  dev_generics :: "go_value strmap"
  dev_ports :: "go_value strmap"
  dev_dt_props :: dt_props
  dev_dt_stdout :: bool
  dev_dt_label :: string
  dev_dt_node :: "bool option"

record top_entity =
  te_entity :: string
  te_configuration :: string
  te_architecture :: string
  te_generics :: "go_value strmap"
  te_ports :: "go_value strmap"

section \<open>Pins\<close>

record pin =
  pin_net :: string
  pin_pad :: string

record seq_part =
  sp_lit :: string
  sp_sym :: string

record pin_match =
  pm_regex :: string
  pm_parts :: "seq_part list"

datatype sig_kind = SigName | SigTrue | SigConst | SigTemplate | SigMap

record sig_spec =
  ss_kind :: sig_kind
  ss_name :: string
  ss_int :: int
  ss_parts :: "seq_part list"
  ss_diff :: string
  ss_invert :: bool

record pin_rule =
  pr_match :: "pin_match option"
  pr_signal :: "sig_spec option"
  pr_in :: "sig_spec option"
  pr_out :: "sig_spec option"
  pr_out_en :: "sig_spec option"
  pr_attrs :: "go_value strmap"
  pr_buff :: "bool option"
  pr_entity_pad :: "bool option"

record pins_spec =
  ps_file :: string
  ps_type :: string
  ps_part :: string
  ps_rules :: "pin_rule list"
  ps_pins :: "pin list"

section \<open>System, CPU and the design\<close>

record pio_entry =
  pe_lo :: int
  pe_hi :: int
  pe_const :: "int option"
  pe_name :: string

record system =
  sys_data_bus_decode :: string
  sys_pio :: "pio_entry list"
  sys_dram :: "u64 \<times> u64"

record cpu_spec =
  cpu_architecture :: string
  cpu_cores :: int
  cpu_model :: string
  cpu_decode :: string
  cpu_mult :: string
  cpu_copro :: bool
  cpu_cache :: string
  cpu_fpga_opt_core0 :: bool

record design =
  d_target :: string
  d_device_classes :: "device_class strmap"
  d_devices :: "device list"
  d_top_entities :: "top_entity strmap"
  d_padring_entities :: "top_entity strmap"
  d_merge_signals :: "string list strmap"
  d_zero_signals :: "string list"
  d_bus_word :: "string list"
  d_bus_word_loopback_ack :: "string list"
  d_irq :: "irq_entry strmap"
  d_pins :: "pins_spec option"
  d_peripheral_buses :: "bool strmap"
  d_system :: "system option"
  d_cpu :: "cpu_spec option"
  d_plugins :: "string list"

text \<open>\<open>System.DramOr\<close>: an unset pair means the default region.\<close>

definition DramOr :: "system \<Rightarrow> u64 \<times> u64" where
  "DramOr s = (if sys_dram s = (0, 0) then (0x10000000, 0x8000000) else sys_dram s)"

end
