(* ===== verification/Vhdl_Token.thy ===== *)
theory Vhdl_Token
  imports Go_Prelude
begin

text \<open>
  Model of \<open>src/tools/socgen/vhdl/token.go\<close>: token kinds, the keyword table and source
  positions. As in the code a \<open>Kind\<close> is a number (\<open>type Kind int\<close> with \<open>iota\<close>), here
  wrapped in a constructor; every named kind is an abbreviation, prefixed \<open>K_\<close> because
  names such as \<open>ALL\<close> and \<open>INT\<close> are Isabelle syntax. The sentinels \<open>kwStart\<close> and
  \<open>kwEnd\<close> enclose the keyword kinds and the keyword table is built by iterating over them.
\<close>

section \<open>Kinds\<close>

datatype kind = Kind nat

primrec kind_num :: "kind \<Rightarrow> nat" where
  "kind_num (Kind n) = n"

abbreviation K_ILLEGAL :: kind where "K_ILLEGAL \<equiv> Kind 0"
abbreviation K_EOF :: kind where "K_EOF \<equiv> Kind 1"
abbreviation K_COMMENT :: kind where "K_COMMENT \<equiv> Kind 2"
abbreviation K_IDENT :: kind where "K_IDENT \<equiv> Kind 3"
abbreviation K_EXTIDENT :: kind where "K_EXTIDENT \<equiv> Kind 4"
abbreviation K_INT :: kind where "K_INT \<equiv> Kind 5"
abbreviation K_REAL :: kind where "K_REAL \<equiv> Kind 6"
abbreviation K_BASEDLIT :: kind where "K_BASEDLIT \<equiv> Kind 7"
abbreviation K_CHARLIT :: kind where "K_CHARLIT \<equiv> Kind 8"
abbreviation K_STRINGLIT :: kind where "K_STRINGLIT \<equiv> Kind 9"
abbreviation K_BITSTRINGLIT :: kind where "K_BITSTRINGLIT \<equiv> Kind 10"
abbreviation K_LPAREN :: kind where "K_LPAREN \<equiv> Kind 11"
abbreviation K_RPAREN :: kind where "K_RPAREN \<equiv> Kind 12"
abbreviation K_LBRACKET :: kind where "K_LBRACKET \<equiv> Kind 13"
abbreviation K_RBRACKET :: kind where "K_RBRACKET \<equiv> Kind 14"
abbreviation K_COMMA :: kind where "K_COMMA \<equiv> Kind 15"
abbreviation K_SEMICOLON :: kind where "K_SEMICOLON \<equiv> Kind 16"
abbreviation K_COLON :: kind where "K_COLON \<equiv> Kind 17"
abbreviation K_ASSIGN :: kind where "K_ASSIGN \<equiv> Kind 18"
abbreviation K_ARROW :: kind where "K_ARROW \<equiv> Kind 19"
abbreviation K_LE :: kind where "K_LE \<equiv> Kind 20"
abbreviation K_GE :: kind where "K_GE \<equiv> Kind 21"
abbreviation K_NE :: kind where "K_NE \<equiv> Kind 22"
abbreviation K_LT :: kind where "K_LT \<equiv> Kind 23"
abbreviation K_GT :: kind where "K_GT \<equiv> Kind 24"
abbreviation K_EQ :: kind where "K_EQ \<equiv> Kind 25"
abbreviation K_PLUS :: kind where "K_PLUS \<equiv> Kind 26"
abbreviation K_MINUS :: kind where "K_MINUS \<equiv> Kind 27"
abbreviation K_STAR :: kind where "K_STAR \<equiv> Kind 28"
abbreviation K_SLASH :: kind where "K_SLASH \<equiv> Kind 29"
abbreviation K_EXP :: kind where "K_EXP \<equiv> Kind 30"
abbreviation K_AMP :: kind where "K_AMP \<equiv> Kind 31"
abbreviation K_BAR :: kind where "K_BAR \<equiv> Kind 32"
abbreviation K_DOT :: kind where "K_DOT \<equiv> Kind 33"
abbreviation K_TICK :: kind where "K_TICK \<equiv> Kind 34"
abbreviation K_BOX :: kind where "K_BOX \<equiv> Kind 35"
abbreviation kwStart :: kind where "kwStart \<equiv> Kind 36"
abbreviation K_ABS :: kind where "K_ABS \<equiv> Kind 37"
abbreviation K_ACCESS :: kind where "K_ACCESS \<equiv> Kind 38"
abbreviation K_AFTER :: kind where "K_AFTER \<equiv> Kind 39"
abbreviation K_ALIAS :: kind where "K_ALIAS \<equiv> Kind 40"
abbreviation K_ALL :: kind where "K_ALL \<equiv> Kind 41"
abbreviation K_AND :: kind where "K_AND \<equiv> Kind 42"
abbreviation K_ARCHITECTURE :: kind where "K_ARCHITECTURE \<equiv> Kind 43"
abbreviation K_ARRAY :: kind where "K_ARRAY \<equiv> Kind 44"
abbreviation K_ASSERT :: kind where "K_ASSERT \<equiv> Kind 45"
abbreviation K_ATTRIBUTE :: kind where "K_ATTRIBUTE \<equiv> Kind 46"
abbreviation K_BEGIN :: kind where "K_BEGIN \<equiv> Kind 47"
abbreviation K_BLOCK :: kind where "K_BLOCK \<equiv> Kind 48"
abbreviation K_BODY :: kind where "K_BODY \<equiv> Kind 49"
abbreviation K_BUFFER :: kind where "K_BUFFER \<equiv> Kind 50"
abbreviation K_BUS :: kind where "K_BUS \<equiv> Kind 51"
abbreviation K_CASE :: kind where "K_CASE \<equiv> Kind 52"
abbreviation K_COMPONENT :: kind where "K_COMPONENT \<equiv> Kind 53"
abbreviation K_CONFIGURATION :: kind where "K_CONFIGURATION \<equiv> Kind 54"
abbreviation K_CONSTANT :: kind where "K_CONSTANT \<equiv> Kind 55"
abbreviation K_DISCONNECT :: kind where "K_DISCONNECT \<equiv> Kind 56"
abbreviation K_DOWNTO :: kind where "K_DOWNTO \<equiv> Kind 57"
abbreviation K_ELSE :: kind where "K_ELSE \<equiv> Kind 58"
abbreviation K_ELSIF :: kind where "K_ELSIF \<equiv> Kind 59"
abbreviation K_END :: kind where "K_END \<equiv> Kind 60"
abbreviation K_ENTITY :: kind where "K_ENTITY \<equiv> Kind 61"
abbreviation K_EXIT :: kind where "K_EXIT \<equiv> Kind 62"
abbreviation K_FILE :: kind where "K_FILE \<equiv> Kind 63"
abbreviation K_FOR :: kind where "K_FOR \<equiv> Kind 64"
abbreviation K_FUNCTION :: kind where "K_FUNCTION \<equiv> Kind 65"
abbreviation K_GENERATE :: kind where "K_GENERATE \<equiv> Kind 66"
abbreviation K_GENERIC :: kind where "K_GENERIC \<equiv> Kind 67"
abbreviation K_GROUP :: kind where "K_GROUP \<equiv> Kind 68"
abbreviation K_GUARDED :: kind where "K_GUARDED \<equiv> Kind 69"
abbreviation K_IF :: kind where "K_IF \<equiv> Kind 70"
abbreviation K_IMPURE :: kind where "K_IMPURE \<equiv> Kind 71"
abbreviation K_IN :: kind where "K_IN \<equiv> Kind 72"
abbreviation K_INERTIAL :: kind where "K_INERTIAL \<equiv> Kind 73"
abbreviation K_INOUT :: kind where "K_INOUT \<equiv> Kind 74"
abbreviation K_IS :: kind where "K_IS \<equiv> Kind 75"
abbreviation K_LABEL :: kind where "K_LABEL \<equiv> Kind 76"
abbreviation K_LIBRARY :: kind where "K_LIBRARY \<equiv> Kind 77"
abbreviation K_LINKAGE :: kind where "K_LINKAGE \<equiv> Kind 78"
abbreviation K_LITERAL :: kind where "K_LITERAL \<equiv> Kind 79"
abbreviation K_LOOP :: kind where "K_LOOP \<equiv> Kind 80"
abbreviation K_MAP :: kind where "K_MAP \<equiv> Kind 81"
abbreviation K_MOD :: kind where "K_MOD \<equiv> Kind 82"
abbreviation K_NAND :: kind where "K_NAND \<equiv> Kind 83"
abbreviation K_NEW :: kind where "K_NEW \<equiv> Kind 84"
abbreviation K_NEXT :: kind where "K_NEXT \<equiv> Kind 85"
abbreviation K_NOR :: kind where "K_NOR \<equiv> Kind 86"
abbreviation K_NOT :: kind where "K_NOT \<equiv> Kind 87"
abbreviation K_NULL :: kind where "K_NULL \<equiv> Kind 88"
abbreviation K_OF :: kind where "K_OF \<equiv> Kind 89"
abbreviation K_ON :: kind where "K_ON \<equiv> Kind 90"
abbreviation K_OPEN :: kind where "K_OPEN \<equiv> Kind 91"
abbreviation K_OR :: kind where "K_OR \<equiv> Kind 92"
abbreviation K_OTHERS :: kind where "K_OTHERS \<equiv> Kind 93"
abbreviation K_OUT :: kind where "K_OUT \<equiv> Kind 94"
abbreviation K_PACKAGE :: kind where "K_PACKAGE \<equiv> Kind 95"
abbreviation K_PORT :: kind where "K_PORT \<equiv> Kind 96"
abbreviation K_POSTPONED :: kind where "K_POSTPONED \<equiv> Kind 97"
abbreviation K_PROCEDURE :: kind where "K_PROCEDURE \<equiv> Kind 98"
abbreviation K_PROCESS :: kind where "K_PROCESS \<equiv> Kind 99"
abbreviation K_PURE :: kind where "K_PURE \<equiv> Kind 100"
abbreviation K_RANGE :: kind where "K_RANGE \<equiv> Kind 101"
abbreviation K_RECORD :: kind where "K_RECORD \<equiv> Kind 102"
abbreviation K_REGISTER :: kind where "K_REGISTER \<equiv> Kind 103"
abbreviation K_REJECT :: kind where "K_REJECT \<equiv> Kind 104"
abbreviation K_REM :: kind where "K_REM \<equiv> Kind 105"
abbreviation K_REPORT :: kind where "K_REPORT \<equiv> Kind 106"
abbreviation K_RETURN :: kind where "K_RETURN \<equiv> Kind 107"
abbreviation K_ROL :: kind where "K_ROL \<equiv> Kind 108"
abbreviation K_ROR :: kind where "K_ROR \<equiv> Kind 109"
abbreviation K_SELECT :: kind where "K_SELECT \<equiv> Kind 110"
abbreviation K_SEVERITY :: kind where "K_SEVERITY \<equiv> Kind 111"
abbreviation K_SHARED :: kind where "K_SHARED \<equiv> Kind 112"
abbreviation K_SIGNAL :: kind where "K_SIGNAL \<equiv> Kind 113"
abbreviation K_SLA :: kind where "K_SLA \<equiv> Kind 114"
abbreviation K_SLL :: kind where "K_SLL \<equiv> Kind 115"
abbreviation K_SRA :: kind where "K_SRA \<equiv> Kind 116"
abbreviation K_SRL :: kind where "K_SRL \<equiv> Kind 117"
abbreviation K_SUBTYPE :: kind where "K_SUBTYPE \<equiv> Kind 118"
abbreviation K_THEN :: kind where "K_THEN \<equiv> Kind 119"
abbreviation K_TO :: kind where "K_TO \<equiv> Kind 120"
abbreviation K_TRANSPORT :: kind where "K_TRANSPORT \<equiv> Kind 121"
abbreviation K_TYPE :: kind where "K_TYPE \<equiv> Kind 122"
abbreviation K_UNAFFECTED :: kind where "K_UNAFFECTED \<equiv> Kind 123"
abbreviation K_UNITS :: kind where "K_UNITS \<equiv> Kind 124"
abbreviation K_UNTIL :: kind where "K_UNTIL \<equiv> Kind 125"
abbreviation K_USE :: kind where "K_USE \<equiv> Kind 126"
abbreviation K_VARIABLE :: kind where "K_VARIABLE \<equiv> Kind 127"
abbreviation K_WAIT :: kind where "K_WAIT \<equiv> Kind 128"
abbreviation K_WHEN :: kind where "K_WHEN \<equiv> Kind 129"
abbreviation K_WHILE :: kind where "K_WHILE \<equiv> Kind 130"
abbreviation K_WITH :: kind where "K_WITH \<equiv> Kind 131"
abbreviation K_XNOR :: kind where "K_XNOR \<equiv> Kind 132"
abbreviation K_XOR :: kind where "K_XOR \<equiv> Kind 133"
abbreviation kwEnd :: kind where "kwEnd \<equiv> Kind 134"

text \<open>\<open>kindStr\<close>: the canonical text of each named kind.\<close>

definition kindStr :: "(kind \<times> string) list" where
  "kindStr = [
    (K_ILLEGAL, ''ILLEGAL''), (K_EOF, ''EOF''), (K_COMMENT, ''COMMENT''), (K_IDENT, ''IDENT''),
    (K_EXTIDENT, ''EXTIDENT''), (K_INT, ''INT''), (K_REAL, ''REAL''), (K_BASEDLIT, ''BASEDLIT''),
    (K_CHARLIT, ''CHARLIT''), (K_STRINGLIT, ''STRINGLIT''), (K_BITSTRINGLIT, ''BITSTRINGLIT''),
    (K_LPAREN, ''(''), (K_RPAREN, '')''), (K_LBRACKET, ''[''), (K_RBRACKET, '']''),
    (K_COMMA, '',''), (K_SEMICOLON, '';''), (K_COLON, '':''), (K_ASSIGN, '':=''),
    (K_ARROW, ''=>''), (K_LE, ''<=''), (K_GE, ''>=''), (K_NE, ''/=''), (K_LT, ''<''),
    (K_GT, ''>''), (K_EQ, ''=''), (K_PLUS, ''+''), (K_MINUS, ''-''), (K_STAR, ''*''),
    (K_SLASH, ''/''), (K_EXP, ''**''), (K_AMP, ''&''), (K_BAR, ''|''), (K_DOT, ''.''),
    (K_TICK, [CHR 0x27]), (K_BOX, ''<>''), (K_ABS, ''abs''), (K_ACCESS, ''access''),
    (K_AFTER, ''after''), (K_ALIAS, ''alias''), (K_ALL, ''all''), (K_AND, ''and''),
    (K_ARCHITECTURE, ''architecture''), (K_ARRAY, ''array''), (K_ASSERT, ''assert''),
    (K_ATTRIBUTE, ''attribute''), (K_BEGIN, ''begin''), (K_BLOCK, ''block''), (K_BODY, ''body''),
    (K_BUFFER, ''buffer''), (K_BUS, ''bus''), (K_CASE, ''case''), (K_COMPONENT, ''component''),
    (K_CONFIGURATION, ''configuration''), (K_CONSTANT, ''constant''),
    (K_DISCONNECT, ''disconnect''), (K_DOWNTO, ''downto''), (K_ELSE, ''else''),
    (K_ELSIF, ''elsif''), (K_END, ''end''), (K_ENTITY, ''entity''), (K_EXIT, ''exit''),
    (K_FILE, ''file''), (K_FOR, ''for''), (K_FUNCTION, ''function''), (K_GENERATE, ''generate''),
    (K_GENERIC, ''generic''), (K_GROUP, ''group''), (K_GUARDED, ''guarded''), (K_IF, ''if''),
    (K_IMPURE, ''impure''), (K_IN, ''in''), (K_INERTIAL, ''inertial''), (K_INOUT, ''inout''),
    (K_IS, ''is''), (K_LABEL, ''label''), (K_LIBRARY, ''library''), (K_LINKAGE, ''linkage''),
    (K_LITERAL, ''literal''), (K_LOOP, ''loop''), (K_MAP, ''map''), (K_MOD, ''mod''),
    (K_NAND, ''nand''), (K_NEW, ''new''), (K_NEXT, ''next''), (K_NOR, ''nor''), (K_NOT, ''not''),
    (K_NULL, ''null''), (K_OF, ''of''), (K_ON, ''on''), (K_OPEN, ''open''), (K_OR, ''or''),
    (K_OTHERS, ''others''), (K_OUT, ''out''), (K_PACKAGE, ''package''), (K_PORT, ''port''),
    (K_POSTPONED, ''postponed''), (K_PROCEDURE, ''procedure''), (K_PROCESS, ''process''),
    (K_PURE, ''pure''), (K_RANGE, ''range''), (K_RECORD, ''record''), (K_REGISTER, ''register''),
    (K_REJECT, ''reject''), (K_REM, ''rem''), (K_REPORT, ''report''), (K_RETURN, ''return''),
    (K_ROL, ''rol''), (K_ROR, ''ror''), (K_SELECT, ''select''), (K_SEVERITY, ''severity''),
    (K_SHARED, ''shared''), (K_SIGNAL, ''signal''), (K_SLA, ''sla''), (K_SLL, ''sll''),
    (K_SRA, ''sra''), (K_SRL, ''srl''), (K_SUBTYPE, ''subtype''), (K_THEN, ''then''),
    (K_TO, ''to''), (K_TRANSPORT, ''transport''), (K_TYPE, ''type''),
    (K_UNAFFECTED, ''unaffected''), (K_UNITS, ''units''), (K_UNTIL, ''until''), (K_USE, ''use''),
    (K_VARIABLE, ''variable''), (K_WAIT, ''wait''), (K_WHEN, ''when''), (K_WHILE, ''while''),
    (K_WITH, ''with''), (K_XNOR, ''xnor''), (K_XOR, ''xor'')]"

text \<open>\<open>Kind.String\<close>: kinds without a name print as \<open>Kind(n)\<close>.\<close>

definition kind_string :: "kind \<Rightarrow> string" where
  "kind_string k = (case map_of kindStr k of Some s \<Rightarrow> s
     | None \<Rightarrow> ''Kind('' @ itoa (int (kind_num k)) @ '')'')"

definition is_keyword :: "kind \<Rightarrow> bool" where
  "is_keyword k \<longleftrightarrow> kind_num kwStart < kind_num k \<and> kind_num k < kind_num kwEnd"

text \<open>
  The table \<open>keywords\<close>, filled by the loop \<open>for k := kwStart + 1; k < kwEnd; k++\<close>. A later
  assignment to the same key would win in the Go map; the texts are distinct
  (\<open>distinct_keyword_texts\<close>), so the order of the list does not matter.
\<close>

definition keyword_kinds :: "kind list" where
  "keyword_kinds = map Kind [Suc (kind_num kwStart)..<kind_num kwEnd]"

definition keyword_table :: "(string \<times> kind) list" where
  "keyword_table = map (\<lambda>k. (case map_of kindStr k of Some s \<Rightarrow> s | None \<Rightarrow> [], k)) keyword_kinds"

definition has_upper :: "string \<Rightarrow> bool" where
  "has_upper s \<longleftrightarrow> list_ex is_upper s"

definition lower :: "string \<Rightarrow> string" where
  "lower s = map (\<lambda>c. if is_upper c then char_of (char_code c + 32) else c) s"

definition LookupKeyword :: "string \<Rightarrow> kind option" where
  "LookupKeyword s = (if \<not> has_upper s then map_of keyword_table s else map_of keyword_table (lower s))"

lemma lower_eq_to_lower: "lower s = to_lower s"
  by (simp add: lower_def to_lower_def to_lower_char_def)

lemma lower_no_upper: "\<not> has_upper s \<Longrightarrow> lower s = s"
  by (induction s) (auto simp: lower_def has_upper_def)

text \<open>The fast path changes nothing: lookup is always lookup of the lowered text.\<close>

lemma LookupKeyword_lower: "LookupKeyword s = map_of keyword_table (to_lower s)"
  by (auto simp: LookupKeyword_def lower_eq_to_lower lower_no_upper [unfolded lower_eq_to_lower])

text \<open>
  Facts read off the table: its kinds are numbered consecutively, and the keyword texts are
  lower case and stand in alphabetical order, hence are distinct.
\<close>

lemma kindStr_kinds: "map fst kindStr = map Kind ([0..<36] @ [37..<134])"
  by (simp add: kindStr_def upt_conv_Cons)

lemma kindStr_keywords: "map fst (drop 36 kindStr) = keyword_kinds"
  by (simp add: kindStr_def keyword_kinds_def)

lemma keyword_no_upper: "list_all (\<lambda>p. \<not> has_upper (snd p)) (drop 36 kindStr)"
  by (simp add: kindStr_def has_upper_def is_upper_def char_code_def)

lemma keyword_texts_sorted: "successively (<) (map snd (drop 36 kindStr))"
  by (simp add: kindStr_def less_char_def)

lemma map_of_kindStr: "p \<in> set kindStr \<Longrightarrow> map_of kindStr (fst p) = Some (snd p)"
proof -
  have "inj Kind" by (auto intro: injI)
  moreover have "distinct ([0..<36] @ [37..<134])" by (simp del: upt_rec_numeral)
  ultimately have "distinct (map fst kindStr)"
    unfolding kindStr_kinds by (meson distinct_map inj_on_subset subset_UNIV)
  then show "p \<in> set kindStr \<Longrightarrow> map_of kindStr (fst p) = Some (snd p)" by simp
qed

lemma keyword_table_eval: "keyword_table = map (\<lambda>p. (snd p, fst p)) (drop 36 kindStr)"
proof -
  have "map_of kindStr (fst p) = Some (snd p)" if "p \<in> set (drop 36 kindStr)" for p
    using that by (auto intro: map_of_kindStr dest: in_set_dropD)
  then show ?thesis
    by (simp add: keyword_table_def o_def flip: kindStr_keywords)
qed

lemma distinct_keyword_texts: "distinct (map fst keyword_table)"
proof -
  have "sorted_wrt (<) (map snd (drop 36 kindStr))"
    using keyword_texts_sorted by (simp add: successively_conv_sorted_wrt)
  then show ?thesis
    by (simp add: keyword_table_eval o_def strict_sorted_iff)
qed

lemma set_keyword_kinds: "k \<in> set keyword_kinds \<longleftrightarrow> is_keyword k"
  by (cases k) (simp add: keyword_kinds_def is_keyword_def image_iff Suc_le_eq
      del: upt_rec_numeral upt.simps Suc_numeral)

lemma keyword_entry:
  "is_keyword k \<Longrightarrow> (k, kind_string k) \<in> set (drop 36 kindStr)"
proof -
  assume "is_keyword k"
  then have "k \<in> fst ` set (drop 36 kindStr)"
    unfolding set_map [symmetric] kindStr_keywords by (simp add: set_keyword_kinds)
  then obtain s where ks: "(k, s) \<in> set (drop 36 kindStr)" by auto
  then have "kind_string k = s"
    using map_of_kindStr [of "(k, s)"] by (simp add: kind_string_def in_set_dropD)
  with ks show ?thesis by simp
qed

lemma keyword_texts_lower: "is_keyword k \<Longrightarrow> to_lower (kind_string k) = kind_string k"
  using keyword_no_upper keyword_entry [of k]
  by (auto simp: list_all_iff lower_no_upper simp flip: lower_eq_to_lower)

lemma LookupKeyword_kind_string:
  assumes "is_keyword k"
  shows "LookupKeyword (kind_string k) = Some k"
proof -
  have "(kind_string k, k) \<in> set keyword_table"
    using keyword_entry [OF assms] by (force simp: keyword_table_eval)
  then show ?thesis
    using assms distinct_keyword_texts
    by (simp add: LookupKeyword_lower keyword_texts_lower)
qed

lemma LookupKeyword_SomeD:
  assumes "LookupKeyword s = Some k"
  shows "is_keyword k \<and> kind_string k = to_lower s"
proof -
  have "(to_lower s, k) \<in> set keyword_table"
    using assms by (auto simp: LookupKeyword_lower dest: map_of_SomeD)
  then have e: "(k, to_lower s) \<in> set (drop 36 kindStr)" by (auto simp: keyword_table_eval)
  then have "k \<in> set keyword_kinds" by (force simp flip: kindStr_keywords)
  moreover have "kind_string k = to_lower s"
    using map_of_kindStr [of "(k, to_lower s)"] e by (simp add: kind_string_def in_set_dropD)
  ultimately show ?thesis by (simp add: set_keyword_kinds)
qed

section \<open>Tokens and positions\<close>

text \<open>A \<open>Token\<close>: kind, literal text and position.\<close>

record token =
  tok_kind :: kind
  tok_lit :: string
  tok_pos :: int

text \<open>A \<open>Position\<close> and a \<open>File\<close>; \<open>lines\<close> holds the offset of the start of each line.\<close>

record position =
  pos_filename :: string
  pos_offset :: int
  pos_line :: int
  pos_column :: int

record src_file =
  file_name :: string
  file_base :: int
  file_size :: int
  file_lines :: "int list"

definition AddLine :: "src_file \<Rightarrow> int \<Rightarrow> src_file" where
  "AddLine f offset = f\<lparr>file_lines := file_lines f @ [offset]\<rparr>"

definition file_Pos :: "src_file \<Rightarrow> int \<Rightarrow> int" where
  "file_Pos f offset = file_base f + offset"

text \<open>
  \<open>sort.Search(n, p)\<close>: the binary search of the standard library, for the least index in
  \<open>[i, j)\<close> that satisfies \<open>p\<close>.
\<close>

function search_loop :: "(nat \<Rightarrow> bool) \<Rightarrow> nat \<Rightarrow> nat \<Rightarrow> nat" where
  "search_loop p i j =
     (if i < j then
        let h = (i + j) div 2 in if \<not> p h then search_loop p (Suc h) j else search_loop p i h
      else i)"
  by pat_completeness auto
termination
  by (relation "measure (\<lambda>(p, i, j). j - i)") auto

declare search_loop.simps [simp del]

definition file_Position :: "src_file \<Rightarrow> int \<Rightarrow> position" where
  "file_Position f p =
     (let off = p - file_base f;
          n = search_loop (\<lambda>i. file_lines f ! i > off) 0 (length (file_lines f));
          i = (if n = 0 then 0 else n - 1)
      in \<lparr>pos_filename = file_name f, pos_offset = off, pos_line = int i + 1,
          pos_column = off - file_lines f ! i + 1\<rparr>)"

record file_set =
  fset_base :: int
  fset_files :: "src_file list"

definition NewFileSet :: file_set where
  "NewFileSet = \<lparr>fset_base = 1, fset_files = []\<rparr>"

definition AddFile :: "file_set \<Rightarrow> string \<Rightarrow> nat \<Rightarrow> src_file \<times> file_set" where
  "AddFile s name sz =
     (let f = \<lparr>file_name = name, file_base = fset_base s, file_size = int sz, file_lines = [0]\<rparr>
      in (f, \<lparr>fset_base = fset_base s + int sz + 1, fset_files = fset_files s @ [f]\<rparr>))"

definition fset_Position :: "file_set \<Rightarrow> int \<Rightarrow> position" where
  "fset_Position s p =
     (case List.find (\<lambda>f. file_base f \<le> p \<and> p \<le> file_base f + file_size f) (fset_files s) of
        Some f \<Rightarrow> file_Position f p
      | None \<Rightarrow> \<lparr>pos_filename = [], pos_offset = 0, pos_line = 0, pos_column = 0\<rparr>)"

text \<open>The binary search finds the boundary of a monotone predicate.\<close>

lemma search_loop_range:
  "i \<le> j \<Longrightarrow> i \<le> search_loop p i j \<and> search_loop p i j \<le> j"
proof (induction p i j rule: search_loop.induct)
  case (1 p i j)
  let ?h = "(i + j) div 2"
  show ?case
  proof (cases "i < j")
    case True
    then have h: "i \<le> ?h" "Suc ?h \<le> j" by auto
    show ?thesis
    proof (cases "p ?h")
      case True
      with h \<open>i < j\<close> "1.IH"(2) show ?thesis
        by (subst (1 2) search_loop.simps) (fastforce simp: Let_def)
    next
      case False
      with h \<open>i < j\<close> "1.IH"(1) show ?thesis
        by (subst (1 2) search_loop.simps) (fastforce simp: Let_def)
    qed
  next
    case False
    with "1.prems" show ?thesis by (subst (1 2) search_loop.simps) simp
  qed
qed

lemma search_loop_boundary:
  assumes "\<And>a b. a \<le> b \<Longrightarrow> b < j \<Longrightarrow> p a \<Longrightarrow> p b" and "i \<le> j"
  shows "(\<forall>k. i \<le> k \<and> k < search_loop p i j \<longrightarrow> \<not> p k) \<and>
         (\<forall>k. search_loop p i j \<le> k \<and> k < j \<longrightarrow> p k)"
  using assms
proof (induction p i j rule: search_loop.induct)
  case (1 p i j)
  let ?h = "(i + j) div 2"
  show ?case
  proof (cases "i < j")
    case True
    then have h: "i \<le> ?h" "Suc ?h \<le> j" by auto
    show ?thesis
    proof (cases "p ?h")
      case True
      have eq: "search_loop p i j = search_loop p i ?h"
        using True \<open>i < j\<close> by (subst search_loop.simps) (simp add: Let_def)
      have up: "p k" if "?h \<le> k" "k < j" for k
        using "1.prems"(1) [of ?h k] True that by simp
      have *: "(\<forall>k. i \<le> k \<and> k < search_loop p i ?h \<longrightarrow> \<not> p k) \<and>
            (\<forall>k. search_loop p i ?h \<le> k \<and> k < ?h \<longrightarrow> p k)"
      proof (rule "1.IH"(2) [OF \<open>i < j\<close> refl])
        show "\<not> \<not> p ?h" using True by simp
        show "p b" if "a \<le> b" "b < ?h" "p a" for a b
          using "1.prems"(1) [of a b] that h by simp
      qed (use h in simp)
      then have "p k" if "search_loop p i ?h \<le> k" "k < j" for k
        using that up [of k] by (cases "k < ?h") auto
      with * show ?thesis unfolding eq by blast
    next
      case False
      have eq: "search_loop p i j = search_loop p (Suc ?h) j"
        using False \<open>i < j\<close> by (subst search_loop.simps) (simp add: Let_def)
      have low: "\<not> p k" if "k \<le> ?h" for k
        using "1.prems"(1) [of k ?h] False that h by auto
      have *: "(\<forall>k. Suc ?h \<le> k \<and> k < search_loop p (Suc ?h) j \<longrightarrow> \<not> p k) \<and>
            (\<forall>k. search_loop p (Suc ?h) j \<le> k \<and> k < j \<longrightarrow> p k)"
        using "1.IH"(1) [OF \<open>i < j\<close> refl False] "1.prems"(1) h by blast
      from * have "\<not> p k" if "k < search_loop p (Suc ?h) j" for k
        using that low [of k] by (cases "k \<le> ?h") auto
      with * show ?thesis unfolding eq by blast
    qed
  next
    case False
    with "1.prems" show ?thesis by (subst (1 2) search_loop.simps) auto
  qed
qed

end
