(* ===== verification/Vhdl_Ast.thy ===== *)
theory Vhdl_Ast
  imports Vhdl_Token
begin

text \<open>
  Model of \<open>src/tools/socgen/vhdl/ast.go\<close>: the syntax tree of VHDL design files. One
  datatype constructor per Go node type, with the fields in the order of the struct.

  \<^item> Source positions (the fields of type \<open>Pos\<close> and the methods \<open>Pos\<close> and \<open>End\<close>) are erased,
    as \<open>equalAST\<close> of \<open>printer.go\<close> erases them: equality of the model is the code's own
    equality of trees.
  \<^item> A nil slice and an empty slice are both \<open>[]\<close>, again as in \<open>equalAST\<close>; a nil interface or
    pointer is \<open>None\<close>.
  \<^item> A \<open>UnitKind\<close> or \<open>Scheme\<close> of 0 (no kind) is \<open>Kind 0\<close>, the zero value of \<open>Kind\<close>.
\<close>

section \<open>Expressions\<close>

datatype expr =
    PhysicalLit string string
  | BasicLit kind string
  | Ident string
  | RangeE expr kind expr
  | BinaryExpr expr kind expr
  | UnaryExpr kind expr
  | CallExpr expr "assoc_element list"
  | SelectorExpr expr string
  | AttributeName expr string
  | ParenExpr expr
  | Aggregate "element_assoc list"
  | QualifiedExpr expr expr
  | RangeConstraint expr expr
  | AllocatorExpr expr
and assoc_element = AssocElement (ae_formal: string) (ae_actual: expr)
and element_assoc = ElementAssoc (ea_choices: "expr list") (ea_x: expr)

section \<open>Interfaces, types and auxiliary nodes\<close>

record interface_decl =
  id_obj_class :: string
  id_names :: "string list"
  id_mode :: string
  id_subtype_mark :: string
  id_constraint :: "expr option"
  id_default :: "expr option"

record record_field =
  rf_names :: "string list"
  rf_subtype_mark :: string
  rf_constraint :: "expr option"

datatype type_def =
    EnumDef "string list"
  | RecordDef "record_field list"
  | ArrayDef string
  | FileTypeDef string
  | AccessDef string

record signature =
  sg_types :: "string list"
  sg_return :: string

record waveform_elem =
  we_value :: expr
  we_after :: "expr option"

record cond_waveform =
  cw_waveform :: "waveform_elem list"
  cw_cond :: "expr option"

record selected_waveform =
  sw_waveform :: "waveform_elem list"
  sw_choices :: "expr list"

record delay_mechanism =
  dm_transport :: bool
  dm_reject :: "expr option"

record binding_indication =
  bi_unit_kind :: kind
  bi_unit :: string
  bi_arch :: string
  bi_generic_map :: "assoc_element list"
  bi_port_map :: "assoc_element list"

section \<open>Statements and declarations\<close>

text \<open>
  Concurrent and sequential statements are one Go interface \<open>Stmt\<close>; declarations and
  statements are mutually recursive through subprogram bodies, processes and generates.
\<close>

datatype stmt =
    Comment string
  | ConcurrentSignalAssign string expr "delay_mechanism option" "waveform_elem list" "cond_waveform list"
  | SelectedSignalAssign string expr expr "delay_mechanism option" "selected_waveform list"
  | InstantiationStmt string kind string string "assoc_element list" "assoc_element list" bool
  | ProcedureCallStmt string string "assoc_element list"
  | GenerateStmt string kind string "expr option" "expr option" "decl list" "stmt list"
  | ProcessStmt string bool "expr list" "decl list" "stmt list"
  | SignalAssignStmt string expr "delay_mechanism option" "waveform_elem list"
  | VariableAssignStmt string expr expr
  | NullStmt string
  | IfStmt string expr "stmt list" "elsif_clause list" "stmt list"
  | CaseStmt string expr "case_alt list"
  | LoopStmt string kind string "expr option" "expr option" "stmt list"
  | NextStmt string string "expr option"
  | ExitStmt string string "expr option"
  | ReturnStmt string "expr option"
  | AssertStmt string expr "expr option" "expr option"
  | ReportStmt string expr "expr option"
  | WaitStmt string "expr list" "expr option" "expr option"
and elsif_clause = ElsifClause (ec_cond: expr) (ec_stmts: "stmt list")
and case_alt = CaseAlt (ca_choices: "expr list") (ca_stmts: "stmt list")
and decl =
    DComment string
  | UseDecl "string list"
  | ConstantDecl "string list" string "expr option" "expr option"
  | SignalDecl "string list" string "expr option" "expr option"
  | VariableDecl bool "string list" string "expr option" "expr option"
  | SubtypeDecl string string "expr option"
  | TypeDecl string "type_def option"
  | ComponentDecl string "interface_decl list" "interface_decl list"
  | SubprogramDecl bool bool bool string "interface_decl list" string
  | SubprogramBody bool bool bool string "interface_decl list" string "decl list" "stmt list"
  | AttributeDecl string string
  | AttributeSpec string "string list" kind expr
  | AliasDecl string string "expr option" expr "signature option"
  | GroupTemplateDecl string "string list"
  | GroupDecl string string "string list"
  | ConfigSpec "string list" string "binding_indication option"
  | FileDecl "string list" string string "expr option" "expr option"

section \<open>Configurations and design units\<close>

text \<open>
  A use clause inside a configuration is the list of its names. The items of a block configuration are
  the two node types that its \<open>Items\<close> hold.
\<close>

datatype block_config = BlockConfig string "string list list" "config_item list"
and config_item =
    CfgBlock block_config
  | CfgComponent "string list" string "binding_indication option" "block_config option"

datatype context_item =
    LibraryClause "string list"
  | UseClause "string list"

datatype design_unit =
    PackageDecl string "decl list"
  | PackageBody string "decl list"
  | EntityDecl string "interface_decl list" "interface_decl list" "decl list" "stmt list"
  | ArchitectureBody string string "decl list" "stmt list"
  | ConfigurationDecl string string "string list list" "block_config option"

record design_file =
  df_context :: "context_item list"
  df_units :: "design_unit list"

end
