(* ===== verification/Iface_Model.thy ===== *)
theory Iface_Model
  imports Vhdl_Ast
begin

text \<open>
  Model of \<open>src/tools/socgen/iface/model.go\<close>: the interface library extracted from the parsed
  VHDL, and its lookups, all of which are case-insensitive (\<open>lower\<close>). Syntax-tree nodes that
  the lookups only carry along are left out of \<open>Architecture\<close> and \<open>Configuration\<close>.
\<close>

record type_ref =
  tr_mark :: string
  tr_constraint :: "expr option"

record peripheral_bus =
  pb_name :: string
  pb_ports :: "string list"

record if_port =
  ip_name :: string
  ip_dir :: string
  ip_type :: type_ref
  ip_global_name :: string
  ip_local_name :: string
  ip_irq :: bool

record if_generic =
  ig_name :: string
  ig_type :: type_ref
  ig_default :: "expr option"

record entity =
  en_name :: string
  en_generics :: "if_generic list"
  en_ports :: "if_port list"
  en_peripheral_buses :: "peripheral_bus list"
  en_uses :: "string list"

record architecture =
  ar_name :: string
  ar_entity :: string

record configuration =
  cf_name :: string
  cf_entity :: string
  cf_arch :: string

record type_entry =
  ty_name :: string
  ty_node :: decl

record if_constant =
  co_name :: string
  co_type :: type_ref
  co_value :: "expr option"

record if_component =
  cm_name :: string
  cm_generics :: "if_generic list"
  cm_ports :: "if_port list"

record package =
  pk_name :: string
  pk_constants :: "if_constant list"
  pk_types :: "type_entry list"
  pk_components :: "if_component list"

record symbol =
  sy_package :: string
  sy_kind :: string

record library =
  lib_entities :: "entity strmap"
  lib_packages :: "package strmap"
  lib_architectures :: "architecture list strmap"
  lib_configurations :: "configuration strmap"
  lib_index :: "symbol strmap"

definition Entity :: "library \<Rightarrow> string \<Rightarrow> entity option" where
  "Entity l name = map_of (lib_entities l) (to_lower name)"

definition ArchitecturesOf :: "library \<Rightarrow> string \<Rightarrow> architecture list" where
  "ArchitecturesOf l name =
     (case map_of (lib_architectures l) (to_lower name) of Some as \<Rightarrow> as | None \<Rightarrow> [])"

definition Package :: "library \<Rightarrow> string \<Rightarrow> package option" where
  "Package l name = map_of (lib_packages l) (to_lower name)"

text \<open>
  \<open>ResolveType\<close>. The code dereferences the package the index names; the index is built from
  the packages, so that package exists (a missing one would panic, \<open>None\<close> here).
\<close>

definition ResolveType :: "library \<Rightarrow> string \<Rightarrow> type_entry option" where
  "ResolveType l name =
     (case map_of (lib_index l) (to_lower name) of
        None \<Rightarrow> None
      | Some s \<Rightarrow>
          if sy_kind s \<noteq> ''type'' \<and> sy_kind s \<noteq> ''subtype'' then None
          else (case map_of (lib_packages l) (to_lower (sy_package s)) of
                  None \<Rightarrow> None
                | Some pkg \<Rightarrow>
                    List.find (\<lambda>te. to_lower (ty_name te) = to_lower name) (pk_types pkg)))"

definition TypePackage :: "library \<Rightarrow> string \<Rightarrow> string option" where
  "TypePackage l name =
     (case map_of (lib_index l) (to_lower name) of
        None \<Rightarrow> None
      | Some s \<Rightarrow>
          if sy_kind s \<noteq> ''type'' \<and> sy_kind s \<noteq> ''subtype'' then None else Some (sy_package s))"

definition TypePackages :: "library \<Rightarrow> string \<Rightarrow> string list" where
  "TypePackages l name =
     sort (map pk_name
       (filter (\<lambda>p. list_ex (\<lambda>te. to_lower (ty_name te) = to_lower name) (pk_types p))
         (map snd (lib_packages l))))"

definition Configuration :: "library \<Rightarrow> string \<Rightarrow> configuration option" where
  "Configuration l name = map_of (lib_configurations l) (to_lower name)"

definition IsConstant :: "library option \<Rightarrow> string \<Rightarrow> bool" where
  "IsConstant lo name =
     (case lo of None \<Rightarrow> False
      | Some l \<Rightarrow> (case map_of (lib_index l) (to_lower name) of
                    None \<Rightarrow> False | Some s \<Rightarrow> sy_kind s = ''constant''))"

definition ConstantPackage :: "library option \<Rightarrow> string \<Rightarrow> string" where
  "ConstantPackage lo name =
     (case lo of None \<Rightarrow> []
      | Some l \<Rightarrow> (case map_of (lib_index l) (to_lower name) of
                    None \<Rightarrow> []
                  | Some s \<Rightarrow> if sy_kind s \<noteq> ''constant'' then [] else sy_package s))"

text \<open>The result does not depend on the order in which Go ranges over the packages.\<close>

lemma TypePackages_perm:
  assumes "mset (lib_packages l) = mset (lib_packages l')"
  shows "TypePackages l name = TypePackages l' name"
  using assms unfolding TypePackages_def
  by (intro sort_eq_of_mset) (simp add: mset_map mset_filter)

end
