(* ===== verification/Elab_Model.thy ===== *)
theory Elab_Model
  imports Design_Model Iface_Model
begin

text \<open>
  Model of \<open>src/tools/socgen/elaborate/model.go\<close>: the resolved SoC that elaboration builds.
  Pointers to structs that the code mutates in place are values here; the operations return
  the updated structure.
\<close>

record resolved_type =
  rt_mark :: string
  rt_constraint :: "expr option"
  rt_left :: "int option"
  rt_right :: "int option"
  rt_dir :: string

datatype port_kind = KindSignal | KindValue | KindIRQ | KindDataBus | KindDeferred

abbreviation dirIn :: string where "dirIn \<equiv> ''in''"
abbreviation dirOut :: string where "dirOut \<equiv> ''out''"
abbreviation dirInout :: string where "dirInout \<equiv> ''inout''"
abbreviation dirBuffer :: string where "dirBuffer \<equiv> ''buffer''"
abbreviation ctxKindPin :: string where "ctxKindPin \<equiv> ''pin''"
abbreviation dirDownto :: string where "dirDownto \<equiv> ''downto''"

record resolved_port =
  rp_name :: string
  rp_dir :: string
  rp_type :: "resolved_type option"
  rp_kind :: port_kind
  rp_global_signal :: string
  rp_value :: "go_value option"

record resolved_reg =
  rr_name :: string
  rr_addr :: int
  rr_width :: int
  rr_byte_range :: "int \<times> int"
  rr_mode :: string
  rr_type :: string

record resolved_class =
  rc_name :: string
  rc_entity :: "entity option"
  rc_arch_name :: string
  rc_config :: "configuration option"
  rc_regs :: "resolved_reg list"
  rc_left_addr_bit :: int
  rc_reg_range :: "int \<times> int"
  rc_generics :: "go_value strmap"

record resolved_device =
  rd_name :: string
  rd_class :: string
  rd_generics :: "go_value strmap"
  rd_base_addr :: "u64 option"
  rd_ports :: "resolved_port list"
  rd_data_bus :: bool
  rd_generic_types :: "resolved_type strmap"

record resolved_entity =
  re_name :: string
  re_entity :: "entity option"
  re_arch_name :: string
  re_config :: "configuration option"
  re_ports :: "resolved_port list"
  re_generics :: "go_value strmap"

datatype buffer_kind =
    BufDirect | BufIBUF | BufOBUF | BufOBUFT | BufIOBUF | BufIBUFDS | BufOBUFDS | BufEntity

record resolved_pin =
  rpin_net :: string
  rpin_pad :: string
  rpin_signal :: string
  rpin_in :: string
  rpin_out :: string
  rpin_out_en :: string
  rpin_out_const :: string
  rpin_out_invert :: bool
  rpin_diff :: string
  rpin_buffer_kind :: buffer_kind
  rpin_pad_dir :: string
  rpin_attrs :: "go_value strmap"

record ctx =
  ctx_kind :: string
  ctx_id :: string

record signal_port_ref =
  spr_context :: ctx
  spr_port_name :: string
  spr_dir :: string
  spr_type :: "resolved_type option"
  spr_element :: string
  spr_diff :: string

record signal =
  sig_name :: string
  sig_type :: "resolved_type option"
  sig_ports :: "signal_port_ref list"

type_synonym netlist = "signal strmap"

record mux_stage =
  mx_label :: string
  mx_entity :: string
  mx_in1 :: string
  mx_in2 :: string
  mx_out :: string

record peripheral_bus_model =
  pbm_master_bus :: string
  pbm_connected :: "string list"
  pbm_disconnected :: "string list"
  pbm_mux_stages :: "mux_stage list"
  pbm_decode_mode :: string

record port_loc =
  pl_name :: string
  pl_dir :: string

record signal_locations =
  sl_padring_top :: "port_loc list"
  sl_top_devices :: "port_loc list"
  sl_padring :: "string list"
  sl_top :: "string list"
  sl_devices :: "string list"
  sl_top_extra :: "string strmap"
  sl_devices_extra :: "string strmap"

record pio_bit =
  pb_idx :: int
  pb_const :: "int option"
  pb_bit_name :: string

record irq_signal =
  is_name :: string
  is_width :: int

record irq_or_assign =
  io_target :: string
  io_sources :: "string list"

record irq_model =
  im_signals :: "irq_signal list"
  im_or_assigns :: "irq_or_assign list"
  im_port_overrides :: "string strmap strmap"
  im_vector_numbers :: "int list strmap"

record resolution =
  res_classes :: "resolved_class strmap"
  res_devices :: "resolved_device list"
  res_top_entities :: "resolved_entity strmap"
  res_padring_entities :: "resolved_entity strmap"
  res_signals :: netlist
  res_pins :: "resolved_pin list"
  res_entity_bound_pads :: "string list"
  res_data_bus :: "peripheral_bus_model option"

text \<open>\<open>lc\<close> of \<open>class.go\<close>: lower case of the trimmed text.\<close>

definition lc :: "string \<Rightarrow> string" where
  "lc s = to_lower (trim_space s)"

lemma lc_idem [simp]: "lc (lc s) = lc s"
  by (simp add: lc_def trim_space_to_lower)

definition class_of :: "resolution \<Rightarrow> resolved_device \<Rightarrow> resolved_class option" where
  "class_of res dev = map_of (res_classes res) (lc (rd_class dev))"

end
