(* ===== verification/Elab_Cpu.thy ===== *)
theory Elab_Cpu
  imports Elab_Model
begin

text \<open>
  Model of \<open>src/tools/socgen/elaborate/cpumap.go\<close> and \<open>variants.go\<close>: the tables that turn a CPU
  model, decoder and multiplier into a configuration, its generics and its source files, and a core
  count and cache level into a memory multiplexer. The contents of \<open>variants.toml\<close>, decoded by a
  TOML library, are a parameter: the decoder's error or the table it read, in the order in which Go
  visits it.
\<close>

section \<open>The variant table\<close>

record cpu_variant =
  cv_generics :: "string strmap"
  cv_overlay :: string
  cv_extra_files :: "string list"
  cv_config_file :: string

type_synonym toml_table = "string + cpu_variant strmap"

datatype cpu_error =
    ErrVariantTable string
  | ErrMmuArch string
  | ErrNoConfigFile string
  | ErrUndefinedModel string
  | ErrCpuCombination string string string
  | ErrFpgaCombination string string string
  | ErrRamMux int string

text \<open>The checks of \<open>loadVariants\<close>, in the order of the table: the first failure.\<close>

fun checkVariants :: "cpu_variant strmap \<Rightarrow> cpu_error option" where
  "checkVariants [] = None"
| "checkVariants ((name, v) # vs) =
     (if map_of (cv_generics v) ''MMU_ARCH'' \<noteq> None then Some (ErrMmuArch name)
      else if cv_config_file v = [] then Some (ErrNoConfigFile name)
      else checkVariants vs)"

definition loadVariants :: "toml_table \<Rightarrow> cpu_error + cpu_variant strmap" where
  "loadVariants tt =
     (case tt of
        Inl e \<Rightarrow> Inl (ErrVariantTable e)
      | Inr parsed \<Rightarrow> (case checkVariants parsed of Some e \<Rightarrow> Inl e | None \<Rightarrow> Inr parsed))"

definition variantFor :: "toml_table \<Rightarrow> string \<Rightarrow> cpu_error + cpu_variant" where
  "variantFor tt model =
     (case loadVariants tt of
        Inl e \<Rightarrow> Inl e
      | Inr vs \<Rightarrow> (case map_of vs model of None \<Rightarrow> Inl (ErrUndefinedModel model) | Some v \<Rightarrow> Inr v))"

section \<open>Generated decoder files\<close>

definition CPUsConfigName :: string where "CPUsConfigName = ''soc_cpus_config''"
definition defaultCPUROMWidth :: string where "defaultCPUROMWidth = ''72''"

definition decodeGenDir :: "string \<Rightarrow> string" where
  "decodeGenDir model = ''gen/'' @ model @ ''-w'' @ defaultCPUROMWidth @ ''/decode''"

definition decodeGenFiles :: "string \<Rightarrow> string list" where
  "decodeGenFiles model =
     (let dir = decodeGenDir model
      in [dir @ ''/decode_pkg.vhd'', dir @ ''/decode.vhd'', dir @ ''/decode_body.vhd''])"

definition decodeTableFile :: "string \<Rightarrow> string \<Rightarrow> string" where
  "decodeTableFile model kd = decodeGenDir model @ ''/decode_table_'' @ kd @ ''.vhd''"

section \<open>The soc-side tables\<close>

type_synonym synth_table = "((string \<times> string \<times> string) \<times> (string \<times> string list)) list"

definition cpuSynth :: synth_table where
  "cpuSynth =
     [((''j2'', ''direct'', []), (''cpu_synth_direct'',
         [''decode/decode_table_direct_config.vhd'', ''synth/cpu_synth_config.vhd''])),
      ((''j1'', ''rom'', []), (''cpu_synth_j1'',
         [''core/register_file_ebr.vhd'', ''core/mult_seq.vhd'', ''core/shifter_seq.vhd'',
          ''decode/decode_table_rom_config.vhd'', ''synth/cpu_synth_j1_config.vhd''])),
      ((''j1'', ''rom'', ''dsp''), (''cpu_synth_j1_dsp'',
         [''core/register_file_ebr.vhd'', ''core/mult_ice40dsp.vhd'', ''core/dsp_arith.vhd'',
          ''core/shifter_seq.vhd'', ''decode/decode_table_rom_config.vhd'', ''synth/cpu_synth_j1_dsp_config.vhd''])),
      ((''j4'', ''direct'', []), (''cpu_synth_j4'',
         [''decode/decode_table_direct_config.vhd'', ''synth/cpu_synth_j4_config.vhd''])),
      ((''j4'', ''rom'', []), (''cpu_synth_j4_rom'',
         [''decode/decode_table_rom_config.vhd'', ''synth/cpu_synth_j4_rom_config.vhd'']))]"

definition cpuSynthFPGAOpt :: synth_table where
  "cpuSynthFPGAOpt =
     [((''j4'', ''rom'', []), (''cpu_synth_j4_rom_ebr'',
         [''core/register_file_ebr.vhd'', ''synth/cpu_synth_j4_rom_ebr_config.vhd'']))]"

definition ramMux :: "((int \<times> string) \<times> (string \<times> string list)) list" where
  "ramMux =
     [((1, ''none''), (''ddr_ram_mux_one_cpu_direct_fpga'', [''ddr_ram_mux/one_cpu_direct.vhd''])),
      ((1, ''i''), (''ddr_ram_mux_one_cpu_icache_fpga'',
         [''ddr_ram_mux/one_cpu_icache.vhd'', ''ddr_ram_mux/one_cpu_icache_fpga.vhd''])),
      ((1, ''id''), (''ddr_ram_mux_one_cpu_idcache_fpga'',
         [''ddr_ram_mux/one_cpu_idcache.vhd'', ''ddr_ram_mux/one_cpu_idcache_fpga.vhd''])),
      ((2, ''id''), (''ddr_ram_mux_two_cpu_idcache_fpga'',
         [''ddr_ram_mux/two_cpu_idcache.vhd'', ''ddr_ram_mux/two_cpu_idcache_fpga.vhd'']))]"

section \<open>Configurations\<close>

definition cpuVariantExtraFiles :: "cpu_variant \<Rightarrow> string list" where
  "cpuVariantExtraFiles v = filter (\<lambda>f. f \<noteq> ''core/tlb.vhd'') (cv_extra_files v)"

definition CPUSynthConfig ::
    "toml_table \<Rightarrow> string \<Rightarrow> string \<Rightarrow> string \<Rightarrow> cpu_error + (string \<times> string strmap \<times> string list)" where
  "CPUSynthConfig tt model decode mul =
     (case map_of cpuSynth (model, decode, mul) of
        None \<Rightarrow> Inl (ErrCpuCombination model decode mul)
      | Some (cfg, fs) \<Rightarrow>
          (case variantFor tt model of
             Inl e \<Rightarrow> Inl e
           | Inr v \<Rightarrow> Inr (cfg, cv_generics v,
               cpuVariantExtraFiles v @ decodeGenFiles model @ [decodeTableFile model decode] @ fs)))"

definition CPUSynthConfigFPGAOpt ::
    "toml_table \<Rightarrow> string \<Rightarrow> string \<Rightarrow> string \<Rightarrow> cpu_error + (string \<times> string strmap \<times> string list)" where
  "CPUSynthConfigFPGAOpt tt model decode mul =
     (case map_of cpuSynthFPGAOpt (model, decode, mul) of
        None \<Rightarrow> Inl (ErrFpgaCombination model decode mul)
      | Some (cfg, fs) \<Rightarrow>
          (case variantFor tt model of
             Inl e \<Rightarrow> Inl e
           | Inr v \<Rightarrow> Inr (cfg, cv_generics v, cpuVariantExtraFiles v @ fs)))"

definition RAMMuxConfig :: "int \<Rightarrow> string \<Rightarrow> cpu_error + (string \<times> string list)" where
  "RAMMuxConfig cores cache =
     (case map_of ramMux (cores, cache) of
        None \<Rightarrow> Inl (ErrRamMux cores cache)
      | Some e \<Rightarrow> Inr e)"

section \<open>Facts\<close>

lemma checkVariants_None:
  "checkVariants vs = None \<longleftrightarrow>
     list_all (\<lambda>(n, v). map_of (cv_generics v) ''MMU_ARCH'' = None \<and> cv_config_file v \<noteq> []) vs"
  by (induction vs rule: checkVariants.induct) auto

lemma variantFor_Inr:
  "variantFor tt model = Inr v \<longleftrightarrow>
     (\<exists>vs. tt = Inr vs \<and> checkVariants vs = None \<and> map_of vs model = Some v)"
  by (auto simp: variantFor_def loadVariants_def split: sum.splits option.splits)

lemma cpuSynth_facts:
  assumes "map_of cpuSynth (model, decode, mul) = Some (cfg, fs)"
  shows "distinct fs" "''core/tlb.vhd'' \<notin> set fs" "list_all (\<lambda>f. hd f \<noteq> CHR ''g'') fs"
  using assms by (auto simp: cpuSynth_def split: if_splits)

section \<open>Properties\<close>

text \<open>
  C24: a configuration that \<open>CPUSynthConfig\<close> returns has only generics of a variant that passed the
  checks, and among its files that neither the variant nor the soc-side table names, exactly the
  four generated decoder files, all from the one directory of the model; the TLB, which the static
  part of the file list holds, is never listed again.
\<close>

theorem CPUSynthConfig_sound:
  assumes "CPUSynthConfig tt model decode mul = Inr (cfg, generics, fs)"
  shows "map_of generics ''MMU_ARCH'' = None \<and> ''core/tlb.vhd'' \<notin> set fs \<and>
    (\<exists>v own. variantFor tt model = Inr v \<and> map_of cpuSynth (model, decode, mul) = Some (cfg, own) \<and>
       set fs = (set (cv_extra_files v) - {''core/tlb.vhd''}) \<union> set own \<union>
         (\<lambda>f. decodeGenDir model @ ''/'' @ f) `
           {''decode_pkg.vhd'', ''decode.vhd'', ''decode_body.vhd'', ''decode_table_'' @ decode @ ''.vhd''})"
proof -
  obtain own v where e: "map_of cpuSynth (model, decode, mul) = Some (cfg, own)"
    "variantFor tt model = Inr v" "generics = cv_generics v"
    "fs = cpuVariantExtraFiles v @ decodeGenFiles model @ [decodeTableFile model decode] @ own"
    using assms by (auto simp: CPUSynthConfig_def split: option.splits sum.splits)
  have gen: "set (decodeGenFiles model @ [decodeTableFile model decode]) =
      (\<lambda>f. decodeGenDir model @ ''/'' @ f) `
        {''decode_pkg.vhd'', ''decode.vhd'', ''decode_body.vhd'', ''decode_table_'' @ decode @ ''.vhd''}"
    by (simp add: decodeGenFiles_def decodeTableFile_def Let_def)
  have fs: "set fs = (set (cv_extra_files v) - {''core/tlb.vhd''}) \<union> set own \<union>
      set (decodeGenFiles model @ [decodeTableFile model decode])"
    using e(4) by (auto simp: cpuVariantExtraFiles_def)
  have "''core/tlb.vhd'' \<notin> set (decodeGenFiles model @ [decodeTableFile model decode])"
    by (simp add: decodeGenFiles_def decodeTableFile_def decodeGenDir_def Let_def)
  then have tlb: "''core/tlb.vhd'' \<notin> set fs" using fs cpuSynth_facts(2) [OF e(1)] by blast
  obtain vs where "checkVariants vs = None" "map_of vs model = Some v"
    using e(2) by (auto simp: variantFor_Inr)
  then have "map_of (cv_generics v) ''MMU_ARCH'' = None"
    by (auto simp: checkVariants_None list_all_iff dest: map_of_SomeD)
  with tlb fs gen e show ?thesis by metis
qed

definition demo_variants :: toml_table where
  "demo_variants = Inr [(''j4'', \<lparr>cv_generics = [(''PRIV_ARCH'', ''true'')], cv_overlay = ''sh4'',
     cv_extra_files = [''core/tlb.vhd'', ''core/mmu.vhd''], cv_config_file = ''j4.vhd''\<rparr>)]"

theorem CPUSynthConfig_sound_witness:
  "''core/tlb.vhd'' \<notin> set [''core/mmu.vhd'', ''gen/j4-w72/decode/decode_pkg.vhd'', ''gen/j4-w72/decode/decode.vhd'',
     ''gen/j4-w72/decode/decode_body.vhd'', ''gen/j4-w72/decode/decode_table_rom.vhd'',
     ''decode/decode_table_rom_config.vhd'', ''synth/cpu_synth_j4_rom_config.vhd'']"
proof -
  have "CPUSynthConfig demo_variants ''j4'' ''rom'' [] = Inr (''cpu_synth_j4_rom'', [(''PRIV_ARCH'', ''true'')],
     [''core/mmu.vhd'', ''gen/j4-w72/decode/decode_pkg.vhd'', ''gen/j4-w72/decode/decode.vhd'',
     ''gen/j4-w72/decode/decode_body.vhd'', ''gen/j4-w72/decode/decode_table_rom.vhd'',
     ''decode/decode_table_rom_config.vhd'', ''synth/cpu_synth_j4_rom_config.vhd''])"
    by code_simp
  from conjunct1 [OF conjunct2 [OF CPUSynthConfig_sound [OF this]]] show ?thesis .
qed

end
