(* ===== verification/Vhdl_Printer.thy ===== *)
theory Vhdl_Printer
  imports Vhdl_Ast
begin

text \<open>
  Model of the expression part of \<open>src/tools/socgen/vhdl/printer.go\<close>: rendering of
  expressions, association lists and subtype indications. The code writes to a
  \<open>strings.Builder\<close>; the model returns the text written. A loop that writes a separator
  before every element but the first is \<open>join_strings\<close>.
\<close>

abbreviation tick_char :: char where "tick_char \<equiv> CHR 0x27"

fun printExpr :: "expr \<Rightarrow> string"
  and printAssoc :: "assoc_element \<Rightarrow> string"
  and printElementAssoc :: "element_assoc \<Rightarrow> string" where
  "printExpr (PhysicalLit v u) = v @ '' '' @ u"
| "printExpr (BasicLit k v) = v"
| "printExpr (Ident n) = n"
| "printExpr (RangeE l d r) = printExpr l @ '' '' @ kind_string d @ '' '' @ printExpr r"
| "printExpr (BinaryExpr x op y) = printExpr x @ '' '' @ kind_string op @ '' '' @ printExpr y"
| "printExpr (UnaryExpr op x) = kind_string op @ '' '' @ printExpr x"
| "printExpr (CallExpr f args) =
     printExpr f @ ''('' @ join_strings (map printAssoc args) '', '' @ '')''"
| "printExpr (SelectorExpr x sel) = printExpr x @ ''.'' @ sel"
| "printExpr (AttributeName x attr) = printExpr x @ [tick_char] @ attr"
| "printExpr (ParenExpr x) = ''('' @ printExpr x @ '')''"
| "printExpr (Aggregate elems) = ''('' @ join_strings (map printElementAssoc elems) '', '' @ '')''"
| "printExpr (QualifiedExpr mark x) = printExpr mark @ [tick_char] @ printExpr x"
| "printExpr (RangeConstraint mark r) = printExpr mark @ '' range '' @ printExpr r"
| "printExpr (AllocatorExpr x) = ''new '' @ printExpr x"
| "printAssoc (AssocElement formal actual) =
     (if formal \<noteq> [] then formal @ '' => '' else []) @ printExpr actual"
| "printElementAssoc (ElementAssoc choices x) =
     join_strings (map printExpr choices) '' | '' @ (if choices \<noteq> [] then '' => '' else [])
       @ printExpr x"

definition printAssocList :: "assoc_element list \<Rightarrow> string" where
  "printAssocList elems = join_strings (map printAssoc elems) '', ''"

definition exprString :: "expr \<Rightarrow> string" where
  "exprString e = printExpr e"

text \<open>
  \<open>printSubtypeIndication\<close>: a parenthesised or aggregate constraint brings its own
  parentheses, every other constraint is a \<open>range\<close> constraint.
\<close>

definition printSubtypeIndication :: "string \<Rightarrow> expr option \<Rightarrow> string" where
  "printSubtypeIndication mark constraint =
     mark @ (case constraint of
               None \<Rightarrow> []
             | Some c \<Rightarrow> (case c of
                            ParenExpr _ \<Rightarrow> printExpr c
                          | Aggregate _ \<Rightarrow> printExpr c
                          | _ \<Rightarrow> '' range '' @ printExpr c))"

definition SubtypeString :: "string \<Rightarrow> expr option \<Rightarrow> string" where
  "SubtypeString mark constraint = printSubtypeIndication mark constraint"

end
