(* ===== verification/Elab_Eval.thy ===== *)
theory Elab_Eval
  imports Elab_Model Vhdl_Printer
begin

text \<open>
  Model of \<open>src/tools/socgen/elaborate/eval.go\<close> and of \<open>genericEnv\<close> in \<open>port.go\<close>: evaluation
  of integer expressions over the generics, and the resolution of type bounds with it.
  Go's \<open>int64\<close> (and \<open>int\<close>, 64 bits wide on every target of the tool) wraps around;
  \<open>wrap64\<close> is that reduction, and \<open>ideal_value\<close> is the same evaluation over the unbounded
  integers.
\<close>

definition wrap64 :: "int \<Rightarrow> int" where
  "wrap64 i = (i + 2 ^ 63) mod 2 ^ 64 - 2 ^ 63"

definition int64 :: "int \<Rightarrow> bool" where
  "int64 i \<longleftrightarrow> - (2 ^ 63) \<le> i \<and> i < 2 ^ 63"

type_synonym int_env = "int strmap"

fun evalInt :: "expr \<Rightarrow> int_env \<Rightarrow> int option" where
  "evalInt (BasicLit k v) env = (if k = K_INT then parse_int64 v else None)"
| "evalInt (Ident n) env = map_of env (lc n)"
| "evalInt (ParenExpr x) env = evalInt x env"
| "evalInt (UnaryExpr op x) env =
     (case evalInt x env of
        None \<Rightarrow> None
      | Some v \<Rightarrow> if op = K_MINUS then Some (wrap64 (- v))
                  else if op = K_PLUS then Some v else None)"
| "evalInt (BinaryExpr x op y) env =
     (case (evalInt x env, evalInt y env) of
        (Some l, Some r) \<Rightarrow>
          if op = K_PLUS then Some (wrap64 (l + r))
          else if op = K_MINUS then Some (wrap64 (l - r))
          else if op = K_STAR then Some (wrap64 (l * r))
          else None
      | _ \<Rightarrow> None)"
| "evalInt _ env = None"

section \<open>Types\<close>

definition ResolvedType_String :: "resolved_type option \<Rightarrow> string" where
  "ResolvedType_String t =
     (case t of None \<Rightarrow> []
      | Some t \<Rightarrow>
          (case (rt_left t, rt_right t) of
             (Some l, Some r) \<Rightarrow>
               rt_mark t @ ''('' @ itoa l @ '' '' @ rt_dir t @ '' '' @ itoa r @ '')''
           | _ \<Rightarrow> (if rt_constraint t \<noteq> None then SubtypeString (rt_mark t) (rt_constraint t)
                   else rt_mark t)))"

definition symbolic_type :: "string \<Rightarrow> expr option \<Rightarrow> resolved_type" where
  "symbolic_type mark constraint =
     \<lparr>rt_mark = mark, rt_constraint = constraint, rt_left = None, rt_right = None, rt_dir = []\<rparr>"

definition resolveType :: "string \<Rightarrow> expr option \<Rightarrow> int_env \<Rightarrow> resolved_type" where
  "resolveType mark constraint env =
     (let rt = symbolic_type mark constraint in
      case constraint of
        Some (ParenExpr (RangeE left dir right)) \<Rightarrow>
          (case (evalInt left env, evalInt right env) of
             (Some l, Some r) \<Rightarrow>
               if dir = K_DOWNTO then
                 \<lparr>rt_mark = mark, rt_constraint = None, rt_left = Some l, rt_right = Some r,
                  rt_dir = ''downto''\<rparr>
               else if dir = K_TO then
                 \<lparr>rt_mark = mark, rt_constraint = None, rt_left = Some l, rt_right = Some r,
                  rt_dir = ''to''\<rparr>
               else rt
           | _ \<Rightarrow> rt)
      | _ \<Rightarrow> rt)"

section \<open>The generic environment\<close>

text \<open>
  \<open>genericEnv\<close>: the entity's defaults in order (a default may use the generics before it),
  then the device's integer generics on top. The second loop ranges over a Go map.
\<close>

fun default_env :: "if_generic list \<Rightarrow> int_env \<Rightarrow> int_env" where
  "default_env [] env = env"
| "default_env (g # gs) env =
     default_env gs
       (case ig_default g of
          None \<Rightarrow> env
        | Some d \<Rightarrow> (case evalInt d env of
                       Some v \<Rightarrow> AList.update (lc (ig_name g)) v env
                     | None \<Rightarrow> env))"

fun override_env :: "go_value strmap \<Rightarrow> int_env \<Rightarrow> int_env" where
  "override_env [] env = env"
| "override_env ((name, v) # gs) env =
     override_env gs (if v_kind v = KindInt then AList.update (lc name) (v_int v) env else env)"

definition genericEnv :: "go_value strmap \<Rightarrow> entity option \<Rightarrow> int_env" where
  "genericEnv generics ent =
     override_env generics (case ent of None \<Rightarrow> [] | Some e \<Rightarrow> default_env (en_generics e) [])"

section \<open>Wrap-around\<close>

lemma wrap64_int64 [simp]: "int64 (wrap64 i)"
proof -
  have "0 \<le> (i + 2 ^ 63) mod 2 ^ 64" "(i + 2 ^ 63) mod 2 ^ 64 < (2::int) ^ 64"
    by (rule pos_mod_sign, simp, rule pos_mod_bound, simp)
  then show ?thesis by (simp add: wrap64_def int64_def)
qed

lemma wrap64_id [simp]: "int64 i \<Longrightarrow> wrap64 i = i"
  by (simp add: wrap64_def int64_def mod_pos_pos_trivial)

lemma wrap64_cong: "wrap64 i mod 2 ^ 64 = i mod 2 ^ 64"
proof -
  have "wrap64 i mod 2 ^ 64 = ((i + 2 ^ 63) - 2 ^ 63) mod 2 ^ 64"
    unfolding wrap64_def by (rule mod_diff_left_eq)
  then show ?thesis by simp
qed

lemma wrap64_eqI: "i mod 2 ^ 64 = j mod 2 ^ 64 \<Longrightarrow> wrap64 i = wrap64 j"
  unfolding wrap64_def by (metis mod_add_left_eq)

lemma wrap64_minus [simp]: "wrap64 (- wrap64 i) = wrap64 (- i)"
  by (metis mod_minus_eq wrap64_cong wrap64_eqI)

lemma wrap64_add [simp]: "wrap64 (wrap64 i + wrap64 j) = wrap64 (i + j)"
  by (rule wrap64_eqI, rule mod_add_cong) (rule wrap64_cong)+

lemma wrap64_diff [simp]: "wrap64 (wrap64 i - wrap64 j) = wrap64 (i - j)"
  by (rule wrap64_eqI, rule mod_diff_cong) (rule wrap64_cong)+

lemma wrap64_mult [simp]: "wrap64 (wrap64 i * wrap64 j) = wrap64 (i * j)"
  by (rule wrap64_eqI, rule mod_mult_cong) (rule wrap64_cong)+

lemma parse_int64_range: "parse_int64 s = Some v \<Longrightarrow> int64 v"
  by (auto simp: parse_int64_def int64_def Let_def split: if_splits list.splits prod.splits)

section \<open>Evaluation against unbounded arithmetic\<close>

fun ideal_value :: "expr \<Rightarrow> int_env \<Rightarrow> int option" where
  "ideal_value (BasicLit k v) env = (if k = K_INT then parse_int64 v else None)"
| "ideal_value (Ident n) env = map_of env (lc n)"
| "ideal_value (ParenExpr x) env = ideal_value x env"
| "ideal_value (UnaryExpr op x) env =
     (if op = K_MINUS then map_option uminus (ideal_value x env)
      else if op = K_PLUS then ideal_value x env else None)"
| "ideal_value (BinaryExpr x op y) env =
     (case (ideal_value x env, ideal_value y env) of
        (Some l, Some r) \<Rightarrow>
          if op = K_PLUS then Some (l + r) else if op = K_MINUS then Some (l - r)
          else if op = K_STAR then Some (l * r) else None
      | _ \<Rightarrow> None)"
| "ideal_value _ env = None"

definition int64_env :: "int_env \<Rightarrow> bool" where
  "int64_env env \<longleftrightarrow> (\<forall>n v. map_of env n = Some v \<longrightarrow> int64 v)"

lemma evalInt_ideal:
  "int64_env env \<Longrightarrow> evalInt e env = map_option wrap64 (ideal_value e env)"
proof (induction e env rule: evalInt.induct)
  case (1 k v env)
  then show ?case
    by (cases "parse_int64 v") (auto dest: parse_int64_range)
next
  case (2 n env)
  then show ?case
    by (cases "map_of env (lc n)") (auto simp: int64_env_def)
qed (auto split: option.splits)

end
