(* ===== verification/Elab_Class.thy ===== *)
theory Elab_Class
  imports Elab_Eval "HOL-Library.Signed_Division"
begin

text \<open>
  Model of \<open>src/tools/socgen/elaborate/class.go\<close> and of \<open>ResolveError\<close> in \<open>errors.go\<close>: binding a
  device class to an entity and an architecture, and laying out its registers.

  A joined error is the list of its leaves. Go's \<open>int\<close> has 64 bits, so every sum of the register
  layout is reduced by \<open>wrap64\<close>. \<open>int(math.Ceil(math.Log2(float64(n))))\<close> is \<open>Log2_ceil\<close>: exact up to
  \<open>2 ^ 48\<close>, a parameter of the model above. The properties compare the layout with \<open>reg_layout\<close>, the
  same addresses over unbounded integers, for the classes whose registers fit (\<open>layout_within\<close>).
\<close>

section \<open>Errors\<close>

datatype resolve_kind =
    ErrEntityNotFound | ErrConfigNotFound | ErrArchNotFound | ErrArchConfigMismatch | ErrNoArch
  | ErrAmbiguousArch | ErrNoLibrary | ErrUnknownClass | ErrUnknownGeneric | ErrDuplicateName
  | ErrRegisterOverlap | ErrUnsupportedInvert | ErrLeftAddrBitTooSmall | ErrDataBusPorts

definition resolve_kind_text :: "resolve_kind \<Rightarrow> string" where
  "resolve_kind_text k =
     (case k of
        ErrEntityNotFound \<Rightarrow> ''unable to map to entity''
      | ErrConfigNotFound \<Rightarrow> ''configuration not found''
      | ErrArchNotFound \<Rightarrow> ''architecture not found''
      | ErrArchConfigMismatch \<Rightarrow> ''architecture and configuration mismatch''
      | ErrNoArch \<Rightarrow> ''no architecture for entity''
      | ErrAmbiguousArch \<Rightarrow> ''ambiguous architecture for entity''
      | ErrNoLibrary \<Rightarrow> ''no library''
      | ErrUnknownClass \<Rightarrow> ''unknown class''
      | ErrUnknownGeneric \<Rightarrow> ''unknown generic''
      | ErrDuplicateName \<Rightarrow> ''duplicate device name''
      | ErrRegisterOverlap \<Rightarrow> ''register overlap''
      | ErrUnsupportedInvert \<Rightarrow> ''invert: true is only supported on an out: pin leg''
      | ErrLeftAddrBitTooSmall \<Rightarrow> ''left-addr-bit too small for registers''
      | ErrDataBusPorts \<Rightarrow> ''malformed data-bus port pair'')"

record resolve_error =
  rerr_kind :: resolve_kind
  rerr_ctx :: string
  rerr_name :: string
  rerr_detail :: string

definition mk_err :: "resolve_kind \<Rightarrow> string \<Rightarrow> string \<Rightarrow> string \<Rightarrow> resolve_error" where
  "mk_err k c n d = \<lparr>rerr_kind = k, rerr_ctx = c, rerr_name = n, rerr_detail = d\<rparr>"

definition ResolveError_Error :: "resolve_error \<Rightarrow> string" where
  "ResolveError_Error e =
     (if rerr_detail e \<noteq> [] then rerr_ctx e @ '': '' @ rerr_detail e
      else rerr_ctx e @ '': '' @ resolve_kind_text (rerr_kind e) @ '' '' @ go_quote (rerr_name e))"

section \<open>Choosing the architecture\<close>

text \<open>The result of \<open>chooseArch\<close>: entity, architecture, configuration, hard failure, error.\<close>

record arch_choice =
  ac_entity :: "entity option"
  ac_arch :: string
  ac_config :: "configuration option"
  ac_hard :: bool
  ac_error :: "resolve_error option"

definition mk_choice ::
    "entity option \<Rightarrow> string \<Rightarrow> configuration option \<Rightarrow> bool \<Rightarrow> resolve_error option \<Rightarrow> arch_choice" where
  "mk_choice e a c h err = \<lparr>ac_entity = e, ac_arch = a, ac_config = c, ac_hard = h, ac_error = err\<rparr>"

text \<open>The final \<open>switch\<close> of \<open>chooseArch\<close>.\<close>

definition pick_arch :: "string \<Rightarrow> string \<Rightarrow> string \<Rightarrow> string \<Rightarrow> entity \<Rightarrow> architecture list \<Rightarrow>
    configuration option \<Rightarrow> architecture option \<Rightarrow> arch_choice" where
  "pick_arch cx entityName archName configName ent archs cfg arch =
     (case (cfg, arch) of
        (Some c, Some a) \<Rightarrow>
          if lc (ar_name a) \<noteq> lc (cf_arch c)
          then mk_choice (Some ent) [] None True (Some (mk_err ErrArchConfigMismatch cx []
                 (''architecture '' @ go_quote archName @ '' and configuration '' @ go_quote configName @
                  '' (arch '' @ go_quote (cf_arch c) @ '') mismatch; set only configuration'')))
          else mk_choice (Some ent) (cf_arch c) (Some c) False None
      | (Some c, None) \<Rightarrow> mk_choice (Some ent) (cf_arch c) (Some c) False None
      | (None, Some a) \<Rightarrow> mk_choice (Some ent) (ar_name a) None False None
      | (None, None) \<Rightarrow>
          (case archs of
             [a] \<Rightarrow> mk_choice (Some ent) (ar_name a) None False None
           | [] \<Rightarrow> mk_choice (Some ent) [] None False (Some (mk_err ErrNoArch cx entityName
                 (''unable to find any architecture for entity '' @ go_quote entityName)))
           | _ \<Rightarrow> mk_choice (Some ent) [] None False (Some (mk_err ErrAmbiguousArch cx entityName
                 (''unable to find single architecture for entity '' @ go_quote entityName @
                  '' ('' @ nat_str (length archs) @ '' found)'')))))"

definition chooseArch :: "string \<Rightarrow> string \<Rightarrow> string \<Rightarrow> string \<Rightarrow> library option \<Rightarrow> arch_choice" where
  "chooseArch cx entityName archName configName lo =
     (case lo of
        None \<Rightarrow> mk_choice None [] None True
          (Some (mk_err ErrNoLibrary cx [] (resolve_kind_text ErrNoLibrary)))
      | Some l \<Rightarrow>
        (case Entity l (lc entityName) of
           None \<Rightarrow> mk_choice None [] None True (Some (mk_err ErrEntityNotFound cx entityName []))
         | Some ent \<Rightarrow>
           let archs = ArchitecturesOf l (lc entityName);
               cfg = (if lc configName = [] then None else Configuration l (lc configName));
               arch = (if lc archName = [] then None
                       else List.find (\<lambda>a. lc (ar_name a) = lc archName) archs)
           in if lc configName \<noteq> [] \<and> cfg = None
              then mk_choice (Some ent) [] None True (Some (mk_err ErrConfigNotFound cx configName
                     (''configuration '' @ go_quote configName @ '' of entity '' @ go_quote entityName @
                      '' not found'')))
              else if lc archName \<noteq> [] \<and> arch = None
              then mk_choice (Some ent) [] None True (Some (mk_err ErrArchNotFound cx archName
                     (''architecture '' @ go_quote archName @ '' of entity '' @ go_quote entityName @
                      '' not found'')))
              else pick_arch cx entityName archName configName ent archs cfg arch))"

section \<open>Registers\<close>

text \<open>The exact ceiling of the binary logarithm.\<close>

fun ceil_log2 :: "int \<Rightarrow> int" where
  "ceil_log2 n = (if n \<le> 1 then 0 else 1 + ceil_log2 ((n + 1) div 2))"

declare ceil_log2.simps [simp del]

text \<open>
  \<open>int(math.Ceil(math.Log2(float64(n))))\<close> for \<open>n \<ge> 1\<close>. \<open>Log2\<close> is \<open>Log(frac) * (1/Ln2) + exp\<close> of the
  fraction and the exponent of its argument, and just \<open>exp - 1\<close> for a power of two. Up to \<open>2 ^ 48\<close> the
  binary logarithm of any other \<open>n\<close> lies further above the integer below it than the sum can be
  rounded away, so the result is the exact ceiling. Above, \<open>2 ^ k + 1\<close> is rounded down to \<open>k\<close> (the first
  such \<open>n\<close> is \<open>2 ^ 49 + 1\<close>), and where that stops depends on the last bits of \<open>Log\<close>, which is assembly
  on some architectures: there the value is the parameter \<open>lg\<close>.
\<close>

definition Log2_ceil :: "(int \<Rightarrow> int) \<Rightarrow> int \<Rightarrow> int" where
  "Log2_ceil lg n = (if n \<le> 2 ^ 48 then ceil_log2 n else lg n)"

definition overlaps :: "int \<times> int \<Rightarrow> int \<times> int \<Rightarrow> bool" where
  "overlaps a b \<longleftrightarrow> fst a \<le> snd b \<and> fst b \<le> snd a"

text \<open>The first loop: each register starts where the previous one ended, unless it has an address.\<close>

fun layoutRegs :: "int \<Rightarrow> reg list \<Rightarrow> resolved_reg list" where
  "layoutRegs addr [] = []"
| "layoutRegs addr (r # rs) =
     (let width = (case rg_width r of Some w \<Rightarrow> w | None \<Rightarrow> 4);
          a = (case rg_addr r of Some x \<Rightarrow> x | None \<Rightarrow> addr);
          typ = (if rg_type r = [] then ''fixed'' else rg_type r)
      in \<lparr>rr_name = lc (rg_name r), rr_addr = a, rr_width = width,
          rr_byte_range = (a, wrap64 (a + width - 1)), rr_mode = rg_mode r, rr_type = typ\<rparr>
         # layoutRegs (wrap64 (a + width)) rs)"

text \<open>The third loop, over all the registers, from its initial values.\<close>

definition reg_extent :: "resolved_reg list \<Rightarrow> int \<times> int \<times> int" where
  "reg_extent regs =
     fold (\<lambda>r (mx, low, high).
         (if wrap64 (rr_addr r + rr_width r) > mx then wrap64 (rr_addr r + rr_width r) else mx,
          if fst (rr_byte_range r) < low then fst (rr_byte_range r) else low,
          if snd (rr_byte_range r) > high then snd (rr_byte_range r) else high))
       regs (0, fst (rr_byte_range (hd regs)), snd (rr_byte_range (hd regs)))"

definition class_ctx :: "string \<Rightarrow> string" where
  "class_ctx class = ''class '' @ go_quote class"

text \<open>The two error checks: overlapping pairs, and a configured address width that is too small.\<close>

definition overlap_errs :: "string \<Rightarrow> resolved_reg list \<Rightarrow> resolve_error list" where
  "overlap_errs class regs =
     map (\<lambda>(a, b). mk_err ErrRegisterOverlap (class_ctx class) []
            (''register '' @ go_quote (rr_name a) @ '' overlaps '' @ go_quote (rr_name b)))
       (filter (\<lambda>(a, b). overlaps (rr_byte_range a) (rr_byte_range b)) (index_pairs regs))"

definition left_bit_errs :: "string \<Rightarrow> device_class \<Rightarrow> int \<Rightarrow> resolve_error list" where
  "left_bit_errs class dc required =
     (if dc_left_addr_bit dc > 0 \<and> dc_left_addr_bit dc < required
      then [mk_err ErrLeftAddrBitTooSmall (class_ctx class) []
              (''left-addr-bit '' @ itoa (dc_left_addr_bit dc) @
               '' too small for registers, must be at least '' @ itoa required)]
      else [])"

definition resolveRegs ::
    "(int \<Rightarrow> int) \<Rightarrow> string \<Rightarrow> device_class \<Rightarrow> resolved_reg list \<times> int \<times> (int \<times> int) \<times> resolve_error list" where
  "resolveRegs lg class dc =
     (let regs = layoutRegs 0 (dc_regs dc) in
      if regs = [] then ([], 0, (0, 0), [])
      else
        let (mx, low, high) = reg_extent regs;
            required = Log2_ceil lg (if mx < 1 then 1 else mx) - 1;
            leftBit = (if dc_left_addr_bit dc > 0 \<and> dc_left_addr_bit dc > required
                       then dc_left_addr_bit dc else required)
        in (regs, leftBit, (low - low smod 4, wrap64 ((high sdiv 4 + 1) * 4)),
            overlap_errs class regs @ left_bit_errs class dc required))"

definition resolveClass ::
    "(int \<Rightarrow> int) \<Rightarrow> string \<Rightarrow> device_class \<Rightarrow> library option \<Rightarrow> resolved_class \<times> resolve_error list" where
  "resolveClass lg name dc lo =
     (let ch = chooseArch (class_ctx name) (dc_entity dc) (dc_architecture dc) (dc_configuration dc) lo;
          rc = \<lparr>rc_name = name, rc_entity = ac_entity ch, rc_arch_name = ac_arch ch,
                rc_config = ac_config ch, rc_regs = [], rc_left_addr_bit = 0, rc_reg_range = (0, 0),
                rc_generics = dc_generics dc\<rparr>;
          errs = (case ac_error ch of Some e \<Rightarrow> [e] | None \<Rightarrow> [])
      in if ac_hard ch then (rc, errs)
         else (case resolveRegs lg name dc of (regs, left, rng, rerrs) \<Rightarrow>
                (rc\<lparr>rc_regs := regs, rc_left_addr_bit := left, rc_reg_range := rng\<rparr>, errs @ rerrs)))"

section \<open>The choice of an architecture\<close>

text \<open>A result without an error names an architecture of the bound entity or its configuration.\<close>

lemma pick_arch_ok:
  "ac_error (pick_arch cx en an cn ent archs cfg arch) = None \<Longrightarrow>
     ac_entity (pick_arch cx en an cn ent archs cfg arch) = Some ent \<and>
     (case cfg of
        Some c \<Rightarrow> ac_config (pick_arch cx en an cn ent archs cfg arch) = Some c \<and>
                  ac_arch (pick_arch cx en an cn ent archs cfg arch) = cf_arch c
      | None \<Rightarrow> ac_config (pick_arch cx en an cn ent archs cfg arch) = None \<and>
          (case arch of
             Some a \<Rightarrow> ac_arch (pick_arch cx en an cn ent archs cfg arch) = ar_name a
           | None \<Rightarrow> \<exists>a. archs = [a] \<and>
               ac_arch (pick_arch cx en an cn ent archs cfg arch) = ar_name a))"
  by (auto simp: pick_arch_def mk_choice_def split: option.splits list.splits if_splits)

section \<open>The layout of registers\<close>

lemma ceil_log2_nonneg: "0 \<le> ceil_log2 n"
proof (induction n rule: ceil_log2.induct)
  case (1 n)
  then show ?case by (subst ceil_log2.simps) simp
qed

lemma ceil_log2_upper: "n \<le> 2 ^ nat (ceil_log2 n)"
proof (induction n rule: ceil_log2.induct)
  case (1 n)
  show ?case
  proof (cases "n \<le> 1")
    case True
    then show ?thesis by (subst ceil_log2.simps) simp
  next
    case False
    with 1 have "(n + 1) div 2 \<le> 2 ^ nat (ceil_log2 ((n + 1) div 2))" by simp
    then have "n \<le> 2 * 2 ^ nat (ceil_log2 ((n + 1) div 2))" by linarith
    also have "\<dots> = 2 ^ nat (1 + ceil_log2 ((n + 1) div 2))"
      using ceil_log2_nonneg [of "(n + 1) div 2"] by (simp add: nat_add_distrib)
    finally show ?thesis using False by (subst ceil_log2.simps) simp
  qed
qed

lemma ceil_log2_lower: "1 < n \<Longrightarrow> 2 ^ nat (ceil_log2 n - 1) < n"
proof (induction n rule: ceil_log2.induct)
  case (1 n)
  let ?m = "(n + 1) div 2"
  have eq: "ceil_log2 n = 1 + ceil_log2 ?m" using 1 by (subst ceil_log2.simps) simp
  show ?case
  proof (cases "?m = 1")
    case True
    then have "n = 2" using 1 by linarith
    then show ?thesis by (simp add: ceil_log2.simps)
  next
    case False
    then have m: "1 < ?m" using 1 by linarith
    with 1 have "2 ^ nat (ceil_log2 ?m - 1) < ?m" by simp
    moreover have "1 \<le> ceil_log2 ?m"
      using m ceil_log2_nonneg [of "(?m + 1) div 2"] by (subst ceil_log2.simps) simp
    then have "(2::int) ^ nat (ceil_log2 ?m) = 2 * 2 ^ nat (ceil_log2 ?m - 1)"
      by (simp add: power_Suc [symmetric] nat_diff_distrib' del: power_Suc)
    ultimately have "2 ^ nat (ceil_log2 ?m) < n" by linarith
    then show ?thesis using eq by simp
  qed
qed

lemma reg_extent_bounds:
  assumes "reg_extent regs = (mx, low, high)" "regs \<noteq> []"
  shows "\<forall>r \<in> set regs. wrap64 (rr_addr r + rr_width r) \<le> mx \<and> low \<le> fst (rr_byte_range r) \<and>
      snd (rr_byte_range r) \<le> high"
    and "0 \<le> mx" "\<exists>r \<in> set regs. low = fst (rr_byte_range r)" "\<exists>r \<in> set regs. high = snd (rr_byte_range r)"
    "mx = 0 \<or> (\<exists>r \<in> set regs. mx = wrap64 (rr_addr r + rr_width r))"
proof -
  let ?e = "\<lambda>r. wrap64 (rr_addr r + rr_width r)"
  let ?f = "\<lambda>r (mx, low, high).
      (if ?e r > mx then ?e r else mx, if fst (rr_byte_range r) < low then fst (rr_byte_range r) else low,
       if snd (rr_byte_range r) > high then snd (rr_byte_range r) else high)"
  have gen: "fold ?f rs (m0, l0, h0) = (m, l, h) \<Longrightarrow>
      m0 \<le> m \<and> l \<le> l0 \<and> h0 \<le> h \<and> (l = l0 \<or> (\<exists>r \<in> set rs. l = fst (rr_byte_range r))) \<and>
      (h = h0 \<or> (\<exists>r \<in> set rs. h = snd (rr_byte_range r))) \<and>
      (m = m0 \<or> (\<exists>r \<in> set rs. m = ?e r)) \<and>
      (\<forall>r \<in> set rs. ?e r \<le> m \<and> l \<le> fst (rr_byte_range r) \<and> snd (rr_byte_range r) \<le> h)"
    for rs m0 l0 h0 m l h
  proof (induction rs arbitrary: m0 l0 h0)
    case Nil
    then show ?case by simp
  next
    case (Cons r rs)
    obtain m1 l1 h1 where st: "?f r (m0, l0, h0) = (m1, l1, h1)" by (rule prod_cases3)
    from Cons.prems st have "fold ?f rs (m1, l1, h1) = (m, l, h)" by simp
    from Cons.IH [OF this] st show ?case by (auto split: if_splits)
  qed
  have f: "fold ?f regs (0, fst (rr_byte_range (hd regs)), snd (rr_byte_range (hd regs))) = (mx, low, high)"
    using assms(1) by (simp add: reg_extent_def)
  note g = gen [OF f]
  show "\<forall>r \<in> set regs. ?e r \<le> mx \<and> low \<le> fst (rr_byte_range r) \<and> snd (rr_byte_range r) \<le> high"
    and "0 \<le> mx" and "mx = 0 \<or> (\<exists>r \<in> set regs. mx = ?e r)" using g by auto
  have "hd regs \<in> set regs" using assms(2) by simp
  with g show "\<exists>r \<in> set regs. low = fst (rr_byte_range r)" and "\<exists>r \<in> set regs. high = snd (rr_byte_range r)"
    by blast+
qed

text \<open>
  The layout over unbounded integers: the address and the width of every register. A register starts
  at the address it is given, or else where the one before it ends.
\<close>

definition reg_width :: "reg \<Rightarrow> int" where
  "reg_width r = (case rg_width r of Some w \<Rightarrow> w | None \<Rightarrow> 4)"

fun reg_layout :: "int \<Rightarrow> reg list \<Rightarrow> (int \<times> int) list" where
  "reg_layout nx [] = []"
| "reg_layout nx (r # rs) =
     (let a = (case rg_addr r of Some x \<Rightarrow> x | None \<Rightarrow> nx) in
      (a, reg_width r) # reg_layout (a + reg_width r) rs)"

text \<open>Every register has at least one byte, and its bytes lie between \<open>0\<close> and \<open>n\<close>.\<close>

definition reg_fits :: "int \<Rightarrow> int \<times> int \<Rightarrow> bool" where
  "reg_fits n aw \<longleftrightarrow> 0 \<le> fst aw \<and> 1 \<le> snd aw \<and> fst aw + snd aw \<le> n"

definition layout_within :: "int \<Rightarrow> device_class \<Rightarrow> bool" where
  "layout_within n dc \<longleftrightarrow> list_all (reg_fits n) (reg_layout 0 (dc_regs dc))"

definition byte_set :: "int \<times> int \<Rightarrow> int set" where
  "byte_set aw = {fst aw ..< fst aw + snd aw}"

lemma layout_within_mono: "layout_within n dc \<Longrightarrow> n \<le> m \<Longrightarrow> layout_within m dc"
  by (auto simp: layout_within_def reg_fits_def list_all_iff)

lemma int64_small: "0 \<le> i \<Longrightarrow> i < 2 ^ 63 \<Longrightarrow> wrap64 i = i"
  by (rule wrap64_id) (simp add: int64_def)

lemma length_layoutRegs [simp]: "length (layoutRegs addr rs) = length rs"
  by (induction rs arbitrary: addr) (simp_all add: Let_def)

lemma layoutRegs_ideal:
  "list_all (reg_fits (2 ^ 63 - 1)) (reg_layout addr rs) \<Longrightarrow>
     map (\<lambda>r. (rr_addr r, rr_width r)) (layoutRegs addr rs) = reg_layout addr rs \<and>
     (\<forall>r \<in> set (layoutRegs addr rs). rr_byte_range r = (rr_addr r, rr_addr r + rr_width r - 1))"
proof (induction rs arbitrary: addr)
  case Nil
  then show ?case by simp
next
  case (Cons x xs)
  let ?a = "case rg_addr x of Some y \<Rightarrow> y | None \<Rightarrow> addr"
  have fit: "reg_fits (2 ^ 63 - 1) (?a, reg_width x)" "list_all (reg_fits (2 ^ 63 - 1)) (reg_layout (?a + reg_width x) xs)"
    using Cons.prems by (simp_all add: Let_def)
  then have w: "wrap64 (?a + reg_width x) = ?a + reg_width x" "wrap64 (?a + reg_width x - 1) = ?a + reg_width x - 1"
    by (simp_all add: reg_fits_def int64_small)
  from Cons.IH [OF fit(2)] w show ?case by (simp add: Let_def reg_width_def)
qed

lemma trunc_align:
  fixes low high :: int
  assumes "0 \<le> low" "0 \<le> high"
  shows "low - low smod 4 \<le> low" "4 dvd (low - low smod 4)" "high < (high sdiv 4 + 1) * 4"
    "4 dvd ((high sdiv 4 + 1) * 4)" "(high sdiv 4 + 1) * 4 \<le> high + 4" "0 \<le> high sdiv 4"
proof -
  have "low smod 4 = low mod 4" "high sdiv 4 = high div 4"
    using assms by (simp_all add: signed_modulo_int_def signed_divide_int_def sgn_if)
  then show "low - low smod 4 \<le> low" "4 dvd (low - low smod 4)" "high < (high sdiv 4 + 1) * 4"
    "4 dvd ((high sdiv 4 + 1) * 4)" "(high sdiv 4 + 1) * 4 \<le> high + 4" "0 \<le> high sdiv 4"
    using assms by (simp_all add: minus_mod_eq_mult_div)
qed

lemma resolveRegs_nonempty:
  assumes "resolveRegs lg class dc = (regs, left, (lo, hi), errs)" "regs \<noteq> []"
  obtains mx low high where "regs = layoutRegs 0 (dc_regs dc)" "reg_extent regs = (mx, low, high)"
    "lo = low - low smod 4" "hi = wrap64 ((high sdiv 4 + 1) * 4)"
    "Log2_ceil lg (if mx < 1 then 1 else mx) - 1 \<le> left"
proof -
  obtain mx low high where e: "reg_extent (layoutRegs 0 (dc_regs dc)) = (mx, low, high)"
    by (rule prod_cases3)
  from assms e that show ?thesis
    by (auto simp: resolveRegs_def Let_def split: if_splits)
qed

lemma resolveRegs_fst: "fst (resolveRegs lg class dc) = layoutRegs 0 (dc_regs dc)"
proof -
  obtain mx low high where "reg_extent (layoutRegs 0 (dc_regs dc)) = (mx, low, high)" by (rule prod_cases3)
  then show ?thesis by (simp add: resolveRegs_def Let_def)
qed

text \<open>The resolved registers of a class that reg_fits are those of its layout.\<close>

lemma resolved_layout:
  assumes "layout_within (2 ^ 63 - 1) dc"
  shows "map (\<lambda>r. (rr_addr r, rr_width r)) (fst (resolveRegs lg class dc)) = reg_layout 0 (dc_regs dc)"
    and "r \<in> set (fst (resolveRegs lg class dc)) \<Longrightarrow> rr_byte_range r = (rr_addr r, rr_addr r + rr_width r - 1)"
    and "r \<in> set (fst (resolveRegs lg class dc)) \<Longrightarrow> layout_within n dc \<Longrightarrow> reg_fits n (rr_addr r, rr_width r)"
proof -
  note l = layoutRegs_ideal [OF assms [unfolded layout_within_def]]
  show m: "map (\<lambda>r. (rr_addr r, rr_width r)) (fst (resolveRegs lg class dc)) = reg_layout 0 (dc_regs dc)"
    and "r \<in> set (fst (resolveRegs lg class dc)) \<Longrightarrow> rr_byte_range r = (rr_addr r, rr_addr r + rr_width r - 1)"
    using l by (simp_all add: resolveRegs_fst)
  show "reg_fits n (rr_addr r, rr_width r)" if "r \<in> set (fst (resolveRegs lg class dc))" "layout_within n dc"
    using that unfolding layout_within_def m [symmetric] list_all_iff by auto
qed

lemma resolveRegs_bounds:
  assumes "resolveRegs lg class dc = (regs, left, (lo, hi), errs)" "layout_within (2 ^ 48) dc" "r \<in> set regs"
  shows "lo \<le> rr_addr r \<and> rr_addr r + rr_width r \<le> hi \<and> 4 dvd lo \<and> 4 dvd hi \<and>
    rr_addr r + rr_width r \<le> 2 ^ nat (left + 1)"
proof -
  have ne: "regs \<noteq> []" using assms(3) by auto
  obtain mx low high where m: "regs = layoutRegs 0 (dc_regs dc)" "reg_extent regs = (mx, low, high)"
    "lo = low - low smod 4" "hi = wrap64 ((high sdiv 4 + 1) * 4)"
    "Log2_ceil lg (if mx < 1 then 1 else mx) - 1 \<le> left"
    by (rule resolveRegs_nonempty [OF assms(1) ne])
  have lw: "layout_within (2 ^ 63 - 1) dc" by (rule layout_within_mono [OF assms(2)]) simp
  have sane: "0 \<le> rr_addr x \<and> 1 \<le> rr_width x \<and> rr_addr x + rr_width x \<le> 2 ^ 48 \<and>
      rr_byte_range x = (rr_addr x, rr_addr x + rr_width x - 1) \<and>
      wrap64 (rr_addr x + rr_width x) = rr_addr x + rr_width x" if "x \<in> set regs" for x
  proof -
    have "reg_fits (2 ^ 48) (rr_addr x, rr_width x)" "rr_byte_range x = (rr_addr x, rr_addr x + rr_width x - 1)"
      using resolved_layout(2,3) [OF lw, of x lg "class"] that assms(1,2) by simp_all
    then show ?thesis by (simp add: reg_fits_def int64_small)
  qed
  note b = reg_extent_bounds [OF m(2) ne]
  have r: "rr_addr r + rr_width r \<le> mx" "low \<le> rr_addr r" "rr_addr r + rr_width r - 1 \<le> high"
    using b(1) assms(3) sane [OF assms(3)] by auto
  have "0 \<le> low" using b(3) sane by auto
  moreover have "high < 2 ^ 48"
  proof -
    obtain x where "x \<in> set regs" "high = snd (rr_byte_range x)" using b(4) by blast
    then show ?thesis using sane [of x] by simp
  qed
  moreover have "0 \<le> high" using r sane [OF assms(3)] by linarith
  ultimately have al: "lo \<le> low" "4 dvd lo" "high < hi" "4 dvd hi"
    using trunc_align [of low high] m(3,4) int64_small [of "(high sdiv 4 + 1) * 4"] by auto
  have mx: "1 \<le> mx" "mx \<le> 2 ^ 48" using r b(5) sane assms(3) by fastforce+
  then have "mx \<le> 2 ^ nat (ceil_log2 mx)" by (intro ceil_log2_upper)
  also have "\<dots> \<le> (2::int) ^ nat (left + 1)"
    using m(5) mx by (intro power_increasing nat_mono) (auto simp: Log2_ceil_def)
  finally show ?thesis using r al by auto
qed

text \<open>
  C9: the address bits that a class is given cover its registers. For a class whose registers
  have at least one byte each and lie below \<open>2 ^ 48\<close>, the resolved registers are at the addresses
  and with the widths of the layout, and each of them lies inside the word-aligned register range
  and below \<open>2 ^ (left-addr-bit + 1)\<close>.
\<close>

theorem resolveRegs_covers:
  assumes "resolveRegs lg class dc = (regs, left, (lo, hi), errs)" "layout_within (2 ^ 48) dc"
  shows "map (\<lambda>r. (rr_addr r, rr_width r)) regs = reg_layout 0 (dc_regs dc) \<and>
    list_all (\<lambda>(a, w). lo \<le> a \<and> a + w \<le> hi \<and> 4 dvd lo \<and> 4 dvd hi \<and> a + w \<le> 2 ^ nat (left + 1))
      (reg_layout 0 (dc_regs dc))"
proof -
  have "layout_within (2 ^ 63 - 1) dc" by (rule layout_within_mono [OF assms(2)]) simp
  from resolved_layout(1) [OF this, of lg "class"]
  have m: "map (\<lambda>r. (rr_addr r, rr_width r)) regs = reg_layout 0 (dc_regs dc)" using assms(1) by simp
  show ?thesis using resolveRegs_bounds [OF assms] unfolding m [symmetric] by (auto simp: list_all_iff)
qed

definition demo_regs :: device_class where
  "demo_regs = \<lparr>dc_entity = ''uart'', dc_configuration = [], dc_architecture = [], dc_left_addr_bit = 0,
     dc_regs = [\<lparr>rg_name = ''RX'', rg_addr = None, rg_width = None, rg_mode = ''r'', rg_type = []\<rparr>,
                \<lparr>rg_name = ''CTL'', rg_addr = Some 8, rg_width = Some 2, rg_mode = ''rw'', rg_type = []\<rparr>],
     dc_generics = [], dc_ports = [], dc_dt_name = [], dc_dt_props = [], dc_dt_children = []\<rparr>"

lemma demo_regs_resolved:
  "resolveRegs lg ''uart'' demo_regs =
     ([\<lparr>rr_name = ''rx'', rr_addr = 0, rr_width = 4, rr_byte_range = (0, 3), rr_mode = ''r'', rr_type = ''fixed''\<rparr>,
       \<lparr>rr_name = ''ctl'', rr_addr = 8, rr_width = 2, rr_byte_range = (8, 9), rr_mode = ''rw'', rr_type = ''fixed''\<rparr>],
      3, (0, 12), [])"
  by code_simp

lemma demo_regs_within: "layout_within (2 ^ 48) demo_regs"
  by (simp add: layout_within_def demo_regs_def reg_fits_def reg_width_def)

theorem resolveRegs_covers_witness: "(8 :: int) + 2 \<le> 2 ^ nat (3 + 1)"
  using resolveRegs_covers [OF demo_regs_resolved demo_regs_within]
  by (simp add: demo_regs_def reg_width_def)

text \<open>
  A class whose registers end at \<open>2 ^ 49 + 1\<close>: on the platforms where the logarithm is rounded to
  \<open>49\<close>, the bits chosen address \<open>2 ^ 49\<close> bytes, one too few.
\<close>

definition wide_regs :: device_class where
  "wide_regs = demo_regs\<lparr>dc_regs :=
     [\<lparr>rg_name = ''A'', rg_addr = Some (2 ^ 49), rg_width = Some 1, rg_mode = [], rg_type = []\<rparr>]\<rparr>"

lemma wide_regs_short:
  assumes "lg (2 ^ 49 + 1) = 49"
  shows "snd (snd (snd (resolveRegs lg ''c'' wide_regs))) = []" "fst (snd (resolveRegs lg ''c'' wide_regs)) = 48"
    "(2 ^ 49, 1) \<in> set (reg_layout 0 (dc_regs wide_regs))" "\<not> 2 ^ 49 + 1 \<le> (2 :: int) ^ nat (48 + 1)"
  using assms
  by (simp_all add: resolveRegs_def wide_regs_def demo_regs_def reg_extent_def Log2_ceil_def Let_def int64_small
      overlap_errs_def left_bit_errs_def reg_width_def)

lemma overlap_report:
  "(\<exists>e. e \<in> set (snd (snd (snd (resolveRegs lg class dc)))) \<and> rerr_kind e = ErrRegisterOverlap) \<longleftrightarrow>
   \<not> sorted_wrt (\<lambda>a b. \<not> overlaps (rr_byte_range a) (rr_byte_range b)) (fst (resolveRegs lg class dc))"
proof (cases "layoutRegs 0 (dc_regs dc) = []")
  case True
  then show ?thesis by (simp add: resolveRegs_def)
next
  case False
  let ?regs = "layoutRegs 0 (dc_regs dc)"
  obtain mx low high where e: "reg_extent ?regs = (mx, low, high)" by (rule prod_cases3)
  have "snd (snd (snd (resolveRegs lg class dc))) =
      overlap_errs class ?regs @ left_bit_errs class dc (Log2_ceil lg (if mx < 1 then 1 else mx) - 1)"
    using False e by (simp add: resolveRegs_def Let_def)
  moreover have "rerr_kind e \<noteq> ErrRegisterOverlap" if "e \<in> set (left_bit_errs class dc r)" for e r
    using that by (auto simp: left_bit_errs_def mk_err_def split: if_splits)
  moreover have "(\<exists>e. e \<in> set (overlap_errs class ?regs) \<and> rerr_kind e = ErrRegisterOverlap) \<longleftrightarrow>
      (\<exists>(a, b) \<in> set (index_pairs ?regs). overlaps (rr_byte_range a) (rr_byte_range b))"
    by (force simp: overlap_errs_def mk_err_def)
  ultimately show ?thesis
    unfolding resolveRegs_fst index_pairs_sorted_wrt [symmetric] by auto
qed

lemma overlaps_bytes:
  assumes "1 \<le> w" "1 \<le> v"
  shows "overlaps (a, a + w - 1) (b, b + v - 1) \<longleftrightarrow> byte_set (a, w) \<inter> byte_set (b, v) \<noteq> {}"
proof
  assume "overlaps (a, a + w - 1) (b, b + v - 1)"
  then have "max a b \<in> byte_set (a, w) \<inter> byte_set (b, v)" using assms by (auto simp: overlaps_def byte_set_def)
  then show "byte_set (a, w) \<inter> byte_set (b, v) \<noteq> {}" by blast
next
  assume "byte_set (a, w) \<inter> byte_set (b, v) \<noteq> {}"
  then show "overlaps (a, a + w - 1) (b, b + v - 1)" by (auto simp: overlaps_def byte_set_def)
qed

lemma overlap_sets:
  assumes "layout_within (2 ^ 63 - 1) dc"
  shows "(\<exists>e. e \<in> set (snd (snd (snd (resolveRegs lg class dc)))) \<and> rerr_kind e = ErrRegisterOverlap) \<longleftrightarrow>
   \<not> sorted_wrt (\<lambda>x y. byte_set x \<inter> byte_set y = {}) (reg_layout 0 (dc_regs dc))"
proof -
  let ?regs = "fst (resolveRegs lg class dc)"
  have eq: "overlaps (rr_byte_range x) (rr_byte_range y) \<longleftrightarrow>
      byte_set (rr_addr x, rr_width x) \<inter> byte_set (rr_addr y, rr_width y) \<noteq> {}"
    if "x \<in> set ?regs" "y \<in> set ?regs" for x y
    using resolved_layout(2,3) [OF assms, of x lg "class"] resolved_layout(2,3) [OF assms, of y lg "class"] assms that
    by (simp add: overlaps_bytes reg_fits_def)
  have "sorted_wrt (\<lambda>a b. \<not> overlaps (rr_byte_range a) (rr_byte_range b)) ?regs \<longleftrightarrow>
      sorted_wrt (\<lambda>x y. byte_set x \<inter> byte_set y = {}) (map (\<lambda>r. (rr_addr r, rr_width r)) ?regs)"
    using eq by (simp add: sorted_wrt_map sorted_wrt_iff_nth_less)
  then show ?thesis using resolved_layout(1) [OF assms, of lg "class"] overlap_report by simp
qed

text \<open>
  C17: for a class whose registers have at least one byte each and end below \<open>2 ^ 63\<close>, a register
  overlap is reported exactly when two registers of its layout have a byte in common.
\<close>

theorem resolveRegs_overlap_reported:
  assumes "layout_within (2 ^ 63 - 1) dc"
  shows "(\<exists>e. e \<in> set (snd (snd (snd (resolveRegs lg class dc)))) \<and> rerr_kind e = ErrRegisterOverlap) \<longleftrightarrow>
    (\<exists>i j. i < j \<and> j < length (reg_layout 0 (dc_regs dc)) \<and>
       byte_set (reg_layout 0 (dc_regs dc) ! i) \<inter> byte_set (reg_layout 0 (dc_regs dc) ! j) \<noteq> {})"
  using overlap_sets [OF assms] by (auto simp: sorted_wrt_iff_nth_less)

definition touching_regs :: device_class where
  "touching_regs = demo_regs\<lparr>dc_regs :=
     [\<lparr>rg_name = ''A'', rg_addr = Some 4, rg_width = Some 1, rg_mode = [], rg_type = []\<rparr>,
      \<lparr>rg_name = ''B'', rg_addr = Some 1, rg_width = None, rg_mode = [], rg_type = []\<rparr>]\<rparr>"

theorem resolveRegs_overlap_reported_witness:
  "\<exists>e. e \<in> set (snd (snd (snd (resolveRegs ceil_log2 ''c'' touching_regs)))) \<and> rerr_kind e = ErrRegisterOverlap"
proof -
  have lay: "reg_layout 0 (dc_regs touching_regs) = [(4, 1), (1, 4)]"
    by (simp add: touching_regs_def demo_regs_def reg_width_def)
  have "layout_within (2 ^ 63 - 1) touching_regs" by (simp add: layout_within_def lay reg_fits_def)
  moreover have "4 \<in> byte_set (4, 1) \<inter> byte_set (1, 4)" by (simp add: byte_set_def)
  then have "\<exists>i j. i < j \<and> j < length (reg_layout 0 (dc_regs touching_regs)) \<and>
      byte_set (reg_layout 0 (dc_regs touching_regs) ! i) \<inter> byte_set (reg_layout 0 (dc_regs touching_regs) ! j) \<noteq> {}"
    unfolding lay by (intro exI [of _ 0] exI [of _ 1]) auto
  ultimately show ?thesis using resolveRegs_overlap_reported by blast
qed

text \<open>A layout without explicit addresses, by running sums.\<close>

lemma reg_layout_sums:
  assumes "list_all (\<lambda>r. rg_addr r = None) rs"
  shows "reg_layout nx rs = map (\<lambda>i. (nx + sum_list (map reg_width (take i rs)), reg_width (rs ! i))) [0..<length rs]"
  using assms
proof (induction rs arbitrary: nx)
  case Nil
  then show ?case by simp
next
  case (Cons r rs)
  have up: "[0..<length (r # rs)] = 0 # map Suc [0..<length rs]"
    unfolding map_Suc_upt list.size(4) by (simp add: upt_conv_Cons del: upt_Suc)
  from Cons show ?case unfolding up by (simp add: add.assoc)
qed

lemma sum_take_le:
  assumes "list_all (\<lambda>r. 1 \<le> reg_width r) rs" "i < length rs"
  shows "0 \<le> sum_list (map reg_width (take i rs))"
    "sum_list (map reg_width (take i rs)) + reg_width (rs ! i) \<le> sum_list (map reg_width rs)"
proof -
  have pos: "0 \<le> sum_list (map reg_width xs)" if "set xs \<subseteq> set rs" for xs
    using that assms(1) by (intro sum_list_nonneg) (force simp: list_all_iff)
  show "0 \<le> sum_list (map reg_width (take i rs))" by (rule pos) (rule set_take_subset)
  have "rs = take i rs @ rs ! i # drop (Suc i) rs" using assms(2) by (rule id_take_nth_drop)
  then have "sum_list (map reg_width rs) =
      sum_list (map reg_width (take i rs)) + (reg_width (rs ! i) + sum_list (map reg_width (drop (Suc i) rs)))"
    by (metis list.simps(9) map_append sum_list.Cons sum_list_append)
  with pos [of "drop (Suc i) rs"] set_drop_subset [of "Suc i" rs]
  show "sum_list (map reg_width (take i rs)) + reg_width (rs ! i) \<le> sum_list (map reg_width rs)" by simp
qed

lemma auto_layout_within:
  assumes "list_all (\<lambda>r. rg_addr r = None \<and> 1 \<le> reg_width r) (dc_regs dc)" "sum_list (map reg_width (dc_regs dc)) < 2 ^ 63"
  shows "layout_within (2 ^ 63 - 1) dc"
proof -
  have "list_all (\<lambda>r. rg_addr r = None) (dc_regs dc)" and w: "list_all (\<lambda>r. 1 \<le> reg_width r) (dc_regs dc)"
    using assms(1) by (simp_all add: list_all_iff)
  then have l: "reg_layout 0 (dc_regs dc) =
      map (\<lambda>i. (sum_list (map reg_width (take i (dc_regs dc))), reg_width (dc_regs dc ! i))) [0..<length (dc_regs dc)]"
    using reg_layout_sums [of "dc_regs dc" 0] by simp
  show ?thesis
    unfolding layout_within_def l using sum_take_le [OF w] assms(2) w by (fastforce simp: list_all_iff list_all_length reg_fits_def)
qed

lemma disjoint_running_sums:
  assumes "list_all (\<lambda>r. 1 \<le> reg_width r) rs" "list_all (\<lambda>r. rg_addr r = None) rs"
  shows "(\<forall>x \<in> set (reg_layout nx rs). nx \<le> fst x) \<and>
    sorted_wrt (\<lambda>x y. byte_set x \<inter> byte_set y = {}) (reg_layout nx rs)"
  using assms
proof (induction rs arbitrary: nx)
  case Nil
  then show ?case by simp
next
  case (Cons r rs)
  from Cons.IH [of "nx + reg_width r"] Cons.prems show ?case by (fastforce simp: Let_def byte_set_def)
qed

text \<open>
  C18: when no register of a class has an address, every width is at least one byte and the widths
  add up to less than \<open>2 ^ 63\<close>, the registers are laid out back to back from \<open>0\<close>: the address of
  each is the sum of the widths before it, without gaps. No overlap is reported.
\<close>

theorem resolveRegs_auto_layout:
  assumes "list_all (\<lambda>r. rg_addr r = None \<and> 1 \<le> reg_width r) (dc_regs dc)"
    "sum_list (map reg_width (dc_regs dc)) < 2 ^ 63" "resolveRegs lg class dc = (regs, left, rng, errs)"
  shows "map (\<lambda>r. (rr_addr r, rr_width r)) regs =
      map (\<lambda>i. (sum_list (map reg_width (take i (dc_regs dc))), reg_width (dc_regs dc ! i))) [0..<length (dc_regs dc)] \<and>
    ErrRegisterOverlap \<notin> set (map rerr_kind errs)"
proof -
  have w: "layout_within (2 ^ 63 - 1) dc" by (rule auto_layout_within [OF assms(1,2)])
  have a: "list_all (\<lambda>r. rg_addr r = None) (dc_regs dc)" "list_all (\<lambda>r. 1 \<le> reg_width r) (dc_regs dc)"
    using assms(1) by (simp_all add: list_all_iff)
  have "\<not> (\<exists>e. e \<in> set errs \<and> rerr_kind e = ErrRegisterOverlap)"
    using overlap_sets [OF w, of lg "class"] disjoint_running_sums [OF a(2,1), of 0] assms(3) by simp
  with resolved_layout(1) [OF w, of lg "class"] reg_layout_sums [OF a(1), of 0] assms(3)
  show ?thesis by auto
qed

definition auto_regs :: device_class where
  "auto_regs = demo_regs\<lparr>dc_regs :=
     [\<lparr>rg_name = ''A'', rg_addr = None, rg_width = Some 2, rg_mode = [], rg_type = []\<rparr>,
      \<lparr>rg_name = ''B'', rg_addr = None, rg_width = None, rg_mode = [], rg_type = []\<rparr>,
      \<lparr>rg_name = ''C'', rg_addr = None, rg_width = Some 1, rg_mode = [], rg_type = []\<rparr>]\<rparr>"

theorem resolveRegs_auto_layout_witness:
  "map (\<lambda>r. (rr_addr r, rr_width r)) (fst (resolveRegs ceil_log2 ''c'' auto_regs)) = [(0, 2), (2, 4), (6, 1)]"
proof -
  obtain regs left rng errs where r: "resolveRegs ceil_log2 ''c'' auto_regs = (regs, left, rng, errs)"
    by (rule prod_cases4)
  have "list_all (\<lambda>r. rg_addr r = None \<and> 1 \<le> reg_width r) (dc_regs auto_regs)"
    "sum_list (map reg_width (dc_regs auto_regs)) < 2 ^ 63"
    by (simp_all add: auto_regs_def reg_width_def)
  from resolveRegs_auto_layout [OF this r] r show ?thesis
    by (simp add: auto_regs_def reg_width_def upt_rec)
qed

end
