(* ===== verification/Elab_Device.thy ===== *)
theory Elab_Device
  imports Elab_Class
begin

text \<open>
  Model of \<open>src/tools/socgen/elaborate/device.go\<close>: resolving the classes the board uses and its
  devices, with unique device names. Go maps used as sets (\<open>seen\<close>, \<open>used\<close>) are lists of the keys
  that are set; maps used as counters are association lists.
\<close>

section \<open>Unique names\<close>

text \<open>
  \<open>genUniqueName\<close> counts up from 0 until the name is free. The loop has no bound in the code; it
  ends because the used names are finitely many and the candidates are pairwise different.
\<close>

definition taken_from :: "string \<Rightarrow> string list \<Rightarrow> nat \<Rightarrow> nat set" where
  "taken_from class used i = {j. i \<le> j \<and> class @ nat_str j \<in> set used}"

lemma finite_taken_from: "finite (taken_from class used i)"
proof -
  have "taken_from class used i \<subseteq> (\<lambda>j. class @ nat_str j) -` set used"
    by (auto simp: taken_from_def)
  moreover have "inj (\<lambda>j. class @ nat_str j)" by (rule injI) simp
  then have "finite ((\<lambda>j. class @ nat_str j) -` set used)" by (rule finite_vimageI [OF finite_set])
  ultimately show ?thesis by (rule finite_subset)
qed

function unique_from :: "string \<Rightarrow> string list \<Rightarrow> nat \<Rightarrow> string" where
  "unique_from class used i =
     (if class @ nat_str i \<in> set used then unique_from class used (Suc i) else class @ nat_str i)"
  by pat_completeness auto
termination
proof (relation "measure (\<lambda>(class, used, i). card (taken_from class used i))", goal_cases)
  case 1
  then show ?case by simp
next
  case (2 cls used i)
  then have "i \<in> taken_from cls used i" "i \<notin> taken_from cls used (Suc i)"
    by (auto simp: taken_from_def)
  moreover have "taken_from cls used (Suc i) \<subseteq> taken_from cls used i"
    by (auto simp: taken_from_def)
  ultimately have "taken_from cls used (Suc i) \<subset> taken_from cls used i" by blast
  then show ?case by (simp add: psubset_card_mono finite_taken_from)
qed

declare unique_from.simps [simp del]

definition genUniqueName :: "string \<Rightarrow> string list \<Rightarrow> string" where
  "genUniqueName class used = unique_from class used 0"

lemma unique_from_fresh: "unique_from cls used i \<notin> set used"
proof (induction cls used i rule: unique_from.induct)
  case (1 cls used i)
  then show ?case by (subst unique_from.simps) simp
qed

section \<open>Counting\<close>

definition bump :: "string \<Rightarrow> nat strmap \<Rightarrow> nat strmap" where
  "bump k m = AList.update k ((case map_of m k of Some n \<Rightarrow> n | None \<Rightarrow> 0) + 1) m"

definition classCounts :: "device list \<Rightarrow> nat strmap" where
  "classCounts devs = fold (\<lambda>dev m. bump (lc (dev_class dev)) m) devs []"

definition nameCounts :: "device list \<Rightarrow> nat strmap" where
  "nameCounts devs = fold (\<lambda>dev m. if dev_name dev \<noteq> [] then bump (dev_name dev) m else m) devs []"

definition count_of :: "nat strmap \<Rightarrow> string \<Rightarrow> nat" where
  "count_of m k = (case map_of m k of Some n \<Rightarrow> n | None \<Rightarrow> 0)"

section \<open>Resolving the devices\<close>

definition device_ctx :: "string \<Rightarrow> string" where
  "device_ctx n = ''device '' @ go_quote n"

definition duplicate_errs :: "nat strmap \<Rightarrow> resolve_error list" where
  "duplicate_errs counts =
     map (\<lambda>(n, c). mk_err ErrDuplicateName (device_ctx n) n
            (''multiple devices named '' @ go_quote n @ ''; names must be unique''))
       (filter (\<lambda>(n, c). c > 1) counts)"

text \<open>The name of one device, given the names used so far.\<close>

definition deviceName :: "nat strmap \<Rightarrow> device \<Rightarrow> string list \<Rightarrow> string" where
  "deviceName classCount dev used =
     (if dev_name dev \<noteq> [] then dev_name dev
      else if count_of classCount (lc (dev_class dev)) = 1 \<and> dev_class dev \<notin> set used then dev_class dev
      else genUniqueName (dev_class dev) used)"

text \<open>Class generics overridden by the device's own.\<close>

definition effectiveGenerics :: "resolved_class option \<Rightarrow> device \<Rightarrow> go_value strmap" where
  "effectiveGenerics rco dev =
     fold (\<lambda>(k, v) m. AList.update k v m) (dev_generics dev)
       (fold (\<lambda>(k, v) m. AList.update k v m)
          (case rco of Some rc \<Rightarrow> rc_generics rc | None \<Rightarrow> []) [])"

definition class_entity :: "resolved_class option \<Rightarrow> entity option" where
  "class_entity rco = (case rco of Some rc \<Rightarrow> rc_entity rc | None \<Rightarrow> None)"

definition generic_errs :: "string \<Rightarrow> go_value strmap \<Rightarrow> entity option \<Rightarrow> resolve_error list" where
  "generic_errs name generics eo =
     (case eo of None \<Rightarrow> []
      | Some e \<Rightarrow>
          map (\<lambda>(k, v). mk_err ErrUnknownGeneric (device_ctx name) k
                 (''unknown generic '' @ go_quote k @ '' for entity '' @ go_quote (en_name e)))
            (filter (\<lambda>(k, v). lc k \<notin> set (map (\<lambda>g. lc (ig_name g)) (en_generics e))) generics))"

definition genericTypes :: "go_value strmap \<Rightarrow> entity option \<Rightarrow> resolved_type strmap" where
  "genericTypes generics eo =
     (case eo of None \<Rightarrow> []
      | Some e \<Rightarrow>
          let env = genericEnv generics (Some e)
          in fold (\<lambda>g m. AList.update (lc (ig_name g))
                 (resolveType (tr_mark (ig_type g)) (tr_constraint (ig_type g)) env) m)
               (en_generics e) [])"

definition resolveDevice ::
    "nat strmap \<Rightarrow> resolved_class strmap \<Rightarrow> device \<Rightarrow> string list \<Rightarrow> resolved_device \<times> resolve_error list" where
  "resolveDevice classCount classes dev used =
     (let name = deviceName classCount dev used;
          rco = map_of classes (lc (dev_class dev));
          generics = effectiveGenerics rco dev;
          eo = class_entity rco
      in (\<lparr>rd_name = name, rd_class = dev_class dev, rd_generics = generics,
           rd_base_addr = dev_base_addr dev, rd_ports = [], rd_data_bus = False,
           rd_generic_types = genericTypes generics eo\<rparr>,
          generic_errs name generics eo))"

fun resolveDeviceList ::
    "nat strmap \<Rightarrow> resolved_class strmap \<Rightarrow> device list \<Rightarrow> string list \<Rightarrow>
     resolved_device list \<times> resolve_error list" where
  "resolveDeviceList cc classes [] used = ([], [])"
| "resolveDeviceList cc classes (dev # devs) used =
     (case resolveDevice cc classes dev used of
        (rd, es) \<Rightarrow>
          (case resolveDeviceList cc classes devs (rd_name rd # used) of
             (rds, es') \<Rightarrow> (rd # rds, es @ es')))"

definition resolveDevices ::
    "design \<Rightarrow> resolved_class strmap \<Rightarrow> resolved_device list \<times> resolve_error list" where
  "resolveDevices d classes =
     (let nameCount = nameCounts (d_devices d) in
      case resolveDeviceList (classCounts (d_devices d)) classes (d_devices d) (map fst nameCount) of
        (rds, es) \<Rightarrow> (rds, duplicate_errs nameCount @ es))"

section \<open>Resolving the classes\<close>

text \<open>The class of a device by name, else any class whose name is the same up to case.\<close>

definition findClass :: "device_class strmap \<Rightarrow> string \<Rightarrow> device_class option" where
  "findClass m class =
     (case map_of m class of
        Some c \<Rightarrow> Some c
      | None \<Rightarrow> map_option snd (List.find (\<lambda>(cn, c). lc cn = lc class) m))"

fun resolveClasses :: "(int \<Rightarrow> int) \<Rightarrow> design \<Rightarrow> library \<Rightarrow> device list \<Rightarrow> string list \<Rightarrow> resolved_class strmap \<Rightarrow>
    resolved_class strmap \<times> resolve_error list" where
  "resolveClasses lg d l [] seen acc = (acc, [])"
| "resolveClasses lg d l (dev # devs) seen acc =
     (let key = lc (dev_class dev) in
      if key \<in> set seen then resolveClasses lg d l devs seen acc
      else (case findClass (d_device_classes d) (dev_class dev) of
              None \<Rightarrow>
                (case resolveClasses lg d l devs (key # seen) acc of
                   (acc', es) \<Rightarrow>
                     (acc', mk_err ErrUnknownClass (device_ctx (dev_name dev)) (dev_class dev)
                              (''unknown class '' @ go_quote (dev_class dev)) # es))
            | Some dc \<Rightarrow>
                (case resolveClass lg (dev_class dev) dc (Some l) of
                   (rc, es) \<Rightarrow>
                     (case resolveClasses lg d l devs (key # seen) (AList.update key rc acc) of
                        (acc', es') \<Rightarrow> (acc', es @ es')))))"

definition empty_resolution :: resolution where
  "empty_resolution = \<lparr>res_classes = [], res_devices = [], res_top_entities = [],
     res_padring_entities = [], res_signals = [], res_pins = [], res_entity_bound_pads = [],
     res_data_bus = None\<rparr>"

text \<open>The board is its design and its library; either may be nil.\<close>

definition Devices :: "(int \<Rightarrow> int) \<Rightarrow> design option \<Rightarrow> library option \<Rightarrow> resolution \<times> resolve_error list" where
  "Devices lg dsg lo =
     (case (dsg, lo) of
        (Some d, Some l) \<Rightarrow>
          (case resolveClasses lg d l (d_devices d) [] [] of
             (classes, es) \<Rightarrow>
               (case resolveDevices d classes of
                  (devs, es') \<Rightarrow>
                    (empty_resolution\<lparr>res_classes := classes, res_devices := devs\<rparr>, es @ es')))
      | _ \<Rightarrow> (empty_resolution, []))"

section \<open>Facts about names\<close>

lemma map_fst_update_subset: "set (map fst (AList.update k v m)) = insert k (set (map fst m))"
  by (simp add: dom_update [folded dom_map_of_conv_image_fst] dom_map_of_conv_image_fst [symmetric])

lemma fold_bump_keys:
  "set (map fst (fold (\<lambda>dev m. if P dev then bump (f dev) m else m) devs m)) =
     set (map fst m) \<union> f ` {dev \<in> set devs. P dev}"
proof (induction devs arbitrary: m)
  case Nil
  then show ?case by simp
next
  case (Cons dev devs)
  have "set (map fst (bump k m)) = insert k (set (map fst m))" for k
    unfolding bump_def by (rule map_fst_update_subset)
  with Cons show ?case by auto
qed

lemma nameCounts_keys:
  "set (map fst (nameCounts devs)) = dev_name ` {dev \<in> set devs. dev_name dev \<noteq> []}"
  unfolding nameCounts_def fold_bump_keys [of "\<lambda>dev. dev_name dev \<noteq> []" dev_name] by simp

lemma count_bump: "count_of (bump k m) n = count_of m n + (if n = k then 1 else 0)"
  by (simp add: bump_def count_of_def)

lemma count_nameCounts:
  "n \<noteq> [] \<Longrightarrow> count_of (nameCounts devs) n = length (filter (\<lambda>d. dev_name d = n) devs)"
proof -
  assume n: "n \<noteq> []"
  have "count_of (fold (\<lambda>dev m. if dev_name dev \<noteq> [] then bump (dev_name dev) m else m) devs m) n =
      count_of m n + length (filter (\<lambda>d. dev_name d = n) devs)" for m
    using n by (induction devs arbitrary: m) (auto simp: count_bump)
  then show ?thesis by (simp add: nameCounts_def count_of_def)
qed

lemma distinct_bump: "distinct (map fst m) \<Longrightarrow> distinct (map fst (bump k m))"
  unfolding bump_def by (rule distinct_update_fst)

lemma distinct_nameCounts: "distinct (map fst (nameCounts devs))"
proof -
  have "distinct (map fst m) \<Longrightarrow>
      distinct (map fst (fold (\<lambda>dev m. if dev_name dev \<noteq> [] then bump (dev_name dev) m else m) devs m))" for m
    by (induction devs arbitrary: m) (auto simp del: distinct_map simp: distinct_bump)
  then show ?thesis by (simp add: nameCounts_def)
qed

lemma duplicate_errs_Nil:
  "duplicate_errs (nameCounts devs) = [] \<longleftrightarrow>
     (\<forall>n. n \<noteq> [] \<longrightarrow> length (filter (\<lambda>d. dev_name d = n) devs) \<le> 1)"
proof -
  have key: "(n, c) \<in> set (nameCounts devs) \<longleftrightarrow> map_of (nameCounts devs) n = Some c" for n c
    using distinct_nameCounts by (simp add: map_of_eq_Some_iff)
  have nonempty: "n \<noteq> []" if "map_of (nameCounts devs) n = Some c" for n c
    using that nameCounts_keys [of devs] by (force simp: key [symmetric])
  have "duplicate_errs (nameCounts devs) = [] \<longleftrightarrow>
      (\<forall>n c. map_of (nameCounts devs) n = Some c \<longrightarrow> c \<le> 1)"
    by (simp add: duplicate_errs_def filter_empty_conv key [symmetric] not_less split_beta) force
  also have "\<dots> \<longleftrightarrow> (\<forall>n. n \<noteq> [] \<longrightarrow> count_of (nameCounts devs) n \<le> 1)"
    using nonempty by (auto simp: count_of_def split: option.split)
  finally show ?thesis by (simp add: count_nameCounts)
qed

text \<open>
  The names given so far and the explicit names still to come are all used, so a generated
  name never meets either.
\<close>

lemma resolveDeviceList_names:
  assumes "dev_name ` {d \<in> set devs. dev_name d \<noteq> []} \<subseteq> set used"
  shows "length (fst (resolveDeviceList cc classes devs used)) = length devs \<and>
    (\<forall>i < length devs.
       (dev_name (devs ! i) \<noteq> [] \<longrightarrow>
          rd_name (fst (resolveDeviceList cc classes devs used) ! i) = dev_name (devs ! i)) \<and>
       (dev_name (devs ! i) = [] \<longrightarrow>
          rd_name (fst (resolveDeviceList cc classes devs used) ! i) \<notin> set used \<and>
          (\<forall>j < i. rd_name (fst (resolveDeviceList cc classes devs used) ! j) \<noteq>
             rd_name (fst (resolveDeviceList cc classes devs used) ! i))))"
  using assms
proof (induction devs arbitrary: used)
  case Nil
  then show ?case by simp
next
  case (Cons d ds)
  obtain rd es where r: "resolveDevice cc classes d used = (rd, es)" by (rule prod.exhaust)
  obtain rds es' where l: "resolveDeviceList cc classes ds (rd_name rd # used) = (rds, es')"
    by (rule prod.exhaust)
  have name: "rd_name rd = deviceName cc d used"
    using r by (auto simp: resolveDevice_def Let_def)
  then have hd: "dev_name d \<noteq> [] \<longrightarrow> rd_name rd = dev_name d"
    "dev_name d = [] \<longrightarrow> rd_name rd \<notin> set used"
    by (auto simp: deviceName_def genUniqueName_def unique_from_fresh)
  have "dev_name ` {d \<in> set ds. dev_name d \<noteq> []} \<subseteq> set (rd_name rd # used)"
    using Cons.prems by auto
  note IH = Cons.IH [OF this, unfolded l fst_conv]
  have eq: "fst (resolveDeviceList cc classes (d # ds) used) = rd # rds" by (simp add: r l)
  show ?case
    unfolding eq
  proof (intro conjI allI impI)
    show "length (rd # rds) = length (d # ds)"
      using IH by simp
  next
    fix i assume "i < length (d # ds)" "dev_name ((d # ds) ! i) \<noteq> []"
    then show "rd_name ((rd # rds) ! i) = dev_name ((d # ds) ! i)"
      using IH hd by (cases i) simp_all
  next
    fix i assume "i < length (d # ds)" "dev_name ((d # ds) ! i) = []"
    then show "rd_name ((rd # rds) ! i) \<notin> set used"
      using IH hd by (cases i) simp_all
  next
    fix i j assume "i < length (d # ds)" "dev_name ((d # ds) ! i) = []" "j < i"
    then show "rd_name ((rd # rds) ! j) \<noteq>
        rd_name ((rd # rds) ! i)"
      using IH by (cases i; cases j) auto
  qed
qed

lemma resolveDevices_names_distinct:
  assumes "duplicate_errs (nameCounts (d_devices d)) = []"
  shows "distinct (map rd_name (fst (resolveDevices d classes)))"
proof -
  let ?devs = "d_devices d" and ?used = "map fst (nameCounts (d_devices d))"
  let ?rds = "fst (resolveDeviceList (classCounts ?devs) classes ?devs ?used)"
  have eq: "fst (resolveDevices d classes) = ?rds"
    by (simp add: resolveDevices_def Let_def split_beta)
  have used: "dev_name ` {d \<in> set ?devs. dev_name d \<noteq> []} = set ?used"
    by (rule nameCounts_keys [symmetric])
  note N = resolveDeviceList_names [OF equalityD1 [OF used], of "classCounts ?devs" classes]
  have neq: "rd_name (?rds ! i) \<noteq> rd_name (?rds ! j)" if ij: "i < j" "j < length ?devs" for i j
  proof (cases "dev_name (?devs ! j) = []")
    case True
    then show ?thesis using N ij by auto
  next
    case j: False
    then have nj: "rd_name (?rds ! j) = dev_name (?devs ! j)" using N ij by auto
    show ?thesis
    proof (cases "dev_name (?devs ! i) = []")
      case True
      then have "rd_name (?rds ! i) \<notin> set ?used" using N ij by auto
      moreover have "dev_name (?devs ! j) \<in> set ?used" using used ij j by auto
      ultimately show ?thesis using nj by metis
    next
      case False
      then have ni: "rd_name (?rds ! i) = dev_name (?devs ! i)" using N ij by auto
      have "dev_name (?devs ! i) \<noteq> dev_name (?devs ! j)"
      proof
        assume same: "dev_name (?devs ! i) = dev_name (?devs ! j)"
        let ?P = "\<lambda>d. dev_name d = dev_name (?devs ! j)"
        have "{i, j} \<subseteq> {k. k < length ?devs \<and> ?P (?devs ! k)}" using ij same by auto
        then have "card {i, j} \<le> card {k. k < length ?devs \<and> ?P (?devs ! k)}"
          by (intro card_mono) auto
        with ij have "2 \<le> length (filter ?P ?devs)" by (simp add: length_filter_conv_card)
        with assms j show False by (auto simp: duplicate_errs_Nil)
      qed
      with ni nj show ?thesis by simp
    qed
  qed
  have "distinct (map rd_name ?rds)"
    unfolding distinct_conv_nth
  proof (intro allI impI)
    fix i j assume "i < length (map rd_name ?rds)" "j < length (map rd_name ?rds)" "i \<noteq> j"
    moreover from \<open>i \<noteq> j\<close> have "i < j \<or> j < i" by linarith
    ultimately show "map rd_name ?rds ! i \<noteq> map rd_name ?rds ! j" using N neq [of i j] neq [of j i] by auto
  qed
  with eq show ?thesis by simp
qed

section \<open>Properties\<close>

text \<open>
  C6: when no duplicate name is reported, the resolved devices have pairwise different names, so
  generated names never collide with given ones.
\<close>

theorem resolveDevices_unique_names:
  assumes "\<forall>e \<in> set (snd (resolveDevices d classes)). rerr_kind e \<noteq> ErrDuplicateName"
  shows "distinct (map rd_name (fst (resolveDevices d classes)))"
proof (rule resolveDevices_names_distinct, rule ccontr)
  assume "duplicate_errs (nameCounts (d_devices d)) \<noteq> []"
  then obtain e where e: "e \<in> set (duplicate_errs (nameCounts (d_devices d)))"
    by (meson list.set_sel(1))
  then have "rerr_kind e = ErrDuplicateName" by (auto simp: duplicate_errs_def mk_err_def)
  moreover have "e \<in> set (snd (resolveDevices d classes))"
    using e by (simp add: resolveDevices_def Let_def split_beta)
  ultimately show False using assms by blast
qed

definition demo_dev :: "string \<Rightarrow> string \<Rightarrow> device" where
  "demo_dev c n = \<lparr>dev_class = c, dev_name = n, dev_cpu = None, dev_base_addr = None, dev_irq = None,
     dev_generics = [], dev_ports = [], dev_dt_props = [],
     dev_dt_stdout = False, dev_dt_label = [], dev_dt_node = None\<rparr>"

definition demo_design :: "device list \<Rightarrow> design" where
  "demo_design ds = \<lparr>d_target = ''demo'', d_device_classes = [], d_devices = ds, d_top_entities = [],
     d_padring_entities = [], d_merge_signals = [], d_zero_signals = [], d_bus_word = [], d_bus_word_loopback_ack = [], d_irq = [],
     d_pins = None,
     d_peripheral_buses = [], d_system = None, d_cpu = None,
     d_plugins = []\<rparr>"

theorem resolveDevices_unique_names_witness:
  "distinct (map rd_name (fst (resolveDevices
     (demo_design [demo_dev ''uart'' [], demo_dev ''uart'' ''uart0'', demo_dev ''UART'' [], demo_dev ''gpio'' []]) [])))"
proof (rule resolveDevices_unique_names)
  have "snd (resolveDevices
     (demo_design [demo_dev ''uart'' [], demo_dev ''uart'' ''uart0'', demo_dev ''UART'' [], demo_dev ''gpio'' []]) []) = []"
    by code_simp
  then show "\<forall>e \<in> set (snd (resolveDevices
     (demo_design [demo_dev ''uart'' [], demo_dev ''uart'' ''uart0'', demo_dev ''UART'' [], demo_dev ''gpio'' []]) [])).
     rerr_kind e \<noteq> ErrDuplicateName" by simp
qed

end
