(* ===== verification/Elab_Port.thy ===== *)
theory Elab_Port
  imports Elab_Class
begin

text \<open>
  Model of \<open>src/tools/socgen/elaborate/port.go\<close> (but for \<open>genericEnv\<close>, which is in \<open>Elab_Eval\<close>) and
  of \<open>entity.go\<close>: the ports of a device or an entity with their signal names.

  The set of explicitly mapped port names (\<open>explicit\<close>, a Go map that only ever holds \<open>true\<close>) is a
  list of names, in the order of insertion.
\<close>

section \<open>Merged signal names\<close>

text \<open>\<open>reverseMerge\<close>: ranges over a Go map, in the order of the list.\<close>

definition reverseMerge :: "string list strmap \<Rightarrow> string strmap" where
  "reverseMerge m =
     fold (\<lambda>(target, aliases) out. fold (\<lambda>a out. AList.update a target out) aliases out) m []"

definition mergeName :: "string \<Rightarrow> string strmap \<Rightarrow> string" where
  "mergeName s merge = (case map_of merge s of Some t \<Rightarrow> t | None \<Rightarrow> s)"

definition hasKey :: "string list \<Rightarrow> string \<Rightarrow> bool" where
  "hasKey m k \<longleftrightarrow> k \<in> set m"

definition isCharLiteral :: "string \<Rightarrow> bool" where
  "isCharLiteral s \<longleftrightarrow> length s = 3 \<and> s ! 0 = CHR 0x27 \<and> s ! 2 = CHR 0x27"

section \<open>One port\<close>

text \<open>The name of a port that the specification does not mention.\<close>

definition default_signal :: "string \<Rightarrow> if_port \<Rightarrow> string strmap \<Rightarrow> bool \<Rightarrow> string" where
  "default_signal devName p merge bareDefault =
     (let local = (if ip_local_name p \<noteq> [] then ip_local_name p else ip_name p);
          def = devName @ ''_'' @ local
      in if bareDefault \<and> mergeName def merge \<noteq> def then mergeName def merge
         else if bareDefault then mergeName local merge
         else mergeName def merge)"

text \<open>The body of the loop of \<open>buildPorts\<close>: the port, and the names mapped explicitly so far.\<close>

definition buildPort :: "string \<Rightarrow> if_port \<Rightarrow> go_value strmap \<Rightarrow> int_env \<Rightarrow> string strmap \<Rightarrow> bool \<Rightarrow>
    library option \<Rightarrow> string list \<Rightarrow> resolved_port \<times> string list" where
  "buildPort devName p spec env merge bareDefault lo explicit =
     (let rp = \<lparr>rp_name = ip_name p, rp_dir = ip_dir p,
                rp_type = Some (resolveType (tr_mark (ip_type p)) (tr_constraint (ip_type p)) env),
                rp_kind = KindSignal, rp_global_signal = [], rp_value = None\<rparr>;
          (rp1, explicit1) =
            (case map_of spec (ip_name p) of
               None \<Rightarrow>
                 if ip_global_name p \<noteq> []
                 then (rp\<lparr>rp_global_signal := mergeName (ip_global_name p) merge\<rparr>, ip_name p # explicit)
                 else (rp\<lparr>rp_global_signal := default_signal devName p merge bareDefault\<rparr>, explicit)
             | Some v \<Rightarrow>
                 if v_kind v = KindMap
                 then (rp\<lparr>rp_kind := (if hasKey (v_map v) ''irq?'' then KindIRQ
                                      else if hasKey (v_map v) ''data-bus'' then KindDataBus
                                      else KindDeferred)\<rparr>, explicit)
                 else if v_kind v = KindExpr
                 then (if isCharLiteral (v_text v) \<or> IsConstant lo (v_text v)
                       then (rp\<lparr>rp_kind := KindValue, rp_value := Some v\<rparr>, explicit)
                       else (rp\<lparr>rp_global_signal := mergeName (v_text v) merge\<rparr>, ip_name p # explicit))
                 else (rp\<lparr>rp_kind := KindValue, rp_value := Some v\<rparr>, explicit));
          rp2 = (if ip_irq p \<and> rp_kind rp1 = KindSignal \<and> ip_name p \<notin> set explicit1
                 then rp1\<lparr>rp_kind := KindIRQ, rp_global_signal := []\<rparr> else rp1)
      in (rp2, explicit1))"

section \<open>The clock and reset heuristic\<close>

definition open_port :: "string list \<Rightarrow> resolved_port \<Rightarrow> bool" where
  "open_port explicit p \<longleftrightarrow> rp_kind p = KindSignal \<and> rp_name p \<notin> set explicit"

text \<open>The closure \<open>apply\<close>: the index of the one candidate, if there is exactly one hit.\<close>

definition apply_target :: "string \<Rightarrow> string list \<Rightarrow> string list \<Rightarrow> string strmap \<Rightarrow>
    resolved_port list \<Rightarrow> resolved_port list" where
  "apply_target target cands explicit merge ports =
     (case concat (map (\<lambda>i. if open_port explicit (ports ! i)
                            then map (\<lambda>c. i) (filter (\<lambda>c. lc (rp_name (ports ! i)) = c) cands) else [])
             [0 ..< length ports]) of
        [i] \<Rightarrow>
          let tgt = mergeName target merge
          in if \<exists>p \<in> set ports. open_port explicit p \<and> rp_global_signal p = tgt then ports
             else ports[i := (ports ! i)\<lparr>rp_global_signal := tgt\<rparr>]
      | _ \<Rightarrow> ports)"

definition applyClkRstHeuristic ::
    "resolved_port list \<Rightarrow> string list \<Rightarrow> string strmap \<Rightarrow> resolved_port list" where
  "applyClkRstHeuristic ports explicit merge =
     apply_target ''reset'' [''rst'', ''reset''] explicit merge
       (apply_target ''clk_sys'' [''clk'', ''clk_bus''] explicit merge ports)"

fun buildPortList :: "string \<Rightarrow> if_port list \<Rightarrow> go_value strmap \<Rightarrow> int_env \<Rightarrow> string strmap \<Rightarrow> bool \<Rightarrow>
    library option \<Rightarrow> string list \<Rightarrow> resolved_port list \<times> string list" where
  "buildPortList devName [] spec env merge bareDefault lo explicit = ([], explicit)"
| "buildPortList devName (p # ps) spec env merge bareDefault lo explicit =
     (case buildPort devName p spec env merge bareDefault lo explicit of
        (rp, explicit1) \<Rightarrow>
          (case buildPortList devName ps spec env merge bareDefault lo explicit1 of
             (rps, explicit2) \<Rightarrow> (rp # rps, explicit2)))"

definition buildPorts :: "string \<Rightarrow> entity option \<Rightarrow> go_value strmap \<Rightarrow> int_env \<Rightarrow> string strmap \<Rightarrow> bool \<Rightarrow>
    library option \<Rightarrow> resolved_port list" where
  "buildPorts devName ent spec env merge bareDefault lo =
     (case ent of None \<Rightarrow> []
      | Some e \<Rightarrow>
          (case buildPortList devName (en_ports e) spec env merge bareDefault lo [] of
             (ports, explicit) \<Rightarrow> applyClkRstHeuristic ports explicit merge))"

section \<open>Top-level and pad-ring entities\<close>

definition resolveEntity :: "string \<Rightarrow> string \<Rightarrow> top_entity \<Rightarrow> library option \<Rightarrow> string strmap \<Rightarrow>
    resolved_entity \<times> resolve_error list" where
  "resolveEntity kd name te lo merge =
     (let entityName = (if lc (te_entity te) = [] then name else te_entity te);
          ch = chooseArch (kd @ ''-entity '' @ go_quote name) entityName (te_architecture te)
                 (te_configuration te) lo;
          env = genericEnv (te_generics te) (ac_entity ch)
      in (\<lparr>re_name = name, re_entity = ac_entity ch, re_arch_name = ac_arch ch, re_config = ac_config ch,
           re_ports = buildPorts name (ac_entity ch) (te_ports te) env merge True lo,
           re_generics = te_generics te\<rparr>,
          case ac_error ch of Some e \<Rightarrow> [e] | None \<Rightarrow> []))"

definition sortedTopKeys :: "top_entity strmap \<Rightarrow> string list" where
  "sortedTopKeys m = sorted_keys m"

definition resolveEntities :: "string \<Rightarrow> top_entity strmap \<Rightarrow> library option \<Rightarrow> string strmap \<Rightarrow>
    resolved_entity strmap \<times> resolve_error list" where
  "resolveEntities kd ents lo merge =
     fold (\<lambda>name (out, errs).
         (case map_of ents name of
            None \<Rightarrow> (out, errs)
          | Some te \<Rightarrow> (case resolveEntity kd name te lo merge of
                          (re, e) \<Rightarrow> (AList.update name re out, errs @ e))))
       (sortedTopKeys ents) ([], [])"

section \<open>Facts\<close>

text \<open>What the loop fixes of each port: the name, the direction and the type of the entity's port.\<close>

definition port_shape :: "int_env \<Rightarrow> if_port \<Rightarrow> string \<times> string \<times> resolved_type option" where
  "port_shape env p = (ip_name p, ip_dir p,
     Some (resolveType (tr_mark (ip_type p)) (tr_constraint (ip_type p)) env))"

definition rp_shape :: "resolved_port \<Rightarrow> string \<times> string \<times> resolved_type option" where
  "rp_shape p = (rp_name p, rp_dir p, rp_type p)"

text \<open>A port is wired one way: by a signal, by a value, or by neither when its kind is special.\<close>

definition port_wf :: "resolved_port \<Rightarrow> bool" where
  "port_wf p \<longleftrightarrow> (rp_value p \<noteq> None \<longleftrightarrow> rp_kind p = KindValue) \<and>
     (rp_global_signal p \<noteq> [] \<longrightarrow> rp_kind p = KindSignal)"

lemma buildPort_shape:
  "rp_shape (fst (buildPort dn p spec env merge bare lo ex)) = port_shape env p"
  by (auto simp: buildPort_def rp_shape_def port_shape_def Let_def split: option.split)

lemma buildPort_wf: "port_wf (fst (buildPort dn p spec env merge bare lo ex))"
  by (auto simp: buildPort_def port_wf_def Let_def split: option.split)

lemma buildPortList_facts:
  "map rp_shape (fst (buildPortList dn ps spec env merge bare lo ex)) = map (port_shape env) ps \<and>
   (\<forall>p \<in> set (fst (buildPortList dn ps spec env merge bare lo ex)). port_wf p)"
proof (induction ps arbitrary: ex)
  case Nil
  then show ?case by simp
next
  case (Cons p ps)
  obtain rp ex1 where b: "buildPort dn p spec env merge bare lo ex = (rp, ex1)" by (rule prod.exhaust)
  obtain rps ex2 where l: "buildPortList dn ps spec env merge bare lo ex1 = (rps, ex2)"
    by (rule prod.exhaust)
  show ?case
    using Cons [of ex1] buildPort_shape [of dn p spec env merge bare lo ex]
      buildPort_wf [of dn p spec env merge bare lo ex]
    by (simp add: b l)
qed

lemma apply_target_cases:
  "apply_target t cs ex merge ports = ports \<or>
   (\<exists>i < length ports. open_port ex (ports ! i) \<and> lc (rp_name (ports ! i)) \<in> set cs \<and>
      (\<forall>p \<in> set ports. open_port ex p \<longrightarrow> rp_global_signal p \<noteq> mergeName t merge) \<and>
      apply_target t cs ex merge ports =
        ports[i := (ports ! i)\<lparr>rp_global_signal := mergeName t merge\<rparr>])"
proof -
  let ?h = "concat (map (\<lambda>i. if open_port ex (ports ! i)
      then map (\<lambda>c. i) (filter (\<lambda>c. lc (rp_name (ports ! i)) = c) cs) else []) [0 ..< length ports])"
  have mem: "i < length ports \<and> open_port ex (ports ! i) \<and> lc (rp_name (ports ! i)) \<in> set cs"
    if "?h = [i]" for i
  proof -
    have "i \<in> set ?h" using that by (simp only: list.set_intros)
    then show ?thesis by (auto split: if_splits)
  qed
  show ?thesis
  proof (cases "\<exists>i. ?h = [i]")
    case True
    then obtain i where h: "?h = [i]" by blast
    show ?thesis
      using mem [OF h] unfolding apply_target_def h Let_def by auto
  next
    case False
    then have "apply_target t cs ex merge ports = ports"
      unfolding apply_target_def by (auto split: list.split)
    then show ?thesis by blast
  qed
qed

lemma apply_target_facts:
  "map rp_shape (apply_target t cs ex merge ports) = map rp_shape ports"
  "\<forall>p \<in> set ports. port_wf p \<Longrightarrow> \<forall>p \<in> set (apply_target t cs ex merge ports). port_wf p"
proof -
  consider "apply_target t cs ex merge ports = ports"
    | i where "i < length ports" "open_port ex (ports ! i)"
      "apply_target t cs ex merge ports = ports[i := (ports ! i)\<lparr>rp_global_signal := mergeName t merge\<rparr>]"
    using apply_target_cases [of t cs ex merge ports] by blast
  note c = this
  from c show "map rp_shape (apply_target t cs ex merge ports) = map rp_shape ports"
  proof cases
    case 2
    then show ?thesis
      by (simp add: map_update) (simp add: rp_shape_def list_update_same_conv)
  qed simp
  assume wf: "\<forall>p \<in> set ports. port_wf p"
  from c show "\<forall>p \<in> set (apply_target t cs ex merge ports). port_wf p"
  proof cases
    case 2
    then have "port_wf ((ports ! i)\<lparr>rp_global_signal := mergeName t merge\<rparr>)"
      using wf by (auto simp: port_wf_def open_port_def)
    with 2 wf show ?thesis by (auto dest: set_update_subset_insert [THEN subsetD])
  qed (use wf in simp)
qed

text \<open>
  C19: \<open>buildPorts\<close> gives every port of the entity, in order, with the name, direction and resolved
  type of the declaration, and each is wired in one way only: a value makes a value port, and
  only signal ports carry a signal name.
\<close>

theorem buildPorts_wellformed:
  "map rp_shape (buildPorts dn (Some e) spec env merge bare lo) = map (port_shape env) (en_ports e) \<and>
   list_all port_wf (buildPorts dn (Some e) spec env merge bare lo)"
proof -
  obtain ports ex where b: "buildPortList dn (en_ports e) spec env merge bare lo [] = (ports, ex)"
    by (rule prod.exhaust)
  note f = buildPortList_facts [of dn "en_ports e" spec env merge bare lo "[]", unfolded b fst_conv]
  then have wf: "\<forall>p \<in> set ports. port_wf p" by blast
  show ?thesis
    using f apply_target_facts(2) [OF apply_target_facts(2) [OF wf]]
    by (simp add: buildPorts_def b applyClkRstHeuristic_def apply_target_facts(1) list_all_iff)
qed

end
