(* ===== verification/Elab_Databus.thy ===== *)
theory Elab_Databus
  imports Elab_Class
begin

text \<open>
  Model of \<open>src/tools/socgen/elaborate/databus.go\<close>: which devices are on the peripheral data bus,
  and the chain of multiplexers between the bus masters.
\<close>

section \<open>Classifying the ports\<close>

definition dataBusInType :: string where "dataBusInType = ''cpu_data_i_t''"
definition dataBusOutType :: string where "dataBusOutType = ''cpu_data_o_t''"

definition port_mark :: "resolved_port \<Rightarrow> string option" where
  "port_mark p = map_option (\<lambda>t. lc (rt_mark t)) (rp_type p)"

definition read_out :: "resolved_port \<Rightarrow> bool" where
  "read_out p \<longleftrightarrow> port_mark p = Some dataBusInType \<and> rp_dir p = dirOut"

definition write_in :: "resolved_port \<Rightarrow> bool" where
  "write_in p \<longleftrightarrow> port_mark p = Some dataBusOutType \<and> rp_dir p = dirIn"

text \<open>The body of the loop for one device: the updated device and its error.\<close>

definition classifyDevice :: "resolved_device \<Rightarrow> resolved_device \<times> resolve_error list" where
  "classifyDevice dev =
     (let r = length (filter read_out (rd_ports dev)); w = length (filter write_in (rd_ports dev))
      in if r = 0 \<and> w = 0 then (dev, [])
         else if r = 1 \<and> w = 1
         then (dev\<lparr>rd_ports := map (\<lambda>p. if read_out p \<or> write_in p then p\<lparr>rp_kind := KindDataBus\<rparr> else p)
                     (rd_ports dev),
                   rd_data_bus := True\<rparr>, [])
         else (dev, [mk_err ErrDataBusPorts (''device '' @ rd_name dev) (rd_name dev) []]))"

definition classifyDataBus :: "resolved_device list \<Rightarrow> resolved_device list \<times> resolve_error list" where
  "classifyDataBus devices =
     (map (fst \<circ> classifyDevice) devices, concat (map (snd \<circ> classifyDevice) devices))"

section \<open>The master chain\<close>

text \<open>The map \<open>connSet\<close>: gathered buses are connected, then every override entry is written.\<close>

definition conn_set :: "string list \<Rightarrow> bool strmap \<Rightarrow> bool strmap" where
  "conn_set gathered override =
     fold (\<lambda>(b, v) m. AList.update b v m) override (fold (\<lambda>b m. AList.update b True m) gathered [])"

definition is_conn :: "bool strmap \<Rightarrow> string \<Rightarrow> bool" where
  "is_conn m b \<longleftrightarrow> map_of m b = Some True"

definition mk_stage :: "string \<Rightarrow> string \<Rightarrow> string \<Rightarrow> string \<Rightarrow> string \<Rightarrow> mux_stage" where
  "mk_stage l e i1 i2 out = \<lparr>mx_label = l, mx_entity = e, mx_in1 = i1, mx_in2 = i2, mx_out = out\<rparr>"

definition resolvePeripheralBuses :: "string list \<Rightarrow> bool strmap \<Rightarrow> string \<Rightarrow> peripheral_bus_model" where
  "resolvePeripheralBuses gathered override decodeMode =
     (let cs = conn_set gathered override;
          both = is_conn cs ''cpu0'' \<and> is_conn cs ''cpu1'';
          st1 = (if both then [mk_stage ''cpus_mux'' ''multi_master_bus_mux'' ''cpu0'' ''cpu1'' ''cpu01''] else []);
          m1 = (if both then ''cpu01'' else ''cpu0'');
          st2 = (if is_conn cs ''dmac''
                 then [mk_stage ''dmac_mux'' ''multi_master_bus_muxff'' m1 ''dmac'' ''cpudm''] else [])
      in \<lparr>pbm_master_bus = (if is_conn cs ''dmac'' then ''cpudm'' else m1),
          pbm_connected = sort (filter (is_conn cs) gathered),
          pbm_disconnected = sort (filter (\<lambda>b. \<not> is_conn cs b) gathered),
          pbm_mux_stages = st1 @ st2,
          pbm_decode_mode = decodeMode\<rparr>)"

definition entity_buses :: "entity option \<Rightarrow> string list" where
  "entity_buses eo = (case eo of None \<Rightarrow> [] | Some e \<Rightarrow> map pb_name (en_peripheral_buses e))"

definition gatherPeripheralBuses :: "resolution \<Rightarrow> string list" where
  "gatherPeripheralBuses res =
     sort (remdups
       (concat (map (\<lambda>dev. case class_of res dev of Some rc \<Rightarrow> entity_buses (rc_entity rc) | None \<Rightarrow> [])
          (res_devices res)) @
        concat (map (\<lambda>(n, e). entity_buses (re_entity e)) (res_top_entities res)) @
        concat (map (\<lambda>(n, e). entity_buses (re_entity e)) (res_padring_entities res))))"

section \<open>Facts\<close>

lemma conn_gathered:
  "map_of (fold (\<lambda>b m. AList.update b True m) gathered m0) b =
     (if b \<in> set gathered then Some True else map_of m0 b)"
  by (induction gathered arbitrary: m0) auto

lemma conn_override:
  assumes "distinct (map fst override)"
  shows "map_of (fold (\<lambda>(b, v) m. AList.update b v m) override m0) b =
     (case map_of override b of Some v \<Rightarrow> Some v | None \<Rightarrow> map_of m0 b)"
  using assms
proof (induction override arbitrary: m0)
  case Nil
  then show ?case by simp
next
  case (Cons x xs)
  obtain k v where x: "x = (k, v)" by (cases x)
  with Cons.prems have "map_of xs k = None" by (simp add: map_of_eq_None_iff)
  with Cons x show ?case by (auto split: option.split)
qed

lemma is_conn_iff:
  assumes "distinct (map fst override)"
  shows "is_conn (conn_set gathered override) b \<longleftrightarrow>
    (case map_of override b of Some v \<Rightarrow> v | None \<Rightarrow> b \<in> set gathered)"
  by (simp add: is_conn_def conn_set_def conn_override [OF assms] conn_gathered split: option.split)

text \<open>A chain of stages from one bus to another: each stage takes the previous output.\<close>

fun chain :: "string \<Rightarrow> mux_stage list \<Rightarrow> string \<Rightarrow> bool" where
  "chain from [] to = (from = to)"
| "chain from (s # ss) to = (mx_in1 s = from \<and> chain (mx_out s) ss to)"

section \<open>Properties\<close>

text \<open>
  C20: when \<open>cpu0\<close> is a gathered bus that no override disconnects and the overrides name gathered
  buses only, a gathered bus is connected unless its override is false, and the multiplexer stages form
  a chain from \<open>cpu0\<close> to the master bus whose second inputs are exactly those of the masters \<open>cpu1\<close>
  (by a \<open>multi_master_bus_mux\<close>) and \<open>dmac\<close> (by a \<open>multi_master_bus_muxff\<close>), in this order, that are
  connected.
\<close>

theorem resolvePeripheralBuses_chain:
  fixes gathered :: "string list" and override :: "bool strmap" and mode :: string
  assumes "distinct (map fst override)" "set (map fst override) \<subseteq> set gathered"
    "''cpu0'' \<in> set gathered" "map_of override ''cpu0'' \<noteq> Some False"
  defines "m \<equiv> resolvePeripheralBuses gathered override mode"
  shows "chain ''cpu0'' (pbm_mux_stages m) (pbm_master_bus m) \<and>
    map (\<lambda>s. (mx_in2 s, mx_entity s)) (pbm_mux_stages m) =
      filter (\<lambda>(b, e). b \<in> set (pbm_connected m)) [(''cpu1'', ''multi_master_bus_mux''), (''dmac'', ''multi_master_bus_muxff'')] \<and>
    pbm_connected m = sort (filter (\<lambda>b. map_of override b \<noteq> Some False) gathered) \<and>
    pbm_disconnected m = sort (filter (\<lambda>b. map_of override b = Some False) gathered)"
proof -
  have conn: "is_conn (conn_set gathered override) b \<longleftrightarrow> b \<in> set gathered \<and> map_of override b \<noteq> Some False" for b
  proof (cases "map_of override b")
    case None
    then show ?thesis by (simp add: is_conn_iff [OF assms(1)])
  next
    case (Some v)
    then have "b \<in> set gathered" using assms(2) by (force dest: map_of_SomeD)
    with Some show ?thesis by (simp add: is_conn_iff [OF assms(1)])
  qed
  have c: "pbm_connected m = sort (filter (\<lambda>b. map_of override b \<noteq> Some False) gathered)"
    "pbm_disconnected m = sort (filter (\<lambda>b. map_of override b = Some False) gathered)"
    by (simp_all add: m_def resolvePeripheralBuses_def Let_def conn cong: filter_cong)
  have "is_conn (conn_set gathered override) ''cpu0''" using assms(3,4) conn by simp
  then have "chain ''cpu0'' (pbm_mux_stages m) (pbm_master_bus m)" and
    "map (\<lambda>s. (mx_in2 s, mx_entity s)) (pbm_mux_stages m) =
      filter (\<lambda>(b, e). b \<in> set (pbm_connected m)) [(''cpu1'', ''multi_master_bus_mux''), (''dmac'', ''multi_master_bus_muxff'')]"
    unfolding c using conn [of "''cpu1''"] conn [of "''dmac''"]
    by (auto simp: m_def resolvePeripheralBuses_def Let_def mk_stage_def)
  with c show ?thesis by simp
qed

theorem resolvePeripheralBuses_chain_witness:
  "pbm_connected (resolvePeripheralBuses [''cpu0'', ''cpu1'', ''dmac''] [(''dmac'', False)] ''exact'') = [''cpu0'', ''cpu1''] \<and>
   chain ''cpu0'' (pbm_mux_stages (resolvePeripheralBuses [''cpu0'', ''cpu1'', ''dmac''] [(''dmac'', False)] ''exact''))
     (pbm_master_bus (resolvePeripheralBuses [''cpu0'', ''cpu1'', ''dmac''] [(''dmac'', False)] ''exact''))"
  using resolvePeripheralBuses_chain [of "[(''dmac'', False)]" "[''cpu0'', ''cpu1'', ''dmac'']" "''exact''"]
  by simp

text \<open>
  An override entry for a bus that no entity has is not ignored: the comment in the code says
  it is, but a \<open>dmac\<close> entry set to true adds a multiplexer for a bus that is not connected.
\<close>

theorem override_ungathered_bus:
  "pbm_connected (resolvePeripheralBuses [''cpu0''] [(''dmac'', True)] ''exact'') = [''cpu0''] \<and>
   map mx_in2 (pbm_mux_stages (resolvePeripheralBuses [''cpu0''] [(''dmac'', True)] ''exact'')) = [''dmac'']"
  by code_simp

text \<open>
  A device is put on the data bus exactly when it has one read-data output and one write-data
  input, which then become data-bus ports and nothing else about the device changes; any other
  mix of such ports is reported.
\<close>

theorem classifyDataBus_pairs:
  assumes "i < length devices" "\<not> rd_data_bus (devices ! i)"
  shows "let dev = devices ! i; dev' = fst (classifyDataBus devices) ! i;
             r = length (filter read_out (rd_ports dev)); w = length (filter write_in (rd_ports dev))
         in (rd_data_bus dev' \<longleftrightarrow> r = 1 \<and> w = 1) \<and> rd_name dev' = rd_name dev \<and>
            map rp_name (rd_ports dev') = map rp_name (rd_ports dev) \<and>
            (\<forall>p \<in> set (rd_ports dev'). rd_data_bus dev' \<longrightarrow> read_out p \<or> write_in p \<longrightarrow> rp_kind p = KindDataBus) \<and>
            ((r, w) \<noteq> (0, 0) \<and> (r, w) \<noteq> (1, 1) \<longrightarrow>
               ErrDataBusPorts \<in> rerr_kind ` set (snd (classifyDataBus devices)))"
proof -
  let ?dev = "devices ! i"
  have mem: "?dev \<in> set devices" using assms(1) by simp
  have err: "ErrDataBusPorts \<in> rerr_kind ` set (snd (classifyDataBus devices))"
    if "mk_err ErrDataBusPorts (''device '' @ rd_name ?dev) (rd_name ?dev) [] \<in> set (snd (classifyDevice ?dev))"
  proof -
    have "mk_err ErrDataBusPorts (''device '' @ rd_name ?dev) (rd_name ?dev) []
        \<in> set (snd (classifyDataBus devices))"
      using that mem by (auto simp: classifyDataBus_def)
    then show ?thesis by (force simp: mk_err_def)
  qed
  have dev': "fst (classifyDataBus devices) ! i = fst (classifyDevice ?dev)"
    using assms(1) by (simp add: classifyDataBus_def)
  show ?thesis
    unfolding Let_def dev' using assms(2) err
    by (auto simp: classifyDevice_def Let_def comp_def read_out_def write_in_def port_mark_def)
qed

theorem classifyDataBus_pairs_witness:
  "rd_data_bus (fst (classifyDataBus [\<lparr>rd_name = ''u0'', rd_class = ''uart'', rd_generics = [], rd_base_addr = None,
     rd_ports = [\<lparr>rp_name = ''db_o'', rp_dir = ''out'', rp_type = Some (symbolic_type ''cpu_data_i_t'' None),
                  rp_kind = KindSignal, rp_global_signal = ''x'', rp_value = None\<rparr>,
                 \<lparr>rp_name = ''db_i'', rp_dir = ''in'', rp_type = Some (symbolic_type ''CPU_DATA_O_T'' None),
                  rp_kind = KindSignal, rp_global_signal = ''y'', rp_value = None\<rparr>],
     rd_data_bus = False, rd_generic_types = []\<rparr>]) ! 0)"
proof -
  let ?d = "\<lparr>rd_name = ''u0'', rd_class = ''uart'', rd_generics = [], rd_base_addr = None,
     rd_ports = [\<lparr>rp_name = ''db_o'', rp_dir = ''out'', rp_type = Some (symbolic_type ''cpu_data_i_t'' None),
                  rp_kind = KindSignal, rp_global_signal = ''x'', rp_value = None\<rparr>,
                 \<lparr>rp_name = ''db_i'', rp_dir = ''in'', rp_type = Some (symbolic_type ''CPU_DATA_O_T'' None),
                  rp_kind = KindSignal, rp_global_signal = ''y'', rp_value = None\<rparr>],
     rd_data_bus = False, rd_generic_types = []\<rparr> :: resolved_device"
  have "length (filter read_out (rd_ports ?d)) = 1 \<and> length (filter write_in (rd_ports ?d)) = 1"
    by code_simp
  with classifyDataBus_pairs [of 0 "[?d]"] show ?thesis by (simp add: Let_def)
qed

end
