(* ===== verification/Elab_Netlist.thy ===== *)
theory Elab_Netlist
  imports Elab_Eval
begin

text \<open>
  Model of the net-list part of \<open>src/tools/socgen/elaborate\<close>: \<open>gatherSignals\<close>,
  \<open>addPortsToSignals\<close> and \<open>applyZeroSignals\<close> of \<open>netlist.go\<close>, \<open>netlist_validate.go\<close>, and
  \<open>prune.go\<close>. The net-list is an association list from signal names; the code appends to a
  signal through a pointer, the model updates the entry.
\<close>

section \<open>Gathering the signals\<close>

definition port_ref :: "ctx \<Rightarrow> resolved_port \<Rightarrow> signal_port_ref" where
  "port_ref c p = \<lparr>spr_context = c, spr_port_name = rp_name p, spr_dir = rp_dir p, spr_type = rp_type p,
     spr_element = [], spr_diff = []\<rparr>"

definition mk_signal :: "string \<Rightarrow> resolved_type option \<Rightarrow> signal_port_ref list \<Rightarrow> signal" where
  "mk_signal n t ps = \<lparr>sig_name = n, sig_type = t, sig_ports = ps\<rparr>"

text \<open>\<open>s.Ports = append(s.Ports, ref)\<close>, on the signal of a name, created with type \<open>t\<close> if missing.\<close>

definition add_ref :: "netlist \<Rightarrow> string \<Rightarrow> resolved_type option \<Rightarrow> signal_port_ref \<Rightarrow> netlist" where
  "add_ref sigs n t r =
     (let s = (case map_of sigs n of Some s \<Rightarrow> s | None \<Rightarrow> mk_signal n t [])
      in AList.update n (s\<lparr>sig_ports := sig_ports s @ [r]\<rparr>) sigs)"

definition addPortsToSignals :: "netlist \<Rightarrow> ctx \<Rightarrow> resolved_port list \<Rightarrow> netlist" where
  "addPortsToSignals sigs c ports =
     fold (\<lambda>p sigs. if rp_kind p \<noteq> KindSignal \<or> rp_global_signal p = [] then sigs
                    else add_ref sigs (rp_global_signal p) (rp_type p) (port_ref c p)) ports sigs"

definition mk_ctx :: "string \<Rightarrow> string \<Rightarrow> ctx" where
  "mk_ctx k i = \<lparr>ctx_kind = k, ctx_id = i\<rparr>"

definition sortedEntityNames :: "resolved_entity strmap \<Rightarrow> string list" where
  "sortedEntityNames m = sorted_keys m"

definition entity_ports :: "resolved_entity strmap \<Rightarrow> string \<Rightarrow> resolved_port list" where
  "entity_ports m n = (case map_of m n of Some e \<Rightarrow> re_ports e | None \<Rightarrow> [])"

definition gatherSignals :: "resolution \<Rightarrow> netlist" where
  "gatherSignals res =
     (let s1 = fold (\<lambda>dev sigs. addPortsToSignals sigs (mk_ctx ''device'' (rd_name dev)) (rd_ports dev))
                 (res_devices res) [];
          s2 = fold (\<lambda>n sigs. addPortsToSignals sigs (mk_ctx ''top'' n) (entity_ports (res_top_entities res) n))
                 (sortedEntityNames (res_top_entities res)) s1
      in fold (\<lambda>n sigs. addPortsToSignals sigs (mk_ctx ''padring'' n) (entity_ports (res_padring_entities res) n))
           (sortedEntityNames (res_padring_entities res)) s2)"

section \<open>Zero signals\<close>

definition zero_ref :: "string \<Rightarrow> resolved_type option \<Rightarrow> signal_port_ref" where
  "zero_ref z t = \<lparr>spr_context = mk_ctx ''zero'' ''_zero'', spr_port_name = z, spr_dir = dirOut,
     spr_type = t, spr_element = [], spr_diff = []\<rparr>"

definition applyZeroSignals :: "netlist \<Rightarrow> string list \<Rightarrow> netlist" where
  "applyZeroSignals sigs zero =
     fold (\<lambda>z sigs. case map_of sigs z of
              None \<Rightarrow> sigs
            | Some s \<Rightarrow>
                if list_ex (\<lambda>pr. spr_dir pr = dirOut) (sig_ports s) then sigs
                else AList.update z (s\<lparr>sig_ports := sig_ports s @ [zero_ref z (sig_type s)]\<rparr>) sigs)
       zero sigs"

section \<open>Validation\<close>

datatype signal_error_kind = ErrTypeMismatch | ErrMultiDriver | ErrUndrivenSignal | ErrMultiContextDriver

record signal_error =
  se_kind :: signal_error_kind
  se_signal :: string
  se_detail :: string

definition mk_sig_err :: "signal_error_kind \<Rightarrow> string \<Rightarrow> string \<Rightarrow> signal_error" where
  "mk_sig_err k n d = \<lparr>se_kind = k, se_signal = n, se_detail = d\<rparr>"

definition isDriver :: "string \<Rightarrow> bool" where
  "isDriver dir \<longleftrightarrow> dir = dirOut \<or> dir = dirBuffer \<or> dir = dirInout"

definition isConsumer :: "string \<Rightarrow> bool" where
  "isConsumer dir \<longleftrightarrow> dir = dirIn \<or> dir = dirInout"

text \<open>The last loop of \<open>multiDriverAllowed\<close>, with the elements seen so far.\<close>

fun distinctElements :: "string list \<Rightarrow> signal_port_ref list \<Rightarrow> bool" where
  "distinctElements seen [] = True"
| "distinctElements seen (d # ds) =
     (if spr_element d = [] \<or> spr_element d \<in> set seen then False
      else distinctElements (spr_element d # seen) ds)"

definition multiDriverAllowed :: "signal_port_ref list \<Rightarrow> bool" where
  "multiDriverAllowed drivers =
     (if list_ex (\<lambda>d. ctx_kind (spr_context d) \<noteq> ctxKindPin) drivers then False
      else let diffs = remdups (map spr_diff drivers)
           in if length drivers = 2 \<and> ''pos'' \<in> set diffs \<and> ''neg'' \<in> set diffs \<and> length diffs = 2
              then True
              else distinctElements [] drivers)"

definition sortedTypeNames :: "signal_port_ref list \<Rightarrow> string list" where
  "sortedTypeNames ps = sort (remdups (map (\<lambda>p. ResolvedType_String (spr_type p)) ps))"

definition ref_name :: "signal_port_ref \<Rightarrow> string" where
  "ref_name p = ctx_id (spr_context p) @ ''.'' @ spr_port_name p"

definition validateSignal :: "string \<Rightarrow> signal \<Rightarrow> signal_error list" where
  "validateSignal n s =
     (let types = sortedTypeNames (sig_ports s);
          drivers = filter (\<lambda>p. isDriver (spr_dir p)) (sig_ports s);
          ins = map ref_name (filter (\<lambda>p. isConsumer (spr_dir p)) (sig_ports s))
      in (if length types > 1 then [mk_sig_err ErrTypeMismatch n (join_strings types '' vs '')] else []) @
         (if length drivers > 1 \<and> \<not> multiDriverAllowed drivers
          then [mk_sig_err ErrMultiDriver n (join_strings (map ref_name drivers) '' '')] else []) @
         (if length drivers = 0 \<and> length ins > 0
          then [mk_sig_err ErrUndrivenSignal n (join_strings ins '' '')] else []))"

definition validateSignals :: "netlist \<Rightarrow> signal_error list" where
  "validateSignals sigs =
     concat (map (\<lambda>n. case map_of sigs n of Some s \<Rightarrow> validateSignal n s | None \<Rightarrow> []) (sorted_keys sigs))"

section \<open>Pruning\<close>

definition markNamedIRQPorts :: "resolved_port list \<Rightarrow> irq_ref option \<Rightarrow> resolved_port list" where
  "markNamedIRQPorts ports irq =
     (case irq of
        None \<Rightarrow> ports
      | Some r \<Rightarrow>
          (case ir_named r of
             None \<Rightarrow> ports
           | Some named \<Rightarrow>
               if named = [] then ports
               else map (\<lambda>p. if rp_kind p \<noteq> KindSignal then p
                             else if map_of named (rp_name p) \<noteq> None
                             then p\<lparr>rp_kind := KindIRQ, rp_global_signal := []\<rparr> else p) ports))"

definition clearPrunedRefs :: "resolved_port list \<Rightarrow> string list \<Rightarrow> resolved_port list" where
  "clearPrunedRefs ports pruned =
     map (\<lambda>p. if rp_kind p = KindSignal \<and> rp_global_signal p \<in> set pruned
              then p\<lparr>rp_global_signal := []\<rparr> else p) ports"

definition signal_read :: "signal \<Rightarrow> bool" where
  "signal_read s \<longleftrightarrow>
     list_ex (\<lambda>pr. spr_dir pr = dirIn \<or> ctx_kind (spr_context pr) = ctxKindPin) (sig_ports s)"

definition keep_signal :: "resolution \<Rightarrow> design \<Rightarrow> string \<Rightarrow> signal \<Rightarrow> bool" where
  "keep_signal res d n s \<longleftrightarrow>
     n \<in> set (d_zero_signals d) \<or> n \<in> set (res_entity_bound_pads res) \<or> signal_read s"

definition clear_entities :: "resolved_entity strmap \<Rightarrow> string list \<Rightarrow> resolved_entity strmap" where
  "clear_entities m pruned = map (\<lambda>(n, e). (n, e\<lparr>re_ports := clearPrunedRefs (re_ports e) pruned\<rparr>)) m"

definition removeWriteOnlySignals :: "resolution \<Rightarrow> design \<Rightarrow> resolution" where
  "removeWriteOnlySignals res d =
     (let pruned = map fst (filter (\<lambda>(n, s). \<not> keep_signal res d n s) (res_signals res));
          res' = res\<lparr>res_signals := filter (\<lambda>(n, s). keep_signal res d n s) (res_signals res)\<rparr>
      in if pruned = [] then res'
         else res'\<lparr>res_devices := map (\<lambda>dev. dev\<lparr>rd_ports := clearPrunedRefs (rd_ports dev) pruned\<rparr>) (res_devices res),
                   res_top_entities := clear_entities (res_top_entities res) pruned,
                   res_padring_entities := clear_entities (res_padring_entities res) pruned\<rparr>)"

section \<open>Gathering: the reference definition\<close>

text \<open>The ports that contribute to the net-list, in order, each with its signal name.\<close>

definition signal_ports :: "ctx \<Rightarrow> resolved_port list \<Rightarrow> (string \<times> signal_port_ref) list" where
  "signal_ports c ports =
     map (\<lambda>p. (rp_global_signal p, port_ref c p))
       (filter (\<lambda>p. rp_kind p = KindSignal \<and> rp_global_signal p \<noteq> []) ports)"

definition all_signal_ports :: "resolution \<Rightarrow> (string \<times> signal_port_ref) list" where
  "all_signal_ports res =
     concat (map (\<lambda>dev. signal_ports (mk_ctx ''device'' (rd_name dev)) (rd_ports dev)) (res_devices res)) @
     concat (map (\<lambda>n. signal_ports (mk_ctx ''top'' n) (entity_ports (res_top_entities res) n))
       (sortedEntityNames (res_top_entities res))) @
     concat (map (\<lambda>n. signal_ports (mk_ctx ''padring'' n) (entity_ports (res_padring_entities res) n))
       (sortedEntityNames (res_padring_entities res)))"

text \<open>The signal a list of named ports gives for one name: the type is the first port's.\<close>

definition signal_of :: "(string \<times> signal_port_ref) list \<Rightarrow> string \<Rightarrow> signal option" where
  "signal_of ps n =
     (case map snd (filter (\<lambda>(m, r). m = n) ps) of
        [] \<Rightarrow> None
      | r # rs \<Rightarrow> Some (mk_signal n (spr_type r) (r # rs)))"

definition add_named :: "string \<times> signal_port_ref \<Rightarrow> netlist \<Rightarrow> netlist" where
  "add_named = (\<lambda>(n, r) sigs. add_ref sigs n (spr_type r) r)"

lemma addPortsToSignals_named: "addPortsToSignals sigs c ports = fold add_named (signal_ports c ports) sigs"
  unfolding addPortsToSignals_def signal_ports_def
  by (induction ports arbitrary: sigs) (auto simp: add_named_def port_ref_def)

lemma gather_fold:
  "fold (\<lambda>x sigs. addPortsToSignals sigs (f x) (g x)) xs sigs =
     fold add_named (concat (map (\<lambda>x. signal_ports (f x) (g x)) xs)) sigs"
  by (induction xs arbitrary: sigs) (simp_all add: addPortsToSignals_named)

lemma gatherSignals_named: "gatherSignals res = fold add_named (all_signal_ports res) []"
  by (simp add: gatherSignals_def gather_fold all_signal_ports_def Let_def)

lemma signal_of_snoc:
  "signal_of (ps @ [(m, r)]) n =
     (if m = n
      then Some (case signal_of ps n of
             Some s \<Rightarrow> s\<lparr>sig_ports := sig_ports s @ [r]\<rparr> | None \<Rightarrow> mk_signal n (spr_type r) [r])
      else signal_of ps n)"
  by (cases "map snd (filter (\<lambda>(m, r). m = n) ps)") (auto simp: signal_of_def mk_signal_def)

lemma map_of_add_named: "map_of (fold add_named ps []) n = signal_of ps n"
proof (induction ps arbitrary: n rule: rev_induct)
  case Nil
  then show ?case by (simp add: signal_of_def)
next
  case (snoc p ps)
  obtain m r where p: "p = (m, r)" by (cases p)
  show ?case
    using snoc [of n] snoc [of m] unfolding p signal_of_snoc
    by (auto simp: add_named_def add_ref_def Let_def mk_signal_def split: option.split)
qed

lemma distinct_add_named: "distinct (map fst sigs) \<Longrightarrow> distinct (map fst (fold add_named ps sigs))"
proof (induction ps arbitrary: sigs)
  case Nil
  then show ?case by simp
next
  case (Cons p ps)
  then show ?case
    by (cases p) (simp add: add_named_def add_ref_def Let_def del: distinct_map)
qed

section \<open>Validation: what no error means\<close>

definition consistent_types :: "signal \<Rightarrow> bool" where
  "consistent_types s \<longleftrightarrow>
     (\<forall>p \<in> set (sig_ports s). \<forall>q \<in> set (sig_ports s).
        ResolvedType_String (spr_type p) = ResolvedType_String (spr_type q))"

definition drivers_of :: "signal \<Rightarrow> signal_port_ref list" where
  "drivers_of s = filter (\<lambda>p. isDriver (spr_dir p)) (sig_ports s)"

text \<open>The two ways in which several pins may drive one signal.\<close>

definition shared_by_pins :: "signal_port_ref list \<Rightarrow> bool" where
  "shared_by_pins ds \<longleftrightarrow> (\<forall>d \<in> set ds. ctx_kind (spr_context d) = ctxKindPin) \<and>
     (mset (map spr_diff ds) = {#''pos'', ''neg''#} \<or>
      (distinct (map spr_element ds) \<and> [] \<notin> set (map spr_element ds)))"

definition well_driven :: "signal \<Rightarrow> bool" where
  "well_driven s \<longleftrightarrow> consistent_types s \<and>
     (length (drivers_of s) \<le> 1 \<or> shared_by_pins (drivers_of s)) \<and>
     ((\<exists>p \<in> set (sig_ports s). isConsumer (spr_dir p)) \<longrightarrow> drivers_of s \<noteq> [])"

lemma length_remdups_le1:
  "length (remdups xs) \<le> Suc 0 \<longleftrightarrow> (\<forall>x \<in> set xs. \<forall>y \<in> set xs. x = y)"
proof -
  have "length (remdups xs) = card (set xs)" by (rule length_remdups_card_conv)
  moreover have "card (set xs) \<le> Suc 0 \<longleftrightarrow> (\<forall>x \<in> set xs. \<forall>y \<in> set xs. x = y)"
    by (simp add: card_le_Suc0_iff_eq)
  ultimately show ?thesis by simp
qed

lemma distinctElements_iff:
  "distinctElements seen ds \<longleftrightarrow>
     distinct (map spr_element ds) \<and> [] \<notin> set (map spr_element ds) \<and>
     set seen \<inter> set (map spr_element ds) = {}"
  by (induction ds arbitrary: seen) auto

lemma multiDriverAllowed_iff: "multiDriverAllowed ds \<longleftrightarrow> shared_by_pins ds"
proof -
  have "length ds = 2 \<and> ''pos'' \<in> set (remdups (map spr_diff ds)) \<and>
      ''neg'' \<in> set (remdups (map spr_diff ds)) \<and> length (remdups (map spr_diff ds)) = 2 \<longleftrightarrow>
      mset (map spr_diff ds) = {#''pos'', ''neg''#}" (is "?l \<longleftrightarrow> ?r")
  proof
    assume ?l
    then obtain a b where "ds = [a, b]" by (auto simp: numeral_2_eq_2 length_Suc_conv)
    define p n where "p = (''pos'' :: string)" and "n = (''neg'' :: string)"
    have "p \<noteq> n" by (simp add: p_def n_def)
    moreover have "p = spr_diff a \<or> p = spr_diff b" "n = spr_diff a \<or> n = spr_diff b"
      using \<open>?l\<close> \<open>ds = [a, b]\<close> unfolding set_remdups p_def n_def by simp_all
    ultimately have "(spr_diff a = p \<and> spr_diff b = n) \<or> (spr_diff a = n \<and> spr_diff b = p)"
      by blast
    then show ?r using \<open>ds = [a, b]\<close> by (auto simp: p_def n_def add_mset_commute)
  next
    assume r: ?r
    then have "size (mset (map spr_diff ds)) = 2" by simp
    then have "length ds = 2" by simp
    moreover have S: "set (map spr_diff ds) = {''pos'', ''neg''}"
      using arg_cong [OF r, of set_mset] by simp
    moreover have "length (remdups (map spr_diff ds)) = 2"
      unfolding length_remdups_card_conv S by simp
    ultimately show ?l by simp
  qed
  then show ?thesis
    unfolding multiDriverAllowed_def shared_by_pins_def Let_def distinctElements_iff list_ex_iff
    by simp
qed

lemma validateSignal_Nil: "validateSignal n s = [] \<longleftrightarrow> well_driven s"
proof -
  have "length (sortedTypeNames (sig_ports s)) \<le> Suc 0 \<longleftrightarrow> consistent_types s"
    unfolding sortedTypeNames_def length_sort length_remdups_le1 consistent_types_def by simp
  then have "length (sortedTypeNames (sig_ports s)) > 1 \<longleftrightarrow> \<not> consistent_types s"
    by linarith
  moreover have "validateSignal n s = [] \<longleftrightarrow>
      \<not> length (sortedTypeNames (sig_ports s)) > 1 \<and>
      (length (drivers_of s) > 1 \<longrightarrow> multiDriverAllowed (drivers_of s)) \<and>
      ((\<exists>p \<in> set (sig_ports s). isConsumer (spr_dir p)) \<longrightarrow> drivers_of s \<noteq> [])"
    by (simp add: validateSignal_def Let_def drivers_of_def filter_empty_conv)
  ultimately show ?thesis
    unfolding well_driven_def multiDriverAllowed_iff by (simp add: imp_conv_disj not_less)
qed

lemma validateSignals_Nil:
  assumes "distinct (map fst sigs)"
  shows "validateSignals sigs = [] \<longleftrightarrow> (\<forall>(n, s) \<in> set sigs. well_driven s)"
proof -
  have "validateSignals sigs = [] \<longleftrightarrow>
      (\<forall>n \<in> fst ` set sigs. (case map_of sigs n of Some s \<Rightarrow> validateSignal n s | None \<Rightarrow> []) = [])"
    by (auto simp: validateSignals_def)
  also have "\<dots> \<longleftrightarrow> (\<forall>(n, s) \<in> set sigs. well_driven s)"
    using assms by (auto simp: validateSignal_Nil split_beta)
  finally show ?thesis .
qed

section \<open>Zero signals\<close>

lemma zero_step_lookup:
  "map_of (fold (\<lambda>z sigs. case map_of sigs z of
              None \<Rightarrow> sigs
            | Some s \<Rightarrow>
                if list_ex (\<lambda>pr. spr_dir pr = dirOut) (sig_ports s) then sigs
                else AList.update z (s\<lparr>sig_ports := sig_ports s @ [zero_ref z (sig_type s)]\<rparr>) sigs)
       zero sigs) n =
   (case map_of sigs n of
      None \<Rightarrow> None
    | Some s \<Rightarrow>
        Some (if n \<in> set zero \<and> \<not> list_ex (\<lambda>pr. spr_dir pr = dirOut) (sig_ports s)
              then s\<lparr>sig_ports := sig_ports s @ [zero_ref n (sig_type s)]\<rparr> else s))"
proof (induction zero arbitrary: sigs)
  case Nil
  then show ?case by (simp split: option.split)
next
  case (Cons z zs)
  show ?case
    unfolding fold_Cons comp_def Cons
    by (auto simp: zero_ref_def split: option.split)
qed

section \<open>Properties\<close>

text \<open>
  C11: the gathered net-list is the grouping of the signal ports of all devices, top entities and
  pad-ring entities by signal name: a name is in the net-list exactly when some port carries it,
  and its signal has exactly the ports of that name, in order, and the first one's type.
\<close>

theorem gatherSignals_groups:
  "map_of (gatherSignals res) n = signal_of (all_signal_ports res) n"
  by (simp add: gatherSignals_named map_of_add_named)

text \<open>
  C10: \<open>validateSignals\<close> accepts a net-list exactly when every signal has ports of one type, has at
  most one driver unless pins share it as a differential pair or by distinct elements, and is
  driven when something reads it.
\<close>

theorem validateSignals_accepts:
  assumes "distinct (map fst sigs)"
  shows "validateSignals sigs = [] \<longleftrightarrow> list_all (\<lambda>(n, s). well_driven s) sigs"
  by (simp add: validateSignals_Nil [OF assms] list_all_iff)

definition demo_ref :: "string \<Rightarrow> string \<Rightarrow> string \<Rightarrow> signal_port_ref" where
  "demo_ref k i d = \<lparr>spr_context = mk_ctx k i, spr_port_name = ''p'', spr_dir = d,
     spr_type = Some (symbolic_type ''std_logic'' None), spr_element = [], spr_diff = []\<rparr>"

theorem validateSignals_accepts_witness:
  "list_all (\<lambda>(n, s). well_driven s)
     [(''a'', mk_signal ''a'' None [demo_ref ''device'' ''u0'' ''out'', demo_ref ''top'' ''cpus'' ''in''])]"
proof -
  let ?n = "[(''a'', mk_signal ''a'' None [demo_ref ''device'' ''u0'' ''out'', demo_ref ''top'' ''cpus'' ''in''])]"
  have "validateSignals ?n = []" by code_simp
  then show ?thesis using validateSignals_accepts [of ?n] by simp
qed



text \<open>
  The test for an existing driver looks for direction \<open>out\<close> only, although \<open>inout\<close> and \<open>buffer\<close>
  ports drive a signal too: a listed signal that an \<open>inout\<close> port drives gets a second driver, and
  the net-list that was valid is then rejected.
\<close>

theorem zero_signal_double_driver:
  "validateSignals [(''a'', mk_signal ''a'' (Some (symbolic_type ''std_logic'' None)) [demo_ref ''device'' ''u0'' ''inout''])] = [] \<and>
   map se_kind (validateSignals (applyZeroSignals
     [(''a'', mk_signal ''a'' (Some (symbolic_type ''std_logic'' None)) [demo_ref ''device'' ''u0'' ''inout''])] [''a''])) =
     [ErrMultiDriver]"
  by (intro conjI; code_simp)

text \<open>The ports of the devices and of the top and pad-ring entities.\<close>

definition all_ports :: "resolution \<Rightarrow> resolved_port list" where
  "all_ports res = concat (map rd_ports (res_devices res)) @ concat (map (re_ports \<circ> snd) (res_top_entities res)) @
     concat (map (re_ports \<circ> snd) (res_padring_entities res))"

lemma filter_lookup:
  fixes xs :: netlist
  assumes "distinct (map fst xs)"
  shows "map_of (filter (\<lambda>(n, s). P n s) xs) n = (case map_of xs n of None \<Rightarrow> None | Some s \<Rightarrow> if P n s then Some s else None)"
  using assms by (induction xs) (auto split: option.splits simp: map_of_eq_None_iff image_iff)

lemma removeWriteOnly_signals:
  "res_signals (removeWriteOnlySignals res d) = filter (\<lambda>(n, s). keep_signal res d n s) (res_signals res)"
  by (simp add: removeWriteOnlySignals_def Let_def)

lemma clearPrunedRefs_none: "clearPrunedRefs ps [] = ps"
  by (simp add: clearPrunedRefs_def)

lemma removeWriteOnly_ports:
  "all_ports (removeWriteOnlySignals res d) =
     clearPrunedRefs (all_ports res) (map fst (filter (\<lambda>(n, s). \<not> keep_signal res d n s) (res_signals res)))"
proof -
  have app: "clearPrunedRefs (xs @ ys) pr = clearPrunedRefs xs pr @ clearPrunedRefs ys pr" for xs ys pr
    by (simp add: clearPrunedRefs_def)
  have dev: "concat (map (rd_ports \<circ> (\<lambda>dev. dev\<lparr>rd_ports := clearPrunedRefs (rd_ports dev) pr\<rparr>)) devs) =
      clearPrunedRefs (concat (map rd_ports devs)) pr" for devs pr
    by (induction devs) (simp_all add: app clearPrunedRefs_def)
  have ent: "concat (map (re_ports \<circ> snd) (clear_entities es pr)) = clearPrunedRefs (concat (map (re_ports \<circ> snd) es)) pr" for es pr
    by (induction es) (auto simp: app clear_entities_def clearPrunedRefs_def)
  show ?thesis
    by (simp add: removeWriteOnlySignals_def Let_def all_ports_def dev ent app clearPrunedRefs_none)
qed

text \<open>
  C12: pruning leaves exactly the signals that are zero signals, that are bound pads or that have a port
  which reads them or belongs to a pin, and leaves them unchanged. Every signal port of a device, of a
  top entity or of a pad-ring entity that referred to a removed signal is left open, no other port
  changes, and no port refers to a removed signal afterwards.
\<close>

theorem removeWriteOnlySignals_clean:
  fixes res :: resolution and d :: design
  assumes "distinct (map fst (res_signals res))"
  defines "res' \<equiv> removeWriteOnlySignals res d"
  defines "removed \<equiv> \<lambda>n. map_of (res_signals res) n \<noteq> None \<and> map_of (res_signals res') n = None"
  shows "map_of (res_signals res') n =
      (case map_of (res_signals res) n of
         None \<Rightarrow> None
       | Some s \<Rightarrow> if n \<in> set (d_zero_signals d) \<or> n \<in> set (res_entity_bound_pads res) \<or>
            (\<exists>p \<in> set (sig_ports s). spr_dir p = dirIn \<or> ctx_kind (spr_context p) = ctxKindPin) then Some s else None) \<and>
    list_all2 (\<lambda>p q. q = (if rp_kind p = KindSignal \<and> removed (rp_global_signal p) then p\<lparr>rp_global_signal := []\<rparr> else p))
      (all_ports res) (all_ports res') \<and>
    list_all (\<lambda>p. \<not> (rp_kind p = KindSignal \<and> rp_global_signal p \<noteq> [] \<and> removed (rp_global_signal p))) (all_ports res')"
proof (intro conjI)
  let ?pr = "map fst (filter (\<lambda>(n, s). \<not> keep_signal res d n s) (res_signals res))"
  have look: "map_of (res_signals res') m =
      (case map_of (res_signals res) m of None \<Rightarrow> None | Some s \<Rightarrow> if keep_signal res d m s then Some s else None)" for m
    unfolding res'_def removeWriteOnly_signals by (rule filter_lookup [OF assms(1)])
  show "map_of (res_signals res') n =
      (case map_of (res_signals res) n of
         None \<Rightarrow> None
       | Some s \<Rightarrow> if n \<in> set (d_zero_signals d) \<or> n \<in> set (res_entity_bound_pads res) \<or>
            (\<exists>p \<in> set (sig_ports s). spr_dir p = dirIn \<or> ctx_kind (spr_context p) = ctxKindPin) then Some s else None)"
    unfolding look keep_signal_def signal_read_def list_ex_iff ..
  have pr: "m \<in> set ?pr \<longleftrightarrow> removed m" for m
  proof -
    have "m \<in> set ?pr \<longleftrightarrow> (\<exists>s. map_of (res_signals res) m = Some s \<and> \<not> keep_signal res d m s)"
      using assms(1) by (force simp: map_of_eq_Some_iff)
    then show ?thesis unfolding removed_def look by (auto split: option.splits)
  qed
  have ports: "all_ports res' = map (\<lambda>p. if rp_kind p = KindSignal \<and> removed (rp_global_signal p)
      then p\<lparr>rp_global_signal := []\<rparr> else p) (all_ports res)"
  proof -
    have "all_ports res' = clearPrunedRefs (all_ports res) ?pr" unfolding res'_def by (rule removeWriteOnly_ports)
    then show ?thesis unfolding clearPrunedRefs_def pr .
  qed
  show "list_all2 (\<lambda>p q. q = (if rp_kind p = KindSignal \<and> removed (rp_global_signal p) then p\<lparr>rp_global_signal := []\<rparr> else p))
      (all_ports res) (all_ports res')"
    unfolding ports by (simp add: list_all2_conv_all_nth)
  show "list_all (\<lambda>p. \<not> (rp_kind p = KindSignal \<and> rp_global_signal p \<noteq> [] \<and> removed (rp_global_signal p))) (all_ports res')"
    unfolding ports by (auto simp: list_all_iff)
qed

definition demo_prune :: resolution where
  "demo_prune = \<lparr>res_classes = [],
     res_devices = [\<lparr>rd_name = ''u0'', rd_class = ''uart'', rd_generics = [], rd_base_addr = None,
       rd_ports = [\<lparr>rp_name = ''p'', rp_dir = ''out'', rp_type = None, rp_kind = KindSignal,
         rp_global_signal = ''a'', rp_value = None\<rparr>], rd_data_bus = False, rd_generic_types = []\<rparr>],
     res_top_entities = [], res_padring_entities = [],
     res_signals = [(''a'', mk_signal ''a'' None [demo_ref ''device'' ''u0'' ''out'']),
                    (''b'', mk_signal ''b'' None [demo_ref ''device'' ''u0'' ''in''])],
     res_pins = [], res_entity_bound_pads = [], res_data_bus = None\<rparr>"

definition bare_design :: design where
  "bare_design = \<lparr>d_target = [], d_device_classes = [], d_devices = [], d_top_entities = [],
     d_padring_entities = [], d_merge_signals = [], d_zero_signals = [], d_bus_word = [], d_bus_word_loopback_ack = [], d_irq = [],
     d_pins = None,
     d_peripheral_buses = [], d_system = None, d_cpu = None,
     d_plugins = []\<rparr>"

theorem removeWriteOnlySignals_clean_witness:
  "map_of (res_signals (removeWriteOnlySignals demo_prune bare_design)) ''a'' = None \<and>
   list_all2 (\<lambda>p q. q = p\<lparr>rp_global_signal := []\<rparr>) (all_ports demo_prune) (all_ports (removeWriteOnlySignals demo_prune bare_design))"
proof -
  have "distinct (map fst (res_signals demo_prune))" by code_simp
  note c = removeWriteOnlySignals_clean [OF this, where d = bare_design]
  have a: "map_of (res_signals (removeWriteOnlySignals demo_prune bare_design)) ''a'' = None"
    using c [where n = "''a''"] by (simp add: demo_prune_def bare_design_def mk_signal_def demo_ref_def mk_ctx_def)
  have p: "all_ports demo_prune = rd_ports (hd (res_devices demo_prune))" by (simp add: all_ports_def demo_prune_def)
  have "list_all (\<lambda>p. rp_kind p = KindSignal \<and> rp_global_signal p = ''a'') (all_ports demo_prune)"
    "map_of (res_signals demo_prune) ''a'' \<noteq> None"
    unfolding p by (simp_all add: demo_prune_def)
  with a c show ?thesis by (auto simp: list_all2_conv_all_nth list_all_length)
qed

end
