(* ===== verification/Elab_Pins.thy ===== *)
theory Elab_Pins
  imports Elab_Netlist Elab_Class
begin

text \<open>
  Model of \<open>src/tools/socgen/elaborate/pins.go\<close>: the rules that connect FPGA pads to signals.

  The regular-expression engine is not part of the repository. For a rule with a regular
  expression it is the parameter \<open>rx\<close>: \<open>rx pattern text\<close> is \<open>None\<close> when the pattern does not
  compile, else whether the anchored pattern matches. A parametric rule only builds patterns of
  quoted literals and \<open>([0-9]+)\<close> groups between \<open>^\<close> and \<open>$\<close>; for these the leftmost-first
  (greedy, backtracking) matching of Go is written out as \<open>match_parts\<close>.
\<close>

type_synonym regex_engine = "string \<Rightarrow> string \<Rightarrow> bool option"

section \<open>Matching a pin\<close>

text \<open>
  The captures of a sequence of parts on a text: a literal must come next, a symbol takes the
  longest run of digits with which the rest still matches.
\<close>

definition digit_run :: "string \<Rightarrow> nat" where
  "digit_run s = length (takeWhile is_digit s)"

fun first_some :: "('a \<Rightarrow> 'b option) \<Rightarrow> 'a list \<Rightarrow> 'b option" where
  "first_some f [] = None"
| "first_some f (x # xs) = (case f x of Some y \<Rightarrow> Some y | None \<Rightarrow> first_some f xs)"

fun match_parts :: "seq_part list \<Rightarrow> string \<Rightarrow> string list option" where
  "match_parts [] s = (if s = [] then Some [] else None)"
| "match_parts (p # ps) s =
     (if sp_sym p \<noteq> []
      then first_some (\<lambda>k. map_option (\<lambda>cs. take k s # cs) (match_parts ps (drop k s)))
             (rev [1 ..< Suc (digit_run s)])
      else if prefix (sp_lit p) s then match_parts ps (drop (length (sp_lit p)) s) else None)"

text \<open>\<open>strconv.Atoi\<close> of a run of digits, with the error dropped: it saturates.\<close>

definition atoi_digits :: "string \<Rightarrow> int" where
  "atoi_digits s = min (int (dec_val s)) (2 ^ 63 - 1)"

definition part_syms :: "seq_part list \<Rightarrow> string list" where
  "part_syms ps = filter (\<lambda>s. s \<noteq> []) (map sp_sym ps)"

definition matchPin :: "regex_engine \<Rightarrow> pin_rule \<Rightarrow> string \<Rightarrow> int strmap option" where
  "matchPin rx rule net =
     (case pr_match rule of
        None \<Rightarrow> None
      | Some m \<Rightarrow>
          if pm_parts m = []
          then (if rx (''^(?:'' @ pm_regex m @ '')$'') net = Some True then Some [] else None)
          else map_option
                 (\<lambda>gs. fold (\<lambda>(s, g) env. AList.update s (atoi_digits g) env) (zip (part_syms (pm_parts m)) gs) [])
                 (match_parts (pm_parts m) net))"

section \<open>Targets\<close>

definition env_get :: "int strmap \<Rightarrow> string \<Rightarrow> int" where
  "env_get env s = (case map_of env s of Some i \<Rightarrow> i | None \<Rightarrow> 0)"

definition expandParts :: "seq_part list \<Rightarrow> int strmap \<Rightarrow> string" where
  "expandParts ps env =
     concat (map (\<lambda>p. if sp_sym p \<noteq> [] then itoa (env_get env (sp_sym p)) else sp_lit p) ps)"

definition expandSig :: "sig_spec option \<Rightarrow> string \<Rightarrow> int strmap \<Rightarrow> string \<times> string \<times> sig_kind" where
  "expandSig so pinNet env =
     (case so of
        None \<Rightarrow> ([], [], SigName)
      | Some s \<Rightarrow>
          (case ss_kind s of
             SigTrue \<Rightarrow> (pinNet, [], SigName)
           | SigConst \<Rightarrow> ([], [], SigConst)
           | SigMap \<Rightarrow> (ss_name s, ss_diff s, SigName)
           | SigTemplate \<Rightarrow> (expandParts (ss_parts s) env, [], SigName)
           | SigName \<Rightarrow> (ss_name s, [], SigName)))"

record folded =
  f_attrs :: "go_value strmap"
  f_buff :: "bool option"
  f_entity_pad :: "bool option"
  f_signal_ref :: string
  f_signal_diff :: string
  f_in_ref :: string
  f_out_ref :: string
  f_out_en_ref :: string
  f_out_const :: "int option"
  f_out_invert :: bool

definition folded0 :: folded where
  "folded0 = \<lparr>f_attrs = [], f_buff = None, f_entity_pad = None, f_signal_ref = [], f_signal_diff = [],
     f_in_ref = [], f_out_ref = [], f_out_en_ref = [], f_out_const = None, f_out_invert = False\<rparr>"

text \<open>The effect of one matching rule.\<close>

definition foldRule :: "pin_rule \<Rightarrow> string \<Rightarrow> int strmap \<Rightarrow> folded \<Rightarrow> folded" where
  "foldRule r net env f =
     (let f1 = f\<lparr>f_attrs := fold (\<lambda>(k, v) m. AList.update k v m) (pr_attrs r) (f_attrs f)\<rparr>;
          f2 = (case pr_buff r of Some b \<Rightarrow> f1\<lparr>f_buff := Some b\<rparr> | None \<Rightarrow> f1);
          f3 = (case pr_entity_pad r of Some b \<Rightarrow> f2\<lparr>f_entity_pad := Some b\<rparr> | None \<Rightarrow> f2);
          f4 = (case pr_signal r of
                  None \<Rightarrow> f3
                | Some s \<Rightarrow> (case expandSig (Some s) net env of
                               (ref, diff, _) \<Rightarrow> f3\<lparr>f_signal_ref := ref, f_signal_diff := diff\<rparr>));
          f5 = (case pr_in r of
                  None \<Rightarrow> f4 | Some s \<Rightarrow> f4\<lparr>f_in_ref := fst (expandSig (Some s) net env)\<rparr>);
          f6 = (case pr_out r of
                  None \<Rightarrow> f5
                | Some s \<Rightarrow> (case expandSig (Some s) net env of
                     (ref, _, kd) \<Rightarrow>
                       f5\<lparr>f_out_ref := ref, f_out_invert := ss_invert s,
                          f_out_const := (if kd = SigConst then Some (ss_int s) else None)\<rparr>))
      in (case pr_out_en r of
            None \<Rightarrow> f6 | Some s \<Rightarrow> f6\<lparr>f_out_en_ref := fst (expandSig (Some s) net env)\<rparr>))"

definition foldRules :: "regex_engine \<Rightarrow> pin_rule list \<Rightarrow> pin \<Rightarrow> folded" where
  "foldRules rx rules pn =
     fold (\<lambda>r f. case matchPin rx r (pin_net pn) of
                   None \<Rightarrow> f | Some env \<Rightarrow> foldRule r (pin_net pn) env f) rules folded0"

section \<open>Signals of a pin\<close>

definition splitSignal :: "string \<Rightarrow> string \<times> string" where
  "splitSignal ref =
     (let base = takeWhile (\<lambda>c. c \<noteq> CHR ''.'' \<and> c \<noteq> CHR ''('') ref
      in if base = ref then (ref, []) else (base, ref))"

definition bareSignalDir :: "netlist \<Rightarrow> string \<Rightarrow> string" where
  "bareSignalDir sigs base =
     (case map_of sigs base of
        None \<Rightarrow> dirOut
      | Some s \<Rightarrow>
          if list_ex (\<lambda>p. ctx_kind (spr_context p) \<noteq> ctxKindPin \<and> isDriver (spr_dir p)) (sig_ports s)
          then dirIn else dirOut)"

definition signalIsReal :: "netlist \<Rightarrow> design \<Rightarrow> string \<Rightarrow> bool" where
  "signalIsReal sigs d base \<longleftrightarrow>
     (case map_of sigs base of
        None \<Rightarrow> False
      | Some s \<Rightarrow> list_ex (\<lambda>p. ctx_kind (spr_context p) \<noteq> ctxKindPin) (sig_ports s)) \<or>
     base \<in> set (d_zero_signals d)"

definition addPinPort :: "netlist \<Rightarrow> string \<Rightarrow> string \<Rightarrow> string \<Rightarrow> string \<Rightarrow> string \<Rightarrow> string \<Rightarrow> netlist" where
  "addPinPort sigs net leg base element dir diff =
     (if base = [] then sigs
      else let s = (case map_of sigs base of Some s \<Rightarrow> s | None \<Rightarrow> mk_signal base None [])
           in AList.update base
                (s\<lparr>sig_ports := sig_ports s @
                    [\<lparr>spr_context = mk_ctx ctxKindPin net,
                      spr_port_name = ''pin.'' @ net @ ''.'' @ leg, spr_dir = dir,
                      spr_type = sig_type s, spr_element = element, spr_diff = diff\<rparr>]\<rparr>) sigs)"

definition bufferKind :: "folded \<Rightarrow> string \<Rightarrow> buffer_kind" where
  "bufferKind f bareDir =
     (if f_entity_pad f = Some True then BufEntity
      else if f_buff f = Some False then BufDirect
      else let i = f_in_ref f \<noteq> []; out = f_out_ref f \<noteq> []; en = f_out_en_ref f \<noteq> []
           in if f_signal_ref f \<noteq> [] \<and> \<not> i \<and> \<not> out \<and> \<not> en
              then (if f_signal_diff f \<noteq> [] \<and> bareDir = dirOut then BufIBUFDS
                    else if f_signal_diff f \<noteq> [] then BufOBUFDS
                    else if bareDir = dirOut then BufIBUF else BufOBUF)
              else if i \<and> out \<and> en then BufIOBUF
              else if out \<and> en then BufOBUFT
              else if out then BufOBUF
              else BufIBUF)"

definition padDir :: "buffer_kind \<Rightarrow> string \<Rightarrow> string" where
  "padDir bk bareDir =
     (case bk of
        BufIBUF \<Rightarrow> dirIn | BufIBUFDS \<Rightarrow> dirIn
      | BufOBUF \<Rightarrow> dirOut | BufOBUFT \<Rightarrow> dirOut | BufOBUFDS \<Rightarrow> dirOut
      | BufIOBUF \<Rightarrow> dirInout | BufEntity \<Rightarrow> dirInout
      | BufDirect \<Rightarrow> if bareDir = dirOut then dirIn else dirOut)"

section \<open>Resolving the pins\<close>

definition blank_pin :: "pin \<Rightarrow> folded \<Rightarrow> resolved_pin" where
  "blank_pin pn f = \<lparr>rpin_net = pin_net pn, rpin_pad = pin_pad pn, rpin_signal = [], rpin_in = [],
     rpin_out = [], rpin_out_en = [], rpin_out_const = [], rpin_out_invert = False, rpin_diff = [],
     rpin_buffer_kind = BufDirect, rpin_pad_dir = [], rpin_attrs = f_attrs f\<rparr>"

text \<open>A leg: its name, its target, its direction and its half of a differential pair.\<close>

type_synonym pin_leg = "string \<times> string \<times> string \<times> string"

definition add_leg :: "string \<Rightarrow> pin_leg \<Rightarrow> netlist \<Rightarrow> netlist" where
  "add_leg net = (\<lambda>(leg, ref, dir, diff) sigs.
     case splitSignal ref of (base, elem) \<Rightarrow> addPinPort sigs net leg base elem dir diff)"

definition pin_legs :: "folded \<Rightarrow> string \<Rightarrow> pin_leg list" where
  "pin_legs f bareDir =
     (if f_signal_ref f \<noteq> [] then [(''signal'', f_signal_ref f, bareDir, f_signal_diff f)] else []) @
     (if f_in_ref f \<noteq> [] then [(''in'', f_in_ref f, dirOut, [])] else []) @
     (if f_out_ref f \<noteq> [] then [(''out'', f_out_ref f, dirIn, [])] else []) @
     (if f_out_en_ref f \<noteq> [] then [(''out-en'', f_out_en_ref f, dirIn, [])] else [])"

definition pin_refs :: "folded \<Rightarrow> string list" where
  "pin_refs f = filter (\<lambda>r. r \<noteq> []) [f_signal_ref f, f_in_ref f, f_out_ref f, f_out_en_ref f]"

definition bare_dir :: "netlist \<Rightarrow> folded \<Rightarrow> string" where
  "bare_dir sigs f =
     (if f_signal_ref f \<noteq> [] then bareSignalDir sigs (fst (splitSignal (f_signal_ref f))) else [])"

text \<open>
  The body of the loop of \<open>resolvePins\<close>: the resolved pin, if the pin is kept, the pad bound to an
  entity port, if any, and the legs to join to the net-list.
\<close>

definition resolvePin :: "regex_engine \<Rightarrow> design \<Rightarrow> pin_rule list \<Rightarrow> netlist \<Rightarrow> pin \<Rightarrow>
    resolved_pin option \<times> string list \<times> pin_leg list" where
  "resolvePin rx d rules sigs pn =
     (let f = foldRules rx rules pn in
      case f_out_const f of
        Some n \<Rightarrow>
          if n \<noteq> 0 \<and> n \<noteq> 1 then (None, [], [])
          else (Some ((blank_pin pn f)\<lparr>rpin_buffer_kind := BufOBUF, rpin_pad_dir := dirOut,
                  rpin_out_const := (if n = 1 then [CHR 0x27, CHR ''1'', CHR 0x27]
                                     else [CHR 0x27, CHR ''0'', CHR 0x27])\<rparr>), [], [])
      | None \<Rightarrow>
          if f_entity_pad f = Some True \<and> f_signal_ref f \<noteq> []
          then (Some ((blank_pin pn f)\<lparr>rpin_signal := f_signal_ref f, rpin_buffer_kind := BufEntity,
                  rpin_pad_dir := dirInout\<rparr>), [f_signal_ref f], [])
          else if pin_refs f = [] then (None, [], [])
          else if \<not> list_all (\<lambda>r. signalIsReal sigs d (fst (splitSignal r))) (pin_refs f) then (None, [], [])
          else let bd = bare_dir sigs f; bk = bufferKind f bd
               in (Some ((blank_pin pn f)\<lparr>rpin_signal := f_signal_ref f, rpin_diff := f_signal_diff f,
                     rpin_in := f_in_ref f, rpin_out := f_out_ref f,
                     rpin_out_invert := (f_out_ref f \<noteq> [] \<and> f_out_invert f),
                     rpin_out_en := f_out_en_ref f, rpin_buffer_kind := bk,
                     rpin_pad_dir := padDir bk bd\<rparr>), [], pin_legs f bd))"

fun resolvePinList :: "regex_engine \<Rightarrow> design \<Rightarrow> pin_rule list \<Rightarrow> netlist \<Rightarrow> pin list \<Rightarrow>
    resolved_pin list \<times> string list \<times> netlist" where
  "resolvePinList rx d rules sigs [] = ([], [], sigs)"
| "resolvePinList rx d rules sigs (pn # pns) =
     (case resolvePin rx d rules sigs pn of
        (rpo, pads, legs) \<Rightarrow>
          (case resolvePinList rx d rules (fold (add_leg (pin_net pn)) legs sigs) pns of
             (rps, pads', sigs') \<Rightarrow>
               ((case rpo of Some rp \<Rightarrow> rp # rps | None \<Rightarrow> rps), pads @ pads', sigs')))"

definition resolvePins :: "regex_engine \<Rightarrow> design option \<Rightarrow> netlist \<Rightarrow>
    resolved_pin list \<times> string list \<times> netlist" where
  "resolvePins rx dsg sigs =
     (case dsg of
        None \<Rightarrow> ([], [], sigs)
      | Some d \<Rightarrow>
          (case d_pins d of
             None \<Rightarrow> ([], [], sigs)
           | Some ps \<Rightarrow> resolvePinList rx d (ps_rules ps) sigs (ps_pins ps)))"

definition validatePinInvert :: "design option \<Rightarrow> resolve_error list" where
  "validatePinInvert dsg =
     (case dsg of
        None \<Rightarrow> []
      | Some d \<Rightarrow>
          (case d_pins d of
             None \<Rightarrow> []
           | Some ps \<Rightarrow>
               concat (map (\<lambda>r.
                 concat (map (\<lambda>(leg, so). case so of
                     None \<Rightarrow> []
                   | Some s \<Rightarrow> if ss_invert s
                       then [mk_err ErrUnsupportedInvert [] [] (''(on the '' @ leg @ '' leg)'')] else [])
                   [(''signal'', pr_signal r), (''in'', pr_in r), (''out-en'', pr_out_en r)]))
                 (ps_rules ps))))"

section \<open>Parametric matching\<close>

text \<open>The text a sequence of parts stands for, given its captures.\<close>

fun fill_parts :: "seq_part list \<Rightarrow> string list \<Rightarrow> string option" where
  "fill_parts [] cs = (if cs = [] then Some [] else None)"
| "fill_parts (p # ps) cs =
     (if sp_sym p \<noteq> []
      then (case cs of
              [] \<Rightarrow> None
            | c # cs' \<Rightarrow> if c \<noteq> [] \<and> list_all is_digit c then map_option ((@) c) (fill_parts ps cs') else None)
      else map_option ((@) (sp_lit p)) (fill_parts ps cs))"

lemma first_some_SomeD: "first_some f xs = Some y \<Longrightarrow> \<exists>x \<in> set xs. f x = Some y"
  by (induction xs) (auto split: option.splits)

lemma first_some_None: "first_some f xs = None \<longleftrightarrow> (\<forall>x \<in> set xs. f x = None)"
  by (induction xs) (auto split: option.splits)

lemma digit_run_take:
  assumes "1 \<le> k" "k \<le> digit_run s"
  shows "take k s \<noteq> [] \<and> list_all is_digit (take k s)"
proof -
  have "digit_run s \<le> length s" by (simp add: digit_run_def length_takeWhile_le)
  with assms have "s \<noteq> []" "0 < k" by auto
  moreover have "set (take k s) \<subseteq> set (takeWhile is_digit s)"
  proof -
    have "k - length (takeWhile is_digit s) = 0" using assms(2) by (simp add: digit_run_def)
    with take_append [of k "takeWhile is_digit s" "dropWhile is_digit s"]
    have "take k s = take k (takeWhile is_digit s)"
      by (simp only: takeWhile_dropWhile_id take_0 append_Nil2)
    then show ?thesis by (metis set_take_subset)
  qed
  ultimately show ?thesis by (auto simp: list_all_iff dest: set_takeWhileD)
qed

lemma digits_digit_run:
  assumes "list_all is_digit c"
  shows "length c \<le> digit_run (c @ r)"
proof -
  have "takeWhile is_digit (c @ r) = c @ takeWhile is_digit r"
    using assms by (simp add: list_all_iff)
  then show ?thesis by (simp add: digit_run_def)
qed

lemma match_parts_sound: "match_parts ps s = Some cs \<Longrightarrow> fill_parts ps cs = Some s"
proof (induction ps arbitrary: s cs)
  case Nil
  then show ?case by (auto split: if_splits)
next
  case (Cons p ps)
  show ?case
  proof (cases "sp_sym p = []")
    case True
    with Cons show ?thesis by (auto simp: prefix_def split: if_splits)
  next
    case False
    with Cons.prems have "first_some (\<lambda>k. map_option (\<lambda>cs. take k s # cs) (match_parts ps (drop k s)))
        (rev [1 ..< Suc (digit_run s)]) = Some cs" by simp
    from first_some_SomeD [OF this] obtain k cs' where k: "1 \<le> k" "k \<le> digit_run s"
      "match_parts ps (drop k s) = Some cs'" "cs = take k s # cs'" by auto
    with Cons.IH [OF k(3)] digit_run_take [OF k(1,2)] False show ?thesis by simp
  qed
qed

lemma match_parts_complete: "fill_parts ps cs = Some s \<Longrightarrow> match_parts ps s \<noteq> None"
proof (induction ps arbitrary: s cs)
  case Nil
  then show ?case by (auto split: if_splits)
next
  case (Cons p ps)
  show ?case
  proof (cases "sp_sym p = []")
    case True
    with Cons show ?thesis by (auto split: if_splits)
  next
    case False
    with Cons.prems obtain c cs' r where c: "cs = c # cs'" "c \<noteq> []" "list_all is_digit c"
      "fill_parts ps cs' = Some r" "s = c @ r"
      by (auto split: list.splits if_splits)
    have "match_parts ps (drop (length c) s) \<noteq> None" using Cons.IH [OF c(4)] c(5) by simp
    moreover have "length c \<in> set (rev [1 ..< Suc (digit_run s)])"
      using c digits_digit_run [OF c(3), of r] by (cases c) auto
    ultimately show ?thesis
      using False by (auto simp: first_some_None simp del: upt_Suc)
  qed
qed

section \<open>Pins do not influence one another\<close>

text \<open>
  Joining a pin's leg changes no question that is asked of the net-list for another pin: whether
  a signal is real, and which way a bare signal goes, look at ports of other kinds only.
\<close>

lemma addPinPort_lookup:
  "map_of (addPinPort sigs net leg base el dir diff) n =
     (if base \<noteq> [] \<and> n = base
      then Some (let s = (case map_of sigs base of Some s \<Rightarrow> s | None \<Rightarrow> mk_signal base None [])
        in s\<lparr>sig_ports := sig_ports s @
          [\<lparr>spr_context = mk_ctx ctxKindPin net, spr_port_name = ''pin.'' @ net @ ''.'' @ leg,
            spr_dir = dir, spr_type = sig_type s, spr_element = el, spr_diff = diff\<rparr>]\<rparr>)
      else map_of sigs n)"
  by (simp add: addPinPort_def Let_def)

lemma bareSignalDir_addPinPort [simp]:
  "bareSignalDir (addPinPort sigs net leg base el dir diff) b = bareSignalDir sigs b"
  by (auto simp: bareSignalDir_def addPinPort_lookup Let_def mk_ctx_def mk_signal_def split: option.split)

lemma signalIsReal_addPinPort [simp]:
  "signalIsReal (addPinPort sigs net leg base el dir diff) d b = signalIsReal sigs d b"
  by (auto simp: signalIsReal_def addPinPort_lookup Let_def mk_ctx_def mk_signal_def split: option.split)

definition same_questions :: "design \<Rightarrow> netlist \<Rightarrow> netlist \<Rightarrow> bool" where
  "same_questions d s s' \<longleftrightarrow>
     (\<forall>b. bareSignalDir s b = bareSignalDir s' b \<and> signalIsReal s d b = signalIsReal s' d b)"

lemma add_legs_same: "same_questions d (fold (add_leg net) legs sigs) sigs"
proof (induction legs arbitrary: sigs)
  case Nil
  then show ?case by (simp add: same_questions_def)
next
  case (Cons l legs)
  have "same_questions d (add_leg net l sigs) sigs"
    by (simp add: same_questions_def add_leg_def split: prod.split)
  with Cons [of "add_leg net l sigs"] show ?case by (simp add: same_questions_def)
qed

lemma resolvePin_same:
  assumes "same_questions d s s'"
  shows "resolvePin rx d rules s pn = resolvePin rx d rules s' pn"
proof -
  have b: "bareSignalDir s = bareSignalDir s'" and r: "signalIsReal s d = signalIsReal s' d"
    using assms by (auto simp: same_questions_def fun_eq_iff)
  have "bare_dir s = bare_dir s'" by (rule ext) (simp add: bare_dir_def b)
  then show ?thesis unfolding resolvePin_def by (simp only: r)
qed

lemma resolvePinList_pointwise:
  assumes "same_questions d s s0"
  shows "fst (resolvePinList rx d rules s pns) =
      List.map_filter (\<lambda>pn. fst (resolvePin rx d rules s0 pn)) pns \<and>
    fst (snd (resolvePinList rx d rules s pns)) =
      concat (map (\<lambda>pn. fst (snd (resolvePin rx d rules s0 pn))) pns) \<and>
    snd (snd (resolvePinList rx d rules s pns)) =
      fold (\<lambda>pn. fold (add_leg (pin_net pn)) (snd (snd (resolvePin rx d rules s0 pn)))) pns s"
  using assms
proof (induction pns arbitrary: s)
  case Nil
  then show ?case by (simp add: List.map_filter_simps)
next
  case (Cons pn pns)
  obtain rpo pads legs where r: "resolvePin rx d rules s pn = (rpo, pads, legs)" by (rule prod_cases3)
  then have r0: "resolvePin rx d rules s0 pn = (rpo, pads, legs)"
    using resolvePin_same [OF Cons.prems] by simp
  let ?s = "fold (add_leg (pin_net pn)) legs s"
  have "same_questions d ?s s0"
    using add_legs_same [of d "pin_net pn" legs s] Cons.prems by (simp add: same_questions_def)
  note IH = Cons.IH [OF this]
  obtain rps pads' sigs' where l: "resolvePinList rx d rules ?s pns = (rps, pads', sigs')"
    by (rule prod_cases3)
  show ?case
    using IH by (simp add: r r0 l List.map_filter_simps split: option.split)
qed

section \<open>Properties\<close>

text \<open>
  C14: a parametric rule matches a pin exactly when the pin's name is the rule's parts with some
  non-empty digit strings in place of the symbols, and the captures it finds spell out the name.
\<close>

theorem match_parts_exact:
  "(match_parts ps s = None \<longleftrightarrow> (\<nexists>cs. fill_parts ps cs = Some s)) \<and>
   (case match_parts ps s of None \<Rightarrow> True | Some cs \<Rightarrow> fill_parts ps cs = Some s)"
  using match_parts_sound [of ps s] match_parts_complete [of ps _ s]
  by (cases "match_parts ps s") auto

text \<open>
  C7: each pin is resolved by itself: the resolved pins, the pads bound to entity ports and the
  legs that join the net-list are those that every pin gives on the net-list before any pin was
  joined, whatever the order of the pins. In particular the two pins of a differential pair
  agree on the direction of their signal.
\<close>

theorem resolvePins_pointwise:
  assumes "d_pins d = Some ps"
  shows "resolvePins rx (Some d) sigs =
    (List.map_filter (\<lambda>pn. fst (resolvePin rx d (ps_rules ps) sigs pn)) (ps_pins ps),
     concat (map (\<lambda>pn. fst (snd (resolvePin rx d (ps_rules ps) sigs pn))) (ps_pins ps)),
     fold (\<lambda>pn. fold (add_leg (pin_net pn)) (snd (snd (resolvePin rx d (ps_rules ps) sigs pn)))) (ps_pins ps) sigs)"
proof -
  have "same_questions d sigs sigs" by (simp add: same_questions_def)
  from resolvePinList_pointwise [OF this] show ?thesis
    using assms by (simp add: resolvePins_def prod_eq_iff)
qed

definition demo_rule :: pin_rule where
  "demo_rule = \<lparr>pr_match = Some \<lparr>pm_regex = [], pm_parts = [\<lparr>sp_lit = ''led'', sp_sym = []\<rparr>, \<lparr>sp_lit = [], sp_sym = ''n''\<rparr>]\<rparr>,
     pr_signal = Some \<lparr>ss_kind = SigTemplate, ss_name = [], ss_int = 0,
       ss_parts = [\<lparr>sp_lit = ''po('', sp_sym = []\<rparr>, \<lparr>sp_lit = [], sp_sym = ''n''\<rparr>, \<lparr>sp_lit = '')'', sp_sym = []\<rparr>],
       ss_diff = [], ss_invert = False\<rparr>,
     pr_in = None, pr_out = None, pr_out_en = None, pr_attrs = [], pr_buff = None, pr_entity_pad = None\<rparr>"

definition demo_pin_design :: design where
  "demo_pin_design = bare_design\<lparr>d_pins := Some \<lparr>ps_file = [], ps_type = [], ps_part = [], ps_rules = [demo_rule],
     ps_pins = [\<lparr>pin_net = ''led12'', pin_pad = ''P1''\<rparr>, \<lparr>pin_net = ''ledx'', pin_pad = ''P2''\<rparr>]\<rparr>\<rparr>"

definition demo_sigs :: netlist where
  "demo_sigs = [(''po'', mk_signal ''po'' None [demo_ref ''device'' ''gpio'' ''out''])]"

theorem resolvePins_pointwise_witness:
  "map rpin_signal (fst (resolvePins (\<lambda>_ _. None) (Some demo_pin_design) demo_sigs)) = [''po(12)''] \<and>
   map rpin_buffer_kind (fst (resolvePins (\<lambda>_ _. None) (Some demo_pin_design) demo_sigs)) = [BufOBUF]"
proof -
  have p: "d_pins demo_pin_design = Some (the (d_pins demo_pin_design))"
    by (simp add: demo_pin_design_def bare_design_def)
  have "map rpin_signal (List.map_filter (\<lambda>pn. fst (resolvePin (\<lambda>_ _. None) demo_pin_design
        (ps_rules (the (d_pins demo_pin_design))) demo_sigs pn)) (ps_pins (the (d_pins demo_pin_design)))) = [''po(12)''] \<and>
      map rpin_buffer_kind (List.map_filter (\<lambda>pn. fst (resolvePin (\<lambda>_ _. None) demo_pin_design
        (ps_rules (the (d_pins demo_pin_design))) demo_sigs pn)) (ps_pins (the (d_pins demo_pin_design)))) = [BufOBUF]"
    by code_simp
  then show ?thesis unfolding resolvePins_pointwise [OF p] by simp
qed

end
