(* ===== verification/Elab_Categorize.thy ===== *)
theory Elab_Categorize
  imports Elab_Netlist
begin

text \<open>
  Model of \<open>src/tools/socgen/elaborate/categorize.go\<close>: which of the three generated architectures
  (pad ring, soc, devices) declares a signal and which boundaries it crosses, from the kinds of
  context its ports have. A set of kinds (a Go map that only holds \<open>true\<close>) is a list without
  duplicates.
\<close>

section \<open>Context sets\<close>

definition setKey :: "string list \<Rightarrow> string" where
  "setKey ks = join_strings (sort ks) '',''"

definition signal_kinds :: "signal \<Rightarrow> string list" where
  "signal_kinds s = fold (\<lambda>p ks. List.insert (ctx_kind (spr_context p)) ks) (sig_ports s) []"

definition bucket :: "signal list strmap \<Rightarrow> string \<Rightarrow> signal list" where
  "bucket cs k = (case map_of cs k of Some ss \<Rightarrow> ss | None \<Rightarrow> [])"

definition contextSets :: "netlist \<Rightarrow> signal list strmap" where
  "contextSets sigs =
     fold (\<lambda>n out. case map_of sigs n of
             None \<Rightarrow> out
           | Some s \<Rightarrow> let k = setKey (signal_kinds s) in AList.update k (bucket out k @ [s]) out)
       (sorted_keys sigs) []"

definition extendCombos :: "string list \<Rightarrow> string list list \<Rightarrow> string list list" where
  "extendCombos pos combos =
     concat (map (\<lambda>c. map (\<lambda>opt. if opt = [] then c else List.insert opt c) pos) combos)"

fun dedupCombos :: "string list \<Rightarrow> string list list \<Rightarrow> string list list" where
  "dedupCombos seen [] = []"
| "dedupCombos seen (c # cs) =
     (if setKey c \<in> set seen then dedupCombos seen cs else c # dedupCombos (setKey c # seen) cs)"

definition typeCombinations :: "string list list \<Rightarrow> string list list" where
  "typeCombinations positions = dedupCombos [] (fold extendCombos positions [[]])"

definition filterByContext :: "signal list strmap \<Rightarrow> string list list \<Rightarrow> signal list" where
  "filterByContext cs positions =
     concat (map (\<lambda>combo. bucket cs (setKey combo)) (typeCombinations positions))"

section \<open>Sources and directions\<close>

definition driver_kinds :: "signal \<Rightarrow> string list" where
  "driver_kinds s =
     fold (\<lambda>p ks. if spr_dir p \<noteq> dirOut then ks
             else List.insert (if ctx_kind (spr_context p) = ctxKindPin then ''padring''
                               else ctx_kind (spr_context p)) ks) (sig_ports s) []"

text \<open>The source context, or the error (\<open>Inl\<close>).\<close>

definition srcContext :: "signal \<Rightarrow> signal_error + string" where
  "srcContext s =
     (case driver_kinds s of
        [k] \<Rightarrow> Inr k
      | ks \<Rightarrow> Inl (mk_sig_err ErrMultiContextDriver (sig_name s) (setKey ks)))"

definition inOutSignals :: "signal list \<Rightarrow> string \<Rightarrow> signal list" where
  "inOutSignals sigs c =
     filter (\<lambda>s. let dirs = remdups (map spr_dir (filter (\<lambda>p. ctx_kind (spr_context p) = c) (sig_ports s)))
                 in length dirs = 2 \<and> dirIn \<in> set dirs \<and> dirOut \<in> set dirs) sigs"

definition catP :: "string list" where "catP = [''pin'', ''padring'', ''expose'']"
definition catPT :: "string list" where "catPT = [''pin'', ''padring'', ''expose'', ''top'']"
definition catTD :: "string list" where "catTD = [''top'', ''device'']"

definition padringTopDir :: "string strmap" where
  "padringTopDir = [(''pin'', dirIn), (''padring'', dirIn), (''expose'', dirIn), (''device'', dirOut), (''top'', dirOut)]"

definition topDevicesDir :: "string strmap" where
  "topDevicesDir = [(''pin'', dirIn), (''padring'', dirIn), (''expose'', dirIn), (''device'', dirOut), (''top'', dirIn)]"

definition dir_of :: "string strmap \<Rightarrow> string \<Rightarrow> string" where
  "dir_of m k = (case map_of m k of Some d \<Rightarrow> d | None \<Rightarrow> [])"

section \<open>The locations of the signals\<close>

definition boundary_ports :: "signal list \<Rightarrow> string strmap \<Rightarrow> port_loc list \<times> signal_error list" where
  "boundary_ports sigs dirOf =
     (sort_key pl_name
        (List.map_filter (\<lambda>s. case srcContext s of Inl e \<Rightarrow> None
           | Inr src \<Rightarrow> Some \<lparr>pl_name = sig_name s, pl_dir = dir_of dirOf src\<rparr>) sigs),
      List.map_filter (\<lambda>s. case srcContext s of Inl e \<Rightarrow> Some e | Inr src \<Rightarrow> None) sigs)"

definition name_list :: "signal list \<Rightarrow> string list" where
  "name_list sigs = sort (map sig_name sigs)"

definition alias_map :: "signal list \<Rightarrow> string strmap" where
  "alias_map sigs = fold (\<lambda>s m. AList.update (sig_name s) (''sig_'' @ sig_name s) m) sigs []"

definition padringTopSigs :: "netlist \<Rightarrow> signal list" where
  "padringTopSigs sigs = filterByContext (contextSets sigs) [catP, catP, catP, catTD, catTD]"

definition topDevicesSigs :: "netlist \<Rightarrow> signal list" where
  "topDevicesSigs sigs = filterByContext (contextSets sigs) [catPT, catPT, catPT, catPT, [''device'']]"

definition padringSigs :: "netlist \<Rightarrow> signal list" where
  "padringSigs sigs = filterByContext (contextSets sigs)
     [catP, catP, catP, [''top'', ''device'', []], [''top'', ''device'', []]]"

definition topSigs :: "netlist \<Rightarrow> signal list" where
  "topSigs sigs = filterByContext (contextSets sigs) [[''top''], [''device'', []]]"

definition devicesSigs :: "netlist \<Rightarrow> signal list" where
  "devicesSigs sigs = filterByContext (contextSets sigs) [[''device'']]"

definition categorize :: "resolution \<Rightarrow> signal_locations \<times> signal_error list" where
  "categorize res =
     (let sigs = res_signals res;
          (pt, e1) = boundary_ports (padringTopSigs sigs) padringTopDir;
          (td, e2) = boundary_ports (topDevicesSigs sigs) topDevicesDir
      in (\<lparr>sl_padring_top = pt, sl_top_devices = td,
           sl_padring = name_list (padringSigs sigs), sl_top = name_list (topSigs sigs),
           sl_devices = name_list (devicesSigs sigs),
           sl_top_extra = alias_map (inOutSignals (padringTopSigs sigs) ''top''),
           sl_devices_extra = alias_map (inOutSignals (topDevicesSigs sigs) ''device'')\<rparr>, e1 @ e2))"

section \<open>Internal bus ports\<close>

definition internal_ref :: "ctx \<Rightarrow> string \<Rightarrow> string \<Rightarrow> resolved_type option \<Rightarrow> signal_port_ref" where
  "internal_ref c n dir t = \<lparr>spr_context = c, spr_port_name = n, spr_dir = dir, spr_type = t,
     spr_element = [], spr_diff = []\<rparr>"

definition add_bus_port :: "string \<Rightarrow> string \<Rightarrow> string \<Rightarrow> ctx \<Rightarrow> netlist \<Rightarrow> netlist" where
  "add_bus_port n mark dir c sigs =
     (let s = (case map_of sigs n of Some s \<Rightarrow> s | None \<Rightarrow> mk_signal n (Some (symbolic_type mark None)) [])
      in AList.update n (s\<lparr>sig_ports := sig_ports s @ [internal_ref c n dir (sig_type s)]\<rparr>) sigs)"

definition inject_pi :: "netlist \<Rightarrow> netlist" where
  "inject_pi sigs =
     (case map_of sigs ''pi'' of
        None \<Rightarrow> sigs
      | Some s \<Rightarrow>
          if list_ex (\<lambda>p. ctx_kind (spr_context p) = ''device'' \<and> spr_dir p = dirIn) (sig_ports s) \<and>
             \<not> list_ex (\<lambda>p. spr_dir p = dirOut) (sig_ports s)
          then AList.update ''pi'' (s\<lparr>sig_ports := sig_ports s @
                 [internal_ref (mk_ctx ''padring'' ''pi'') ''pi'' dirOut (sig_type s)]\<rparr>) sigs
          else sigs)"

definition injectInternalBusPorts :: "resolution \<Rightarrow> resolution" where
  "injectInternalBusPorts res =
     (case res_data_bus res of
        None \<Rightarrow> res
      | Some db \<Rightarrow>
          let dev = mk_ctx ''device'' ''_internal'';
              sigs = fold (\<lambda>bus sigs.
                  add_bus_port (bus @ ''_periph_dbus_o'') ''cpu_data_o_t'' dirIn dev
                    (add_bus_port (bus @ ''_periph_dbus_i'') ''cpu_data_i_t'' dirOut dev sigs))
                (sort (pbm_connected db @ pbm_disconnected db)) (res_signals res)
          in res\<lparr>res_signals := inject_pi sigs\<rparr>)"

section \<open>Keys of sets\<close>

definition plain_kind :: "string \<Rightarrow> bool" where
  "plain_kind k \<longleftrightarrow> k \<noteq> [] \<and> CHR '','' \<notin> set k"

lemma join_comma_inject:
  assumes "list_all plain_kind xs" "list_all plain_kind ys" "join_strings xs '','' = join_strings ys '',''"
  shows "xs = ys"
  using assms
proof (induction xs arbitrary: ys)
  case Nil
  have "join_strings (y # t) '','' \<noteq> []" if "plain_kind y" for y t
    using that by (cases t) (auto simp: plain_kind_def)
  note ne = this
  show ?case
  proof (cases ys)
    case (Cons y t)
    with Nil.prems(2,3) ne [of y t] show ?thesis by (metis join_strings.simps(1) list.pred_inject(2))
  qed simp
next
  case (Cons x xs)
  have split: "takeWhile (\<lambda>c. c \<noteq> CHR '','') (join_strings (z # zs) '','') = z"
    "dropWhile (\<lambda>c. c \<noteq> CHR '','') (join_strings (z # zs) '','') =
       (if zs = [] then [] else CHR '','' # join_strings zs '','')" if "plain_kind z" for z zs
  proof -
    have z: "\<forall>c \<in> set z. c \<noteq> CHR '',''" using that by (auto simp: plain_kind_def)
    show "takeWhile (\<lambda>c. c \<noteq> CHR '','') (join_strings (z # zs) '','') = z"
      using z by (cases zs) (auto simp: takeWhile_append)
    show "dropWhile (\<lambda>c. c \<noteq> CHR '','') (join_strings (z # zs) '','') =
        (if zs = [] then [] else CHR '','' # join_strings zs '','')"
      using z by (cases zs) (auto simp: dropWhile_append)
  qed
  have "join_strings (x # xs) '','' \<noteq> []" using Cons.prems by (cases xs) (auto simp: plain_kind_def)
  then obtain y ys' where ys: "ys = y # ys'" using Cons.prems by (cases ys) auto
  have xy: "x = y" using split(1) [of x xs] split(1) [of y ys'] Cons.prems ys by simp
  have "(if xs = [] then [] else CHR '','' # join_strings xs '','') =
      (if ys' = [] then [] else CHR '','' # join_strings ys' '','')"
    using split(2) [of x xs] split(2) [of y ys'] Cons.prems ys by simp
  then have "xs = [] \<longleftrightarrow> ys' = []" "join_strings xs '','' = join_strings ys' '',''"
    by (auto split: if_splits)
  with Cons.IH [of ys'] Cons.prems ys xy show ?case by simp
qed

lemma setKey_eq:
  assumes "distinct xs" "distinct ys" "list_all plain_kind xs" "list_all plain_kind ys"
  shows "setKey xs = setKey ys \<longleftrightarrow> set xs = set ys"
proof
  assume "setKey xs = setKey ys"
  then have "sort xs = sort ys"
    using assms unfolding setKey_def by (intro join_comma_inject) (auto simp: list_all_iff)
  then have "set (sort xs) = set (sort ys)" by simp
  then show "set xs = set ys" by simp
next
  assume "set xs = set ys"
  then have "mset xs = mset ys" using set_eq_iff_mset_eq_distinct [OF assms(1,2)] by blast
  from sort_eq_of_mset [OF this] show "setKey xs = setKey ys" by (simp only: setKey_def)
qed

section \<open>Combinations of kinds\<close>

text \<open>A choice adds a kind to a set, the empty choice nothing; the sets that one choice per position gives.\<close>

definition with_kind :: "string \<Rightarrow> string set \<Rightarrow> string set" where
  "with_kind a S = (if a = [] then S else insert a S)"

lemma with_kind_union: "with_kind a S \<union> T = with_kind a (S \<union> T)" "S \<union> with_kind a T = with_kind a (S \<union> T)"
  by (auto simp: with_kind_def)

fun picks :: "string list list \<Rightarrow> string set set" where
  "picks [] = {{}}"
| "picks (p # ps) = {with_kind a S | a S. a \<in> set p \<and> S \<in> picks ps}"

lemma set_extendCombos:
  "X \<in> set ` set (extendCombos pos combos) \<longleftrightarrow> (\<exists>a \<in> set pos. \<exists>c \<in> set combos. X = with_kind a (set c))"
proof -
  have eq: "set (if a = [] then c else List.insert a c) = with_kind a (set c)" for a and c :: "string list"
    by (simp add: with_kind_def)
  have mem: "e \<in> set (extendCombos pos combos) \<longleftrightarrow>
      (\<exists>c \<in> set combos. \<exists>a \<in> set pos. (if a = [] then c else List.insert a c) = e)" for e
  proof -
    have "e \<in> set (concat (map (\<lambda>c. map (\<lambda>a. f a c) pos) combos)) \<longleftrightarrow>
        (\<exists>c \<in> set combos. \<exists>a \<in> set pos. f a c = e)" for f by auto
    from this [of "\<lambda>a c. if a = [] then c else List.insert a c"]
    show ?thesis unfolding extendCombos_def .
  qed
  show ?thesis
  proof
    assume "X \<in> set ` set (extendCombos pos combos)"
    then obtain e where e: "e \<in> set (extendCombos pos combos)" "X = set e" by (elim imageE)
    from e(1) [unfolded mem] obtain c a where ca: "c \<in> set combos" "a \<in> set pos"
      "(if a = [] then c else List.insert a c) = e" by (elim bexE)
    have "X = with_kind a (set c)" using eq [of a c] unfolding ca(3) e(2) .
    with ca(1,2) show "\<exists>a \<in> set pos. \<exists>c \<in> set combos. X = with_kind a (set c)" by (intro bexI)
  next
    assume "\<exists>a \<in> set pos. \<exists>c \<in> set combos. X = with_kind a (set c)"
    then obtain a c where ca: "a \<in> set pos" "c \<in> set combos" "X = with_kind a (set c)" by (elim bexE)
    let ?e = "if a = [] then c else List.insert a c"
    have "?e \<in> set (extendCombos pos combos)" unfolding mem using ca(1,2) by metis
    moreover have "X = set ?e" unfolding eq by (rule ca(3))
    ultimately show "X \<in> set ` set (extendCombos pos combos)" by (intro image_eqI)
  qed
qed

lemma fold_extendCombos:
  "X \<in> set ` set (fold extendCombos ps combos) \<longleftrightarrow> (\<exists>S \<in> set ` set combos. \<exists>T \<in> picks ps. X = S \<union> T)"
proof (induction ps arbitrary: combos)
  case Nil
  then show ?case by simp
next
  case (Cons p ps)
  have "X \<in> set ` set (fold extendCombos (p # ps) combos) \<longleftrightarrow>
      (\<exists>S \<in> set ` set (extendCombos p combos). \<exists>T \<in> picks ps. X = S \<union> T)"
    using Cons [of "extendCombos p combos"] by simp
  also have "\<dots> \<longleftrightarrow> (\<exists>S. (\<exists>a \<in> set p. \<exists>c \<in> set combos. S = with_kind a (set c)) \<and> (\<exists>T \<in> picks ps. X = S \<union> T))"
    unfolding Bex_def set_extendCombos ..
  also have "\<dots> \<longleftrightarrow> (\<exists>S \<in> set ` set combos. \<exists>T \<in> picks (p # ps). X = S \<union> T)" (is "?l \<longleftrightarrow> ?r")
  proof
    assume ?l
    then obtain a c T where "a \<in> set p" "c \<in> set combos" "T \<in> picks ps" "X = with_kind a (set c) \<union> T"
      by metis
    then have "X = set c \<union> with_kind a T" "with_kind a T \<in> picks (p # ps)"
      by (auto simp: with_kind_union)
    with \<open>c \<in> set combos\<close> show ?r by (intro bexI [of _ "set c"] bexI [of _ "with_kind a T"]) simp_all
  next
    assume ?r
    then obtain a c T where "a \<in> set p" "c \<in> set combos" "T \<in> picks ps" "X = set c \<union> with_kind a T"
      by auto
    then show ?l by (metis with_kind_union)
  qed
  finally show ?case .
qed

lemma dedupCombos_keys:
  "setKey ` set (dedupCombos seen cs) = setKey ` set cs - set seen"
  "set (dedupCombos seen cs) \<subseteq> set cs"
  by (induction cs arbitrary: seen) auto

lemma dedupCombos_distinct: "distinct (map setKey (dedupCombos seen cs))"
proof (induction cs arbitrary: seen)
  case Nil
  then show ?case by simp
next
  case (Cons c cs)
  have "setKey c \<notin> setKey ` set (dedupCombos (setKey c # seen) cs)"
    using dedupCombos_keys(1) [of "setKey c # seen" cs] by auto
  with Cons show ?case by simp
qed

definition good_positions :: "string list list \<Rightarrow> bool" where
  "good_positions ps \<longleftrightarrow> (\<forall>p \<in> set ps. \<forall>a \<in> set p. a = [] \<or> plain_kind a)"

lemma fold_extend_wf:
  assumes "good_positions ps" "\<forall>c \<in> set combos. distinct c \<and> list_all plain_kind c"
  shows "\<forall>c \<in> set (fold extendCombos ps combos). distinct c \<and> list_all plain_kind c"
  using assms
proof (induction ps arbitrary: combos)
  case Nil
  then show ?case by simp
next
  case (Cons p ps)
  have pos: "\<forall>a \<in> set p. a = [] \<or> plain_kind a" "good_positions ps"
    using Cons.prems(1) by (simp_all add: good_positions_def)
  have "distinct c \<and> list_all plain_kind c" if c: "c \<in> set (extendCombos p combos)" for c
  proof -
    from c obtain d a where "d \<in> set combos" "a \<in> set p" "c = (if a = [] then d else List.insert a d)"
      by (auto simp: extendCombos_def)
    with pos(1) Cons.prems(2) show ?thesis by (cases "a = []") (auto simp: list_all_iff)
  qed
  then have "\<forall>c \<in> set (fold extendCombos ps (extendCombos p combos)). distinct c \<and> list_all plain_kind c"
    using Cons.IH [OF pos(2), of "extendCombos p combos"] by metis
  then show ?case by (simp only: fold_simps)
qed

section \<open>The signals of a category\<close>

lemma signal_kinds_set: "set (signal_kinds s) = (ctx_kind \<circ> spr_context) ` set (sig_ports s)"
  and signal_kinds_distinct: "distinct (signal_kinds s)"
proof -
  have "set (fold (\<lambda>p ks. List.insert (ctx_kind (spr_context p)) ks) ps ks) =
      set ks \<union> (ctx_kind \<circ> spr_context) ` set ps" for ps ks by (induction ps arbitrary: ks) auto
  from this [of "sig_ports s" "[]"] show "set (signal_kinds s) = (ctx_kind \<circ> spr_context) ` set (sig_ports s)"
    unfolding signal_kinds_def by (simp only: list.set Un_empty_left)
  have "distinct ks \<Longrightarrow> distinct (fold (\<lambda>p ks. List.insert (ctx_kind (spr_context p)) ks) ps ks)" for ps ks
    by (induction ps arbitrary: ks) auto
  from this [of "[]" "sig_ports s"] show "distinct (signal_kinds s)"
    unfolding signal_kinds_def by (simp only: distinct.simps(1))
qed

text \<open>All signals have kinds without commas, as the contexts of the code do.\<close>

definition plain_kinds :: "netlist \<Rightarrow> bool" where
  "plain_kinds sigs \<longleftrightarrow> (\<forall>(n, s) \<in> set sigs. \<forall>p \<in> set (sig_ports s). plain_kind (ctx_kind (spr_context p)))"

lemma bucket_contextSets:
  "bucket (contextSets sigs) k =
     List.map_filter (\<lambda>n. case map_of sigs n of None \<Rightarrow> None
       | Some s \<Rightarrow> if setKey (signal_kinds s) = k then Some s else None) (sorted_keys sigs)"
proof -
  have "bucket (fold (\<lambda>n out. case map_of sigs n of
             None \<Rightarrow> out
           | Some s \<Rightarrow> let k = setKey (signal_kinds s) in AList.update k (bucket out k @ [s]) out) ns out) k =
      bucket out k @ List.map_filter (\<lambda>n. case map_of sigs n of None \<Rightarrow> None
       | Some s \<Rightarrow> if setKey (signal_kinds s) = k then Some s else None) ns" for ns out
  proof (induction ns arbitrary: out)
    case Nil
    then show ?case by (simp add: List.map_filter_simps)
  next
    case (Cons n ns)
    then show ?case
      by (cases "map_of sigs n") (simp_all add: List.map_filter_simps Let_def bucket_def)
  qed
  from this [of "sorted_keys sigs" "[]"] show ?thesis by (simp add: contextSets_def bucket_def)
qed

lemma filterByContext_iff:
  assumes "distinct (map fst sigs)" "plain_kinds sigs" "good_positions ps"
  shows "s \<in> set (filterByContext (contextSets sigs) ps) \<longleftrightarrow>
    s \<in> snd ` set sigs \<and> set (signal_kinds s) \<in> picks ps"
proof -
  have mem: "s \<in> set (bucket (contextSets sigs) k) \<longleftrightarrow> s \<in> snd ` set sigs \<and> setKey (signal_kinds s) = k" for k
  proof -
    have "s \<in> set (bucket (contextSets sigs) k) \<longleftrightarrow>
        (\<exists>n \<in> fst ` set sigs. map_of sigs n = Some s \<and> setKey (signal_kinds s) = k)"
      unfolding bucket_contextSets List.map_filter_def by (force split: option.splits if_splits)
    also have "(\<exists>n \<in> fst ` set sigs. map_of sigs n = Some s \<and> setKey (signal_kinds s) = k) \<longleftrightarrow>
        s \<in> snd ` set sigs \<and> setKey (signal_kinds s) = k"
      using assms(1) by force
    finally show ?thesis .
  qed
  have wf: "\<forall>c \<in> set (fold extendCombos ps [[]]). distinct c \<and> list_all plain_kind c"
    using assms(3) by (intro fold_extend_wf) auto
  have "s \<in> set (filterByContext (contextSets sigs) ps) \<longleftrightarrow>
      s \<in> snd ` set sigs \<and> setKey (signal_kinds s) \<in> setKey ` set (typeCombinations ps)"
    by (auto simp: filterByContext_def mem)
  also have "setKey ` set (typeCombinations ps) = setKey ` set (fold extendCombos ps [[]])"
    by (simp add: typeCombinations_def dedupCombos_keys)
  finally have step: "s \<in> set (filterByContext (contextSets sigs) ps) \<longleftrightarrow>
      s \<in> snd ` set sigs \<and> setKey (signal_kinds s) \<in> setKey ` set (fold extendCombos ps [[]])" .
  have "setKey (signal_kinds s) \<in> setKey ` set (fold extendCombos ps [[]]) \<longleftrightarrow>
      set (signal_kinds s) \<in> set ` set (fold extendCombos ps [[]])" if "s \<in> snd ` set sigs"
  proof -
    have pk: "list_all plain_kind (signal_kinds s)"
      using that assms(2) by (auto simp: list_all_iff signal_kinds_set plain_kinds_def)
    have "setKey (signal_kinds s) = setKey c \<longleftrightarrow> set (signal_kinds s) = set c"
      if "c \<in> set (fold extendCombos ps [[]])" for c
      using wf that pk by (intro setKey_eq signal_kinds_distinct) auto
    then show ?thesis by (auto simp: image_iff)
  qed
  moreover have "set (signal_kinds s) \<in> set ` set (fold extendCombos ps [[]]) \<longleftrightarrow> set (signal_kinds s) \<in> picks ps"
    unfolding fold_extendCombos by simp
  ultimately show ?thesis using step by blast
qed

section \<open>Which sets the positions give\<close>

lemma picks_ConsI: "a \<in> set p \<Longrightarrow> S \<in> picks ps \<Longrightarrow> with_kind a S \<in> picks (p # ps)"
  by auto

lemma picks_ConsE:
  assumes "X \<in> picks (p # ps)"
  obtains a S where "X = with_kind a S" "a \<in> set p" "S \<in> picks ps"
  using assms by auto

lemma picks_Cons_iff: "X \<in> picks (p # ps) \<longleftrightarrow> (\<exists>a \<in> set p. \<exists>S \<in> picks ps. X = with_kind a S)"
  by (metis picks_ConsI picks_ConsE)

lemma picks_append: "X \<in> picks (ps @ qs) \<longleftrightarrow> (\<exists>S \<in> picks ps. \<exists>T \<in> picks qs. X = S \<union> T)"
proof (induction ps arbitrary: X)
  case Nil
  then show ?case by simp
next
  case (Cons p ps)
  show ?case
  proof
    assume "X \<in> picks ((p # ps) @ qs)"
    then obtain a Y where a: "X = with_kind a Y" "a \<in> set p" "Y \<in> picks (ps @ qs)"
      by (metis append_Cons picks_ConsE)
    then obtain S T where st: "S \<in> picks ps" "T \<in> picks qs" "Y = S \<union> T" using Cons by metis
    have "X = with_kind a S \<union> T" using a st by (simp add: with_kind_union)
    then show "\<exists>S \<in> picks (p # ps). \<exists>T \<in> picks qs. X = S \<union> T"
      using picks_ConsI [OF a(2) st(1)] st(2) by metis
  next
    assume "\<exists>S \<in> picks (p # ps). \<exists>T \<in> picks qs. X = S \<union> T"
    then obtain a S T where "X = with_kind a S \<union> T" "a \<in> set p" "S \<in> picks ps" "T \<in> picks qs"
      by (metis picks_ConsE)
    then have "X = with_kind a (S \<union> T)" "S \<union> T \<in> picks (ps @ qs)" using Cons by (auto simp: with_kind_union)
    then show "X \<in> picks ((p # ps) @ qs)" using picks_ConsI [OF \<open>a \<in> set p\<close>] by (metis append_Cons)
  qed
qed

lemma picks_one:
  assumes "[] \<notin> set p"
  shows "X \<in> picks [p] \<longleftrightarrow> (\<exists>a \<in> set p. X = {a})"
proof -
  have "with_kind a {} = {a}" if "a \<in> set p" for a using that assms by (auto simp: with_kind_def)
  then show ?thesis by (simp only: picks.simps mem_Collect_eq) (metis singletonI singletonD)
qed

lemma picks_replicate:
  assumes "[] \<notin> set p"
  shows "X \<in> picks (replicate (Suc n) p) \<longleftrightarrow> X \<noteq> {} \<and> X \<subseteq> set p \<and> card X \<le> Suc n"
proof (induction n arbitrary: X)
  case 0
  have "(\<exists>a \<in> set p. X = {a}) \<longleftrightarrow> X \<noteq> {} \<and> X \<subseteq> set p \<and> card X \<le> Suc 0"
  proof
    assume r: "X \<noteq> {} \<and> X \<subseteq> set p \<and> card X \<le> Suc 0"
    then have "finite X" using finite_subset by blast
    with r have "card X = 1" using card_gt_0_iff [of X] by linarith
    then obtain a where "X = {a}" using card_1_singletonE by blast
    with r show "\<exists>a \<in> set p. X = {a}" by simp
  qed auto
  then show ?case using picks_one [OF assms] by simp
next
  case (Suc n)
  have step: "Y \<in> picks (replicate (Suc (Suc n)) p) \<longleftrightarrow> (\<exists>a \<in> set p. \<exists>S \<in> picks (replicate (Suc n) p). Y = insert a S)"
    for Y
  proof -
    have wk: "with_kind a S = insert a S" if "a \<in> set p" for a S using that assms by (auto simp: with_kind_def)
    have "Y \<in> picks (p # ps) \<longleftrightarrow> (\<exists>a \<in> set p. \<exists>S \<in> picks ps. Y = insert a S)" for ps
      by (metis wk picks_ConsI picks_ConsE)
    from this [of "replicate (Suc n) p"] show ?thesis unfolding replicate_Suc [of "Suc n"] .
  qed
  show ?case
  proof
    assume "X \<in> picks (replicate (Suc (Suc n)) p)"
    then obtain a S where aS: "X = insert a S" "a \<in> set p" "S \<in> picks (replicate (Suc n) p)"
      unfolding step by blast
    then have S: "S \<subseteq> set p" "card S \<le> Suc n" "finite S"
      using Suc.IH [of S] finite_subset [OF _ finite_set] by metis+
    with aS show "X \<noteq> {} \<and> X \<subseteq> set p \<and> card X \<le> Suc (Suc n)" by (simp add: card_insert_if)
  next
    assume "X \<noteq> {} \<and> X \<subseteq> set p \<and> card X \<le> Suc (Suc n)"
    then have X: "X \<noteq> {}" "X \<subseteq> set p" "card X \<le> Suc (Suc n)" "finite X"
      using finite_subset [OF _ finite_set] by metis+
    then obtain a where a: "a \<in> X" by blast
    have "\<exists>S \<in> picks (replicate (Suc n) p). X = insert a S"
    proof (cases "X = {a}")
      case True
      then have "X \<in> picks (replicate (Suc n) p)" using Suc.IH [of X] X by simp
      then show ?thesis using a by (metis insert_absorb)
    next
      case False
      then have "X - {a} \<noteq> {}" using a by blast
      moreover have "card (X - {a}) \<le> Suc n" using a X by (simp add: card_Diff_singleton)
      ultimately have "X - {a} \<in> picks (replicate (Suc n) p)" using Suc.IH [of "X - {a}"] X by blast
      then show ?thesis using a by (metis insert_Diff)
    qed
    then show "X \<in> picks (replicate (Suc (Suc n)) p)" using a X(2) unfolding step by blast
  qed
qed

lemma picks_all:
  assumes "[] \<notin> set p" "length p \<le> Suc n"
  shows "X \<in> picks (replicate (Suc n) p) \<longleftrightarrow> X \<noteq> {} \<and> X \<subseteq> set p"
proof -
  have "card X \<le> Suc n" if "X \<subseteq> set p"
    using card_mono [OF finite_set that] card_length [of p] assms(2) by simp
  then show ?thesis using picks_replicate [OF assms(1), of X n] by blast
qed


lemma picks_two: "X \<in> picks [p, q] \<longleftrightarrow> (\<exists>a \<in> set p. \<exists>b \<in> set q. X = with_kind a (with_kind b {}))"
proof -
  have "Y \<in> picks [q] \<longleftrightarrow> (\<exists>b \<in> set q. Y = with_kind b {})" for Y
    unfolding picks_Cons_iff [of _ q] picks.simps(1) by simp
  then show ?thesis unfolding picks_Cons_iff [of _ p] by metis
qed

lemma picks_optional:
  "a \<noteq> [] \<Longrightarrow> b \<noteq> [] \<Longrightarrow> X \<in> picks [[a, b, []], [a, b, []]] \<longleftrightarrow> X \<subseteq> {a, b}"
proof -
  assume "a \<noteq> []" "b \<noteq> []"
  then have "X \<in> picks [[a, b, []], [a, b, []]] \<longleftrightarrow>
      X = {} \<or> X = {a} \<or> X = {b} \<or> X = {a, b} \<or> X = {b, a}"
    unfolding picks_two by (simp add: with_kind_def) argo
  also have "\<dots> \<longleftrightarrow> X \<subseteq> {a, b}" by (cases "a \<in> X"; cases "b \<in> X") blast+
  finally show ?thesis .
qed

section \<open>Where a signal is declared\<close>

text \<open>
  The kinds of context that the categories name, and the pad side of them. A signal with the
  synthetic driver of kind \<open>zero\<close> is in none of the lists: the soc architecture declares it itself.
\<close>

definition known_kinds :: "string set" where
  "known_kinds = {''pin'', ''padring'', ''expose'', ''top'', ''device''}"

definition pad_kinds :: "string set" where
  "pad_kinds = {''pin'', ''padring'', ''expose''}"

definition categorized_netlist :: "netlist \<Rightarrow> bool" where
  "categorized_netlist sigs \<longleftrightarrow> distinct (map fst sigs) \<and>
     list_all (\<lambda>(n, s). sig_ports s \<noteq> [] \<and> list_all (\<lambda>p. ctx_kind (spr_context p) \<in> known_kinds) (sig_ports s)) sigs"

definition kinds_of :: "signal \<Rightarrow> string set" where
  "kinds_of s = (ctx_kind \<circ> spr_context) ` set (sig_ports s)"

lemma categorized_kinds:
  assumes "categorized_netlist sigs" "s \<in> snd ` set sigs"
  shows "kinds_of s \<noteq> {}" "kinds_of s \<subseteq> known_kinds"
  using assms unfolding categorized_netlist_def kinds_of_def by (auto simp: list_all_iff)

lemma categorized_filter:
  assumes "categorized_netlist sigs" "good_positions ps"
  shows "s \<in> set (filterByContext (contextSets sigs) ps) \<longleftrightarrow> s \<in> snd ` set sigs \<and> kinds_of s \<in> picks ps"
proof -
  have "plain_kind k" if "k \<in> known_kinds" for k
    using that by (auto simp: known_kinds_def plain_kind_def)
  then have "plain_kinds sigs"
    using assms(1) unfolding categorized_netlist_def plain_kinds_def by (auto simp: list_all_iff)
  from filterByContext_iff [OF _ this assms(2)] show ?thesis
    using assms(1) unfolding categorized_netlist_def kinds_of_def signal_kinds_set by blast
qed

lemma cat_positions:
  "X \<in> picks [catP, catP, catP, catTD, catTD] \<longleftrightarrow>
     X \<subseteq> known_kinds \<and> X \<inter> pad_kinds \<noteq> {} \<and> X \<inter> {''top'', ''device''} \<noteq> {}"
  "X \<in> picks [catPT, catPT, catPT, catPT, [''device'']] \<longleftrightarrow>
     X \<subseteq> known_kinds \<and> ''device'' \<in> X \<and> X \<noteq> {''device''}"
  "X \<in> picks [catP, catP, catP, [''top'', ''device'', []], [''top'', ''device'', []]] \<longleftrightarrow>
     X \<subseteq> known_kinds \<and> X \<inter> pad_kinds \<noteq> {}"
  "X \<in> picks [[''top''], [''device'', []]] \<longleftrightarrow> X = {''top''} \<or> X = {''top'', ''device''}"
  "X \<in> picks [[''device'']] \<longleftrightarrow> X = {''device''}"
proof -
  have P: "Y \<in> picks [catP, catP, catP] \<longleftrightarrow> Y \<noteq> {} \<and> Y \<subseteq> pad_kinds" for Y
    using picks_all [of catP 2 Y] by (simp add: catP_def pad_kinds_def eval_nat_numeral)
  have TD: "Y \<in> picks [catTD, catTD] \<longleftrightarrow> Y \<noteq> {} \<and> Y \<subseteq> {''top'', ''device''}" for Y
    using picks_all [of catTD 1 Y] by (simp add: catTD_def)
  have PT: "Y \<in> picks [catPT, catPT, catPT, catPT] \<longleftrightarrow> Y \<noteq> {} \<and> Y \<subseteq> insert ''top'' pad_kinds" for Y
    using picks_all [of catPT 3 Y] by (simp add: catPT_def pad_kinds_def eval_nat_numeral insert_commute)
  have split: "(\<exists>S. S \<noteq> {} \<and> S \<subseteq> A \<and> (\<exists>T. Q T \<and> T \<subseteq> B \<and> X = S \<union> T)) \<longleftrightarrow>
      X \<subseteq> A \<union> B \<and> X \<inter> A \<noteq> {} \<and> Q (X \<inter> B)"
    if "A \<inter> B = {}" for A B :: "string set" and Q
  proof
    assume "\<exists>S. S \<noteq> {} \<and> S \<subseteq> A \<and> (\<exists>T. Q T \<and> T \<subseteq> B \<and> X = S \<union> T)"
    then obtain S T where st: "S \<noteq> {}" "S \<subseteq> A" "Q T" "T \<subseteq> B" "X = S \<union> T" by metis
    with that have x: "X \<inter> A = S" "X \<inter> B = T" by blast+
    have "X \<subseteq> A \<union> B" using st(2,4,5) by blast
    with st(1,3) show "X \<subseteq> A \<union> B \<and> X \<inter> A \<noteq> {} \<and> Q (X \<inter> B)" unfolding x by simp
  next
    assume "X \<subseteq> A \<union> B \<and> X \<inter> A \<noteq> {} \<and> Q (X \<inter> B)"
    then have "X \<inter> A \<noteq> {}" "X \<inter> A \<subseteq> A" "Q (X \<inter> B)" "X \<inter> B \<subseteq> B" "X = (X \<inter> A) \<union> (X \<inter> B)" by blast+
    then show "\<exists>S. S \<noteq> {} \<and> S \<subseteq> A \<and> (\<exists>T. Q T \<and> T \<subseteq> B \<and> X = S \<union> T)" by metis
  qed
  have kk: "known_kinds = pad_kinds \<union> {''top'', ''device''}" "pad_kinds \<inter> {''top'', ''device''} = {}"
    "known_kinds = insert ''top'' pad_kinds \<union> {''device''}" "insert ''top'' pad_kinds \<inter> {''device''} = {}"
    by (auto simp: known_kinds_def pad_kinds_def)
  have "X \<in> picks [catP, catP, catP, catTD, catTD] \<longleftrightarrow>
      (\<exists>S. S \<noteq> {} \<and> S \<subseteq> pad_kinds \<and> (\<exists>T. T \<noteq> {} \<and> T \<subseteq> {''top'', ''device''} \<and> X = S \<union> T))"
    using picks_append [of X "[catP, catP, catP]" "[catTD, catTD]"]
    unfolding Bex_def P TD append_Cons append_Nil by simp
  then show "X \<in> picks [catP, catP, catP, catTD, catTD] \<longleftrightarrow>
     X \<subseteq> known_kinds \<and> X \<inter> pad_kinds \<noteq> {} \<and> X \<inter> {''top'', ''device''} \<noteq> {}"
    using split [OF kk(2), of "\<lambda>T. T \<noteq> {}"] kk(1) by simp
  have dev: "Y \<in> picks [[''device'']] \<longleftrightarrow> Y = {''device''}" for Y
    using picks_one [of "[''device'']" Y] by simp
  show "X \<in> picks [[''device'']] \<longleftrightarrow> X = {''device''}" by (rule dev)
  have "X \<in> picks [catPT, catPT, catPT, catPT, [''device'']] \<longleftrightarrow>
      (\<exists>S. S \<noteq> {} \<and> S \<subseteq> insert ''top'' pad_kinds \<and> X = S \<union> {''device''})"
    using picks_append [of X "[catPT, catPT, catPT, catPT]" "[[''device'']]"]
    unfolding Bex_def PT dev append_Cons append_Nil by simp
  also have "\<dots> \<longleftrightarrow> X \<subseteq> known_kinds \<and> ''device'' \<in> X \<and> X \<noteq> {''device''}"
    (is "?l \<longleftrightarrow> ?r")
  proof
    assume ?l then show ?r unfolding kk(3) pad_kinds_def by auto
  next
    assume r: ?r
    then have "X - {''device''} \<noteq> {}" "X - {''device''} \<subseteq> insert ''top'' pad_kinds" "X = X - {''device''} \<union> {''device''}"
      unfolding kk(3) by blast+
    then show ?l by metis
  qed
  finally show "X \<in> picks [catPT, catPT, catPT, catPT, [''device'']] \<longleftrightarrow>
     X \<subseteq> known_kinds \<and> ''device'' \<in> X \<and> X \<noteq> {''device''}" .
  have "X \<in> picks [catP, catP, catP, [''top'', ''device'', []], [''top'', ''device'', []]] \<longleftrightarrow>
      (\<exists>S. S \<noteq> {} \<and> S \<subseteq> pad_kinds \<and> (\<exists>T. True \<and> T \<subseteq> {''top'', ''device''} \<and> X = S \<union> T))"
    using picks_append [of X "[catP, catP, catP]" "[[''top'', ''device'', []], [''top'', ''device'', []]]"]
    unfolding Bex_def P append_Cons append_Nil by (simp del: picks.simps add: picks_optional)
  then show "X \<in> picks [catP, catP, catP, [''top'', ''device'', []], [''top'', ''device'', []]] \<longleftrightarrow>
     X \<subseteq> known_kinds \<and> X \<inter> pad_kinds \<noteq> {}"
    using split [OF kk(2), of "\<lambda>T. True"] kk(1) by simp
  show "X \<in> picks [[''top''], [''device'', []]] \<longleftrightarrow> X = {''top''} \<or> X = {''top'', ''device''}"
    unfolding picks_two by (simp add: with_kind_def) argo
qed

lemma cat_good:
  "good_positions [catP, catP, catP, catTD, catTD]"
  "good_positions [catPT, catPT, catPT, catPT, [''device'']]"
  "good_positions [catP, catP, catP, [''top'', ''device'', []], [''top'', ''device'', []]]"
  "good_positions [[''top''], [''device'', []]]" "good_positions [[''device'']]"
  by (simp_all add: good_positions_def catP_def catPT_def catTD_def plain_kind_def)

lemma sig_lists:
  assumes "categorized_netlist sigs" "s \<in> snd ` set sigs"
  shows "s \<in> set (padringTopSigs sigs) \<longleftrightarrow> kinds_of s \<inter> pad_kinds \<noteq> {} \<and> \<not> kinds_of s \<subseteq> pad_kinds"
    and "s \<in> set (topDevicesSigs sigs) \<longleftrightarrow> ''device'' \<in> kinds_of s \<and> kinds_of s \<noteq> {''device''}"
    and "s \<in> set (padringSigs sigs) \<longleftrightarrow> kinds_of s \<inter> pad_kinds \<noteq> {}"
    and "s \<in> set (topSigs sigs) \<longleftrightarrow> kinds_of s \<inter> pad_kinds = {} \<and> ''top'' \<in> kinds_of s"
    and "s \<in> set (devicesSigs sigs) \<longleftrightarrow> kinds_of s = {''device''}"
proof -
  note kk = categorized_kinds [OF assms]
  note eqs = categorized_filter [OF assms(1) cat_good(1)] categorized_filter [OF assms(1) cat_good(2)]
    categorized_filter [OF assms(1) cat_good(3)] categorized_filter [OF assms(1) cat_good(4)]
    categorized_filter [OF assms(1) cat_good(5)]
  have split: "kinds_of s \<subseteq> pad_kinds \<union> {''top'', ''device''}" "pad_kinds \<inter> {''top'', ''device''} = {}"
    using kk(2) by (auto simp: known_kinds_def pad_kinds_def)
  show "s \<in> set (padringTopSigs sigs) \<longleftrightarrow> kinds_of s \<inter> pad_kinds \<noteq> {} \<and> \<not> kinds_of s \<subseteq> pad_kinds"
    unfolding padringTopSigs_def eqs cat_positions using kk(2) split assms(2) by blast
  show "s \<in> set (topDevicesSigs sigs) \<longleftrightarrow> ''device'' \<in> kinds_of s \<and> kinds_of s \<noteq> {''device''}"
    unfolding topDevicesSigs_def eqs cat_positions using kk(2) assms(2) by blast
  show "s \<in> set (padringSigs sigs) \<longleftrightarrow> kinds_of s \<inter> pad_kinds \<noteq> {}"
    unfolding padringSigs_def eqs cat_positions using kk(2) assms(2) by blast
  have "X \<inter> P = {} \<and> t \<in> X \<longleftrightarrow> X = {t} \<or> X = {t, d}" if "X \<subseteq> P \<union> {t, d}" "P \<inter> {t, d} = {}"
    for X P :: "string set" and t d using that by (cases "d \<in> X") auto
  from this [OF split] have "kinds_of s \<inter> pad_kinds = {} \<and> ''top'' \<in> kinds_of s \<longleftrightarrow>
      kinds_of s = {''top''} \<or> kinds_of s = {''top'', ''device''}" .
  then show "s \<in> set (topSigs sigs) \<longleftrightarrow> kinds_of s \<inter> pad_kinds = {} \<and> ''top'' \<in> kinds_of s"
    unfolding topSigs_def eqs cat_positions using assms(2) by blast
  show "s \<in> set (devicesSigs sigs) \<longleftrightarrow> kinds_of s = {''device''}"
    unfolding devicesSigs_def eqs cat_positions using assms(2) by blast
qed

section \<open>The boundaries\<close>

text \<open>The kinds of context that drive a signal, the pad side as one.\<close>

definition driving_kinds :: "signal \<Rightarrow> string set" where
  "driving_kinds s = (\<lambda>p. if ctx_kind (spr_context p) = ''pin'' then ''padring'' else ctx_kind (spr_context p)) `
     {p \<in> set (sig_ports s). spr_dir p = dirOut}"

lemma driver_kinds_driving: "set (driver_kinds s) = driving_kinds s" "distinct (driver_kinds s)"
proof -
  let ?f = "\<lambda>p ks. if spr_dir p \<noteq> dirOut then ks
      else List.insert (if ctx_kind (spr_context p) = ctxKindPin then ''padring'' else ctx_kind (spr_context p)) ks"
  let ?k = "\<lambda>p. if ctx_kind (spr_context p) = ''pin'' then ''padring'' else ctx_kind (spr_context p)"
  have f: "set (fold ?f ps ks) = set ks \<union> ?k ` {p \<in> set ps. spr_dir p = dirOut}" "distinct ks \<Longrightarrow> distinct (fold ?f ps ks)"
    for ps ks
    by (induction ps arbitrary: ks) auto
  show "set (driver_kinds s) = driving_kinds s"
    unfolding driver_kinds_def driving_kinds_def f(1) by simp
  show "distinct (driver_kinds s)"
    unfolding driver_kinds_def by (rule f(2)) simp
qed

lemma srcContext_driving: "srcContext s = Inr src \<longleftrightarrow> driving_kinds s = {src}"
proof
  assume "srcContext s = Inr src"
  then have "driver_kinds s = [src]" by (auto simp: srcContext_def split: list.splits)
  then show "driving_kinds s = {src}" using driver_kinds_driving(1) [of s] by simp
next
  assume "driving_kinds s = {src}"
  then have "set (driver_kinds s) = {src}" "distinct (driver_kinds s)" using driver_kinds_driving [of s] by simp_all
  then have "driver_kinds s = [src]" by (cases "driver_kinds s"; cases "tl (driver_kinds s)") auto
  then show "srcContext s = Inr src" by (simp add: srcContext_def)
qed

lemma driving_known:
  assumes "categorized_netlist sigs" "s \<in> snd ` set sigs" "driving_kinds s = {src}"
  shows "src \<in> known_kinds"
proof -
  have "src \<in> driving_kinds s" using assms(3) by simp
  then show ?thesis using categorized_kinds(2) [OF assms(1,2)]
    by (auto simp: driving_kinds_def kinds_of_def known_kinds_def split: if_splits)
qed

lemma boundary_ports_set:
  "set (fst (boundary_ports sigs d)) =
     {\<lparr>pl_name = sig_name t, pl_dir = dir_of d src\<rparr> |t src. t \<in> set sigs \<and> driving_kinds t = {src}}"
proof -
  have "List.map_filter (\<lambda>s. case srcContext s of Inl e \<Rightarrow> None
      | Inr src \<Rightarrow> Some \<lparr>pl_name = sig_name s, pl_dir = dir_of d src\<rparr>) sigs =
    concat (map (\<lambda>s. case srcContext s of Inl e \<Rightarrow> [] | Inr src \<Rightarrow> [\<lparr>pl_name = sig_name s, pl_dir = dir_of d src\<rparr>]) sigs)"
    by (induction sigs) (simp_all add: List.map_filter_simps split: sum.splits)
  then show ?thesis
    by (auto simp: boundary_ports_def srcContext_driving [symmetric] split: sum.splits) force
qed

lemma declared_signals:
  assumes "categorized_netlist sigs"
  shows "set (padringTopSigs sigs) \<subseteq> snd ` set sigs" "set (topDevicesSigs sigs) \<subseteq> snd ` set sigs"
    "set (padringSigs sigs) \<subseteq> snd ` set sigs" "set (topSigs sigs) \<subseteq> snd ` set sigs"
    "set (devicesSigs sigs) \<subseteq> snd ` set sigs"
proof -
  have "set (filterByContext (contextSets sigs) ps) \<subseteq> snd ` set sigs" if "good_positions ps" for ps
    using categorized_filter [OF assms that] by blast
  then show "set (padringTopSigs sigs) \<subseteq> snd ` set sigs" "set (topDevicesSigs sigs) \<subseteq> snd ` set sigs"
    "set (padringSigs sigs) \<subseteq> snd ` set sigs" "set (topSigs sigs) \<subseteq> snd ` set sigs"
    "set (devicesSigs sigs) \<subseteq> snd ` set sigs"
    unfolding padringTopSigs_def topDevicesSigs_def padringSigs_def topSigs_def devicesSigs_def
    using cat_good by blast+
qed

text \<open>A net-list whose signals are stored under their names: a name stands for one signal.\<close>

definition keyed :: "netlist \<Rightarrow> bool" where
  "keyed sigs \<longleftrightarrow> list_all (\<lambda>(n, s). sig_name s = n) sigs"

lemma keyed_inj:
  assumes "keyed sigs" "distinct (map fst sigs)" "s \<in> snd ` set sigs" "t \<in> snd ` set sigs" "sig_name s = sig_name t"
  shows "s = t"
proof -
  from assms(1,3,4) have "(sig_name s, s) \<in> set sigs" "(sig_name t, t) \<in> set sigs"
    by (auto simp: keyed_def list_all_iff)
  with assms(2,5) show ?thesis by (metis eq_key_imp_eq_value)
qed

lemma keyed_names:
  assumes "keyed sigs" "distinct (map fst sigs)" "s \<in> snd ` set sigs" "set ts \<subseteq> snd ` set sigs"
  shows "sig_name s \<in> set (name_list ts) \<longleftrightarrow> s \<in> set ts"
proof
  assume "sig_name s \<in> set (name_list ts)"
  then obtain t where t: "t \<in> set ts" "sig_name s = sig_name t" by (auto simp: name_list_def)
  with keyed_inj [OF assms(1-3) _ t(2)] assms(4) show "s \<in> set ts" by blast
qed (simp add: name_list_def)

lemma keyed_ports:
  assumes "keyed sigs" "distinct (map fst sigs)" "s \<in> snd ` set sigs" "set ts \<subseteq> snd ` set sigs"
  shows "{p \<in> set (fst (boundary_ports ts d)). pl_name p = sig_name s} =
    (if s \<in> set ts then {\<lparr>pl_name = sig_name s, pl_dir = dir_of d src\<rparr> |src. driving_kinds s = {src}} else {})"
proof -
  have eq: "t = s" if "t \<in> set ts" "sig_name t = sig_name s" for t
    using keyed_inj [OF assms(1-3) _ that(2) [symmetric]] assms(4) that(1) by blast
  show ?thesis
  proof (intro equalityI subsetI)
    fix p assume "p \<in> {p \<in> set (fst (boundary_ports ts d)). pl_name p = sig_name s}"
    then obtain t src where t: "p = \<lparr>pl_name = sig_name t, pl_dir = dir_of d src\<rparr>" "t \<in> set ts" "driving_kinds t = {src}"
      "sig_name t = sig_name s"
      unfolding boundary_ports_set by auto
    with eq [OF t(2,4)] show "p \<in> (if s \<in> set ts then {\<lparr>pl_name = sig_name s, pl_dir = dir_of d src\<rparr> |src. driving_kinds s = {src}} else {})"
      by auto
  next
    fix p assume "p \<in> (if s \<in> set ts then {\<lparr>pl_name = sig_name s, pl_dir = dir_of d src\<rparr> |src. driving_kinds s = {src}} else {})"
    then obtain src where "s \<in> set ts" "p = \<lparr>pl_name = sig_name s, pl_dir = dir_of d src\<rparr>" "driving_kinds s = {src}"
      by (cases "s \<in> set ts") auto
    then show "p \<in> {p \<in> set (fst (boundary_ports ts d)). pl_name p = sig_name s}"
      unfolding boundary_ports_set by simp blast
  qed
qed

lemma boundary_dirs:
  assumes "src \<in> known_kinds"
  shows "dir_of padringTopDir src = (if src \<in> pad_kinds then dirIn else dirOut)"
    "dir_of topDevicesDir src = (if src = ''device'' then dirOut else dirIn)"
  using assms by (auto simp: known_kinds_def pad_kinds_def dir_of_def padringTopDir_def topDevicesDir_def)

text \<open>
  C8: Where the signals of a design are declared. In a net-list whose signals are stored under their
  names and have ports, each of a known kind of context (so without the ports of zero signals), every
  signal is in exactly one of the three declaration lists of \<open>categorize\<close>: in the pad ring's if one of
  its ports is on the pad side, else in the soc's if a port belongs to a top entity, else in the
  devices'. It is a port between pad ring and soc exactly if it has ports on both sides, and a port of
  the devices exactly if a device port and another port share it, provided that one kind of context
  drives it; a port of the soc is an input when the pad side drives it, a port of the devices is an
  output when a device drives it.
\<close>

theorem categorize_partition:
  assumes "categorized_netlist (res_signals res)" "keyed (res_signals res)" "s \<in> snd ` set (res_signals res)"
  defines "sl \<equiv> fst (categorize res)"
  shows "((sig_name s \<in> set (sl_padring sl), sig_name s \<in> set (sl_top sl), sig_name s \<in> set (sl_devices sl)) =
      (if kinds_of s \<inter> pad_kinds \<noteq> {} then (True, False, False)
       else if ''top'' \<in> kinds_of s then (False, True, False) else (False, False, True))) \<and>
    {p \<in> set (sl_padring_top sl). pl_name p = sig_name s} =
      (if kinds_of s \<inter> pad_kinds \<noteq> {} \<and> \<not> kinds_of s \<subseteq> pad_kinds
       then {\<lparr>pl_name = sig_name s, pl_dir = if src \<in> pad_kinds then dirIn else dirOut\<rparr> |src. driving_kinds s = {src}} else {}) \<and>
    {p \<in> set (sl_top_devices sl). pl_name p = sig_name s} =
      (if ''device'' \<in> kinds_of s \<and> kinds_of s \<noteq> {''device''}
       then {\<lparr>pl_name = sig_name s, pl_dir = if src = ''device'' then dirOut else dirIn\<rparr> |src. driving_kinds s = {src}} else {})"
proof -
  let ?sigs = "res_signals res"
  note kk = categorized_kinds [OF assms(1,3)] and sl = sig_lists [OF assms(1,3)] and sub = declared_signals [OF assms(1)]
  have dk: "distinct (map fst ?sigs)" using assms(1) by (simp add: categorized_netlist_def)
  note names = keyed_names [OF assms(2) dk assms(3)] and ports = keyed_ports [OF assms(2) dk assms(3)]
  have parts: "sl_padring sl = name_list (padringSigs ?sigs)" "sl_top sl = name_list (topSigs ?sigs)"
    "sl_devices sl = name_list (devicesSigs ?sigs)"
    "sl_padring_top sl = fst (boundary_ports (padringTopSigs ?sigs) padringTopDir)"
    "sl_top_devices sl = fst (boundary_ports (topDevicesSigs ?sigs) topDevicesDir)"
    by (simp_all add: sl_def categorize_def Let_def case_prod_beta)
  have only: "X \<inter> P = {} \<and> t \<notin> X \<longleftrightarrow> X = {d}"
    if "X \<noteq> {}" "X \<subseteq> P \<union> {t, d}" "P \<inter> {t, d} = {}" "t \<noteq> d" for X P :: "string set" and t d
    using that by blast
  have split: "kinds_of s \<subseteq> pad_kinds \<union> {''top'', ''device''}" "pad_kinds \<inter> {''top'', ''device''} = {}"
    using kk(2) by (auto simp: known_kinds_def pad_kinds_def)
  have "kinds_of s \<inter> pad_kinds = {} \<and> ''top'' \<notin> kinds_of s \<longleftrightarrow> kinds_of s = {''device''}"
    by (rule only [OF kk(1) split]) simp
  then have one: "(sig_name s \<in> set (sl_padring sl), sig_name s \<in> set (sl_top sl), sig_name s \<in> set (sl_devices sl)) =
      (if kinds_of s \<inter> pad_kinds \<noteq> {} then (True, False, False)
       else if ''top'' \<in> kinds_of s then (False, True, False) else (False, False, True))"
    unfolding parts names [OF sub(3)] names [OF sub(4)] names [OF sub(5)] sl by auto
  have set_eq: "{\<lparr>pl_name = sig_name s, pl_dir = f src\<rparr> |src. driving_kinds s = {src}} = {\<lparr>pl_name = sig_name s, pl_dir = g src\<rparr> |src. driving_kinds s = {src}}"
    if "\<And>src. driving_kinds s = {src} \<Longrightarrow> f src = g src" for f g using that by metis
  have dirs: "{\<lparr>pl_name = sig_name s, pl_dir = dir_of padringTopDir src\<rparr> |src. driving_kinds s = {src}} =
      {\<lparr>pl_name = sig_name s, pl_dir = if src \<in> pad_kinds then dirIn else dirOut\<rparr> |src. driving_kinds s = {src}}"
    "{\<lparr>pl_name = sig_name s, pl_dir = dir_of topDevicesDir src\<rparr> |src. driving_kinds s = {src}} =
      {\<lparr>pl_name = sig_name s, pl_dir = if src = ''device'' then dirOut else dirIn\<rparr> |src. driving_kinds s = {src}}"
    by (rule set_eq, erule boundary_dirs [OF driving_known [OF assms(1,3)]])+
  show ?thesis unfolding parts(4,5) ports [OF sub(1)] ports [OF sub(2)] sl dirs using one by simp
qed

definition cat_resolution :: resolution where
  "cat_resolution = \<lparr>res_classes = [], res_devices = [], res_top_entities = [], res_padring_entities = [],
     res_signals = [(''a'', mk_signal ''a'' None [demo_ref ''device'' ''u0'' ''out'', demo_ref ''top'' ''cpus'' ''in'']),
                    (''b'', mk_signal ''b'' None [demo_ref ''device'' ''u0'' ''out'', demo_ref ''pin'' ''net'' ''in''])],
     res_pins = [], res_entity_bound_pads = [], res_data_bus = None\<rparr>"

theorem categorize_partition_witness:
  "''a'' \<in> set (sl_top (fst (categorize cat_resolution))) \<and>
   {p \<in> set (sl_top_devices (fst (categorize cat_resolution))). pl_name p = ''a''} = {\<lparr>pl_name = ''a'', pl_dir = dirOut\<rparr>} \<and>
   {p \<in> set (sl_padring_top (fst (categorize cat_resolution))). pl_name p = ''a''} = {}"
proof -
  let ?s = "mk_signal ''a'' None [demo_ref ''device'' ''u0'' ''out'', demo_ref ''top'' ''cpus'' ''in'']"
  have "categorized_netlist (res_signals cat_resolution)" "keyed (res_signals cat_resolution)"
    by (simp_all add: cat_resolution_def categorized_netlist_def keyed_def mk_signal_def demo_ref_def mk_ctx_def known_kinds_def)
  moreover have "?s \<in> snd ` set (res_signals cat_resolution)" by (simp add: cat_resolution_def)
  moreover have "kinds_of ?s = {''device'', ''top''}"
    by (simp add: kinds_of_def mk_signal_def demo_ref_def mk_ctx_def)
  moreover have "driving_kinds ?s = {''device''}"
    by (simp add: driver_kinds_driving(1) [symmetric] driver_kinds_def mk_signal_def demo_ref_def mk_ctx_def)
  moreover have "sig_name ?s = ''a''" by (simp add: mk_signal_def)
  ultimately show ?thesis
    using categorize_partition [of cat_resolution ?s] by (simp add: pad_kinds_def)
qed

end
