(* ===== verification/Elab_Addr.thy ===== *)
theory Elab_Addr
  imports Elab_Model "HOL-Library.Product_Lexorder"
begin

unbundle bit_operations_syntax

text \<open>
  Model of \<open>src/tools/socgen/elaborate/addr_validate.go\<close>: the checks on the base addresses of
  the memory-mapped devices. Addresses are \<open>uint64\<close> values, so \<open>64 word\<close>; the joined error of
  the code is the list of its leaf errors, in order (\<open>errutil.Errors\<close> flattens joins).
\<close>

datatype addr_error_kind = ErrBadRegion | ErrOverSpec | ErrAddrOverlap | ErrLeftAddrBit

record addr_error =
  ae_kind :: addr_error_kind
  ae_device :: string
  ae_class :: string
  ae_base :: u64
  ae_bits :: int
  ae_other :: string
  ae_lo :: u64
  ae_hi :: u64
  ae_olo :: u64
  ae_ohi :: u64
  ae_left_addr_bit :: int
  ae_max :: int

definition addr_error0 :: "addr_error_kind \<Rightarrow> string \<Rightarrow> addr_error" where
  "addr_error0 k dev = \<lparr>ae_kind = k, ae_device = dev, ae_class = [], ae_base = 0, ae_bits = 0,
     ae_other = [], ae_lo = 0, ae_hi = 0, ae_olo = 0, ae_ohi = 0, ae_left_addr_bit = 0, ae_max = 0\<rparr>"

definition maxLeftAddrBit :: int where
  "maxLeftAddrBit = 62"

text \<open>The low \<open>LeftAddrBit + 1\<close> bits, the device's internal address space.\<close>

definition addr_mask :: "int \<Rightarrow> u64" where
  "addr_mask lab = push_bit (nat (lab + 1)) 1 - 1"

text \<open>The body of the loop of \<open>validateAddresses\<close> for one device.\<close>

definition device_addr_errors :: "resolution \<Rightarrow> resolved_device \<Rightarrow> addr_error list" where
  "device_addr_errors res dev =
     (case rd_base_addr dev of
        None \<Rightarrow> []
      | Some base \<Rightarrow>
          (case class_of res dev of
             None \<Rightarrow> []
           | Some rc \<Rightarrow>
               let region = (if base AND 0xF0000000 \<noteq> 0xA0000000
                             then [(addr_error0 ErrBadRegion (rd_name dev))\<lparr>ae_base := base\<rparr>] else [])
               in if rc_left_addr_bit rc < 0 \<or> rc_left_addr_bit rc > maxLeftAddrBit
                  then region @ [(addr_error0 ErrLeftAddrBit (rd_name dev))
                         \<lparr>ae_class := rd_class dev, ae_left_addr_bit := rc_left_addr_bit rc,
                          ae_max := maxLeftAddrBit\<rparr>]
                  else region @
                    (if base AND addr_mask (rc_left_addr_bit rc) \<noteq> 0
                     then [(addr_error0 ErrOverSpec (rd_name dev))
                             \<lparr>ae_base := base, ae_bits := rc_left_addr_bit rc + 1\<rparr>]
                     else [])))"

section \<open>Ranges and overlaps\<close>

record addr_range =
  ar_range_name :: string
  ar_lo :: u64
  ar_hi :: u64

definition mk_range :: "string \<Rightarrow> u64 \<Rightarrow> u64 \<Rightarrow> addr_range" where
  "mk_range n lo hi = \<lparr>ar_range_name = n, ar_lo = lo, ar_hi = hi\<rparr>"

definition reservedRegions :: "addr_range list" where
  "reservedRegions =
     [mk_range ''sram'' 0x00000000 0x0FFFFFFF,
      mk_range ''dram'' 0x10000000 0x1FFFFFFF,
      mk_range ''cpumreg'' 0xabcd0600 0xabcd06FF]"

definition deviceSpan :: "resolved_device \<Rightarrow> resolved_class option \<Rightarrow> (u64 \<times> u64) option" where
  "deviceSpan dev rco =
     (case (rd_base_addr dev, rco) of
        (Some base, Some rc) \<Rightarrow>
          if rc_left_addr_bit rc < 0 \<or> rc_left_addr_bit rc > maxLeftAddrBit then None
          else let lo = base;
                   hi = lo + push_bit (nat (rc_left_addr_bit rc + 1)) 1 - 1
               in Some (lo, if hi < lo then NOT 0 else hi)
      | _ \<Rightarrow> None)"

definition device_ranges :: "resolution \<Rightarrow> addr_range list" where
  "device_ranges res =
     List.map_filter (\<lambda>dev. map_option (\<lambda>(lo, hi). mk_range (rd_name dev) lo hi)
       (deviceSpan dev (class_of res dev))) (res_devices res)"

definition ranges_overlap :: "addr_range \<Rightarrow> addr_range \<Rightarrow> bool" where
  "ranges_overlap a b \<longleftrightarrow> ar_lo a \<le> ar_hi b \<and> ar_lo b \<le> ar_hi a"

definition overlap_error :: "addr_range \<Rightarrow> addr_range \<Rightarrow> addr_error" where
  "overlap_error a b = (addr_error0 ErrAddrOverlap (ar_range_name a))
     \<lparr>ae_lo := ar_lo a, ae_hi := ar_hi a, ae_other := ar_range_name b, ae_olo := ar_lo b,
      ae_ohi := ar_hi b\<rparr>"

definition checkAddrOverlap :: "resolution \<Rightarrow> addr_error list" where
  "checkAddrOverlap res =
     (let ranges = sort_key (\<lambda>r. (ar_lo r, ar_range_name r)) (device_ranges res @ reservedRegions)
      in map (\<lambda>(a, b). overlap_error a b)
           (filter (\<lambda>(a, b). ranges_overlap a b) (index_pairs ranges)))"

definition validateAddresses :: "resolution option \<Rightarrow> addr_error list" where
  "validateAddresses ro =
     (case ro of None \<Rightarrow> []
      | Some res \<Rightarrow> concat (map (device_addr_errors res) (res_devices res)) @ checkAddrOverlap res)"

section \<open>What the checks mean\<close>

text \<open>
  The address space of a device with base \<open>b\<close> and internal address width \<open>lab + 1\<close>, and the
  two conditions on a base address, stated over the integers.
\<close>

definition addr_space :: "u64 \<Rightarrow> int \<Rightarrow> int set" where
  "addr_space b lab = {uint b ..< uint b + 2 ^ nat (lab + 1)}"

definition in_device_region :: "u64 \<Rightarrow> bool" where
  "in_device_region b \<longleftrightarrow> (uint b div 2 ^ 28) mod 16 = 10"

definition aligned :: "u64 \<Rightarrow> int \<Rightarrow> bool" where
  "aligned b lab \<longleftrightarrow> 2 ^ nat (lab + 1) dvd uint b"

definition mapped :: "resolution \<Rightarrow> resolved_device \<Rightarrow> u64 \<Rightarrow> int \<Rightarrow> bool" where
  "mapped res dev b lab \<longleftrightarrow> dev \<in> set (res_devices res) \<and> rd_base_addr dev = Some b \<and>
     (\<exists>rc. class_of res dev = Some rc \<and> rc_left_addr_bit rc = lab)"

definition reserved_space :: "int set" where
  "reserved_space = {0 ..< 0x20000000} \<union> {0xabcd0600 ..< 0xabcd0700}"

lemma region_check: "b AND 0xF0000000 = (0xA0000000 :: u64) \<longleftrightarrow> in_device_region b"
proof -
  have "uint b AND push_bit 28 (mask 4) = push_bit 28 (take_bit 4 (drop_bit 28 (uint b)))"
    by (rule bit_eqI) (auto simp: bit_simps)
  moreover have "(push_bit 28 (mask 4) :: int) = 0xF0000000"
    by (simp add: push_bit_eq_mult mask_eq_exp_minus_1)
  ultimately have m: "uint (b AND 0xF0000000) = push_bit 28 (take_bit 4 (drop_bit 28 (uint b)))"
    by (simp add: uint_and)
  have "b AND 0xF0000000 = 0xA0000000 \<longleftrightarrow> uint (b AND 0xF0000000) = 0xA0000000"
    by (simp add: word_uint_eq_iff)
  also have "\<dots> \<longleftrightarrow> take_bit 4 (drop_bit 28 (uint b)) = 10"
    unfolding m by (simp add: push_bit_eq_mult)
  finally show ?thesis
    by (simp add: in_device_region_def take_bit_eq_mod drop_bit_eq_div)
qed

lemma uint_push_1:
  assumes "n < 64"
  shows "uint (push_bit n 1 :: u64) = 2 ^ n"
proof -
  have "(2::int) ^ n < 2 ^ 64" using assms by (intro power_strict_increasing) auto
  then have "(2::int) ^ n mod 2 ^ LENGTH(64) = 2 ^ n" by simp
  moreover have "(push_bit n 1 :: u64) = word_of_int (2 ^ n)" by (simp add: push_bit_eq_mult)
  ultimately show ?thesis by (simp only: uint_word_of_int)
qed

lemma uint_addr_mask:
  assumes "0 \<le> lab" "lab \<le> 62"
  shows "uint (addr_mask lab) = 2 ^ nat (lab + 1) - 1"
proof -
  have "addr_mask lab = mask (nat (lab + 1))"
    by (simp add: addr_mask_def mask_eq_exp_minus_1 push_bit_eq_mult)
  moreover have "uint (mask (nat (lab + 1)) :: u64) = mask (nat (lab + 1))"
    using assms by (simp add: uint_mask_eq min_def)
  ultimately show ?thesis by (simp only: mask_eq_exp_minus_1)
qed

lemma mask_check:
  assumes "0 \<le> lab" "lab \<le> 62"
  shows "b AND addr_mask lab = 0 \<longleftrightarrow> aligned b lab"
proof -
  have "b AND addr_mask lab = 0 \<longleftrightarrow> uint b AND uint (addr_mask lab) = 0"
    by (simp add: word_uint_eq_iff uint_and)
  also have "\<dots> \<longleftrightarrow> take_bit (nat (lab + 1)) (uint b) = 0"
    using assms by (simp add: uint_addr_mask take_bit_eq_mask mask_eq_exp_minus_1)
  finally show ?thesis by (simp add: aligned_def take_bit_eq_0_iff)
qed

text \<open>An aligned device does not run over the top of the address space.\<close>

lemma aligned_no_wrap:
  assumes "aligned b lab" "0 \<le> lab" "lab \<le> 62"
  shows "uint b + 2 ^ nat (lab + 1) \<le> 2 ^ 64"
proof -
  let ?s = "2 ^ nat (lab + 1) :: int"
  have "?s dvd 2 ^ 64" using assms by (intro le_imp_power_dvd) auto
  then obtain m where m: "2 ^ 64 = ?s * m" by blast
  obtain k where k: "uint b = ?s * k" using assms by (auto simp: aligned_def)
  have "uint b < 2 ^ 64" using uint_lt2p [of b] by simp
  then have "?s * k < ?s * m" using m k by simp
  then have "k + 1 \<le> m" by simp
  then have "?s * (k + 1) \<le> ?s * m" by (intro mult_left_mono) auto
  then show ?thesis using m k by (simp add: algebra_simps)
qed

lemma device_span_aligned:
  assumes "rd_base_addr dev = Some b" "0 \<le> rc_left_addr_bit rc" "rc_left_addr_bit rc \<le> 62"
    "aligned b (rc_left_addr_bit rc)"
  shows "\<exists>hi. deviceSpan dev (Some rc) = Some (b, hi) \<and>
    uint hi = uint b + 2 ^ nat (rc_left_addr_bit rc + 1) - 1"
proof -
  let ?n = "nat (rc_left_addr_bit rc + 1)"
  let ?p = "push_bit ?n 1 :: u64"
  have p: "uint ?p = 2 ^ ?n" using assms by (intro uint_push_1) auto
  have le: "uint b + 2 ^ ?n \<le> 2 ^ 64"
    using assms by (intro aligned_no_wrap) auto
  have pos: "(1::int) \<le> 2 ^ ?n" by simp
  have "uint (b + (?p - 1)) = uint b + 2 ^ ?n - 1"
  proof -
    have "uint (?p - 1) = 2 ^ ?n - 1" using p pos uint_sub_lem [of 1 ?p] by simp
    moreover have "uint b + (2 ^ ?n - 1) < 2 ^ 64" using le by simp
    ultimately show ?thesis by (simp add: uint_add_lem [THEN iffD1])
  qed
  then have hi: "uint (b + ?p - 1) = uint b + 2 ^ ?n - 1" by (simp add: algebra_simps)
  then have "uint b \<le> uint (b + ?p - 1)" using pos by linarith
  then have "\<not> b + ?p - 1 < b" by (simp add: word_less_def del: push_bit_of_1)
  with hi assms show ?thesis
    by (simp add: deviceSpan_def maxLeftAddrBit_def Let_def)
qed

section \<open>Sorted slices\<close>

lemma sorted_wrt_insort_sym:
  assumes "\<And>x y. P x y \<longleftrightarrow> P y x"
  shows "sorted_wrt P (insort_key k x xs) \<longleftrightarrow> (\<forall>y \<in> set xs. P x y) \<and> sorted_wrt P xs"
  using assms by (induction xs) (auto simp: set_insort_key)

lemma sorted_wrt_sort_sym:
  assumes "\<And>x y. P x y \<longleftrightarrow> P y x"
  shows "sorted_wrt P (sort_key k xs) \<longleftrightarrow> sorted_wrt P xs"
  by (induction xs) (auto simp: sorted_wrt_insort_sym [OF assms])

lemma sorted_wrt_map_filter:
  "sorted_wrt P (List.map_filter f xs) \<longleftrightarrow>
     sorted_wrt (\<lambda>x y. \<forall>a b. f x = Some a \<longrightarrow> f y = Some b \<longrightarrow> P a b) xs"
  by (induction xs) (auto simp: List.map_filter_simps map_filter_def split: option.splits)

lemma checkAddrOverlap_Nil:
  "checkAddrOverlap res = [] \<longleftrightarrow>
     sorted_wrt (\<lambda>a b. \<not> ranges_overlap a b) (device_ranges res @ reservedRegions)"
proof -
  have sym: "\<not> ranges_overlap a b \<longleftrightarrow> \<not> ranges_overlap b a" for a b
    by (auto simp: ranges_overlap_def)
  let ?k = "\<lambda>r. (ar_lo r, ar_range_name r)"
  let ?rs = "sort_key ?k (device_ranges res @ reservedRegions)"
  have "checkAddrOverlap res = [] \<longleftrightarrow>
      (\<forall>(a, b) \<in> set (index_pairs ?rs). \<not> ranges_overlap a b)"
    by (simp add: checkAddrOverlap_def Let_def filter_empty_conv case_prod_beta)
  also have "\<dots> \<longleftrightarrow> sorted_wrt (\<lambda>a b. \<not> ranges_overlap a b) ?rs"
    by (rule index_pairs_sorted_wrt)
  also have "\<dots> \<longleftrightarrow> sorted_wrt (\<lambda>a b. \<not> ranges_overlap a b) (device_ranges res @ reservedRegions)"
    by (rule sorted_wrt_sort_sym) (rule sym)
  finally show ?thesis .
qed

section \<open>The checks accept exactly the valid address maps\<close>

definition disjoint_devices :: "resolution \<Rightarrow> resolved_device \<Rightarrow> resolved_device \<Rightarrow> bool" where
  "disjoint_devices res d e \<longleftrightarrow>
     (\<forall>b lab b' lab'. mapped res d b lab \<longrightarrow> mapped res e b' lab' \<longrightarrow>
        addr_space b lab \<inter> addr_space b' lab' = {})"

definition valid_address_map :: "resolution \<Rightarrow> bool" where
  "valid_address_map res \<longleftrightarrow>
     (\<forall>dev b lab. mapped res dev b lab \<longrightarrow>
        in_device_region b \<and> 0 \<le> lab \<and> lab \<le> 62 \<and> aligned b lab \<and>
        addr_space b lab \<inter> reserved_space = {}) \<and>
     (\<forall>i j. i < j \<longrightarrow> j < length (res_devices res) \<longrightarrow>
        disjoint_devices res (res_devices res ! i) (res_devices res ! j))"

lemma device_addr_errors_Nil:
  assumes "rd_base_addr dev = Some b" "class_of res dev = Some rc"
  shows "device_addr_errors res dev = [] \<longleftrightarrow>
    in_device_region b \<and> 0 \<le> rc_left_addr_bit rc \<and> rc_left_addr_bit rc \<le> 62 \<and>
    aligned b (rc_left_addr_bit rc)"
  using assms mask_check [of "rc_left_addr_bit rc" b]
  by (auto simp: device_addr_errors_def Let_def region_check maxLeftAddrBit_def)

lemma range_disjoint:
  assumes "uint (ar_hi r) + 1 = h" "uint (ar_hi r') + 1 = h'"
    "uint (ar_lo r) < h" "uint (ar_lo r') < h'"
  shows "\<not> ranges_overlap r r' \<longleftrightarrow> {uint (ar_lo r) ..< h} \<inter> {uint (ar_lo r') ..< h'} = {}"
proof -
  have "ranges_overlap r r' \<longleftrightarrow> uint (ar_lo r) < h' \<and> uint (ar_lo r') < h"
    using assms by (auto simp: ranges_overlap_def word_le_def)
  then show ?thesis using assms by (auto simp: disjoint_iff not_less)
qed

lemma reserved_regions_facts:
  "sorted_wrt (\<lambda>a b. \<not> ranges_overlap a b) reservedRegions"
  "\<And>r. r \<in> set reservedRegions \<Longrightarrow> uint (ar_lo r) < uint (ar_hi r) + 1"
  "reserved_space = (\<Union>r \<in> set reservedRegions. {uint (ar_lo r) ..< uint (ar_hi r) + 1})"
  by (auto simp: reservedRegions_def ranges_overlap_def mk_range_def reserved_space_def)

lemma sorted_wrt_eqI:
  assumes "\<And>x y. x \<in> set xs \<Longrightarrow> y \<in> set xs \<Longrightarrow> P x y \<longleftrightarrow> Q x y"
  shows "sorted_wrt P xs \<longleftrightarrow> sorted_wrt Q xs"
  using assms by (auto simp: sorted_wrt_iff_nth_less)

text \<open>Once the base addresses are well formed, the device ranges are the address spaces.\<close>

definition well_formed_bases :: "resolution \<Rightarrow> bool" where
  "well_formed_bases res \<longleftrightarrow>
     (\<forall>dev b lab. mapped res dev b lab \<longrightarrow>
        in_device_region b \<and> 0 \<le> lab \<and> lab \<le> 62 \<and> aligned b lab)"

lemma well_formed_basesD:
  assumes "well_formed_bases res" "mapped res dev b lab"
  shows "0 \<le> lab" "lab \<le> 62" "aligned b lab" "in_device_region b"
  using assms by (simp_all add: well_formed_bases_def)

lemma mapped_unique:
  assumes "mapped res dev b lab" "mapped res dev b' lab'"
  shows "b' = b" "lab' = lab"
  using assms by (auto simp: mapped_def)

lemma device_errors_Nil:
  "concat (map (device_addr_errors res) (res_devices res)) = [] \<longleftrightarrow> well_formed_bases res"
proof -
  have "device_addr_errors res dev = [] \<longleftrightarrow>
      (\<forall>b lab. mapped res dev b lab \<longrightarrow>
         in_device_region b \<and> 0 \<le> lab \<and> lab \<le> 62 \<and> aligned b lab)"
    if "dev \<in> set (res_devices res)" for dev
  proof (cases "\<exists>b rc. rd_base_addr dev = Some b \<and> class_of res dev = Some rc")
    case True
    then obtain b rc where "rd_base_addr dev = Some b" "class_of res dev = Some rc" by auto
    with that show ?thesis by (auto simp: device_addr_errors_Nil mapped_def)
  next
    case False
    then have "device_addr_errors res dev = []"
      by (auto simp: device_addr_errors_def split: option.splits)
    with False show ?thesis by (auto simp: mapped_def)
  qed
  moreover have "mapped res dev b lab \<Longrightarrow> dev \<in> set (res_devices res)" for dev b lab
    by (simp add: mapped_def)
  ultimately show ?thesis
    unfolding concat_eq_Nil_conv well_formed_bases_def set_map ball_simps by blast
qed

definition range_of :: "resolution \<Rightarrow> resolved_device \<Rightarrow> addr_range option" where
  "range_of res dev =
     map_option (\<lambda>(lo, hi). mk_range (rd_name dev) lo hi) (deviceSpan dev (class_of res dev))"

lemma device_ranges_range_of: "device_ranges res = List.map_filter (range_of res) (res_devices res)"
proof -
  have "range_of res = (\<lambda>dev. map_option (\<lambda>(lo, hi). mk_range (rd_name dev) lo hi)
      (deviceSpan dev (class_of res dev)))"
    by (rule ext) (rule range_of_def)
  then show ?thesis by (simp only: device_ranges_def)
qed

lemma range_of_iff:
  assumes "well_formed_bases res" "dev \<in> set (res_devices res)"
  shows "range_of res dev = Some r \<longleftrightarrow>
    (\<exists>b lab hi. mapped res dev b lab \<and> r = mk_range (rd_name dev) b hi \<and>
       uint hi + 1 = uint b + 2 ^ nat (lab + 1))"
proof (cases "\<exists>b rc. rd_base_addr dev = Some b \<and> class_of res dev = Some rc")
  case True
  then obtain b rc where d: "rd_base_addr dev = Some b" "class_of res dev = Some rc" by auto
  then have m: "mapped res dev b' lab \<longleftrightarrow> b' = b \<and> lab = rc_left_addr_bit rc" for b' lab
    using assms(2) by (auto simp: mapped_def)
  then have wf: "0 \<le> rc_left_addr_bit rc" "rc_left_addr_bit rc \<le> 62"
      "aligned b (rc_left_addr_bit rc)"
    using well_formed_basesD [OF assms(1), of dev b] m by simp_all
  obtain hi where hi: "deviceSpan dev (Some rc) = Some (b, hi)"
      "uint hi = uint b + 2 ^ nat (rc_left_addr_bit rc + 1) - 1"
    using device_span_aligned [OF d(1) wf] by blast
  have eq: "uint hi' + 1 = uint b + 2 ^ nat (rc_left_addr_bit rc + 1) \<longleftrightarrow> hi' = hi" for hi' :: u64
    using hi(2) by (auto simp: word_uint_eq_iff)
  have "range_of res dev = Some r \<longleftrightarrow> r = mk_range (rd_name dev) b hi"
    using hi(1) d by (auto simp: range_of_def)
  then show ?thesis by (simp add: m eq)
next
  case False
  then show ?thesis
    by (auto simp: range_of_def deviceSpan_def mapped_def split: option.splits)
qed

lemma range_of_mapped:
  assumes "well_formed_bases res" "mapped res x b lab"
  shows "\<exists>hi. range_of res x = Some (mk_range (rd_name x) b hi) \<and>
      uint hi + 1 = uint b + 2 ^ nat (lab + 1)"
proof -
  have x: "x \<in> set (res_devices res)" using assms(2) by (simp add: mapped_def)
  obtain rc where rc: "class_of res x = Some rc" "rc_left_addr_bit rc = lab"
    "rd_base_addr x = Some b" using assms(2) unfolding mapped_def by blast
  have wf: "0 \<le> rc_left_addr_bit rc" "rc_left_addr_bit rc \<le> 62" "aligned b (rc_left_addr_bit rc)"
    using well_formed_basesD [OF assms] rc(2) by simp_all
  obtain hi where
    "deviceSpan x (Some rc) = Some (b, hi)" "uint hi = uint b + 2 ^ nat (lab + 1) - 1"
    using device_span_aligned [OF rc(3) wf] rc(2) by blast
  with rc show ?thesis by (auto simp: range_of_def)
qed

lemma mapped_range_disjoint:
  assumes "uint hi + 1 = uint b + 2 ^ nat (lab + 1)" "uint (ar_hi r) + 1 = h" "uint (ar_lo r) < h"
  shows "\<not> ranges_overlap (mk_range n b hi) r \<longleftrightarrow>
    addr_space b lab \<inter> {uint (ar_lo r) ..< h} = {}"
  using assms range_disjoint [of "mk_range n b hi" "uint b + 2 ^ nat (lab + 1)" r h]
  by (simp add: addr_space_def mk_range_def)

lemma range_pair_disjoint:
  assumes "well_formed_bases res" "d \<in> set (res_devices res)" "e \<in> set (res_devices res)"
  shows "(\<forall>r r'. range_of res d = Some r \<longrightarrow> range_of res e = Some r' \<longrightarrow> \<not> ranges_overlap r r')
    \<longleftrightarrow> disjoint_devices res d e" (is "?l \<longleftrightarrow> ?r")
proof -
  have key: "\<not> ranges_overlap (mk_range n b hi) (mk_range n' b' hi') \<longleftrightarrow>
      addr_space b lab \<inter> addr_space b' lab' = {}"
    if "uint hi + 1 = uint b + 2 ^ nat (lab + 1)" "uint hi' + 1 = uint b' + 2 ^ nat (lab' + 1)"
    for n n' b b' hi hi' lab lab'
    using mapped_range_disjoint [OF that(1), of "mk_range n' b' hi'"] that(2)
    by (simp add: mk_range_def addr_space_def)
  note ex = range_of_mapped [OF assms(1)]
  show ?thesis
  proof
    assume ?l
    show ?r unfolding disjoint_devices_def
    proof (intro allI impI)
      fix b lab b' lab'
      assume "mapped res d b lab" "mapped res e b' lab'"
      from ex [OF this(1)] ex [OF this(2)] \<open>?l\<close> key [of _ b lab _ b' lab']
      show "addr_space b lab \<inter> addr_space b' lab' = {}" by blast
    qed
  next
    assume ?r
    show ?l
    proof (intro allI impI)
      fix r r'
      assume "range_of res d = Some r" "range_of res e = Some r'"
      then show "\<not> ranges_overlap r r'"
        using \<open>?r\<close> key
        unfolding range_of_iff [OF assms(1,2)] range_of_iff [OF assms(1,3)] disjoint_devices_def
        by blast
    qed
  qed
qed

lemma range_reserved_disjoint:
  assumes "well_formed_bases res" "d \<in> set (res_devices res)"
  shows "(\<forall>r r'. range_of res d = Some r \<longrightarrow> r' \<in> set reservedRegions \<longrightarrow> \<not> ranges_overlap r r')
    \<longleftrightarrow> (\<forall>b lab. mapped res d b lab \<longrightarrow> addr_space b lab \<inter> reserved_space = {})"
proof -
  have key: "(\<forall>r' \<in> set reservedRegions. \<not> ranges_overlap (mk_range n b hi) r') \<longleftrightarrow>
      addr_space b lab \<inter> reserved_space = {}"
    if "uint hi + 1 = uint b + 2 ^ nat (lab + 1)" for n b hi lab
    unfolding reserved_regions_facts(3)
    using mapped_range_disjoint [OF that _ reserved_regions_facts(2)] by auto
  show ?thesis (is "?l \<longleftrightarrow> ?r")
  proof
    assume ?l
    then show ?r using range_of_mapped [OF assms(1)] key by blast
  next
    assume ?r
    show ?l
    proof (intro allI impI)
      fix r r'
      assume "range_of res d = Some r" "r' \<in> set reservedRegions"
      then show "\<not> ranges_overlap r r'"
        using \<open>?r\<close> key unfolding range_of_iff [OF assms] by blast
    qed
  qed
qed

lemma valid_address_map_split:
  "valid_address_map res \<longleftrightarrow> well_formed_bases res \<and>
     sorted_wrt (disjoint_devices res) (res_devices res) \<and>
     (\<forall>dev b lab. mapped res dev b lab \<longrightarrow> addr_space b lab \<inter> reserved_space = {})"
proof -
  have "(\<forall>dev b lab. mapped res dev b lab \<longrightarrow>
        in_device_region b \<and> 0 \<le> lab \<and> lab \<le> 62 \<and> aligned b lab \<and>
        addr_space b lab \<inter> reserved_space = {}) \<longleftrightarrow>
      well_formed_bases res \<and>
      (\<forall>dev b lab. mapped res dev b lab \<longrightarrow> addr_space b lab \<inter> reserved_space = {})"
    unfolding well_formed_bases_def by meson
  then show ?thesis
    unfolding valid_address_map_def sorted_wrt_iff_nth_less by argo
qed

lemma validateAddresses_Nil:
  "validateAddresses (Some res) = [] \<longleftrightarrow> valid_address_map res"
proof -
  let ?devs = "res_devices res"
  have "validateAddresses (Some res) = [] \<longleftrightarrow>
      well_formed_bases res \<and>
      sorted_wrt (\<lambda>a b. \<not> ranges_overlap a b) (device_ranges res @ reservedRegions)"
    by (simp add: validateAddresses_def device_errors_Nil checkAddrOverlap_Nil del: concat_eq_Nil_conv)
  also have "\<dots> \<longleftrightarrow> valid_address_map res"
  proof (cases "well_formed_bases res")
    case wf: True
    have pairs: "sorted_wrt (\<lambda>a b. \<not> ranges_overlap a b) (device_ranges res) \<longleftrightarrow>
        sorted_wrt (disjoint_devices res) ?devs"
      unfolding device_ranges_range_of sorted_wrt_map_filter
      using range_pair_disjoint [OF wf] by (intro sorted_wrt_eqI) auto
    have resv: "(\<forall>r \<in> set (device_ranges res). \<forall>r' \<in> set reservedRegions. \<not> ranges_overlap r r')
        \<longleftrightarrow> (\<forall>dev b lab. mapped res dev b lab \<longrightarrow> addr_space b lab \<inter> reserved_space = {})"
    proof -
      have mem: "r \<in> set (device_ranges res) \<longleftrightarrow> (\<exists>d \<in> set ?devs. range_of res d = Some r)" for r
        by (force simp: device_ranges_range_of List.map_filter_def)
      have "(\<forall>r \<in> set (device_ranges res). \<forall>r' \<in> set reservedRegions. \<not> ranges_overlap r r') \<longleftrightarrow>
          (\<forall>d \<in> set ?devs. \<forall>r r'. range_of res d = Some r \<longrightarrow> r' \<in> set reservedRegions \<longrightarrow>
             \<not> ranges_overlap r r')"
        unfolding Ball_def mem by blast
      also have "\<dots> \<longleftrightarrow> (\<forall>d \<in> set ?devs. \<forall>b lab. mapped res d b lab \<longrightarrow>
          addr_space b lab \<inter> reserved_space = {})"
        using range_reserved_disjoint [OF wf] by (intro ball_cong refl) blast
      also have "\<dots> \<longleftrightarrow> (\<forall>dev b lab. mapped res dev b lab \<longrightarrow>
          addr_space b lab \<inter> reserved_space = {})"
        by (simp only: Ball_def) (metis mapped_def)
      finally show ?thesis .
    qed
    have "sorted_wrt (\<lambda>a b. \<not> ranges_overlap a b) (device_ranges res @ reservedRegions) \<longleftrightarrow>
        sorted_wrt (disjoint_devices res) ?devs \<and>
        (\<forall>dev b lab. mapped res dev b lab \<longrightarrow> addr_space b lab \<inter> reserved_space = {})"
      unfolding sorted_wrt_append pairs resv using reserved_regions_facts(1) by blast
    then show ?thesis
      using wf by (simp add: valid_address_map_split)
  next
    case False
    then show ?thesis by (simp add: valid_address_map_split)
  qed
  finally show ?thesis .
qed

end
