(* ===== verification/Elab_Irq.thy ===== *)
theory Elab_Irq
  imports Elab_Model "HOL-Library.Product_Lexorder"
begin

text \<open>
  Model of \<open>src/tools/socgen/elaborate/irq.go\<close>: the wiring of device interrupts to the interrupt
  controllers (class \<open>aic\<close>), one per CPU. The code fills the fields of one model structure while it
  walks over the groups of interrupts; the fields are independent, so here each has its own
  function of a group, in the order of the code.
\<close>

section \<open>Errors and tuples\<close>

datatype irq_error_kind =
    ErrIRQNoPort | ErrIRQBadCPU | ErrIRQBadPath | ErrIRQNamedPort | ErrIRQVectorMismatch | ErrIRQAicCoverage

record irq_error =
  iq_kind :: irq_error_kind
  iq_device :: string
  iq_port :: string
  iq_detail :: string

definition irq_err :: "irq_error_kind \<Rightarrow> string \<Rightarrow> string \<Rightarrow> string \<Rightarrow> irq_error" where
  "irq_err k d p t = \<lparr>iq_kind = k, iq_device = d, iq_port = p, iq_detail = t\<rparr>"

record irq_tuple =
  it_dev :: string
  it_port :: string
  it_cpu :: int
  it_path :: int
  it_vector :: int

definition cpuOf :: "device \<Rightarrow> int" where
  "cpuOf dev = (case dev_cpu dev of Some c \<Rightarrow> c | None \<Rightarrow> 0)"

text \<open>The resolved name of the device at an index; the written name when there is none.\<close>

definition effName :: "resolution \<Rightarrow> nat \<Rightarrow> device \<Rightarrow> string" where
  "effName res i dev =
     (if i < length (res_devices res) then rd_name (res_devices res ! i) else dev_name dev)"

definition indexed :: "design \<Rightarrow> (nat \<times> device) list" where
  "indexed d = enumerate 0 (d_devices d)"

definition rdByName :: "resolution \<Rightarrow> resolved_device strmap" where
  "rdByName res = fold (\<lambda>rd m. AList.update (rd_name rd) rd m) (res_devices res) []"

definition irqPortName :: "resolved_device option \<Rightarrow> string" where
  "irqPortName rdo =
     (case rdo of None \<Rightarrow> []
      | Some rd \<Rightarrow> (case List.find (\<lambda>p. rp_kind p = KindIRQ) (rd_ports rd) of
                     Some p \<Rightarrow> rp_name p | None \<Rightarrow> []))"

definition entityHasPort :: "resolution \<Rightarrow> device \<Rightarrow> string \<Rightarrow> bool" where
  "entityHasPort res dev port =
     (case map_of (res_classes res) (lc (dev_class dev)) of
        None \<Rightarrow> True
      | Some rc \<Rightarrow>
          (case rc_entity rc of
             None \<Rightarrow> True
           | Some e \<Rightarrow> if en_ports e = [] then True else list_ex (\<lambda>p. ip_name p = port) (en_ports e)))"

section \<open>The controllers\<close>

definition is_aic :: "device \<Rightarrow> bool" where
  "is_aic dev \<longleftrightarrow> lc (dev_class dev) = ''aic''"

definition aicByCPU :: "resolution \<Rightarrow> design \<Rightarrow> (int \<times> string) list" where
  "aicByCPU res d =
     fold (\<lambda>(i, dev) m. if is_aic dev \<and> 0 \<le> cpuOf dev then AList.update (cpuOf dev) (effName res i dev) m else m)
       (indexed d) []"

definition aic_errs :: "resolution \<Rightarrow> design \<Rightarrow> irq_error list" where
  "aic_errs res d =
     concat (map (\<lambda>(i, dev). if is_aic dev \<and> cpuOf dev < 0
         then [irq_err ErrIRQBadCPU (effName res i dev) [] (''cpu '' @ itoa (cpuOf dev))] else [])
       (indexed d))"

definition aicExplicitIrqI :: "resolution \<Rightarrow> design \<Rightarrow> string list" where
  "aicExplicitIrqI res d =
     concat (map (\<lambda>(i, dev). if is_aic dev \<and> 0 \<le> cpuOf dev \<and> map_of (dev_ports dev) ''irq_i'' \<noteq> None
         then [effName res i dev] else []) (indexed d))"

definition aicCPUs :: "resolution \<Rightarrow> design \<Rightarrow> int list" where
  "aicCPUs res d = sort (map fst (aicByCPU res d))"

definition cpu_list_text :: "int list \<Rightarrow> string" where
  "cpu_list_text cs = ''['' @ join_strings (map itoa cs) '' '' @ '']''"

definition coverage_errs :: "int list \<Rightarrow> irq_error list" where
  "coverage_errs cpus =
     (if list_ex (\<lambda>(i, c). c \<noteq> int i) (enumerate 0 cpus)
      then [irq_err ErrIRQAicCoverage [] [] (''cpus '' @ cpu_list_text cpus)] else [])"

section \<open>The interrupt tuples\<close>

text \<open>One named interrupt port of a device.\<close>

definition namedTuple ::
    "resolution \<Rightarrow> device \<Rightarrow> string \<Rightarrow> irq_entry strmap \<Rightarrow> string \<Rightarrow> irq_tuple list \<times> irq_error list" where
  "namedTuple res dev name named port =
     (case map_of named port of
        None \<Rightarrow> ([], [])
      | Some e \<Rightarrow>
          if \<not> entityHasPort res dev port then ([], [irq_err ErrIRQNamedPort name port []])
          else ([\<lparr>it_dev = name, it_port = port, it_cpu = ie_cpu e, it_path = ie_irq e,
                  it_vector = 0x11 + ie_irq e\<rparr>], []))"

text \<open>One device: its tuples and errors, in the order of the code.\<close>

definition deviceTuples :: "resolution \<Rightarrow> nat \<Rightarrow> device \<Rightarrow> irq_tuple list \<times> irq_error list" where
  "deviceTuples res i dev =
     (let name = effName res i dev in
      case dev_irq dev of
        None \<Rightarrow> ([], [])
      | Some r \<Rightarrow>
          (case ir_int r of
             Some irq \<Rightarrow>
               let port = irqPortName (map_of (rdByName res) name)
               in if port = [] then ([], [irq_err ErrIRQNoPort name [] []])
                  else ([\<lparr>it_dev = name, it_port = port, it_cpu = cpuOf dev, it_path = irq,
                          it_vector = 0x11 + irq\<rparr>], [])
           | None \<Rightarrow>
               (case ir_named r of
                  None \<Rightarrow> ([], [])
                | Some named \<Rightarrow>
                    let rs = map (namedTuple res dev name named) (sorted_keys named)
                    in (concat (map fst rs), concat (map snd rs)))))"

definition irqTuples :: "resolution \<Rightarrow> design \<Rightarrow> irq_tuple list" where
  "irqTuples res d = concat (map (\<lambda>(i, dev). fst (deviceTuples res i dev)) (indexed d))"

definition tuple_errs :: "resolution \<Rightarrow> design \<Rightarrow> irq_error list" where
  "tuple_errs res d = concat (map (\<lambda>(i, dev). snd (deviceTuples res i dev)) (indexed d))"

section \<open>The groups\<close>

type_synonym irq_key = "int \<times> int"

definition tuple_key :: "irq_tuple \<Rightarrow> irq_key" where
  "tuple_key t = (it_cpu t, it_path t)"

definition group_keys :: "irq_tuple list \<Rightarrow> irq_key list" where
  "group_keys ts = sort (remdups (map tuple_key ts))"

definition group_of :: "irq_tuple list \<Rightarrow> irq_key \<Rightarrow> irq_tuple list" where
  "group_of ts k = filter (\<lambda>t. tuple_key t = k) ts"

definition irqs_name :: "int \<Rightarrow> string" where
  "irqs_name cpu = ''irqs'' @ itoa cpu"

definition irq_target :: "irq_key \<Rightarrow> string" where
  "irq_target k = ''irqs'' @ itoa (fst k) @ ''('' @ itoa (snd k) @ '')''"

text \<open>\<open>string(rune(n))\<close>, the UTF-8 encoding.\<close>

definition rune_str :: "nat \<Rightarrow> string" where
  "rune_str n =
     (if n < 0x80 then [char_of n]
      else if n < 0x800 then [char_of (0xC0 + n div 0x40), char_of (0x80 + n mod 0x40)]
      else [char_of (0xE0 + n div 0x1000), char_of (0x80 + n div 0x40 mod 0x40), char_of (0x80 + n mod 0x40)])"

definition irq_source :: "irq_key \<Rightarrow> nat \<Rightarrow> string" where
  "irq_source k i = ''irq_'' @ itoa (fst k) @ ''_'' @ itoa (snd k) @ ''_'' @ rune_str (97 + i)"

text \<open>The actual of a tuple's port: open, the line itself, or the OR source.\<close>

definition port_actual :: "(int \<times> string) list \<Rightarrow> irq_key \<Rightarrow> irq_tuple list \<Rightarrow> nat \<Rightarrow> string" where
  "port_actual aics k g i =
     (if map_of aics (fst k) = None then ''open''
      else if length g = 1 then irq_target k else irq_source k i)"

definition group_overrides ::
    "(int \<times> string) list \<Rightarrow> irq_tuple list \<Rightarrow> irq_key \<Rightarrow> (string \<times> string \<times> string) list" where
  "group_overrides aics ts k =
     map (\<lambda>(i, t). (it_dev t, it_port t, port_actual aics k (group_of ts k) i)) (enumerate 0 (group_of ts k))"

definition or_combined :: "(int \<times> string) list \<Rightarrow> irq_tuple list \<Rightarrow> irq_key \<Rightarrow> bool" where
  "or_combined aics ts k \<longleftrightarrow> map_of aics (fst k) \<noteq> None \<and> length (group_of ts k) \<noteq> 1"

definition group_sources :: "irq_tuple list \<Rightarrow> irq_key \<Rightarrow> string list" where
  "group_sources ts k = map (irq_source k) [0 ..< length (group_of ts k)]"

definition group_signals :: "(int \<times> string) list \<Rightarrow> irq_tuple list \<Rightarrow> irq_key \<Rightarrow> irq_signal list" where
  "group_signals aics ts k =
     (if or_combined aics ts k then map (\<lambda>s. \<lparr>is_name = s, is_width = 0\<rparr>) (group_sources ts k) else [])"

definition group_or :: "(int \<times> string) list \<Rightarrow> irq_tuple list \<Rightarrow> irq_key \<Rightarrow> irq_or_assign list" where
  "group_or aics ts k =
     (if or_combined aics ts k then [\<lparr>io_target = irq_target k, io_sources = group_sources ts k\<rparr>] else [])"

definition group_vectors ::
    "(int \<times> string) list \<Rightarrow> irq_tuple list \<Rightarrow> irq_key \<Rightarrow> int list strmap \<Rightarrow> int list strmap" where
  "group_vectors aics ts k m =
     (case map_of aics (fst k) of
        None \<Rightarrow> m
      | Some aic \<Rightarrow>
          if 0 \<le> snd k \<and> snd k \<le> 7
          then AList.update aic
                 ((case map_of m aic of Some v \<Rightarrow> v | None \<Rightarrow> replicate 8 0)
                    [nat (snd k) := it_vector (hd (group_of ts k))]) m
          else m)"

definition group_errs :: "(int \<times> string) list \<Rightarrow> irq_tuple list \<Rightarrow> irq_key \<Rightarrow> irq_error list" where
  "group_errs aics ts k =
     (let g = group_of ts k in
      (if fst k < 0 then [irq_err ErrIRQBadCPU (it_dev (hd g)) [] (''cpu '' @ itoa (fst k))] else []) @
      (if snd k < 0 \<or> snd k > 7 then [irq_err ErrIRQBadPath (it_dev (hd g)) [] (''path '' @ itoa (snd k))] else []) @
      (if or_combined aics ts k
       then map (\<lambda>t. irq_err ErrIRQVectorMismatch (it_dev t) []
                   (''vector '' @ hex_str (it_vector t) @ '' != '' @ hex_str (it_vector (hd g)) @
                    '' at '' @ irq_target k))
              (filter (\<lambda>t. it_vector t \<noteq> it_vector (hd g)) g)
       else []))"

section \<open>The model\<close>

definition setOverride :: "string strmap strmap \<Rightarrow> string \<Rightarrow> string \<Rightarrow> string \<Rightarrow> string strmap strmap" where
  "setOverride m dev port txt =
     AList.update dev (AList.update port txt (case map_of m dev of Some pm \<Rightarrow> pm | None \<Rightarrow> [])) m"

text \<open>The final loop: each controller's \<open>irq_i\<close>, unless the board maps it.\<close>

definition aic_overrides :: "resolution \<Rightarrow> design \<Rightarrow> (string \<times> string \<times> string) list" where
  "aic_overrides res d =
     concat (map (\<lambda>cpu. case map_of (aicByCPU res d) cpu of
                None \<Rightarrow> []
              | Some aic \<Rightarrow> if aic \<in> set (aicExplicitIrqI res d) then []
                             else [(aic, ''irq_i'', irqs_name cpu)])
       (aicCPUs res d))"

definition irq_overrides :: "resolution \<Rightarrow> design \<Rightarrow> (string \<times> string \<times> string) list" where
  "irq_overrides res d =
     concat (map (group_overrides (aicByCPU res d) (irqTuples res d)) (group_keys (irqTuples res d))) @
     aic_overrides res d"

definition irqModel :: "resolution \<Rightarrow> design \<Rightarrow> irq_model" where
  "irqModel res d =
     (let aics = aicByCPU res d; ts = irqTuples res d; ks = group_keys ts in
      \<lparr>im_signals = map (\<lambda>cpu. \<lparr>is_name = irqs_name cpu, is_width = 8\<rparr>) (aicCPUs res d) @
         concat (map (group_signals aics ts) ks),
       im_or_assigns = concat (map (group_or aics ts) ks),
       im_port_overrides = fold (\<lambda>(dev, port, txt) m. setOverride m dev port txt) (irq_overrides res d) [],
       im_vector_numbers = fold (group_vectors aics ts) ks
         (fold (\<lambda>cpu m. case map_of aics cpu of Some aic \<Rightarrow> AList.update aic (replicate 8 0) m | None \<Rightarrow> m)
           (aicCPUs res d) [])\<rparr>)"

definition buildIRQ :: "resolution \<Rightarrow> design option \<Rightarrow> irq_model option \<times> irq_error list" where
  "buildIRQ res dsg =
     (case dsg of
        None \<Rightarrow> (None, [])
      | Some d \<Rightarrow>
          if aicByCPU res d = [] then (None, aic_errs res d)
          else (Some (irqModel res d),
                aic_errs res d @ coverage_errs (aicCPUs res d) @ tuple_errs res d @
                concat (map (group_errs (aicByCPU res d) (irqTuples res d)) (group_keys (irqTuples res d)))))"

section \<open>The override table\<close>

definition override_of :: "string strmap strmap \<Rightarrow> string \<Rightarrow> string \<Rightarrow> string option" where
  "override_of m dev port = Option.bind (map_of m dev) (\<lambda>pm. map_of pm port)"

lemma override_of_setOverride:
  "override_of (setOverride m dev port txt) dev' port' =
     (if dev' = dev \<and> port' = port then Some txt else override_of m dev' port')"
  by (auto simp: setOverride_def override_of_def split: option.split)

lemma fold_setOverride:
  assumes "(dev, port, txt) \<in> set os"
    "\<And>txt'. (dev, port, txt') \<in> set os \<Longrightarrow> txt' = txt"
  shows "override_of (fold (\<lambda>(dev, port, txt) m. setOverride m dev port txt) os m) dev port = Some txt"
  using assms
proof (induction os rule: rev_induct)
  case Nil
  then show ?case by simp
next
  case (snoc x os)
  obtain d p t where x: "x = (d, p, t)" by (rule prod_cases3)
  show ?case
  proof (cases "d = dev \<and> p = port")
    case True
    with snoc.prems(2) [of t] x show ?thesis by (simp add: override_of_setOverride)
  next
    case False
    then have "(dev, port, txt) \<in> set os" using snoc.prems(1) x by auto
    from snoc.IH [OF this] snoc.prems(2) False x show ?thesis
      by (auto simp: override_of_setOverride)
  qed
qed

lemma set_group_keys [simp]: "set (group_keys ts) = tuple_key ` set ts"
  by (simp add: group_keys_def)

lemma group_overrides_iff:
  "(dev, port, txt) \<in> set (group_overrides aics ts k) \<longleftrightarrow>
     (\<exists>i < length (group_of ts k). dev = it_dev (group_of ts k ! i) \<and> port = it_port (group_of ts k ! i) \<and>
        txt = port_actual aics k (group_of ts k) i)"
  by (auto simp: group_overrides_def in_set_enumerate_eq image_iff Bex_def)

text \<open>Every interrupt port is named once, and no controller's \<open>irq_i\<close> is one.\<close>

definition irq_ports_distinct :: "resolution \<Rightarrow> design \<Rightarrow> bool" where
  "irq_ports_distinct res d \<longleftrightarrow>
     distinct (map (\<lambda>t. (it_dev t, it_port t)) (irqTuples res d)) \<and>
     list_all (\<lambda>t. \<not> ((it_dev t) \<in> snd ` set (aicByCPU res d) \<and> it_port t = ''irq_i'')) (irqTuples res d)"

lemma irq_overrides_functional:
  assumes "irq_ports_distinct res d" "i < length (group_of (irqTuples res d) k)"
    "k \<in> set (group_keys (irqTuples res d))"
    "t = group_of (irqTuples res d) k ! i"
    "(it_dev t, it_port t, txt) \<in> set (irq_overrides res d)"
  shows "txt = port_actual (aicByCPU res d) k (group_of (irqTuples res d) k) i"
proof -
  let ?ts = "irqTuples res d" and ?aics = "aicByCPU res d"
  have t: "t \<in> set ?ts" "tuple_key t = k"
    using assms(2,4) nth_mem [OF assms(2)] by (auto simp: group_of_def)
  have "(it_dev t, it_port t, txt) \<notin> set (aic_overrides res d)"
  proof
    assume "(it_dev t, it_port t, txt) \<in> set (aic_overrides res d)"
    then obtain cpu where "it_port t = ''irq_i''" "map_of ?aics cpu = Some (it_dev t)"
      by (auto simp: aic_overrides_def split: option.splits if_splits)
    moreover from this(2) have "it_dev t \<in> snd ` set ?aics"
      by (force dest: map_of_SomeD)
    ultimately show False using assms(1) t(1) by (auto simp: irq_ports_distinct_def list_all_iff)
  qed
  then obtain k' where k': "k' \<in> set (group_keys ?ts)"
    "(it_dev t, it_port t, txt) \<in> set (group_overrides ?aics ?ts k')"
    using assms(5) unfolding irq_overrides_def set_append set_concat set_map Un_iff UN_iff by blast
  then obtain j where j: "j < length (group_of ?ts k')" "it_dev t = it_dev (group_of ?ts k' ! j)"
    "it_port t = it_port (group_of ?ts k' ! j)" "txt = port_actual ?aics k' (group_of ?ts k') j"
    unfolding group_overrides_iff by blast
  let ?u = "group_of ?ts k' ! j"
  have u: "?u \<in> set ?ts" "tuple_key ?u = k'"
    using nth_mem [OF j(1)] by (auto simp: group_of_def)
  have dist: "distinct (map (\<lambda>t. (it_dev t, it_port t)) ?ts)"
    using assms(1) by (simp add: irq_ports_distinct_def)
  have "?u = t"
  proof (rule inj_onD [of "\<lambda>t. (it_dev t, it_port t)" "set ?ts"])
    show "inj_on (\<lambda>t. (it_dev t, it_port t)) (set ?ts)" using dist by (simp add: distinct_map)
    show "(it_dev ?u, it_port ?u) = (it_dev t, it_port t)" using j(2,3) by simp
  qed (use u t in auto)
  then have kk: "k' = k" using u t by auto
  have "distinct (group_of ?ts k)"
    using dist by (simp add: group_of_def distinct_map)
  then have "j = i"
    using \<open>?u = t\<close> kk j(1) assms(2,4) nth_eq_iff_index_eq by metis
  with kk j(4) show ?thesis by simp
qed

lemma override_of_tuple:
  assumes "irq_ports_distinct res d" "k \<in> set (group_keys (irqTuples res d))"
    "i < length (group_of (irqTuples res d) k)" "t = group_of (irqTuples res d) k ! i"
  shows "override_of (im_port_overrides (irqModel res d)) (it_dev t) (it_port t) =
    Some (port_actual (aicByCPU res d) k (group_of (irqTuples res d) k) i)"
proof -
  let ?a = "port_actual (aicByCPU res d) k (group_of (irqTuples res d) k) i"
  have "(it_dev t, it_port t, ?a) \<in> set (group_overrides (aicByCPU res d) (irqTuples res d) k)"
    unfolding group_overrides_iff using assms(3,4) by blast
  then have "(it_dev t, it_port t, ?a) \<in> set (irq_overrides res d)"
    using assms(2) by (auto simp: irq_overrides_def)
  then have "override_of (fold (\<lambda>(dev, port, txt) m. setOverride m dev port txt) (irq_overrides res d) [])
      (it_dev t) (it_port t) = Some ?a"
    using irq_overrides_functional [OF assms(1,3,2,4)] by (rule fold_setOverride)
  then show ?thesis by (simp add: irqModel_def Let_def)
qed

section \<open>Vectors and errors\<close>

lemma deviceTuples_vector: "t \<in> set (fst (deviceTuples res i dev)) \<Longrightarrow> it_vector t = 0x11 + it_path t"
  by (auto simp: deviceTuples_def namedTuple_def Let_def split: option.splits if_splits)

lemma irqTuples_vector: "t \<in> set (irqTuples res d) \<Longrightarrow> it_vector t = 0x11 + it_path t"
  using deviceTuples_vector by (auto simp: irqTuples_def)

lemma group_hd:
  assumes "k \<in> set (group_keys ts)"
  shows "hd (group_of ts k) \<in> set ts \<and> tuple_key (hd (group_of ts k)) = k"
proof -
  have "group_of ts k \<noteq> []" using assms by (auto simp: group_of_def filter_empty_conv)
  then have "hd (group_of ts k) \<in> set (group_of ts k)" by simp
  then show ?thesis by (simp add: group_of_def)
qed

definition tables_ok :: "(int \<times> string) list \<Rightarrow> int list strmap \<Rightarrow> bool" where
  "tables_ok aics m \<longleftrightarrow> (\<forall>aic \<in> snd ` set aics. \<exists>v. map_of m aic = Some v \<and> length v = 8)"

lemma tables_ok_init:
  assumes "distinct (map fst aics)"
  shows "tables_ok aics (fold (\<lambda>cpu m. case map_of aics cpu of Some aic \<Rightarrow> AList.update aic (replicate 8 0) m
      | None \<Rightarrow> m) (sort (map fst aics)) [])"
proof -
  have gen: "map_of (fold (\<lambda>cpu m. case map_of aics cpu of Some aic \<Rightarrow> AList.update aic (replicate 8 0) m
      | None \<Rightarrow> m) cpus m) aic =
      (if \<exists>c \<in> set cpus. map_of aics c = Some aic then Some (replicate 8 0) else map_of m aic)" for cpus m aic
    by (induction cpus arbitrary: m) (auto split: option.split)
  show ?thesis
    unfolding tables_ok_def gen using assms by (force simp: image_iff)
qed

lemma group_vectors_ok: "tables_ok aics m \<Longrightarrow> tables_ok aics (group_vectors aics ts k m)"
  unfolding tables_ok_def group_vectors_def by (force split: option.split)

lemma group_vectors_lookup:
  assumes "map_of m aic = Some v"
  shows "map_of (group_vectors aics ts k m) aic =
    (if map_of aics (fst k) = Some aic \<and> 0 \<le> snd k \<and> snd k \<le> 7
     then Some (v[nat (snd k) := it_vector (hd (group_of ts k))]) else Some v)"
  using assms by (simp add: group_vectors_def split: option.split)

lemma fold_vectors:
  assumes "distinct ks" "tables_ok aics m" "distinct (map snd aics)" "k \<in> set ks"
    "map_of aics (fst k) = Some aic" "0 \<le> snd k" "snd k \<le> 7"
  shows "\<exists>v. map_of (fold (group_vectors aics ts) ks m) aic = Some v \<and> length v = 8 \<and>
    v ! nat (snd k) = it_vector (hd (group_of ts k))"
  using assms(1,4)
proof (induction ks rule: rev_induct)
  case Nil
  then show ?case by simp
next
  case (snoc x ks)
  have ok: "tables_ok aics (fold (group_vectors aics ts) ks m)"
    using assms(2) group_vectors_ok by (induction ks arbitrary: m) auto
  have aic: "aic \<in> snd ` set aics" using assms(5) by (force dest: map_of_SomeD)
  obtain v where v: "map_of (fold (group_vectors aics ts) ks m) aic = Some v" "length v = 8"
    using ok aic unfolding tables_ok_def by blast
  show ?case
  proof (cases "x = k")
    case True
    then show ?thesis using v assms(5-7) by (simp add: group_vectors_lookup nat_less_iff)
  next
    case False
    then obtain v where v: "map_of (fold (group_vectors aics ts) ks m) aic = Some v" "length v = 8"
      "v ! nat (snd k) = it_vector (hd (group_of ts k))"
      using snoc by auto
    have "snd x \<noteq> snd k" if "map_of aics (fst x) = Some aic"
    proof -
      have "fst x = fst k"
        using map_of_SomeD [OF that] map_of_SomeD [OF assms(5)] assms(3)
        by (fastforce simp: distinct_map inj_on_def)
      with False show ?thesis by (auto simp: prod_eq_iff)
    qed
    then show ?thesis
      using v assms(6,7) by (auto simp: group_vectors_lookup nth_list_update)
  qed
qed

lemma aicByCPU_distinct: "distinct (map fst (aicByCPU res d))"
proof -
  have "distinct (map fst m) \<Longrightarrow> distinct (map fst (fold (\<lambda>(i, dev) m.
      if is_aic dev \<and> 0 \<le> cpuOf dev then AList.update (cpuOf dev) (effName res i dev) m else m) xs m))" for xs m
    by (induction xs arbitrary: m) (auto simp del: distinct_map simp: distinct_update)
  then show ?thesis by (simp add: aicByCPU_def)
qed

definition irq_device :: "string \<Rightarrow> string \<Rightarrow> irq_ref option \<Rightarrow> device" where
  "irq_device c n r = \<lparr>dev_class = c, dev_name = n, dev_cpu = None, dev_base_addr = None, dev_irq = r,
     dev_generics = [], dev_ports = [], dev_dt_props = [],
     dev_dt_stdout = False, dev_dt_label = [], dev_dt_node = None\<rparr>"

definition irq_rdevice :: "string \<Rightarrow> string \<Rightarrow> resolved_device" where
  "irq_rdevice c n = \<lparr>rd_name = n, rd_class = c, rd_generics = [], rd_base_addr = None,
     rd_ports = [\<lparr>rp_name = ''int0'', rp_dir = ''out'', rp_type = None, rp_kind = KindIRQ,
       rp_global_signal = [], rp_value = None\<rparr>], rd_data_bus = False, rd_generic_types = []\<rparr>"

text \<open>Two devices that share line 2 of CPU 0's controller.\<close>

definition irq_design :: design where
  "irq_design = \<lparr>d_target = [], d_device_classes = [],
     d_devices = [irq_device ''aic'' ''aic0'' None,
                  irq_device ''uart'' ''uart0'' (Some \<lparr>ir_int = Some 2, ir_named = None\<rparr>),
                  irq_device ''gpio'' ''gpio0'' (Some \<lparr>ir_int = Some 2, ir_named = None\<rparr>)],
     d_top_entities = [], d_padring_entities = [], d_merge_signals = [], d_zero_signals = [],
     d_bus_word = [], d_bus_word_loopback_ack = [], d_irq = [],
     d_pins = None, d_peripheral_buses = [], d_system = None, d_cpu = None,
     d_plugins = []\<rparr>"

definition irq_resolution :: resolution where
  "irq_resolution = \<lparr>res_classes = [],
     res_devices = [irq_rdevice ''aic'' ''aic0'', irq_rdevice ''uart'' ''uart0'', irq_rdevice ''gpio'' ''gpio0''],
     res_top_entities = [], res_padring_entities = [], res_signals = [], res_pins = [],
     res_entity_bound_pads = [], res_data_bus = None\<rparr>"

definition uart_tuple :: irq_tuple where
  "uart_tuple = \<lparr>it_dev = ''uart0'', it_port = ''int0'', it_cpu = 0, it_path = 2, it_vector = 19\<rparr>"

lemma irq_design_facts:
  "irq_ports_distinct irq_resolution irq_design"
  "aicByCPU irq_resolution irq_design = [(0, ''aic0'')]"
  "irqTuples irq_resolution irq_design = [uart_tuple, uart_tuple\<lparr>it_dev := ''gpio0''\<rparr>]"
  "snd (buildIRQ irq_resolution (Some irq_design)) = []"
  by code_simp+

section \<open>Properties\<close>



text \<open>
  C15: the vector table of a controller holds, for each line with an interrupt, the vector of that
  interrupt, which is \<open>0x11\<close> plus the line number; so the devices of a group never disagree.
\<close>

theorem irq_vectors:
  assumes "distinct (map snd (aicByCPU res d))" "t \<in> set (irqTuples res d)"
    "map_of (aicByCPU res d) (it_cpu t) = Some aic" "0 \<le> it_path t" "it_path t \<le> 7"
  shows "\<exists>v. map_of (im_vector_numbers (irqModel res d)) aic = Some v \<and> length v = 8 \<and>
    v ! nat (it_path t) = it_vector t \<and> it_vector t = 0x11 + it_path t"
proof -
  let ?ts = "irqTuples res d" and ?aics = "aicByCPU res d"
  let ?k = "tuple_key t"
  have k: "?k \<in> set (group_keys ?ts)" using assms(2) by simp
  have "distinct (group_keys ?ts)" by (simp add: group_keys_def)
  from fold_vectors [OF this tables_ok_init [OF aicByCPU_distinct] assms(1) k, of aic ?ts] assms(3-5)
  obtain v where v: "map_of (im_vector_numbers (irqModel res d)) aic = Some v" "length v = 8"
    "v ! nat (it_path t) = it_vector (hd (group_of ?ts ?k))"
    by (auto simp: irqModel_def Let_def tuple_key_def aicCPUs_def)
  have "it_vector (hd (group_of ?ts ?k)) = 0x11 + it_path t"
    using irqTuples_vector group_hd [OF k] by (metis prod.inject tuple_key_def)
  with v irqTuples_vector [OF assms(2)] show ?thesis by auto
qed

theorem irq_vectors_witness:
  "\<exists>v. map_of (im_vector_numbers (irqModel irq_resolution irq_design)) ''aic0'' = Some v \<and> v ! 2 = 19"
  using irq_vectors [of irq_resolution irq_design uart_tuple "''aic0''"]
  by (simp add: irq_design_facts) (auto simp: uart_tuple_def)

section \<open>When no error is reported\<close>

text \<open>The CPUs that have a controller.\<close>

definition controller_cpus :: "design \<Rightarrow> int set" where
  "controller_cpus d = cpuOf ` {dev \<in> set (d_devices d). is_aic dev \<and> 0 \<le> cpuOf dev}"

definition line_ok :: "int \<Rightarrow> int \<Rightarrow> bool" where
  "line_ok cpu path \<longleftrightarrow> 0 \<le> cpu \<and> 0 \<le> path \<and> path \<le> 7"

text \<open>
  The interrupts of the device at an index are as they should be: a plain one has a port and a valid
  line, and of a list of named ones each names a port of the entity and has a valid line.
\<close>

definition irq_ok :: "resolution \<Rightarrow> nat \<Rightarrow> device \<Rightarrow> bool" where
  "irq_ok res i dev \<longleftrightarrow>
     (case dev_irq dev of
        None \<Rightarrow> True
      | Some r \<Rightarrow>
          (case (ir_int r, ir_named r) of
             (Some path, _) \<Rightarrow> irqPortName (map_of (rdByName res) (effName res i dev)) \<noteq> [] \<and> line_ok (cpuOf dev) path
           | (None, None) \<Rightarrow> True
           | (None, Some named) \<Rightarrow>
               list_all (\<lambda>port. case map_of named port of None \<Rightarrow> True
                  | Some e \<Rightarrow> entityHasPort res dev port \<and> line_ok (ie_cpu e) (ie_irq e)) (map fst named)))"

lemma set_aicCPUs: "set (aicCPUs res d) = controller_cpus d"
proof -
  have upd: "fst ` set (AList.update k v m) = insert k (fst ` set m)" for k v and m :: "(int \<times> string) list"
    by (simp add: dom_update [folded dom_map_of_conv_image_fst] dom_map_of_conv_image_fst [symmetric])
  have "set (map fst (fold (\<lambda>(i, dev) m. if is_aic dev \<and> 0 \<le> cpuOf dev then AList.update (cpuOf dev) (effName res i dev) m
      else m) xs m)) = set (map fst m) \<union> cpuOf ` {dev \<in> snd ` set xs. is_aic dev \<and> 0 \<le> cpuOf dev}" for xs m
  proof (induction xs arbitrary: m)
    case Nil
    then show ?case by simp
  next
    case (Cons x xs)
    obtain i dev where x: "x = (i, dev)" by (rule prod.exhaust)
    have sel: "{e \<in> snd ` set (x # xs). is_aic e \<and> 0 \<le> cpuOf e} =
        (if is_aic dev \<and> 0 \<le> cpuOf dev then insert dev {e \<in> snd ` set xs. is_aic e \<and> 0 \<le> cpuOf e}
         else {e \<in> snd ` set xs. is_aic e \<and> 0 \<le> cpuOf e})"
      using x by auto
    show ?case unfolding sel using x by (simp only: fold.simps o_apply Cons.IH prod.case) (simp add: upd)
  qed
  moreover have "snd ` set (indexed d) = set (d_devices d)"
    by (metis indexed_def list.set_map map_snd_enumerate)
  ultimately show ?thesis by (simp add: aicCPUs_def aicByCPU_def controller_cpus_def)
qed

lemma aicByCPU_empty: "aicByCPU res d = [] \<longleftrightarrow> controller_cpus d = {}"
  using set_aicCPUs [of res d] by (auto simp: aicCPUs_def)

lemma coverage_errs_none: "coverage_errs xs = [] \<longleftrightarrow> xs = map int [0 ..< length xs]"
proof
  assume "coverage_errs xs = []"
  then have "xs ! i = int i" if "i < length xs" for i
    using that by (auto simp: coverage_errs_def list_ex_iff in_set_enumerate_eq split: if_splits)
  then show "xs = map int [0 ..< length xs]" by (intro nth_equalityI) simp_all
next
  assume "xs = map int [0 ..< length xs]"
  then obtain n where "xs = map int [0 ..< n]" by blast
  then show "coverage_errs xs = []" by (auto simp: coverage_errs_def list_ex_iff in_set_enumerate_eq)
qed

lemma coverage_none: "coverage_errs (aicCPUs res d) = [] \<longleftrightarrow> controller_cpus d = {0 ..< int (card (controller_cpus d))}"
proof -
  have int_sorted: "sorted (map int [0 ..< n])" for n by (simp add: sorted_iff_nth_mono)
  have dist: "distinct (aicCPUs res d)" "sorted (aicCPUs res d)" using aicByCPU_distinct by (simp_all add: aicCPUs_def)
  have "coverage_errs (aicCPUs res d) = [] \<longleftrightarrow> aicCPUs res d = map int [0 ..< length (aicCPUs res d)]"
    by (rule coverage_errs_none)
  also have "\<dots> \<longleftrightarrow> set (aicCPUs res d) = {0 ..< int (length (aicCPUs res d))}"
  proof
    assume "aicCPUs res d = map int [0 ..< length (aicCPUs res d)]"
    then have "set (aicCPUs res d) = int ` {0 ..< length (aicCPUs res d)}" by (metis list.set_map set_upt)
    then show "set (aicCPUs res d) = {0 ..< int (length (aicCPUs res d))}" by (simp add: image_int_atLeastLessThan)
  next
    assume "set (aicCPUs res d) = {0 ..< int (length (aicCPUs res d))}"
    then show "aicCPUs res d = map int [0 ..< length (aicCPUs res d)]"
      by (intro sorted_distinct_set_unique) (simp_all add: dist image_int_atLeastLessThan distinct_map int_sorted)
  qed
  finally show ?thesis using dist(1) distinct_card [OF dist(1)] by (simp add: set_aicCPUs)
qed

lemma aic_errs_none: "aic_errs res d = [] \<longleftrightarrow> list_all (\<lambda>dev. is_aic dev \<longrightarrow> 0 \<le> cpuOf dev) (d_devices d)"
proof -
  have "aic_errs res d = [] \<longleftrightarrow> (\<forall>(i, dev) \<in> set (indexed d). is_aic dev \<longrightarrow> 0 \<le> cpuOf dev)"
    by (force simp: aic_errs_def not_less split: if_splits)
  then show ?thesis by (force simp: indexed_def list_all_length in_set_enumerate_eq)
qed

lemma group_errs_none:
  "concat (map (group_errs (aicByCPU res d) (irqTuples res d)) (group_keys (irqTuples res d))) = [] \<longleftrightarrow>
     list_all (\<lambda>t. line_ok (it_cpu t) (it_path t)) (irqTuples res d)"
proof -
  have "group_errs (aicByCPU res d) (irqTuples res d) (tuple_key t) = [] \<longleftrightarrow> line_ok (it_cpu t) (it_path t)"
    if "t \<in> set (irqTuples res d)" for t
  proof -
    have v: "it_vector u = 0x11 + it_path t" if "u \<in> set (group_of (irqTuples res d) (tuple_key t))" for u
      using that irqTuples_vector by (auto simp: group_of_def tuple_key_def)
    have "t \<in> set (group_of (irqTuples res d) (tuple_key t))" using that by (simp add: group_of_def)
    then have "hd (group_of (irqTuples res d) (tuple_key t)) \<in> set (group_of (irqTuples res d) (tuple_key t))"
      by (metis empty_iff hd_in_set list.set(1))
    then show ?thesis using v by (auto simp: group_errs_def Let_def line_ok_def tuple_key_def not_less filter_empty_conv)
  qed
  then show ?thesis by (simp add: list_all_iff)
qed

lemma deviceTuples_ok:
  "snd (deviceTuples res i dev) = [] \<and> list_all (\<lambda>t. line_ok (it_cpu t) (it_path t)) (fst (deviceTuples res i dev)) \<longleftrightarrow>
     irq_ok res i dev"
proof -
  have named: "snd (namedTuple res dev n named port) = [] \<and>
      list_all (\<lambda>t. line_ok (it_cpu t) (it_path t)) (fst (namedTuple res dev n named port)) \<longleftrightarrow>
      (case map_of named port of None \<Rightarrow> True | Some e \<Rightarrow> entityHasPort res dev port \<and> line_ok (ie_cpu e) (ie_irq e))"
    for n named port
    by (simp add: namedTuple_def split: option.split)
  have all: "(\<forall>port \<in> fst ` set named. snd (namedTuple res dev n named port) = []) \<and>
      (\<forall>port \<in> fst ` set named. list_all (\<lambda>t. line_ok (it_cpu t) (it_path t)) (fst (namedTuple res dev n named port))) \<longleftrightarrow>
      (\<forall>port \<in> fst ` set named. case map_of named port of None \<Rightarrow> True
         | Some e \<Rightarrow> entityHasPort res dev port \<and> line_ok (ie_cpu e) (ie_irq e))" for n named
    unfolding named [symmetric, of _ _ n] by blast
  show ?thesis
  proof (cases "dev_irq dev")
    case None
    then show ?thesis by (simp add: deviceTuples_def irq_ok_def Let_def)
  next
    case (Some r)
    have "(\<forall>x \<in> A. P x) \<longleftrightarrow> list_all P (map fst named)" if "A = fst ` set named" for A P and named :: "irq_entry strmap"
      using that by (simp add: list_all_iff)
    show ?thesis
    proof (cases "ir_int r")
      case None
      show ?thesis
      proof (cases "ir_named r")
        case (Some named)
        have "snd (deviceTuples res i dev) = [] \<longleftrightarrow> (\<forall>port \<in> fst ` set named. snd (namedTuple res dev (effName res i dev) named port) = [])"
          "list_all (\<lambda>t. line_ok (it_cpu t) (it_path t)) (fst (deviceTuples res i dev)) \<longleftrightarrow>
           (\<forall>port \<in> fst ` set named. list_all (\<lambda>t. line_ok (it_cpu t) (it_path t)) (fst (namedTuple res dev (effName res i dev) named port)))"
          using \<open>dev_irq dev = Some r\<close> None Some by (auto simp: deviceTuples_def Let_def list_all_iff)
        with all [of named "effName res i dev"] show ?thesis
          using \<open>dev_irq dev = Some r\<close> None Some by (simp add: irq_ok_def list_all_iff)
      qed (use Some None in \<open>simp add: deviceTuples_def irq_ok_def Let_def\<close>)
    qed (use Some in \<open>simp add: deviceTuples_def irq_ok_def Let_def\<close>)
  qed
qed

lemma tuples_none:
  "tuple_errs res d = [] \<and> list_all (\<lambda>t. line_ok (it_cpu t) (it_path t)) (irqTuples res d) \<longleftrightarrow>
     list_all (\<lambda>(i, dev). irq_ok res i dev) (enumerate 0 (d_devices d))"
proof -
  have "tuple_errs res d = [] \<and> list_all (\<lambda>t. line_ok (it_cpu t) (it_path t)) (irqTuples res d) \<longleftrightarrow>
      (\<forall>(i, dev) \<in> set (indexed d). snd (deviceTuples res i dev) = [] \<and>
         list_all (\<lambda>t. line_ok (it_cpu t) (it_path t)) (fst (deviceTuples res i dev)))"
    by (auto simp: tuple_errs_def irqTuples_def list_all_iff)
  then show ?thesis unfolding deviceTuples_ok by (simp add: indexed_def list_all_iff)
qed

text \<open>
  C16: when the interrupts of a board are accepted. \<open>buildIRQ\<close> reports no error exactly when every
  controller has a CPU that is not negative and, if the board has a controller at all, the CPUs with a
  controller are \<open>0\<close> to \<open>N - 1\<close>, every plain interrupt has an interrupt port, every named one names a
  port of its entity, and all of them have a CPU that is not negative and a line from 0 to 7. (A CPU
  without a controller is accepted, its ports are left open; without any controller the interrupts are
  not looked at.)
\<close>

theorem buildIRQ_no_error:
  "snd (buildIRQ res (Some d)) = [] \<longleftrightarrow>
     list_all (\<lambda>dev. is_aic dev \<longrightarrow> 0 \<le> cpuOf dev) (d_devices d) \<and>
     (controller_cpus d = {} \<or>
      controller_cpus d = {0 ..< int (card (controller_cpus d))} \<and>
      list_all (\<lambda>(i, dev). irq_ok res i dev) (enumerate 0 (d_devices d)))"
proof (cases "controller_cpus d = {}")
  case True
  then show ?thesis by (simp add: buildIRQ_def aicByCPU_empty aic_errs_none)
next
  case False
  then have "snd (buildIRQ res (Some d)) = [] \<longleftrightarrow> aic_errs res d = [] \<and> coverage_errs (aicCPUs res d) = [] \<and>
      tuple_errs res d = [] \<and>
      concat (map (group_errs (aicByCPU res d) (irqTuples res d)) (group_keys (irqTuples res d))) = []"
    by (simp add: buildIRQ_def aicByCPU_empty)
  then show ?thesis
    unfolding aic_errs_none coverage_none group_errs_none tuples_none [symmetric] using False by blast
qed

theorem buildIRQ_no_error_witness:
  "list_all (\<lambda>(i, dev). irq_ok irq_resolution i dev) (enumerate 0 (d_devices irq_design))"
proof -
  have "controller_cpus irq_design \<noteq> {}"
    using aicByCPU_empty [of irq_resolution irq_design] by (simp add: irq_design_facts)
  then show ?thesis using buildIRQ_no_error [of irq_resolution irq_design] irq_design_facts(4) by simp
qed

end
