(* ===== verification/Elab_Top.thy ===== *)
theory Elab_Top
  imports Elab_Cpu Elab_Device Elab_Port Elab_Databus Elab_Pins Elab_Categorize Elab_Addr Elab_Irq
begin

text \<open>
  Model of \<open>src/tools/socgen/elaborate/netlist.go\<close> (\<open>Elaborate\<close>) and \<open>pio.go\<close>: the whole elaboration,
  each pass on the result of the previous ones in the order of the code, and the joined errors.
  The fields that the last passes add to the Go struct \<open>Resolution\<close> are those of \<open>elaborated\<close>.
\<close>

section \<open>Parallel I/O bits\<close>

definition pio_bits :: "pio_entry \<Rightarrow> pio_bit list" where
  "pio_bits e = map (\<lambda>idx. \<lparr>pb_idx = idx, pb_const = pe_const e, pb_bit_name = pe_name e\<rparr>) [pe_lo e..pe_hi e]"

definition resolvePio :: "design option \<Rightarrow> pio_bit list" where
  "resolvePio dsg =
     (case dsg of
        None \<Rightarrow> []
      | Some d \<Rightarrow>
          (case d_system d of
             None \<Rightarrow> []
           | Some s \<Rightarrow> sort_key pb_idx (concat (map pio_bits (sys_pio s)))))"

section \<open>The passes over the devices and entities\<close>

datatype elab_error =
    EResolve resolve_error
  | ESignal signal_error
  | EAddr addr_error
  | EIrq irq_error
  | ERamMux int string cpu_error

definition overlay :: "go_value strmap \<Rightarrow> go_value strmap \<Rightarrow> go_value strmap" where
  "overlay over m = fold (\<lambda>(k, v) m. AList.update k v m) over m"

text \<open>The port specification of a device: its class's ports overlaid with its own.\<close>

definition device_spec :: "design \<Rightarrow> nat \<Rightarrow> resolved_device \<Rightarrow> go_value strmap" where
  "device_spec d i dev =
     overlay (if i < length (d_devices d) then dev_ports (d_devices d ! i) else [])
       (overlay (case map_of (d_device_classes d) (rd_class dev) of Some dc \<Rightarrow> dc_ports dc | None \<Rightarrow> []) [])"

definition elaborateDevice ::
    "design \<Rightarrow> library option \<Rightarrow> string strmap \<Rightarrow> resolution \<Rightarrow> nat \<Rightarrow> resolved_device \<Rightarrow> resolved_device" where
  "elaborateDevice d lo merge res i dev =
     (case map_of (res_classes res) (lc (rd_class dev)) of
        None \<Rightarrow> dev
      | Some rc \<Rightarrow>
          let env = genericEnv (rd_generics dev) (rc_entity rc);
              ports = buildPorts (rd_name dev) (rc_entity rc) (device_spec d i dev) env merge False lo
          in dev\<lparr>rd_ports := (if i < length (d_devices d)
                              then markNamedIRQPorts ports (dev_irq (d_devices d ! i)) else ports)\<rparr>)"

definition elaborateDevices ::
    "design \<Rightarrow> library option \<Rightarrow> string strmap \<Rightarrow> resolution \<Rightarrow> resolved_device list" where
  "elaborateDevices d lo merge res =
     map (\<lambda>(i, dev). elaborateDevice d lo merge res i dev)
       (zip [0..<length (res_devices res)] (res_devices res))"

definition named_config :: "string \<Rightarrow> configuration" where
  "named_config n = \<lparr>cf_name = n, cf_entity = [], cf_arch = []\<rparr>"

definition set_config :: "string \<Rightarrow> string \<Rightarrow> resolved_entity strmap \<Rightarrow> resolved_entity strmap" where
  "set_config key cfg m =
     (case map_of m key of
        None \<Rightarrow> m
      | Some re \<Rightarrow> AList.update key (re\<lparr>re_config := Some (named_config cfg)\<rparr>) m)"

text \<open>The CPU clause: the configurations of \<open>cpus\<close> and of the memory multiplexer.\<close>

definition cpuConfigs :: "cpu_spec option \<Rightarrow> resolved_entity strmap \<Rightarrow> resolved_entity strmap \<times> elab_error list" where
  "cpuConfigs co ents =
     (case co of
        None \<Rightarrow> (ents, [])
      | Some cpu \<Rightarrow>
          let ents1 = set_config ''cpus'' CPUsConfigName ents in
          if map_of ents1 ''ddr_ram_mux'' = None then (ents1, [])
          else (case RAMMuxConfig (cpu_cores cpu) (cpu_cache cpu) of
                  Inl e \<Rightarrow> (ents1, [ERamMux (cpu_cores cpu) (cpu_cache cpu) e])
                | Inr (cfg, fs) \<Rightarrow> (set_config ''ddr_ram_mux'' cfg ents1, [])))"

definition decodeMode :: "design \<Rightarrow> string" where
  "decodeMode d =
     (case d_system d of
        Some s \<Rightarrow> if sys_data_bus_decode s \<noteq> [] then sys_data_bus_decode s else ''simple''
      | None \<Rightarrow> ''simple'')"

definition dataBusModel :: "design \<Rightarrow> resolution \<Rightarrow> peripheral_bus_model option" where
  "dataBusModel d res =
     (if list_ex rd_data_bus (res_devices res)
      then Some (resolvePeripheralBuses (gatherPeripheralBuses res) (d_peripheral_buses d) (decodeMode d))
      else None)"

section \<open>Elaboration\<close>

record elaborated =
  el_res :: resolution
  el_target :: string
  el_locations :: "signal_locations option"
  el_library :: "library option"
  el_pio :: "pio_bit list"
  el_bus_word :: "string list"
  el_irq :: "irq_model option"

text \<open>The structural passes, up to the gathered net-list and the bus topology.\<close>

definition elaborateStructure ::
    "design \<Rightarrow> library option \<Rightarrow> resolution \<Rightarrow> resolution \<times> elab_error list" where
  "elaborateStructure d lo res0 =
     (let merge = reverseMerge (d_merge_signals d);
          (devs, e1) = classifyDataBus (elaborateDevices d lo merge res0);
          (tops, e2) = resolveEntities ''top'' (d_top_entities d) lo merge;
          (tops', e3) = cpuConfigs (d_cpu d) tops;
          (pads, e4) = resolveEntities ''padring'' (d_padring_entities d) lo merge;
          res1 = res0\<lparr>res_devices := devs, res_top_entities := tops', res_padring_entities := pads\<rparr>;
          res2 = res1\<lparr>res_signals := gatherSignals res1, res_data_bus := dataBusModel d res1\<rparr>
      in (res2, map EResolve e1 @ map EResolve e2 @ e3 @ map EResolve e4))"

text \<open>The net-list passes: pins, zero signals, checks, internal ports, pruning.\<close>

definition elaborateSignals :: "regex_engine \<Rightarrow> design \<Rightarrow> resolution \<Rightarrow> resolution \<times> elab_error list" where
  "elaborateSignals rx d res =
     (case resolvePins rx (Some d) (res_signals res) of
        (pins, pads, sigs) \<Rightarrow>
          (let sigs' = applyZeroSignals sigs (d_zero_signals d);
               res' = res\<lparr>res_pins := pins, res_entity_bound_pads := pads, res_signals := sigs'\<rparr>
           in (removeWriteOnlySignals (injectInternalBusPorts res') d,
               map EResolve (validatePinInvert (Some d)) @ map ESignal (validateSignals sigs'))))"

definition Elaborate ::
    "(int \<Rightarrow> int) \<Rightarrow> regex_engine \<Rightarrow> design option \<Rightarrow> library option \<Rightarrow> elaborated \<times> elab_error list" where
  "Elaborate lg rx dsg lo =
     (case Devices lg dsg lo of
        (res0, e0) \<Rightarrow>
          (case dsg of
             None \<Rightarrow> (\<lparr>el_res = res0, el_target = [], el_locations = None, el_library = None, el_pio = [],
                       el_bus_word = [], el_irq = None\<rparr>, map EResolve e0)
           | Some d \<Rightarrow>
               (let (res1, e1) = elaborateStructure d lo res0;
                    (res2, e2) = elaborateSignals rx d res1;
                    (sl, e3) = categorize res2;
                    e4 = validateAddresses (Some res2);
                    (irq, e5) = buildIRQ res2 (Some d)
                in (\<lparr>el_res = res2, el_target = d_target d, el_locations = Some sl, el_library = lo,
                     el_pio = resolvePio (Some d), el_bus_word = d_bus_word d, el_irq = irq\<rparr>,
                    map EResolve e0 @ e1 @ e2 @ map ESignal e3 @ map EAddr e4 @ map EIrq e5))))"

section \<open>What the passes keep of the devices\<close>

definition dev_id :: "resolved_device \<Rightarrow> string \<times> string \<times> u64 option" where
  "dev_id dev = (rd_name dev, rd_class dev, rd_base_addr dev)"

lemma dev_id_elaborateDevice: "dev_id (elaborateDevice d lo merge res i dev) = dev_id dev"
  by (simp add: elaborateDevice_def dev_id_def Let_def split: option.split)

lemma dev_id_classifyDevice: "dev_id (fst (classifyDevice dev)) = dev_id dev"
  by (simp add: classifyDevice_def dev_id_def Let_def)

lemma map_dev_id_elaborateDevices:
  "map dev_id (elaborateDevices d lo merge res) = map dev_id (res_devices res)"
proof -
  have "map dev_id (map (\<lambda>(i, dev). elaborateDevice d lo merge res i dev) (zip [m..<m + length ds] ds)) = map dev_id ds"
    for m and ds :: "resolved_device list"
  proof (induction ds arbitrary: m)
    case Nil
    then show ?case by simp
  next
    case (Cons dev ds)
    have "[m..<m + length (dev # ds)] = m # [Suc m..<Suc m + length ds]" by (simp add: upt_rec)
    with Cons [of "Suc m"] show ?case by (simp add: dev_id_elaborateDevice)
  qed
  from this [of 0 "res_devices res"] show ?thesis by (simp add: elaborateDevices_def)
qed

lemma map_dev_id_classify: "map dev_id (fst (classifyDataBus ds)) = map dev_id ds"
  by (simp add: classifyDataBus_def dev_id_classifyDevice)

lemma elaborateStructure_keeps:
  "map dev_id (res_devices (fst (elaborateStructure d lo res))) = map dev_id (res_devices res)"
  "res_classes (fst (elaborateStructure d lo res)) = res_classes res"
  using map_dev_id_classify [of "elaborateDevices d lo (reverseMerge (d_merge_signals d)) res"]
  by (simp_all add: elaborateStructure_def Let_def split_beta map_dev_id_elaborateDevices)

lemma removeWriteOnly_keeps:
  "map dev_id (res_devices (removeWriteOnlySignals res d)) = map dev_id (res_devices res)"
  "map rd_data_bus (res_devices (removeWriteOnlySignals res d)) = map rd_data_bus (res_devices res)"
  "res_classes (removeWriteOnlySignals res d) = res_classes res"
  by (simp_all add: removeWriteOnlySignals_def Let_def dev_id_def)

lemma inject_keeps:
  "res_devices (injectInternalBusPorts res) = res_devices res"
  "res_classes (injectInternalBusPorts res) = res_classes res"
  by (simp_all add: injectInternalBusPorts_def Let_def split: option.split)

lemma elaborateSignals_keeps:
  "map dev_id (res_devices (fst (elaborateSignals rx d res))) = map dev_id (res_devices res)"
  "map rd_data_bus (res_devices (fst (elaborateSignals rx d res))) = map rd_data_bus (res_devices res)"
  "res_classes (fst (elaborateSignals rx d res)) = res_classes res"
  by (simp_all add: elaborateSignals_def Let_def split_beta removeWriteOnly_keeps inject_keeps)

lemma Elaborate_keeps:
  "map dev_id (res_devices (el_res (fst (Elaborate lg rx (Some d) lo)))) = map dev_id (res_devices (fst (Devices lg (Some d) lo)))"
  "res_classes (el_res (fst (Elaborate lg rx (Some d) lo))) = res_classes (fst (Devices lg (Some d) lo))"
  by (simp_all add: Elaborate_def Let_def split_beta elaborateSignals_keeps elaborateStructure_keeps)

text \<open>The errors of the passes, as parts of the joined list.\<close>

lemma Elaborate_errors:
  "snd (Elaborate lg rx (Some d) lo) = [] \<longleftrightarrow>
     snd (Devices lg (Some d) lo) = [] \<and>
     (let res1 = elaborateStructure d lo (fst (Devices lg (Some d) lo));
          res2 = elaborateSignals rx d (fst res1)
      in snd res1 = [] \<and> snd res2 = [] \<and> snd (categorize (fst res2)) = [] \<and>
         validateAddresses (Some (fst res2)) = [] \<and> snd (buildIRQ (fst res2) (Some d)) = [])"
  by (simp add: Elaborate_def Let_def split_beta)

lemma Elaborate_res:
  "el_res (fst (Elaborate lg rx (Some d) lo)) =
     fst (elaborateSignals rx d (fst (elaborateStructure d lo (fst (Devices lg (Some d) lo)))))"
  by (simp add: Elaborate_def Let_def split_beta)

text \<open>Without an unknown class every device has a resolved class.\<close>

lemma resolveClasses_found:
  assumes "snd (resolveClasses lg d l devs seen acc) = []" "\<forall>k \<in> set seen. map_of acc k \<noteq> None"
  shows "(\<forall>dev \<in> set devs. map_of (fst (resolveClasses lg d l devs seen acc)) (lc (dev_class dev)) \<noteq> None) \<and>
    (\<forall>k. map_of acc k \<noteq> None \<longrightarrow> map_of (fst (resolveClasses lg d l devs seen acc)) k \<noteq> None)"
  using assms
proof (induction devs arbitrary: seen acc)
  case Nil
  then show ?case by simp
next
  case (Cons dev devs)
  let ?key = "lc (dev_class dev)"
  show ?case
  proof (cases "?key \<in> set seen")
    case True
    with Cons.prems have "snd (resolveClasses lg d l devs seen acc) = []" by simp
    from Cons.IH [OF this Cons.prems(2)] True Cons.prems(2) show ?thesis by simp
  next
    case False
    with Cons.prems obtain dc where dc: "findClass (d_device_classes d) (dev_class dev) = Some dc"
      by (cases "findClass (d_device_classes d) (dev_class dev)") (auto simp: Let_def split: prod.splits)
    obtain rc es where rc: "resolveClass lg (dev_class dev) dc (Some l) = (rc, es)" by (cases "resolveClass lg (dev_class dev) dc (Some l)")
    let ?acc = "AList.update ?key rc acc"
    have eq: "fst (resolveClasses lg d l (dev # devs) seen acc) = fst (resolveClasses lg d l devs (?key # seen) ?acc)"
      "snd (resolveClasses lg d l (dev # devs) seen acc) = es @ snd (resolveClasses lg d l devs (?key # seen) ?acc)"
      using False dc rc by (simp_all add: Let_def split_beta)
    have "snd (resolveClasses lg d l devs (?key # seen) ?acc) = []" using Cons.prems(1) eq(2) by simp
    moreover have "\<forall>k \<in> set (?key # seen). map_of ?acc k \<noteq> None" using Cons.prems(2) by simp
    ultimately have IH: "(\<forall>dev \<in> set devs. map_of (fst (resolveClasses lg d l devs (?key # seen) ?acc)) (lc (dev_class dev)) \<noteq> None) \<and>
        (\<forall>k. map_of ?acc k \<noteq> None \<longrightarrow> map_of (fst (resolveClasses lg d l devs (?key # seen) ?acc)) k \<noteq> None)"
      by (rule Cons.IH)
    have "map_of ?acc ?key \<noteq> None" "\<And>k. map_of acc k \<noteq> None \<Longrightarrow> map_of ?acc k \<noteq> None" by simp_all
    with IH show ?thesis unfolding eq(1) by simp
  qed
qed

lemma resolveDeviceList_ids:
  "map (\<lambda>rd. (rd_class rd, rd_base_addr rd)) (fst (resolveDeviceList cc classes devs used)) =
     map (\<lambda>dev. (dev_class dev, dev_base_addr dev)) devs"
  by (induction devs arbitrary: used) (simp_all add: resolveDevice_def Let_def split_beta)

lemma resolveDevices_ids:
  "map (\<lambda>rd. (rd_class rd, rd_base_addr rd)) (fst (resolveDevices d classes)) =
     map (\<lambda>dev. (dev_class dev, dev_base_addr dev)) (d_devices d)"
  by (simp add: resolveDevices_def Let_def split_beta resolveDeviceList_ids)

lemma Devices_ok:
  assumes "snd (Devices lg (Some d) (Some l)) = []"
  defines "res \<equiv> fst (Devices lg (Some d) (Some l))"
  shows "distinct (map rd_name (res_devices res))"
    and "map (\<lambda>rd. (rd_class rd, rd_base_addr rd)) (res_devices res) = map (\<lambda>dev. (dev_class dev, dev_base_addr dev)) (d_devices d)"
    and "\<forall>rd \<in> set (res_devices res). map_of (res_classes res) (lc (rd_class rd)) \<noteq> None"
proof -
  obtain classes es where cl: "resolveClasses lg d l (d_devices d) [] [] = (classes, es)"
    by (cases "resolveClasses lg d l (d_devices d) [] []")
  have parts: "res_devices res = fst (resolveDevices d classes)" "res_classes res = classes"
    "es = []" "snd (resolveDevices d classes) = []"
    using assms(1) cl by (simp_all add: res_def Devices_def split_beta)
  then show ids: "map (\<lambda>rd. (rd_class rd, rd_base_addr rd)) (res_devices res) =
      map (\<lambda>dev. (dev_class dev, dev_base_addr dev)) (d_devices d)"
    by (simp add: resolveDevices_ids)
  have "duplicate_errs (nameCounts (d_devices d)) = []"
    using parts(4) by (simp add: resolveDevices_def Let_def split_beta)
  then show "distinct (map rd_name (res_devices res))"
    unfolding parts(1) by (rule resolveDevices_names_distinct)
  have "map_of classes (lc (dev_class dev)) \<noteq> None" if "dev \<in> set (d_devices d)" for dev
    using resolveClasses_found [of lg d l "d_devices d" "[]" "[]"] that cl parts(3) by simp
  moreover have "\<exists>dev \<in> set (d_devices d). rd_class rd = dev_class dev" if "rd \<in> set (res_devices res)" for rd
  proof -
    have "rd_class rd \<in> set (map fst (map (\<lambda>rd. (rd_class rd, rd_base_addr rd)) (res_devices res)))"
      using that by force
    then show ?thesis unfolding ids by auto
  qed
  ultimately show "\<forall>rd \<in> set (res_devices res). map_of (res_classes res) (lc (rd_class rd)) \<noteq> None"
    unfolding parts(2) by metis
qed

section \<open>Properties\<close>

text \<open>
  The parallel I/O bits come in the order of their numbers, and each number has as many
  assignments as there are entries whose range holds it: exactly one when the ranges are disjoint,
  several, hence several drivers of the bit, when they overlap.
\<close>

theorem resolvePio_bits:
  "sorted (map pb_idx (resolvePio dsg)) \<and>
   length (filter (\<lambda>b. pb_idx b = i) (resolvePio dsg)) =
     length (filter (\<lambda>e. pe_lo e \<le> i \<and> i \<le> pe_hi e)
       (case dsg of None \<Rightarrow> [] | Some d \<Rightarrow> (case d_system d of None \<Rightarrow> [] | Some s \<Rightarrow> sys_pio s)))"
proof -
  have one: "length (filter (\<lambda>b. pb_idx b = i) (pio_bits e)) = (if pe_lo e \<le> i \<and> i \<le> pe_hi e then 1 else 0)" for e
  proof -
    have "length (filter (\<lambda>b. pb_idx b = i) (pio_bits e)) = length (filter (\<lambda>x. x = i) [pe_lo e..pe_hi e])"
      by (simp add: pio_bits_def filter_map comp_def)
    also have "\<dots> = card (set (filter (\<lambda>x. x = i) [pe_lo e..pe_hi e]))"
      by (rule distinct_card [symmetric]) simp
    also have "set (filter (\<lambda>x. x = i) [pe_lo e..pe_hi e]) = (if pe_lo e \<le> i \<and> i \<le> pe_hi e then {i} else {})" by auto
    finally show ?thesis by simp
  qed
  have all: "length (filter (\<lambda>b. pb_idx b = i) (concat (map pio_bits es))) =
      length (filter (\<lambda>e. pe_lo e \<le> i \<and> i \<le> pe_hi e) es)" for es
    by (induction es) (auto simp: one)
  have "mset (filter P (sort_key f xs)) = mset (filter P xs)" for P and f :: "pio_bit \<Rightarrow> int" and xs by simp
  then have "length (filter P (sort_key f xs)) = length (filter P xs)" for P and f :: "pio_bit \<Rightarrow> int" and xs
    by (metis size_mset)
  with all show ?thesis by (simp add: resolvePio_def split: option.split)
qed

end
