(* ===== verification/Emit_Decoder.thy ===== *)
theory Emit_Decoder
  imports Elab_Addr
begin

unbundle bit_operations_syntax

text \<open>
  Model of \<open>src/tools/socgen/emit/databus.go\<close>: the address decoder, the declarations and the
  statements of the peripheral data bus.

  A trie node's \<open>kids\<close> map is an association list; \<open>leaf\<close> is an option. A Go panic (the slice of
  \<open>devicePrefix\<close> out of range) and an endless recursion (\<open>buildIfs\<close> on a node without children)
  are both the value \<open>None\<close>: the function does not return a result.
\<close>

record bus_device =
  bd_name :: string
  bd_base :: u64
  bd_left :: int

section \<open>Address bits and device prefixes\<close>

definition bin32 :: "u64 \<Rightarrow> string" where
  "bin32 v = map (\<lambda>i. if v AND push_bit (31 - i) 1 \<noteq> 0 then CHR ''1'' else CHR ''0'') [0 ..< 32]"

definition devicePrefix :: "bus_device \<Rightarrow> bool \<Rightarrow> string option" where
  "devicePrefix d simple =
     (let n = 32 - bd_left d - 1
      in if 0 \<le> n \<and> n \<le> 32 then Some (take (nat n) (bin32 (bd_base d))) else None)"

section \<open>The radix trie\<close>

datatype trie = Trie (trie_kids: "(char \<times> trie) list") (trie_leaf: "bus_device option")

definition newTrie :: trie where
  "newTrie = Trie [] None"

fun trie_insert :: "trie \<Rightarrow> string \<Rightarrow> bus_device \<Rightarrow> trie" where
  "trie_insert (Trie kids lf) [] d = Trie kids (Some d)"
| "trie_insert (Trie kids lf) (k # ks) d =
     (let child = (case map_of kids k of Some c \<Rightarrow> c | None \<Rightarrow> newTrie)
      in Trie (AList.update k (trie_insert child ks d) kids) lf)"

definition trie_without :: "trie \<Rightarrow> char \<Rightarrow> trie" where
  "trie_without t k = Trie (filter (\<lambda>(kk, v). kk \<noteq> k) (trie_kids t)) None"

fun extractPrefix :: "trie \<Rightarrow> string \<times> trie" where
  "extractPrefix (Trie [(k, v)] None) = (case extractPrefix v of (p, t) \<Rightarrow> (k # p, t))"
| "extractPrefix t = ([], t)"

definition sortedKids :: "trie \<Rightarrow> char list" where
  "sortedKids t = sort (map fst (trie_kids t))"

section \<open>From the trie to VHDL statements\<close>

definition intLit :: "int \<Rightarrow> expr" where
  "intLit i = BasicLit K_INT (itoa i)"

definition addrIndex :: "int \<Rightarrow> expr" where
  "addrIndex i = Ident (''addr('' @ itoa i @ '')'')"

definition addrSlice :: "int \<Rightarrow> int \<Rightarrow> expr" where
  "addrSlice hi lo = Ident (''addr('' @ itoa hi @ '' downto '' @ itoa lo @ '')'')"

definition quote_char :: "string \<Rightarrow> string" where
  "quote_char s = CHR 0x27 # s @ [CHR 0x27]"

definition quote_str :: "string \<Rightarrow> string" where
  "quote_str s = CHR 0x22 # s @ [CHR 0x22]"

definition buildCond :: "int \<Rightarrow> string \<Rightarrow> expr" where
  "buildCond index expect =
     (if length expect = 1
      then BinaryExpr (addrIndex index) K_EQ (BasicLit K_CHARLIT (quote_char expect))
      else BinaryExpr (addrSlice index (index - int (length expect) + 1)) K_EQ
             (BasicLit K_STRINGLIT (quote_str expect)))"

text \<open>A read of a Go map of strings: the zero value, the empty string, when the key is absent.\<close>

definition lit_of :: "string strmap \<Rightarrow> string \<Rightarrow> string" where
  "lit_of lits n = (case map_of lits n of Some s \<Rightarrow> s | None \<Rightarrow> [])"

text \<open>\<open>2<<uint(lab)\<close>: a negative count converts to a huge unsigned one, and the shift gives 0.\<close>

definition shl2 :: "int \<Rightarrow> u64" where
  "shl2 lab = (if lab < 0 then 0 else push_bit (nat lab) 2)"

definition range_comment :: "bus_device \<Rightarrow> string" where
  "range_comment d = hex_pad8 (unat (bd_base d)) @ ''-'' @
     hex_pad8 (unat (bd_base d + shl2 (bd_left d) - 1))"

text \<open>
  \<open>buildIfs\<close> recurses on the collapsed subtries whatever they are, so on a node with no child it
  calls itself on an empty trie for ever; it is a partial function here.
\<close>

partial_function (option) buildIfs :: "nat \<Rightarrow> trie \<Rightarrow> string strmap \<Rightarrow> stmt list option" where
  [code]: "buildIfs offset t lits =
     (case trie_leaf t of
        Some d \<Rightarrow> Some [Comment (range_comment d), ReturnStmt [] (Some (Ident (lit_of lits (bd_name d))))]
      | None \<Rightarrow>
          (case extractPrefix (trie_without t (CHR ''1'')) of (leftPrefix, leftTrie) \<Rightarrow>
           (case extractPrefix (trie_without t (CHR ''0'')) of (rightPrefix, rightTrie) \<Rightarrow>
             Option.bind (buildIfs (offset + length leftPrefix) leftTrie lits) (\<lambda>leftStmts.
             Option.bind (buildIfs (offset + length rightPrefix) rightTrie lits) (\<lambda>rightStmts.
               (let index = 31 - int offset in
                Some [if leftPrefix = ''0'' \<and> rightPrefix = ''1''
                      then IfStmt [] (buildCond index leftPrefix) leftStmts [] rightStmts
                      else IfStmt [] (buildCond index leftPrefix) leftStmts
                             [ElsifClause (buildCond index rightPrefix) rightStmts] []]))))))"

section \<open>Prefix maps\<close>

function trimSuffix :: "trie \<Rightarrow> string \<Rightarrow> string \<Rightarrow> string strmap \<Rightarrow> string strmap" where
  "trimSuffix t fullPrefix pre out =
     (case trie_leaf t of
        Some d \<Rightarrow> AList.update (bd_name d) fullPrefix out
      | None \<Rightarrow>
          (case trie_kids t of
             [(k, v)] \<Rightarrow> trimSuffix v fullPrefix (pre @ [k]) out
           | _ \<Rightarrow>
               fold (\<lambda>k out. case map_of (trie_kids t) k of
                        None \<Rightarrow> out
                      | Some v \<Rightarrow> trimSuffix v (fullPrefix @ pre @ [k]) [] out)
                 (sortedKids t) out))"
  by pat_completeness auto

lemma size_trie_kid: "(k, v) \<in> set kids \<Longrightarrow> size v < size (Trie kids lf)"
  by (induction kids) auto

lemma size_trie_kids: "map_of (trie_kids t) k = Some v \<Longrightarrow> size v < size t"
proof (cases t)
  case (Trie kids lf)
  assume "map_of (trie_kids t) k = Some v"
  with Trie have "(k, v) \<in> set kids" by (auto dest: map_of_SomeD)
  with Trie show ?thesis using size_trie_kid by blast
qed

lemma size_trie_set: "(k, v) \<in> set (trie_kids t) \<Longrightarrow> size v < size t"
  by (cases t) (use size_trie_kid in auto)

termination trimSuffix
proof (relation "measure (\<lambda>(t, _). size t)", goal_cases)
  case 1
  then show ?case by simp
qed (auto intro: size_trie_set size_trie_kids simp del: map_of.simps)

declare trimSuffix.simps [simp del]

text \<open>
  Assignments to the map in device order; \<open>None\<close> when a prefix slice is out of range.
\<close>

fun exactPrefixes :: "bus_device list \<Rightarrow> bool \<Rightarrow> string strmap \<Rightarrow> string strmap option" where
  "exactPrefixes [] simple acc = Some acc"
| "exactPrefixes (d # ds) simple acc =
     (case devicePrefix d simple of
        None \<Rightarrow> None
      | Some p \<Rightarrow> exactPrefixes ds simple (AList.update (bd_name d) p acc))"

definition prefixTrie :: "string strmap \<Rightarrow> bus_device list \<Rightarrow> trie" where
  "prefixTrie pfxs devs =
     fold (\<lambda>d t. trie_insert t (lit_of pfxs (bd_name d)) d) devs newTrie"

definition devicePrefixes :: "bus_device list \<Rightarrow> bool \<Rightarrow> string strmap option" where
  "devicePrefixes devs simple =
     (case exactPrefixes devs simple [] of
        None \<Rightarrow> None
      | Some exact \<Rightarrow>
          if \<not> simple then Some exact
          else Some (trimSuffix (prefixTrie exact devs) [] [] []))"

section \<open>The decode function\<close>

text \<open>The statements that the prefixes give, for a non-empty list of devices.\<close>

definition decodeStmts :: "string strmap \<Rightarrow> bus_device list \<Rightarrow> string strmap \<Rightarrow> stmt list option" where
  "decodeStmts pfxs devs lits =
     (case extractPrefix (prefixTrie pfxs devs) of (pre, inner) \<Rightarrow>
        (case buildIfs (length pre) inner lits of
           None \<Rightarrow> None
         | Some ifs \<Rightarrow>
             Some (if length pre \<le> 4 then ifs
                   else [IfStmt [] (buildCond 27 (drop 4 pre)) ifs [] []])))"

definition decodeComments :: "stmt list" where
  "decodeComments =
     [Comment (''Assumes addr(31 downto 28) = x'' @ quote_str ''a'' @ ''.''),
      Comment ''Address decoding closer to CPU checks those bits.'']"

definition decodeParam :: interface_decl where
  "decodeParam = \<lparr>id_obj_class = [], id_names = [''addr''], id_mode = [],
     id_subtype_mark = ''std_logic_vector'',
     id_constraint = Some (ParenExpr (RangeE (intLit 31) K_DOWNTO (intLit 0))),
     id_default = None\<rparr>"

definition decodeBody :: "bus_device list \<Rightarrow> string strmap \<Rightarrow> bool \<Rightarrow> stmt list option" where
  "decodeBody devs lits simple =
     map_option (\<lambda>ss. ss @ [ReturnStmt [] (Some (Ident (lit_of lits ''none'')))])
       (if devs = [] then Some []
        else (case devicePrefixes devs simple of
                None \<Rightarrow> None
              | Some pfxs \<Rightarrow>
                  map_option (\<lambda>ss. decodeComments @ ss) (decodeStmts pfxs devs lits)))"

definition decodeFunction :: "bus_device list \<Rightarrow> string strmap \<Rightarrow> bool \<Rightarrow> decl option" where
  "decodeFunction devs lits simple =
     map_option (SubprogramBody False False False ''decode_address'' [decodeParam] ''device_t'' [])
       (decodeBody devs lits simple)"

section \<open>The data bus of a resolved design\<close>

definition devLit :: "string \<Rightarrow> string" where
  "devLit n = ''DEV_'' @ to_upper n"

definition bus_device_of :: "resolution \<Rightarrow> resolved_device \<Rightarrow> bus_device option" where
  "bus_device_of res dev =
     (if \<not> rd_data_bus dev then None
      else (case rd_base_addr dev of
              None \<Rightarrow> None
            | Some base \<Rightarrow>
                Some \<lparr>bd_name = rd_name dev, bd_base = base,
                  bd_left = (case class_of res dev of Some rc \<Rightarrow> rc_left_addr_bit rc | None \<Rightarrow> 0)\<rparr>))"

definition busDevicesOf :: "resolution \<Rightarrow> bus_device list" where
  "busDevicesOf res = sort_key bd_name (List.map_filter (bus_device_of res) (res_devices res))"

definition busLits :: "resolution \<Rightarrow> string strmap" where
  "busLits res = fold (\<lambda>d m. AList.update (bd_name d) (devLit (bd_name d)) m) (busDevicesOf res)
     [(''none'', ''NONE'')]"

definition we :: "expr \<Rightarrow> waveform_elem" where
  "we v = \<lparr>we_value = v, we_after = None\<rparr>"

definition concAssign :: "expr \<Rightarrow> expr \<Rightarrow> stmt" where
  "concAssign target v = ConcurrentSignalAssign [] target None [we v] []"

text \<open>The declarations; \<open>None\<close> when the decode function does not return.\<close>

definition databusDecls :: "resolution \<Rightarrow> decl list option" where
  "databusDecls res =
     (case res_data_bus res of
        None \<Rightarrow> Some []
      | Some db \<Rightarrow>
          let devs = busDevicesOf res; lits = busLits res;
              range_text = ''array (device_t'' @ [CHR 0x27] @ ''left to device_t'' @ [CHR 0x27] @ ''right) of ''
          in map_option (\<lambda>fn.
               [TypeDecl ''device_t'' (Some (EnumDef (''NONE'' # map (\<lambda>d. devLit (bd_name d)) devs))),
                SignalDecl [''active_dev''] ''device_t'' None None,
                TypeDecl ''data_bus_i_t'' (Some (ArrayDef (range_text @ ''cpu_data_i_t''))),
                TypeDecl ''data_bus_o_t'' (Some (ArrayDef (range_text @ ''cpu_data_o_t''))),
                SignalDecl [''devs_bus_i''] ''data_bus_i_t'' None None,
                SignalDecl [''devs_bus_o''] ''data_bus_o_t'' None None,
                fn])
              (decodeFunction devs lits (pbm_decode_mode db = ''simple'')))"

definition muxBusDecls :: "resolution \<Rightarrow> decl list" where
  "muxBusDecls res =
     (case res_data_bus res of
        None \<Rightarrow> []
      | Some db \<Rightarrow>
          concat (map (\<lambda>st.
            [SignalDecl [mx_out st @ ''_periph_dbus_i''] ''cpu_data_i_t'' None None,
             SignalDecl [mx_out st @ ''_periph_dbus_o''] ''cpu_data_o_t'' None None])
            (pbm_mux_stages db)))"

definition muxChainStmts :: "resolution \<Rightarrow> stmt list" where
  "muxChainStmts res =
     (case res_data_bus res of
        None \<Rightarrow> []
      | Some db \<Rightarrow>
          map (\<lambda>s. InstantiationStmt (mx_label s) K_ENTITY (''work.'' @ mx_entity s) [] []
            [AssocElement ''clk'' (Ident ''clk_sys''),
             AssocElement ''rst'' (Ident ''reset''),
             AssocElement ''m1_i'' (Ident (mx_in1 s @ ''_periph_dbus_i'')),
             AssocElement ''m1_o'' (Ident (mx_in1 s @ ''_periph_dbus_o'')),
             AssocElement ''m2_i'' (Ident (mx_in2 s @ ''_periph_dbus_i'')),
             AssocElement ''m2_o'' (Ident (mx_in2 s @ ''_periph_dbus_o'')),
             AssocElement ''slave_i'' (Ident (mx_out s @ ''_periph_dbus_i'')),
             AssocElement ''slave_o'' (Ident (mx_out s @ ''_periph_dbus_o''))] True)
            (pbm_mux_stages db))"

definition call1 :: "string \<Rightarrow> expr \<Rightarrow> expr" where
  "call1 f x = CallExpr (Ident f) [AssocElement [] x]"

definition databusStmts :: "resolution \<Rightarrow> stmt list" where
  "databusStmts res =
     (case res_data_bus res of
        None \<Rightarrow> []
      | Some db \<Rightarrow>
          let master = pbm_master_bus db;
              loops = (if pbm_disconnected db = [] then []
                 else Comment ''Disconnected peripheral buses'' #
                   map (\<lambda>bus. concAssign (Ident (bus @ ''_periph_dbus_i''))
                     (call1 ''loopback_bus'' (Ident (bus @ ''_periph_dbus_o'')))) (pbm_disconnected db))
          in loops @ muxChainStmts res @
             [Comment ''multiplex data bus to and from devices'',
              concAssign (Ident ''active_dev'')
                (call1 ''decode_address'' (Ident (master @ ''_periph_dbus_o.a''))),
              concAssign (Ident (master @ ''_periph_dbus_i''))
                (call1 ''devs_bus_i'' (Ident ''active_dev'')),
              GenerateStmt ''bus_split'' K_FOR ''dev''
                (Some (Ident (''device_t'' @ [CHR 0x27] @ ''left to device_t'' @ [CHR 0x27] @ ''right''))) None []
                [concAssign (call1 ''devs_bus_o'' (Ident ''dev''))
                   (CallExpr (Ident ''mask_data_o'')
                      [AssocElement [] (Ident (master @ ''_periph_dbus_o'')),
                       AssocElement [] (call1 ''to_bit''
                         (BinaryExpr (Ident ''dev'') K_EQ (Ident ''active_dev'')))])],
              concAssign (call1 ''devs_bus_i'' (Ident ''NONE''))
                (call1 ''loopback_bus'' (call1 ''devs_bus_o'' (Ident ''NONE'')))])"

end
