(* ===== verification/Emit_Decoder_Spec.thy ===== *)
theory Emit_Decoder_Spec
  imports Emit_Decoder
begin

text \<open>
  What the generated \<open>decode_address\<close> function means, and the trie lemmas its correctness rests
  on. The meaning is that of the VHDL statements the decoder emits: sequences of comments,
  \<open>if\<close>/\<open>elsif\<close>/\<open>else\<close> and \<open>return\<close>, whose conditions compare bits of the parameter \<open>addr\<close>. Any
  other statement, and a condition on anything but in-range bits of \<open>addr\<close>, is \<open>Stuck\<close>.

  An address is its string of 32 bits, most significant first, so bit \<open>i\<close> of \<open>addr(31 downto 0)\<close>
  is character \<open>31 - i\<close>.
\<close>

section \<open>Meaning of the emitted statements\<close>

datatype outcome = Returned string | Fallthrough | Stuck

definition name_index :: "string \<Rightarrow> nat option" where
  "name_index n = List.find (\<lambda>i. addrIndex (int i) = Ident n) [0 ..< 32]"

definition name_slice :: "string \<Rightarrow> (nat \<times> nat) option" where
  "name_slice n = List.find (\<lambda>(hi, lo). addrSlice (int hi) (int lo) = Ident n)
     (List.product [0 ..< 32] [0 ..< 32])"

fun cond_holds :: "string \<Rightarrow> expr \<Rightarrow> bool option" where
  "cond_holds w (BinaryExpr (Ident n) op (BasicLit k v)) =
     (if op \<noteq> K_EQ then None
      else if k = K_CHARLIT
      then (case name_index n of
              None \<Rightarrow> None
            | Some i \<Rightarrow> Some (v = quote_char [w ! (31 - i)]))
      else if k = K_STRINGLIT
      then (case name_slice n of
              None \<Rightarrow> None
            | Some (hi, lo) \<Rightarrow>
                Some (v = quote_str (map (\<lambda>i. w ! (31 - i)) (rev [lo ..< Suc hi]))))
      else None)"
| "cond_holds w e = None"

function (sequential) exec_stmts :: "string \<Rightarrow> stmt list \<Rightarrow> outcome"
  and exec_elsifs :: "string \<Rightarrow> elsif_clause list \<Rightarrow> stmt list \<Rightarrow> outcome" where
  "exec_stmts w [] = Fallthrough"
| "exec_stmts w (Comment c # ss) = exec_stmts w ss"
| "exec_stmts w (ReturnStmt l (Some (Ident r)) # ss) = Returned r"
| "exec_stmts w (IfStmt l c th els el # ss) =
     (case cond_holds w c of
        None \<Rightarrow> Stuck
      | Some b \<Rightarrow>
          (case (if b then exec_stmts w th else exec_elsifs w els el) of
             Fallthrough \<Rightarrow> exec_stmts w ss
           | Returned r \<Rightarrow> Returned r
           | Stuck \<Rightarrow> Stuck))"
| "exec_stmts w (s # ss) = Stuck"
| "exec_elsifs w [] el = exec_stmts w el"
| "exec_elsifs w (ElsifClause c ss # els) el =
     (case cond_holds w c of
        None \<Rightarrow> Stuck
      | Some b \<Rightarrow> if b then exec_stmts w ss else exec_elsifs w els el)"
  by pat_completeness auto
termination by size_change

lemma exec_stmts_append:
  "exec_stmts w (ss @ ts) =
     (case exec_stmts w ss of
        Fallthrough \<Rightarrow> exec_stmts w ts | Returned r \<Rightarrow> Returned r | Stuck \<Rightarrow> Stuck)"
proof (induction ss)
  case Nil
  then show ?case by simp
next
  case (Cons s ss)
  show ?case
  proof (cases s)
    case (IfStmt l c th els el)
    show ?thesis
    proof (cases "cond_holds w c")
      case None
      with IfStmt show ?thesis by simp
    next
      case (Some b)
      with IfStmt show ?thesis
        by (cases "if b then exec_stmts w th else exec_elsifs w els el") (simp_all add: Cons)
    qed
  next
    case (ReturnStmt l v)
    then show ?thesis
    proof (cases v)
      case (Some e)
      with ReturnStmt show ?thesis by (cases e) simp_all
    qed simp
  qed (simp_all add: Cons)
qed

section \<open>Conditions\<close>

definition binary :: "string \<Rightarrow> bool" where
  "binary w \<longleftrightarrow> set w \<subseteq> {CHR ''0'', CHR ''1''}"

lemma binary_simps [simp]:
  "binary []" "binary (c # w) \<longleftrightarrow> (c = CHR ''0'' \<or> c = CHR ''1'') \<and> binary w"
  "binary (v @ w) \<longleftrightarrow> binary v \<and> binary w"
  by (auto simp: binary_def)

lemma binary_prefix: "prefix p w \<Longrightarrow> binary w \<Longrightarrow> binary p"
  by (auto simp: binary_def prefix_def)

lemma binary_drop: "binary w \<Longrightarrow> binary (drop n w)"
  by (auto simp: binary_def dest: in_set_dropD)

lemma find_unique:
  assumes "x \<in> set xs" "P x" "\<And>y. y \<in> set xs \<Longrightarrow> P y \<Longrightarrow> y = x"
  shows "List.find P xs = Some x"
proof -
  obtain y where "List.find P xs = Some y"
    using assms(1,2) find_None_iff_ball [of P xs] by (cases "List.find P xs") blast+
  with find_SomeD [OF this] assms(3) show ?thesis by simp
qed

lemma itoa_of_nat: "itoa (int n) = nat_str n"
  by (simp add: itoa_def)

lemma digits_delim:
  assumes "nat_str m @ c # r = nat_str n @ c # s" "\<not> is_digit c"
  shows "m = n \<and> r = s"
proof -
  have "takeWhile is_digit (nat_str k @ c # r) = nat_str k" for k r
    using assms(2) nat_str_digits [of k]
    by (subst takeWhile_append2) (auto simp: list_all_iff)
  then have "nat_str m = nat_str n" using assms(1) by metis
  with assms show ?thesis by simp
qed

lemma name_index_addr:
  "i < 32 \<Longrightarrow> name_index (''addr('' @ itoa (int i) @ '')'') = Some i"
  unfolding name_index_def
  by (rule find_unique) (auto simp: addrIndex_def itoa_of_nat)

lemma name_slice_addr:
  assumes "hi < 32" "lo < 32"
  shows "name_slice (''addr('' @ itoa (int hi) @ '' downto '' @ itoa (int lo) @ '')'') = Some (hi, lo)"
  unfolding name_slice_def
proof (rule find_unique, goal_cases)
  case 1
  then show ?case using assms by simp
next
  case 2
  then show ?case by (simp add: addrSlice_def)
next
  case (3 y)
  obtain h l where y: "y = (h, l)" by (cases y)
  with 3 have "nat_str h @ CHR '' '' # ''downto '' @ nat_str l @ '')'' =
      nat_str hi @ CHR '' '' # ''downto '' @ nat_str lo @ '')''"
    by (simp add: addrSlice_def itoa_of_nat)
  then have "h = hi \<and> ''downto '' @ nat_str l @ '')'' = ''downto '' @ nat_str lo @ '')''"
    by (rule digits_delim) (simp add: is_digit_def char_code_def)
  with y show ?case by simp
qed

lemma slice_bits:
  assumes "hi < 32" "lo \<le> hi" "length w = 32"
  shows "map (\<lambda>i. w ! (31 - i)) (rev [lo ..< Suc hi]) = take (Suc hi - lo) (drop (31 - hi) w)"
  using assms
  by (intro nth_equalityI)
    (auto simp: rev_nth simp del: upt_Suc intro!: arg_cong [where f = "(!) w"])

lemma prefix_take_iff: "prefix p w \<longleftrightarrow> length p \<le> length w \<and> take (length p) w = p"
  by (auto simp: prefix_def) (metis append_take_drop_id)

lemma cond_holds_buildCond:
  assumes "length w = 32" "p \<noteq> []" "offset + length p \<le> 32"
  shows "cond_holds w (buildCond (31 - int offset) p) = Some (prefix p (drop offset w))"
proof (cases "length p = 1")
  case True
  then obtain c where p: "p = [c]" by (auto simp: length_Suc_conv)
  have i: "31 - int offset = int (31 - offset)" using assms p by simp
  have "name_index (''addr('' @ itoa (int (31 - offset)) @ '')'') = Some (31 - offset)"
    by (rule name_index_addr) simp
  moreover have "prefix [c] (drop offset w) \<longleftrightarrow> w ! offset = c"
    using assms p by (subst Cons_nth_drop_Suc [symmetric]) auto
  ultimately show ?thesis
    using assms p by (auto simp: buildCond_def addrIndex_def i quote_char_def simp del: of_nat_diff)
next
  case False
  let ?hi = "31 - offset" and ?lo = "32 - offset - length p"
  have i: "31 - int offset = int ?hi" "int ?hi - int (length p) + 1 = int ?lo"
    using assms by (auto simp: of_nat_diff neq_Nil_conv)
  have "name_slice (''addr('' @ itoa (int ?hi) @ '' downto '' @ itoa (int ?lo) @ '')'') = Some (?hi, ?lo)"
    using assms by (intro name_slice_addr) (auto simp: neq_Nil_conv)
  moreover have "map (\<lambda>i. w ! (31 - i)) (rev [?lo ..< Suc ?hi]) = take (length p) (drop offset w)"
  proof -
    have "1 \<le> length p" using assms by (cases p) auto
    then have "?lo \<le> ?hi" "Suc ?hi - ?lo = length p" "31 - ?hi = offset" using assms by simp_all
    with slice_bits [of ?hi ?lo w] assms show ?thesis by simp
  qed
  moreover have "prefix p (drop offset w) \<longleftrightarrow> p = take (length p) (drop offset w)"
    using assms by (auto simp: prefix_take_iff)
  ultimately show ?thesis
    using False by (simp add: buildCond_def addrSlice_def i quote_str_def del: of_nat_diff)
qed

end
