(* ===== verification/Emit_Decoder_Trie.thy ===== *)
theory Emit_Decoder_Trie
  imports Emit_Decoder_Spec
begin

text \<open>
  The trie of the address decoder: its well-formed shapes, the paths to its leaves, what
  \<open>insert\<close>, \<open>extractPrefix\<close> and \<open>without\<close> do to them, and the correctness of \<open>buildIfs\<close>: on a
  well-formed trie it returns, and the statements it returns select the leaf whose path
  begins the address.
\<close>

section \<open>Well-formed tries and their leaves\<close>

abbreviation bit_pair :: "char \<Rightarrow> char \<Rightarrow> bool" where
  "bit_pair c c' \<equiv> (c = CHR ''0'' \<and> c' = CHR ''1'') \<or> (c = CHR ''1'' \<and> c' = CHR ''0'')"

inductive wf_trie :: "trie \<Rightarrow> bool" where
  leaf: "wf_trie (Trie [] (Some d))"
| one: "c = CHR ''0'' \<or> c = CHR ''1'' \<Longrightarrow> wf_trie v \<Longrightarrow> wf_trie (Trie [(c, v)] None)"
| two: "bit_pair c c' \<Longrightarrow> wf_trie v \<Longrightarrow> wf_trie v' \<Longrightarrow> wf_trie (Trie [(c, v), (c', v')] None)"

inductive_simps wf_trie_simps: "wf_trie (Trie kids lf)"

definition lift_leaf :: "string \<Rightarrow> string \<times> bus_device \<Rightarrow> string \<times> bus_device" where
  "lift_leaf p = (\<lambda>(q, d). (p @ q, d))"

fun trie_leaves :: "trie \<Rightarrow> (string \<times> bus_device) list" where
  "trie_leaves (Trie kids lf) =
     (case lf of Some d \<Rightarrow> [([], d)] | None \<Rightarrow> []) @
     concat (map (\<lambda>(k, v). map (lift_leaf [k]) (trie_leaves v)) kids)"

abbreviation leaves :: "trie \<Rightarrow> (string \<times> bus_device) set" where
  "leaves t \<equiv> set (trie_leaves t)"

lemma lift_leaf_simps [simp]:
  "lift_leaf p (q, d) = (p @ q, d)" "lift_leaf [] = id"
  "lift_leaf p (lift_leaf q x) = lift_leaf (p @ q) x"
  by (auto simp: lift_leaf_def split_beta)

lemma case_lift_leaf [simp]: "case_prod P (lift_leaf p x) = case_prod (\<lambda>q. P (p @ q)) x"
  by (simp add: lift_leaf_def split_beta)

lemma lift_leaf_comp: "lift_leaf p ` lift_leaf q ` A = lift_leaf (p @ q) ` A"
  by (simp add: image_image)

lemma wf_trie_leaves: "wf_trie t \<Longrightarrow> leaves t \<noteq> {}"
  by (induction rule: wf_trie.induct) auto

section \<open>Insertion\<close>

lemma insert_chain:
  "binary p \<Longrightarrow> wf_trie (trie_insert newTrie p d) \<and> leaves (trie_insert newTrie p d) = {(p, d)}"
  by (induction p) (auto simp: newTrie_def wf_trie_simps)

text \<open>
  The path may be inserted when no path of the trie begins it and it begins none.
\<close>

definition fits :: "string \<Rightarrow> (string \<times> bus_device) set \<Rightarrow> bool" where
  "fits p L \<longleftrightarrow> (\<forall>(q, d) \<in> L. \<not> prefix p q \<and> \<not> prefix q p)"

lemma fits_simps [simp]:
  "fits (k # ks) (lift_leaf [k] ` L) \<longleftrightarrow> fits ks L"
  "fits p (L \<union> M) \<longleftrightarrow> fits p L \<and> fits p M"
  by (auto simp: fits_def lift_leaf_def split_beta)

lemma not_fits_Nil: "L \<noteq> {} \<Longrightarrow> \<not> fits [] L"
  by (auto simp: fits_def)

lemma trie_insert_leaves:
  assumes "wf_trie t" "binary p" "fits p (leaves t)"
  shows "wf_trie (trie_insert t p d) \<and> leaves (trie_insert t p d) = insert (p, d) (leaves t)"
  using assms
proof (induction arbitrary: p rule: wf_trie.induct)
  case (leaf d')
  then show ?case by (auto simp: fits_def)
next
  case (one c v)
  then have "p \<noteq> []" using not_fits_Nil wf_trie_leaves [OF wf_trie.one [OF one.hyps]] by blast
  then obtain k ks where p: "p = k # ks" by (cases p) auto
  show ?case
  proof (cases "k = c")
    case True
    then have "fits ks (leaves v)" using one.prems p by auto
    with one p True show ?thesis by (auto simp: wf_trie_simps)
  next
    case False
    with one p insert_chain [of ks d] show ?thesis
      by (auto simp: wf_trie_simps)
  qed
next
  case (two c c' v v')
  then have "p \<noteq> []" using not_fits_Nil wf_trie_leaves [OF wf_trie.two [OF two.hyps]] by blast
  then obtain k ks where p: "p = k # ks" by (cases p) auto
  show ?case
  proof (cases "k = c")
    case True
    then have "fits ks (leaves v)" using two.prems p by auto
    with two p True show ?thesis by (auto simp: wf_trie_simps)
  next
    case False
    then have c': "k = c'" using two p by auto
    then have "fits ks (leaves v')" using two.prems p by auto
    with two p c' False show ?thesis by (auto simp: wf_trie_simps)
  qed
qed

text \<open>A map of prefixes none of which begins another gives a well-formed trie.\<close>

definition prefix_free :: "(string \<times> bus_device) set \<Rightarrow> bool" where
  "prefix_free L \<longleftrightarrow> (\<forall>(p, d) \<in> L. \<forall>(q, e) \<in> L. (p, d) \<noteq> (q, e) \<longrightarrow> \<not> prefix p q)"

definition coded :: "string strmap \<Rightarrow> bus_device list \<Rightarrow> (string \<times> bus_device) list" where
  "coded pfxs devs = map (\<lambda>d. (lit_of pfxs (bd_name d), d)) devs"

lemma prefixTrie_leaves:
  assumes "distinct devs" "prefix_free (set (coded pfxs devs))"
    "\<forall>(p, d) \<in> set (coded pfxs devs). binary p" "devs \<noteq> []"
  shows "wf_trie (prefixTrie pfxs devs) \<and> leaves (prefixTrie pfxs devs) = set (coded pfxs devs)"
  using assms
proof (induction devs rule: rev_induct)
  case Nil
  then show ?case by simp
next
  case (snoc d devs)
  let ?p = "lit_of pfxs (bd_name d)"
  have step: "prefixTrie pfxs (devs @ [d]) = trie_insert (prefixTrie pfxs devs) ?p d"
    by (simp add: prefixTrie_def)
  have bin: "binary ?p" using snoc.prems by (simp add: coded_def)
  show ?case
  proof (cases "devs = []")
    case True
    with insert_chain [OF bin] show ?thesis by (simp add: prefixTrie_def coded_def)
  next
    case False
    have "prefix_free (set (coded pfxs devs))"
      using snoc.prems by (auto simp: prefix_free_def coded_def)
    with snoc False have IH: "wf_trie (prefixTrie pfxs devs)"
      "leaves (prefixTrie pfxs devs) = set (coded pfxs devs)" by (auto simp: coded_def)
    have "fits ?p (set (coded pfxs devs))"
      using snoc.prems by (auto simp: prefix_free_def coded_def fits_def)
    with trie_insert_leaves [OF IH(1) bin, of d] IH(2) step show ?thesis
      by (simp add: coded_def)
  qed
qed

section \<open>Collapsing single-child chains\<close>

abbreviation branching :: "trie \<Rightarrow> bool" where
  "branching t \<equiv> trie_leaf t \<noteq> None \<or> length (trie_kids t) = 2"

lemma extractPrefix_leaves:
  assumes "wf_trie t" "extractPrefix t = (p, u)"
  shows "wf_trie u \<and> branching u \<and> leaves t = lift_leaf p ` leaves u \<and> size u \<le> size t \<and> binary p"
  using assms
proof (induction arbitrary: p rule: wf_trie.induct)
  case (one c v)
  then obtain q where q: "extractPrefix v = (q, u)" "p = c # q"
    by (auto split: prod.splits)
  with one have "leaves v = lift_leaf q ` leaves u" "wf_trie u" "branching u"
    "size u \<le> size v" "binary q" by blast+
  with q one.hyps show ?case by (auto simp: image_image)
qed (auto simp: wf_trie_simps)

text \<open>A branching node that is no leaf splits into the subtries of \<open>'0'\<close> and \<open>'1'\<close>.\<close>

lemma branch_split:
  assumes "wf_trie t" "branching t" "trie_leaf t = None"
  obtains l r where "wf_trie l" "wf_trie r"
    "trie_without t (CHR ''1'') = Trie [(CHR ''0'', l)] None"
    "trie_without t (CHR ''0'') = Trie [(CHR ''1'', r)] None"
    "leaves t = lift_leaf ''0'' ` leaves l \<union> lift_leaf ''1'' ` leaves r"
    "size l < size t" "size r < size t"
  using assms
  by (cases rule: wf_trie.cases) (auto simp: trie_without_def Un_commute)

section \<open>What \<open>buildIfs\<close> emits\<close>

text \<open>
  The decision a set of prefixes stands for: return the literal of the device whose prefix
  begins the address, and fall through when there is none.
\<close>

definition decides :: "string strmap \<Rightarrow> (string \<times> bus_device) set \<Rightarrow> string \<Rightarrow> outcome \<Rightarrow> bool" where
  "decides lits L w r \<longleftrightarrow>
     (\<forall>(p, d) \<in> L. prefix p w \<longrightarrow> r = Returned (lit_of lits (bd_name d))) \<and>
     ((\<forall>(p, d) \<in> L. \<not> prefix p w) \<longrightarrow> r = Fallthrough)"

definition depth_le :: "nat \<Rightarrow> (string \<times> bus_device) set \<Rightarrow> bool" where
  "depth_le n L \<longleftrightarrow> (\<forall>(p, d) \<in> L. length p \<le> n)"

definition addr_bits :: "string \<Rightarrow> bool" where
  "addr_bits w \<longleftrightarrow> length w = 32 \<and> binary w"

lemma depth_le_Un: "depth_le n (L \<union> M) \<longleftrightarrow> depth_le n L \<and> depth_le n M"
  by (auto simp: depth_le_def)

lemma depth_le_lift:
  assumes "depth_le (32 - offset) (lift_leaf p ` L)" "L \<noteq> {}" "offset \<le> 32"
  shows "offset + length p \<le> 32 \<and> depth_le (32 - (offset + length p)) L"
proof -
  have le: "offset + length p + length q \<le> 32" if "(q, d) \<in> L" for q d
  proof -
    have "length (p @ q) \<le> 32 - offset"
      using assms(1) that unfolding depth_le_def by fastforce
    then show ?thesis using assms(3) by simp
  qed
  obtain q d where "(q, d) \<in> L" using assms(2) by auto
  from le [OF this] have "offset + length p \<le> 32" by simp
  moreover have "depth_le (32 - (offset + length p)) L"
    unfolding depth_le_def
  proof (clarify)
    fix q d assume "(q, d) \<in> L"
    from le [OF this] show "length q \<le> 32 - (offset + length p)" by simp
  qed
  ultimately show ?thesis by blast
qed

lemma decides_lift:
  "decides lits (lift_leaf p ` L) w r \<longleftrightarrow>
     (if prefix p w then decides lits L (drop (length p) w) r else r = Fallthrough)"
proof -
  have "prefix (p @ q) w \<longleftrightarrow> prefix p w \<and> prefix q (drop (length p) w)" for q
    by (auto simp: prefix_def)
  then show ?thesis by (auto simp: decides_def)
qed

lemma decides_Un:
  assumes "\<forall>(p, d) \<in> M. \<not> prefix p w"
  shows "decides lits (L \<union> M) w r \<longleftrightarrow> decides lits L w r"
  using assms by (auto simp: decides_def)

text \<open>The two subtries of a branch, each behind its collapsed prefix.\<close>

lemma decides_branch:
  assumes "prefix ''0'' lp" "prefix ''1'' rp"
    "L = lift_leaf lp ` L0 \<union> lift_leaf rp ` R0"
  shows "decides lits L w r \<longleftrightarrow>
    (if prefix lp w then decides lits L0 (drop (length lp) w) r
     else if prefix rp w then decides lits R0 (drop (length rp) w) r
     else r = Fallthrough)"
proof -
  have "\<not> (prefix lp w \<and> prefix rp w)" using assms(1,2) by (auto simp: prefix_def)
  moreover have "decides lits L w r \<longleftrightarrow> decides lits (lift_leaf lp ` L0) w r"
    if "\<not> prefix rp w"
    unfolding assms(3) using that by (intro decides_Un) (auto dest: append_prefixD)
  moreover have "decides lits L w r \<longleftrightarrow> decides lits (lift_leaf rp ` R0) w r"
    if "\<not> prefix lp w"
    unfolding assms(3) Un_commute [of "lift_leaf lp ` L0"]
    using that by (intro decides_Un) (auto dest: append_prefixD)
  ultimately show ?thesis by (auto simp: decides_lift)
qed

text \<open>The statement for one branch.\<close>

definition branch_stmt :: "nat \<Rightarrow> string \<Rightarrow> string \<Rightarrow> stmt list \<Rightarrow> stmt list \<Rightarrow> stmt" where
  "branch_stmt offset lp rp ls rs =
     (if lp = ''0'' \<and> rp = ''1''
      then IfStmt [] (buildCond (31 - int offset) lp) ls [] rs
      else IfStmt [] (buildCond (31 - int offset) lp) ls
             [ElsifClause (buildCond (31 - int offset) rp) rs] [])"

lemma exec_branch_stmt:
  assumes "addr_bits w" "prefix ''0'' lp" "prefix ''1'' rp"
    "offset + length lp \<le> 32" "offset + length rp \<le> 32"
  shows "exec_stmts w [branch_stmt offset lp rp ls rs] =
    (if prefix lp (drop offset w) then exec_stmts w ls
     else if prefix rp (drop offset w) then exec_stmts w rs else Fallthrough)"
proof -
  have ne: "lp \<noteq> []" "rp \<noteq> []" using assms by auto
  have len: "length w = 32" "binary (drop offset w)"
    using assms(1) by (auto simp: addr_bits_def binary_drop)
  note holds = cond_holds_buildCond [OF len(1) ne(1) assms(4)]
    cond_holds_buildCond [OF len(1) ne(2) assms(5)]
  have either: "prefix ''1'' (drop offset w)" if "\<not> prefix ''0'' (drop offset w)"
  proof -
    have "1 \<le> length lp" using ne by (cases lp) auto
    then have "offset < length w" using len assms(4) by linarith
    then have "drop offset w \<noteq> []" by simp
    then obtain c v where "drop offset w = c # v" by (cases "drop offset w") auto
    with len that show ?thesis by auto
  qed
  have id: "(case r of Returned x \<Rightarrow> Returned x | Fallthrough \<Rightarrow> exec_stmts w [] | Stuck \<Rightarrow> Stuck) = r"
    for r by (cases r) auto
  show ?thesis
  proof (cases "lp = ''0'' \<and> rp = ''1''")
    case True
    then show ?thesis using holds either by (auto simp: branch_stmt_def id)
  next
    case False
    then show ?thesis using holds by (auto simp: branch_stmt_def id)
  qed
qed

lemma buildIfs_leaf:
  "trie_leaf t = Some d \<Longrightarrow> buildIfs offset t lits =
     Some [Comment (range_comment d), ReturnStmt [] (Some (Ident (lit_of lits (bd_name d))))]"
  by (subst buildIfs.simps) simp

lemma buildIfs_branch:
  assumes "trie_leaf t = None" "extractPrefix (trie_without t (CHR ''1'')) = (lp, l)"
    "extractPrefix (trie_without t (CHR ''0'')) = (rp, r)"
    "buildIfs (offset + length lp) l lits = Some ls"
    "buildIfs (offset + length rp) r lits = Some rs"
  shows "buildIfs offset t lits = Some [branch_stmt offset lp rp ls rs]"
  using assms by (subst buildIfs.simps) (simp add: branch_stmt_def Let_def)

lemma buildIfs_correct:
  assumes "wf_trie t" "branching t" "depth_le (32 - offset) (leaves t)" "offset \<le> 32"
  shows "\<exists>ss. buildIfs offset t lits = Some ss \<and>
    (\<forall>w. addr_bits w \<longrightarrow> decides lits (leaves t) (drop offset w) (exec_stmts w ss))"
  using assms
proof (induction "size t" arbitrary: t offset rule: less_induct)
  case less
  show ?case
  proof (cases "trie_leaf t")
    case (Some d)
    with less.prems(1) have "leaves t = {([], d)}" by (cases rule: wf_trie.cases) auto
    with buildIfs_leaf [OF Some] show ?thesis by (simp add: decides_def)
  next
    case None
    from branch_split [OF less.prems(1,2) None] obtain l r where lr: "wf_trie l" "wf_trie r"
      "trie_without t (CHR ''1'') = Trie [(CHR ''0'', l)] None"
      "trie_without t (CHR ''0'') = Trie [(CHR ''1'', r)] None"
      "leaves t = lift_leaf ''0'' ` leaves l \<union> lift_leaf ''1'' ` leaves r"
      "size l < size t" "size r < size t" .
    obtain lp l' rp r' where ex: "extractPrefix l = (lp, l')" "extractPrefix r = (rp, r')"
      by (meson surj_pair)
    note L = extractPrefix_leaves [OF lr(1) ex(1)] and R = extractPrefix_leaves [OF lr(2) ex(2)]
    let ?lp = "CHR ''0'' # lp" and ?rp = "CHR ''1'' # rp"
    have split: "leaves t = lift_leaf ?lp ` leaves l' \<union> lift_leaf ?rp ` leaves r'"
      using L R lr(5) by (simp add: lift_leaf_comp)
    have "leaves l' \<noteq> {}" "leaves r' \<noteq> {}" using L R wf_trie_leaves by blast+
    with less.prems(3,4) have
      dep: "depth_le (32 - (offset + length ?lp)) (leaves l')"
        "depth_le (32 - (offset + length ?rp)) (leaves r')" and
      bnd: "offset + length ?lp \<le> 32" "offset + length ?rp \<le> 32"
      unfolding split depth_le_Un using depth_le_lift by blast+
    have sz: "size l' < size t" "size r' < size t" using L R lr(6,7) by linarith+
    have IHl: "\<exists>ss. buildIfs (offset + length ?lp) l' lits = Some ss \<and> (\<forall>w. addr_bits w \<longrightarrow>
        decides lits (leaves l') (drop (offset + length ?lp) w) (exec_stmts w ss))"
      by (rule less.hyps [OF sz(1)]) (use L dep(1) bnd(1) in blast)+
    have IHr: "\<exists>ss. buildIfs (offset + length ?rp) r' lits = Some ss \<and> (\<forall>w. addr_bits w \<longrightarrow>
        decides lits (leaves r') (drop (offset + length ?rp) w) (exec_stmts w ss))"
      by (rule less.hyps [OF sz(2)]) (use R dep(2) bnd(2) in blast)+
    from IHl obtain ls where ls: "buildIfs (offset + length ?lp) l' lits = Some ls"
      "\<And>w. addr_bits w \<Longrightarrow> decides lits (leaves l') (drop (offset + length ?lp) w) (exec_stmts w ls)"
      by blast
    from IHr obtain rs where rs: "buildIfs (offset + length ?rp) r' lits = Some rs"
      "\<And>w. addr_bits w \<Longrightarrow> decides lits (leaves r') (drop (offset + length ?rp) w) (exec_stmts w rs)"
      by blast
    have "buildIfs offset t lits = Some [branch_stmt offset ?lp ?rp ls rs]"
      using ls(1) rs(1) None lr(3,4) ex by (intro buildIfs_branch) auto
    moreover have "decides lits (leaves t) (drop offset w)
        (exec_stmts w [branch_stmt offset ?lp ?rp ls rs])" if "addr_bits w" for w
      using ls(2) [OF that] rs(2) [OF that]
      by (simp add: decides_branch [OF _ _ split] exec_branch_stmt [OF that _ _ bnd] add.commute)
    ultimately show ?thesis by blast
  qed
qed

end
