(* ===== verification/Emit_Decoder_Correct.thy ===== *)
theory Emit_Decoder_Correct
  imports Emit_Decoder_Trie
begin

unbundle bit_operations_syntax

text \<open>
  Correctness of the address decoder. The interface between the prefix maps and the decoder is
  the locale \<open>prefix_scheme\<close>: a scheme gives each device a prefix that begins its exact device
  prefix, such that no prefix begins another. Inside it the generated statements are shown to
  take the decision the prefixes stand for; both modes of \<open>devicePrefixes\<close> interpret it.
\<close>

section \<open>The interface of a prefix scheme\<close>

definition exactPrefix :: "bus_device \<Rightarrow> string" where
  "exactPrefix d = take (nat (31 - bd_left d)) (bin32 (bd_base d))"

abbreviation region_bits :: string where
  "region_bits \<equiv> ''1010''"

definition separable :: "bus_device list \<Rightarrow> bool" where
  "separable devs \<longleftrightarrow> devs \<noteq> [] \<and> distinct (map bd_name devs) \<and>
     (\<forall>d \<in> set devs. - 1 \<le> bd_left d \<and> bd_left d \<le> 31 \<and> take 4 (bin32 (bd_base d)) = region_bits) \<and>
     prefix_free ((\<lambda>d. (exactPrefix d, d)) ` set devs)"

lemma bin32_bits [simp]: "addr_bits (bin32 v)"
  by (auto simp: addr_bits_def bin32_def binary_def)

lemma lift_leafI: "(q, d) \<in> L \<Longrightarrow> (p @ q, d) \<in> lift_leaf p ` L"
  by (auto simp: lift_leaf_def intro: rev_image_eqI)

lemma length_bin32 [simp]: "length (bin32 v) = 32"
  by (simp add: bin32_def)

lemma separable_distinct: "separable devs \<Longrightarrow> distinct devs"
  by (auto simp: separable_def distinct_map)

lemma prefixes_comparable: "prefix p w \<Longrightarrow> prefix q w \<Longrightarrow> length p \<le> length q \<Longrightarrow> prefix p q"
  by (rule prefix_length_prefix)

locale prefix_scheme =
  fixes scheme :: "bus_device list \<Rightarrow> string strmap option"
  assumes total: "separable devs \<Longrightarrow> \<exists>m. scheme devs = Some m"
    and shortens: "separable devs \<Longrightarrow> scheme devs = Some m \<Longrightarrow> d \<in> set devs \<Longrightarrow>
      prefix (lit_of m (bd_name d)) (exactPrefix d)"
    and free: "separable devs \<Longrightarrow> scheme devs = Some m \<Longrightarrow> prefix_free (set (coded m devs))"
begin

lemma code_prefix:
  assumes "separable devs" "scheme devs = Some m" "(p, d) \<in> set (coded m devs)"
  shows "prefix p (bin32 (bd_base d)) \<and> binary p \<and> length p \<le> 32 \<and> d \<in> set devs"
proof -
  have d: "d \<in> set devs" "p = lit_of m (bd_name d)" using assms(3) by (auto simp: coded_def)
  have "prefix p (exactPrefix d)" using shortens [OF assms(1,2) d(1)] d(2) by simp
  moreover have "prefix (exactPrefix d) (bin32 (bd_base d))"
    by (simp add: exactPrefix_def take_is_prefix)
  ultimately have "prefix p (bin32 (bd_base d))" by (rule prefix_order.trans)
  moreover from this have "binary p" "length p \<le> 32"
    using binary_prefix bin32_bits [of "bd_base d"] prefix_length_le [of p "bin32 (bd_base d)"]
    by (auto simp: addr_bits_def)
  ultimately show ?thesis using d by blast
qed

text \<open>The decoder returns a result, and its statements take the decision of the prefixes.\<close>

lemma decodeStmts_correct:
  assumes sep: "separable devs" and m: "scheme devs = Some m"
  shows "\<exists>ss. decodeStmts m devs lits = Some ss \<and>
    (\<forall>w. addr_bits w \<longrightarrow> take 4 w = region_bits \<longrightarrow>
       decides lits (set (coded m devs)) w (exec_stmts w ss))"
proof -
  let ?L = "set (coded m devs)"
  note cp = code_prefix [OF sep m]
  have "wf_trie (prefixTrie m devs) \<and> leaves (prefixTrie m devs) = ?L"
  proof (rule prefixTrie_leaves)
    show "distinct devs" using sep by (rule separable_distinct)
    show "prefix_free ?L" using free [OF sep m] .
    show "\<forall>(p, d) \<in> ?L. binary p"
    proof clarify
      fix p d assume "(p, d) \<in> ?L"
      from cp [OF this] show "binary p" by blast
    qed
    show "devs \<noteq> []" using sep by (simp add: separable_def)
  qed
  then have wf: "wf_trie (prefixTrie m devs)" and L: "leaves (prefixTrie m devs) = ?L" by auto
  obtain p u where pu: "extractPrefix (prefixTrie m devs) = (p, u)" by (meson surj_pair)
  note u = extractPrefix_leaves [OF wf pu]
  have Lu: "?L = lift_leaf p ` leaves u" using u L by simp
  have ne: "leaves u \<noteq> {}" using u wf_trie_leaves by blast
  have "depth_le 32 ?L" using cp by (auto simp: depth_le_def)
  with depth_le_lift [of 0 p "leaves u"] Lu ne
  have dep: "length p \<le> 32" "depth_le (32 - length p) (leaves u)" by auto
  obtain q d where "(q, d) \<in> leaves u" using ne by (metis ex_in_conv surj_pair)
  then have qd: "(p @ q, d) \<in> ?L" unfolding Lu by (rule lift_leafI)
  have pre: "prefix p (bin32 (bd_base d))"
    using cp [OF qd] append_prefixD by blast
  have reg: "take 4 (bin32 (bd_base d)) = region_bits"
    using cp [OF qd] sep by (auto simp: separable_def)
  obtain ifs where ifs: "buildIfs (length p) u lits = Some ifs"
    "\<And>w. addr_bits w \<Longrightarrow> decides lits (leaves u) (drop (length p) w) (exec_stmts w ifs)"
    using buildIfs_correct [of u "length p" lits] u dep by blast
  show ?thesis
  proof (cases "length p \<le> 4")
    case True
    have "prefix p w" if "addr_bits w" "take 4 w = region_bits" for w
    proof -
      have "prefix p (take 4 (bin32 (bd_base d)))"
        using pre True by (metis prefix_length_prefix take_is_prefix length_bin32 length_take min.absorb2
            numeral_le_iff semiring_norm(68) semiring_norm(71) min_def)
      then have "prefix p (take 4 w)" using reg that by simp
      then show ?thesis using prefix_order.trans take_is_prefix by blast
    qed
    then show ?thesis
      using ifs True pu by (auto simp: decodeStmts_def Lu decides_lift)
  next
    case False
    have p4: "take 4 p = region_bits"
      using pre reg False by (auto simp: prefix_def)
    have iff: "prefix (drop 4 p) (drop 4 w) \<longleftrightarrow> prefix p w" if "take 4 w = region_bits" for w
      using p4 that append_take_drop_id [of 4 p] append_take_drop_id [of 4 w]
      by (metis same_prefix_prefix)
    have "cond_holds w (buildCond 27 (drop 4 p)) = Some (prefix p w)"
      if "addr_bits w" "take 4 w = region_bits" for w
      using cond_holds_buildCond [of w "drop 4 p" 4] that False dep iff [of w]
      by (simp add: addr_bits_def)
    moreover have "(case r of Returned x \<Rightarrow> Returned x | Fallthrough \<Rightarrow> exec_stmts w [] | Stuck \<Rightarrow> Stuck) = r"
      for r w by (cases r) auto
    ultimately show ?thesis
      using ifs False pu by (auto simp: decodeStmts_def Lu decides_lift)
  qed
qed

end

section \<open>Exact prefixes\<close>

lemma devicePrefix_exact:
  "- 1 \<le> bd_left d \<Longrightarrow> bd_left d \<le> 31 \<Longrightarrow> devicePrefix d s = Some (exactPrefix d)"
  by (simp add: devicePrefix_def exactPrefix_def Let_def algebra_simps)

lemma exactPrefixes_total:
  assumes "\<forall>d \<in> set devs. - 1 \<le> bd_left d \<and> bd_left d \<le> 31"
  shows "\<exists>m. exactPrefixes devs s acc = Some m"
  using assms by (induction devs arbitrary: acc) (auto simp: devicePrefix_exact)

lemma exactPrefixes_lookup:
  assumes "\<forall>d \<in> set devs. - 1 \<le> bd_left d \<and> bd_left d \<le> 31" "distinct (map bd_name devs)"
    "exactPrefixes devs s acc = Some m"
  shows "(\<forall>n. n \<notin> bd_name ` set devs \<longrightarrow> map_of m n = map_of acc n) \<and>
    (\<forall>d \<in> set devs. map_of m (bd_name d) = Some (exactPrefix d))"
  using assms
proof (induction devs arbitrary: acc)
  case Nil
  then show ?case by simp
next
  case (Cons d ds)
  then have "exactPrefixes ds s (AList.update (bd_name d) (exactPrefix d) acc) = Some m"
    by (simp add: devicePrefix_exact)
  from Cons.IH [OF _ _ this] Cons.prems have "(\<forall>n. n \<notin> bd_name ` set ds \<longrightarrow>
      map_of m n = map_of (AList.update (bd_name d) (exactPrefix d) acc) n) \<and>
    (\<forall>d \<in> set ds. map_of m (bd_name d) = Some (exactPrefix d))" by simp
  with Cons.prems show ?case by auto
qed

lemma separable_exact:
  assumes "separable devs"
  obtains m where "exactPrefixes devs s [] = Some m"
    "\<And>d. d \<in> set devs \<Longrightarrow> lit_of m (bd_name d) = exactPrefix d"
    "set (coded m devs) = (\<lambda>d. (exactPrefix d, d)) ` set devs"
proof -
  have s: "\<forall>d \<in> set devs. - 1 \<le> bd_left d \<and> bd_left d \<le> 31" "distinct (map bd_name devs)"
    using assms by (auto simp: separable_def)
  obtain m where m: "exactPrefixes devs s [] = Some m" using exactPrefixes_total [OF s(1)] by blast
  have lit: "lit_of m (bd_name d) = exactPrefix d" if "d \<in> set devs" for d
    using exactPrefixes_lookup [OF s m] that by (simp add: lit_of_def)
  then have "set (coded m devs) = (\<lambda>d. (exactPrefix d, d)) ` set devs"
    unfolding coded_def set_map by (intro image_cong) auto
  with m lit show ?thesis by (rule that)
qed

interpretation exact_scheme: prefix_scheme "\<lambda>devs. devicePrefixes devs False"
proof
  fix devs assume sep: "separable devs"
  from separable_exact [OF sep, of False] obtain x where x: "exactPrefixes devs False [] = Some x"
    "\<And>d. d \<in> set devs \<Longrightarrow> lit_of x (bd_name d) = exactPrefix d"
    "set (coded x devs) = (\<lambda>d. (exactPrefix d, d)) ` set devs" by blast
  then show "\<exists>m. devicePrefixes devs False = Some m" by (simp add: devicePrefixes_def)
  fix m assume "devicePrefixes devs False = Some m"
  then have m: "m = x" using x by (simp add: devicePrefixes_def)
  show "d \<in> set devs \<Longrightarrow> prefix (lit_of m (bd_name d)) (exactPrefix d)" for d
    using x m by simp
  show "prefix_free (set (coded m devs))" using x m sep by (simp add: separable_def)
qed

section \<open>Trimmed prefixes\<close>

lemma trimSuffix_leaf: "trimSuffix (Trie [] (Some d)) full pre out = AList.update (bd_name d) full out"
  by (simp add: trimSuffix.simps)

lemma trimSuffix_one:
  "trimSuffix (Trie [(c, v)] None) full pre out = trimSuffix v full (pre @ [c]) out"
  by (subst trimSuffix.simps) simp

lemma sortedKids_two: "bit_pair c c' \<Longrightarrow> sortedKids (Trie [(c, v), (c', v')] None) = ''01''"
  by (auto simp: sortedKids_def less_eq_char_def)

lemma trimSuffix_01:
  "trimSuffix (Trie [(CHR ''0'', l), (CHR ''1'', r)] None) full pre out =
     trimSuffix r (full @ pre @ ''1'') [] (trimSuffix l (full @ pre @ ''0'') [] out)"
  by (subst trimSuffix.simps) (simp add: sortedKids_two)

lemma trimSuffix_10:
  "trimSuffix (Trie [(CHR ''1'', r), (CHR ''0'', l)] None) full pre out =
     trimSuffix r (full @ pre @ ''1'') [] (trimSuffix l (full @ pre @ ''0'') [] out)"
  by (subst trimSuffix.simps) (simp add: sortedKids_two)

definition trims :: "(string \<times> bus_device) set \<Rightarrow> string \<Rightarrow> string \<Rightarrow> string strmap \<Rightarrow>
    string strmap \<Rightarrow> (string \<Rightarrow> string) \<Rightarrow> bool" where
  "trims L full pre out m f \<longleftrightarrow>
     (\<forall>n. n \<notin> (bd_name \<circ> snd) ` L \<longrightarrow> map_of m n = map_of out n) \<and>
     (\<forall>(p, d) \<in> L. map_of m (bd_name d) = Some (f p) \<and> prefix full (f p) \<and>
        prefix (f p) (full @ pre @ p)) \<and>
     (\<forall>(p, d) \<in> L. \<forall>(q, e) \<in> L. p \<noteq> q \<longrightarrow> \<not> prefix (f p) (f q))"

definition named_apart :: "(string \<times> bus_device) set \<Rightarrow> bool" where
  "named_apart L \<longleftrightarrow> (\<forall>(p, d) \<in> L. \<forall>(q, e) \<in> L. bd_name d = bd_name e \<longrightarrow> p = q)"


lemma trims_two:
  assumes L: "trims L (full @ pre @ [c]) [] out m1 f" and R: "trims R (full @ pre @ [c']) [] m1 m2 g"
    and cc: "c \<noteq> c'" and apart: "named_apart (lift_leaf [c] ` L \<union> lift_leaf [c'] ` R)"
  shows "trims (lift_leaf [c] ` L \<union> lift_leaf [c'] ` R) full pre out m2
    (\<lambda>p. if hd p = c then f (tl p) else g (tl p))"
proof -
  let ?h = "\<lambda>p. if hd p = c then f (tl p) else g (tl p)"
  have dis: "bd_name d \<noteq> bd_name e" if "(p, d) \<in> L" "(q, e) \<in> R" for p q d e
  proof
    assume "bd_name d = bd_name e"
    moreover note lift_leafI [OF that(1), of "[c]"] lift_leafI [OF that(2), of "[c']"]
    ultimately have "[c] @ p = [c'] @ q" using apart unfolding named_apart_def by blast
    with cc show False by simp
  qed
  have names: "(bd_name \<circ> snd) ` lift_leaf k ` A = (bd_name \<circ> snd) ` A" for k A
    by (force simp: lift_leaf_def image_iff)
  have Lf: "map_of m2 (bd_name d) = Some (f p) \<and> prefix (full @ pre @ [c]) (f p) \<and>
      prefix (f p) (full @ pre @ c # p)" if "(p, d) \<in> L" for p d
  proof -
    have "bd_name d \<notin> (bd_name \<circ> snd) ` R" using dis that by force
    with R have "map_of m2 (bd_name d) = map_of m1 (bd_name d)" by (simp add: trims_def)
    with L that show ?thesis by (fastforce simp: trims_def)
  qed
  have Rg: "map_of m2 (bd_name d) = Some (g p) \<and> prefix (full @ pre @ [c']) (g p) \<and>
      prefix (g p) (full @ pre @ c' # p)" if "(p, d) \<in> R" for p d
    using R that by (fastforce simp: trims_def)
  have cross: "\<not> prefix (f p) (g q) \<and> \<not> prefix (g q) (f p)" if "(p, d) \<in> L" "(q, e) \<in> R" for p d q e
  proof -
    have "\<not> prefix (full @ pre @ [c]) (g q)" "\<not> prefix (full @ pre @ [c']) (f p)"
      using Lf [OF that(1)] Rg [OF that(2)] cc by (auto simp: prefix_def)
    with Lf [OF that(1)] Rg [OF that(2)] show ?thesis using prefix_order.trans by blast
  qed
  show ?thesis
    unfolding trims_def
  proof (intro conjI)
    show "\<forall>n. n \<notin> (bd_name \<circ> snd) ` (lift_leaf [c] ` L \<union> lift_leaf [c'] ` R) \<longrightarrow>
        map_of m2 n = map_of out n"
      using L R unfolding image_Un names trims_def by simp
    show "\<forall>(p, d) \<in> lift_leaf [c] ` L \<union> lift_leaf [c'] ` R.
        map_of m2 (bd_name d) = Some (?h p) \<and> prefix full (?h p) \<and> prefix (?h p) (full @ pre @ p)"
      unfolding ball_Un ball_simps
      using Lf Rg cc append_prefixD by (simp split: prod.split) blast
    have "\<not> prefix (f p) (f q)" if "(p, d) \<in> L" "(q, e) \<in> L" "p \<noteq> q" for p d q e
      using L that by (fastforce simp: trims_def)
    moreover have "\<not> prefix (g p) (g q)" if "(p, d) \<in> R" "(q, e) \<in> R" "p \<noteq> q" for p d q e
      using R that by (fastforce simp: trims_def)
    ultimately show "\<forall>(p, d) \<in> lift_leaf [c] ` L \<union> lift_leaf [c'] ` R.
        \<forall>(q, e) \<in> lift_leaf [c] ` L \<union> lift_leaf [c'] ` R. p \<noteq> q \<longrightarrow> \<not> prefix (?h p) (?h q)"
      unfolding ball_Un ball_simps
      using cross cc by auto
  qed
qed

lemma named_apart_lift: "named_apart (lift_leaf [c] ` L) \<Longrightarrow> named_apart L"
  unfolding named_apart_def ball_simps by auto

lemma named_apart_Un: "named_apart (L \<union> M) \<Longrightarrow> named_apart L \<and> named_apart M"
  unfolding named_apart_def by blast

lemma trimSuffix_trims:
  assumes "wf_trie t" "named_apart (leaves t)"
  shows "\<exists>f. trims (leaves t) full pre out (trimSuffix t full pre out) f"
  using assms
proof (induction arbitrary: full pre out rule: wf_trie.induct)
  case (leaf d)
  show ?case
    by (rule exI [of _ "\<lambda>_. full"]) (simp add: trimSuffix_leaf trims_def)
next
  case (one c v)
  then have "named_apart (leaves v)" by (auto dest: named_apart_lift)
  with one.IH obtain f where f: "trims (leaves v) full (pre @ [c]) out
      (trimSuffix v full (pre @ [c]) out) f" by blast
  have "trims (lift_leaf [c] ` leaves v) full pre out (trimSuffix v full (pre @ [c]) out) (f \<circ> tl)"
    using f unfolding trims_def ball_simps by (auto simp: image_image lift_leaf_def split_beta)
  then show ?case by (auto simp: trimSuffix_one)
next
  case (two c c' v v')
  let ?LR = "\<lambda>l r. lift_leaf ''0'' ` leaves l \<union> lift_leaf ''1'' ` leaves r"
  have main: "\<exists>f. trims (?LR l r) full pre out
      (trimSuffix r (full @ pre @ ''1'') [] (trimSuffix l (full @ pre @ ''0'') [] out)) f"
    if apart: "named_apart (?LR l r)"
      and IHl: "\<And>full pre out. named_apart (leaves l) \<Longrightarrow>
        \<exists>f. trims (leaves l) full pre out (trimSuffix l full pre out) f"
      and IHr: "\<And>full pre out. named_apart (leaves r) \<Longrightarrow>
        \<exists>f. trims (leaves r) full pre out (trimSuffix r full pre out) f"
    for l r
  proof -
    have "named_apart (leaves l)" "named_apart (leaves r)"
      using apart named_apart_Un named_apart_lift by blast+
    with IHl IHr obtain f g where
      "trims (leaves l) (full @ pre @ ''0'') [] out (trimSuffix l (full @ pre @ ''0'') [] out) f"
      "trims (leaves r) (full @ pre @ ''1'') [] (trimSuffix l (full @ pre @ ''0'') [] out)
         (trimSuffix r (full @ pre @ ''1'') [] (trimSuffix l (full @ pre @ ''0'') [] out)) g" by blast
    from trims_two [OF this _ apart] show ?thesis by fastforce
  qed
  from two.hyps(1) show ?case
  proof
    assume "c = CHR ''0'' \<and> c' = CHR ''1''"
    with main [of v v'] two show ?thesis by (auto simp: trimSuffix_01)
  next
    assume "c = CHR ''1'' \<and> c' = CHR ''0''"
    with main [of v' v] two show ?thesis by (auto simp: trimSuffix_10 Un_commute)
  qed
qed

interpretation simple_scheme: prefix_scheme "\<lambda>devs. devicePrefixes devs True"
proof
  fix devs assume sep: "separable devs"
  from separable_exact [OF sep, of True] obtain x where x: "exactPrefixes devs True [] = Some x"
    "\<And>d. d \<in> set devs \<Longrightarrow> lit_of x (bd_name d) = exactPrefix d"
    "set (coded x devs) = (\<lambda>d. (exactPrefix d, d)) ` set devs" by blast
  then show "\<exists>m. devicePrefixes devs True = Some m" by (simp add: devicePrefixes_def)
  fix m assume "devicePrefixes devs True = Some m"
  then have m: "m = trimSuffix (prefixTrie x devs) [] [] []" using x by (simp add: devicePrefixes_def)
  have bin: "binary (exactPrefix d)" for d
    using bin32_bits [of "bd_base d"] unfolding exactPrefix_def addr_bits_def
    by (blast intro: binary_prefix take_is_prefix)
  have "wf_trie (prefixTrie x devs) \<and> leaves (prefixTrie x devs) = set (coded x devs)"
    using sep x bin by (intro prefixTrie_leaves separable_distinct) (auto simp: separable_def)
  moreover have "named_apart (set (coded x devs))"
    using sep unfolding x(3) by (auto simp: named_apart_def separable_def distinct_map inj_on_def)
  ultimately obtain f where f: "trims (set (coded x devs)) [] [] [] m f"
    using trimSuffix_trims m by metis
  have look: "lit_of m (bd_name d) = f (exactPrefix d) \<and> prefix (f (exactPrefix d)) (exactPrefix d)"
    if "d \<in> set devs" for d
    using f that unfolding x(3) by (auto simp: trims_def lit_of_def)
  show "d \<in> set devs \<Longrightarrow> prefix (lit_of m (bd_name d)) (exactPrefix d)" for d
    using look by simp
  have ne: "exactPrefix d \<noteq> exactPrefix e" if "d \<in> set devs" "e \<in> set devs" "d \<noteq> e" for d e
    using sep that by (force simp: separable_def prefix_free_def)
  have "\<not> prefix (f (exactPrefix d)) (f (exactPrefix e))"
    if "d \<in> set devs" "e \<in> set devs" "d \<noteq> e" for d e
    using f that ne [OF that] unfolding x(3) by (auto simp: trims_def)
  then show "prefix_free (set (coded m devs))"
    using look by (auto simp: prefix_free_def coded_def)
qed

end
