(* ===== verification/Emit_Decoder_Props.thy ===== *)
theory Emit_Decoder_Props
  imports Emit_Decoder_Correct
begin

unbundle bit_operations_syntax

text \<open>
  The address decoder end to end: from an address map that \<open>validateAddresses\<close> accepts to what the
  generated \<open>decode_address\<close> function returns for each 32-bit address. The prefix tests become
  membership in the devices' address spaces, and the disjointness that the validation checks
  becomes the separation of the prefixes that the decoder needs.
\<close>

section \<open>Prefixes and address ranges\<close>

definition addr_word :: "32 word \<Rightarrow> string" where
  "addr_word a = bin32 (ucast a)"

lemma bin32_nth: "i < 32 \<Longrightarrow> bin32 v ! i = (if bit v (31 - i) then CHR ''1'' else CHR ''0'')"
proof -
  assume i: "i < 32"
  have "v AND push_bit n 1 \<noteq> 0 \<longleftrightarrow> bit v n" if "n < 32" for n
    by (simp add: bit_iff_and_push_bit_not_eq_0)
  with i show ?thesis by (simp add: bin32_def)
qed

lemma prefix_bin32:
  assumes "n \<le> 32"
  shows "prefix (take n (bin32 u)) (bin32 v) \<longleftrightarrow> (\<forall>j. 32 - n \<le> j \<longrightarrow> j < 32 \<longrightarrow> bit u j = bit v j)"
proof -
  have "prefix (take n (bin32 u)) (bin32 v) \<longleftrightarrow> take n (bin32 u) = take n (bin32 v)"
    using assms by (auto simp: prefix_take_iff min_def)
  also have "\<dots> \<longleftrightarrow> (\<forall>i < n. bit u (31 - i) = bit v (31 - i))"
    using assms by (auto simp: list_eq_iff_nth_eq bin32_nth)
  also have "\<dots> \<longleftrightarrow> (\<forall>j. 32 - n \<le> j \<longrightarrow> j < 32 \<longrightarrow> bit u j = bit v j)"
  proof
    assume l: "\<forall>i < n. bit u (31 - i) = bit v (31 - i)"
    have "bit u j = bit v j" if "32 - n \<le> j" "j < 32" for j
    proof -
      have "31 - j < n" "31 - (31 - j) = j" using assms that by linarith+
      with l show ?thesis by metis
    qed
    then show "\<forall>j. 32 - n \<le> j \<longrightarrow> j < 32 \<longrightarrow> bit u j = bit v j" by blast
  next
    assume r: "\<forall>j. 32 - n \<le> j \<longrightarrow> j < 32 \<longrightarrow> bit u j = bit v j"
    have "bit u (31 - i) = bit v (31 - i)" if "i < n" for i
    proof -
      have "32 - n \<le> 31 - i" "31 - i < 32" using assms that by linarith+
      with r show ?thesis by blast
    qed
    then show "\<forall>i < n. bit u (31 - i) = bit v (31 - i)" by blast
  qed
  finally show ?thesis .
qed

lemma bit_uint64: "bit (uint (w :: u64)) j \<longleftrightarrow> bit w j"
  by (auto simp: bit_uint_iff dest: bit_imp_le_length)

lemma high_bits_eq:
  fixes u v :: u64
  assumes "uint u < 2 ^ 32" "uint v < 2 ^ 32"
  shows "(\<forall>j. k \<le> j \<longrightarrow> j < 32 \<longrightarrow> bit u j = bit v j) \<longleftrightarrow> uint u div 2 ^ k = uint v div 2 ^ k"
proof -
  have hi: "\<not> bit w j" if "uint w < 2 ^ 32" "32 \<le> j" for w :: u64 and j
  proof -
    have "take_bit 32 (uint w) = uint w" using that by (simp add: take_bit_int_eq_self)
    then have "\<not> bit (uint w) j" using that(2) by (metis bit_take_bit_iff not_le)
    then show ?thesis by (simp add: bit_uint64)
  qed
  have "uint u div 2 ^ k = uint v div 2 ^ k \<longleftrightarrow> drop_bit k (uint u) = drop_bit k (uint v)"
    by (simp add: drop_bit_eq_div)
  also have "\<dots> \<longleftrightarrow> (\<forall>j. bit (uint u) (k + j) = bit (uint v) (k + j))"
    by (simp add: bit_eq_iff bit_drop_bit_eq)
  also have "\<dots> \<longleftrightarrow> (\<forall>j. k \<le> j \<longrightarrow> bit u j = bit v j)"
    unfolding bit_uint64 by (metis le_add1 le_Suc_ex)
  also have "\<dots> \<longleftrightarrow> (\<forall>j. k \<le> j \<longrightarrow> j < 32 \<longrightarrow> bit u j = bit v j)"
  proof (rule iff_allI)
    fix j
    show "(k \<le> j \<longrightarrow> bit u j = bit v j) \<longleftrightarrow> (k \<le> j \<longrightarrow> j < 32 \<longrightarrow> bit u j = bit v j)"
      using hi [OF assms(1), of j] hi [OF assms(2), of j] by (cases "j < 32") auto
  qed
  finally show ?thesis by (rule sym)
qed

lemma aligned_block:
  assumes "aligned b lab"
  shows "x div 2 ^ nat (lab + 1) = uint b div 2 ^ nat (lab + 1) \<longleftrightarrow> x \<in> addr_space b lab"
proof -
  let ?s = "2 ^ nat (lab + 1) :: int"
  have pos: "0 < ?s" by simp
  obtain k where k: "uint b = ?s * k" using assms by (auto simp: aligned_def)
  have "x div ?s = k \<longleftrightarrow> ?s * k \<le> x \<and> x < ?s * k + ?s"
  proof
    assume "x div ?s = k"
    then show "?s * k \<le> x \<and> x < ?s * k + ?s"
      using pos_mod_bound [OF pos, of x] pos_mod_sign [OF pos, of x] mult_div_mod_eq [of ?s x]
      by (simp only:) linarith
  next
    assume "?s * k \<le> x \<and> x < ?s * k + ?s"
    then show "x div ?s = k"
      by (intro int_div_pos_eq [of x ?s k "x - ?s * k"]) auto
  qed
  with k pos show ?thesis by (simp add: addr_space_def)
qed

lemma exactPrefix_addr:
  assumes "uint (bd_base d) < 2 ^ 32" "0 \<le> bd_left d" "bd_left d \<le> 31"
    "aligned (bd_base d) (bd_left d)" "uint v < 2 ^ 32"
  shows "prefix (exactPrefix d) (bin32 v) \<longleftrightarrow> uint v \<in> addr_space (bd_base d) (bd_left d)"
proof -
  have n: "nat (31 - bd_left d) \<le> 32" "32 - nat (31 - bd_left d) = nat (bd_left d + 1)"
    using assms by auto
  have "prefix (exactPrefix d) (bin32 v) \<longleftrightarrow>
      uint (bd_base d) div 2 ^ nat (bd_left d + 1) = uint v div 2 ^ nat (bd_left d + 1)"
    unfolding exactPrefix_def prefix_bin32 [OF n(1)] n(2) by (rule high_bits_eq [OF assms(1,5)])
  with aligned_block [OF assms(4), of "uint v"] show ?thesis by auto
qed

lemma region_take4: "take 4 (bin32 v) = region_bits \<longleftrightarrow> in_device_region v"
proof -
  have "take 4 (bin32 v) = map (\<lambda>i. bin32 v ! i) [0, 1, 2, 3]"
    by (intro nth_equalityI) (auto simp: less_Suc_eq numeral_eq_Suc)
  then have "take 4 (bin32 v) = region_bits \<longleftrightarrow>
      bit v 31 \<and> \<not> bit v 30 \<and> bit v 29 \<and> \<not> bit v 28"
    by (auto simp: bin32_nth)
  moreover have "in_device_region v \<longleftrightarrow> take_bit 4 (drop_bit 28 (uint v)) = 10"
    by (simp add: in_device_region_def take_bit_eq_mod drop_bit_eq_div)
  moreover have "take_bit 4 (drop_bit 28 (uint v)) = 10 \<longleftrightarrow>
      (\<forall>j < 4. bit (uint v) (28 + j) = bit (10 :: int) j)"
  proof -
    have "take_bit 4 (10 :: int) = 10" by (simp add: take_bit_eq_mod)
    then have "take_bit 4 (drop_bit 28 (uint v)) = 10 \<longleftrightarrow>
        take_bit 4 (drop_bit 28 (uint v)) = take_bit 4 (10 :: int)" by simp
    also have "\<dots> \<longleftrightarrow> (\<forall>j. j < 4 \<longrightarrow> bit (uint v) (28 + j) = bit (10 :: int) j)"
      by (simp only: bit_eq_iff bit_take_bit_iff bit_drop_bit_eq comp_def possible_bit_int) blast
    finally show ?thesis .
  qed
  moreover have "(\<forall>j < 4. bit (uint v) (28 + j) = bit (10 :: int) j) \<longleftrightarrow>
      bit v 31 \<and> \<not> bit v 30 \<and> bit v 29 \<and> \<not> bit v 28"
  proof -
    have "(\<forall>j < 4. Q j) \<longleftrightarrow> Q 0 \<and> Q 1 \<and> Q 2 \<and> Q 3" for Q :: "nat \<Rightarrow> bool"
      by (simp add: eval_nat_numeral All_less_Suc) blast
    then show ?thesis by (auto simp: bit_uint64)
  qed
  ultimately show ?thesis by simp
qed

section \<open>The devices of a validated design\<close>

text \<open>
  What the decoder needs beyond \<open>validateAddresses\<close>: the devices on the data bus have distinct
  names (\<open>genUniqueName\<close> gives them), none is called \<open>none\<close>, their classes are resolved, and their
  base addresses fit the 32-bit address bus. The last is not implied by the validation, which
  looks at bits 31 to 28 only.
\<close>

definition decodable :: "resolution \<Rightarrow> bool" where
  "decodable res \<longleftrightarrow> distinct (map bd_name (busDevicesOf res)) \<and>
     (\<forall>dev \<in> set (res_devices res). \<forall>b. rd_data_bus dev \<longrightarrow> rd_base_addr dev = Some b \<longrightarrow>
        class_of res dev \<noteq> None \<and> uint b < 2 ^ 32 \<and> rd_name dev \<noteq> ''none'')"

definition on_bus :: "resolution \<Rightarrow> resolved_device \<Rightarrow> u64 \<Rightarrow> int \<Rightarrow> bool" where
  "on_bus res dev b lab \<longleftrightarrow> mapped res dev b lab \<and> rd_data_bus dev"

lemma set_busDevicesOf:
  assumes "decodable res"
  shows "d \<in> set (busDevicesOf res) \<longleftrightarrow>
    (\<exists>dev. on_bus res dev (bd_base d) (bd_left d) \<and> bd_name d = rd_name dev)"
proof -
  have "d \<in> set (busDevicesOf res) \<longleftrightarrow> (\<exists>dev \<in> set (res_devices res). bus_device_of res dev = Some d)"
    by (force simp: busDevicesOf_def List.map_filter_def)
  moreover have "bus_device_of res dev = Some d \<longleftrightarrow>
      on_bus res dev (bd_base d) (bd_left d) \<and> bd_name d = rd_name dev"
    if dev: "dev \<in> set (res_devices res)" for dev
  proof (cases "rd_data_bus dev \<and> rd_base_addr dev \<noteq> None")
    case True
    then obtain b where b: "rd_base_addr dev = Some b" by auto
    with True dev assms obtain rc where "class_of res dev = Some rc"
      unfolding decodable_def by fastforce
    with True b dev show ?thesis
      by (cases d) (auto simp: bus_device_of_def on_bus_def mapped_def)
  next
    case False
    then show ?thesis by (auto simp: bus_device_of_def on_bus_def mapped_def split: option.splits)
  qed
  ultimately show ?thesis by (auto simp: on_bus_def mapped_def)
qed

lemma on_bus_facts:
  assumes "valid_address_map res" "decodable res" "on_bus res dev b lab"
  shows "in_device_region b" "aligned b lab" "0 \<le> lab" "lab \<le> 31" "uint b < 2 ^ 32"
    "rd_name dev \<noteq> ''none''"
proof -
  have m: "mapped res dev b lab" "rd_data_bus dev" using assms(3) by (auto simp: on_bus_def)
  then show wf: "in_device_region b" "aligned b lab" "0 \<le> lab"
    using assms(1) by (auto simp: valid_address_map_def)
  have dev: "dev \<in> set (res_devices res)" "rd_base_addr dev = Some b" using m by (auto simp: mapped_def)
  with assms(2) m(2) show b32: "uint b < 2 ^ 32" and "rd_name dev \<noteq> ''none''"
    unfolding decodable_def by blast+
  show "lab \<le> 31"
  proof (rule ccontr)
    assume "\<not> lab \<le> 31"
    then have "(2::int) ^ 32 dvd 2 ^ nat (lab + 1)" by (intro le_imp_power_dvd) auto
    then have "2 ^ 32 dvd uint b" using wf(2) by (auto simp: aligned_def intro: dvd_trans)
    moreover have "uint b \<noteq> 0" using wf(1) by (auto simp: in_device_region_def)
    ultimately show False using b32 zdvd_imp_le [of "2 ^ 32" "uint b"] uint_ge_0 [of b] by linarith
  qed
qed

lemma disjoint_on_bus:
  assumes "valid_address_map res" "on_bus res d b lab" "on_bus res e b' lab'" "d \<noteq> e"
  shows "addr_space b lab \<inter> addr_space b' lab' = {}"
proof -
  let ?ds = "res_devices res"
  obtain i j where ij: "i < length ?ds" "j < length ?ds" "?ds ! i = d" "?ds ! j = e"
    using assms(2,3) by (auto simp: on_bus_def mapped_def in_set_conv_nth)
  have "i \<noteq> j" using ij assms(4) by auto
  then consider "i < j" | "j < i" by linarith
  then show ?thesis
  proof cases
    case 1
    then have "disjoint_devices res d e"
      using assms(1) ij unfolding valid_address_map_def by blast
    with assms(2,3) show ?thesis by (simp add: disjoint_devices_def on_bus_def)
  next
    case 2
    then have "disjoint_devices res e d"
      using assms(1) ij unfolding valid_address_map_def by blast
    with assms(2,3) have "addr_space b' lab' \<inter> addr_space b lab = {}"
      by (simp add: disjoint_devices_def on_bus_def)
    then show ?thesis by (simp add: Int_commute)
  qed
qed

lemma base_in_space: "uint b \<in> addr_space b lab"
  by (simp add: addr_space_def)

lemma separable_busDevices:
  assumes "valid_address_map res" "decodable res" "busDevicesOf res \<noteq> []"
  shows "separable (busDevicesOf res)"
  unfolding separable_def
proof (intro conjI ballI)
  show "busDevicesOf res \<noteq> []" by fact
  show "distinct (map bd_name (busDevicesOf res))" using assms(2) by (simp add: decodable_def)
next
  fix d assume "d \<in> set (busDevicesOf res)"
  then obtain dev where "on_bus res dev (bd_base d) (bd_left d)"
    using set_busDevicesOf [OF assms(2)] by blast
  note f = on_bus_facts [OF assms(1,2) this]
  show "- 1 \<le> bd_left d" "bd_left d \<le> 31" using f by auto
  show "take 4 (bin32 (bd_base d)) = region_bits" using f by (simp add: region_take4)
next
  have "\<not> prefix (exactPrefix d) (exactPrefix e)"
    if de: "d \<in> set (busDevicesOf res)" "e \<in> set (busDevicesOf res)" "d \<noteq> e" for d e
  proof
    assume pre: "prefix (exactPrefix d) (exactPrefix e)"
    obtain x y where xy: "on_bus res x (bd_base d) (bd_left d)" "bd_name d = rd_name x"
      "on_bus res y (bd_base e) (bd_left e)" "bd_name e = rd_name y"
      using de set_busDevicesOf [OF assms(2)] by blast
    have "x \<noteq> y"
      using xy de(3) by (auto simp: on_bus_def mapped_def)
    note f = on_bus_facts [OF assms(1,2) xy(1)] and g = on_bus_facts [OF assms(1,2) xy(3)]
    have "prefix (exactPrefix e) (bin32 (bd_base e))" by (simp add: exactPrefix_def take_is_prefix)
    with pre have "prefix (exactPrefix d) (bin32 (bd_base e))" by (rule prefix_order.trans)
    then have "uint (bd_base e) \<in> addr_space (bd_base d) (bd_left d)"
      using exactPrefix_addr f g by blast
    with disjoint_on_bus [OF assms(1) xy(1,3) \<open>x \<noteq> y\<close>] base_in_space show False by blast
  qed
  then show "prefix_free ((\<lambda>d. (exactPrefix d, d)) ` set (busDevicesOf res))"
    by (auto simp: prefix_free_def)
qed

section \<open>Literals\<close>

lemma fold_update_lookup:
  "map_of (fold (\<lambda>d m. AList.update (bd_name d) (devLit (bd_name d)) m) ds acc) n =
     (if n \<in> bd_name ` set ds then Some (devLit n) else map_of acc n)"
  by (induction ds arbitrary: acc) auto

lemma lit_of_busLits:
  "lit_of (busLits res) n =
     (if n \<in> bd_name ` set (busDevicesOf res) then devLit n
      else if n = ''none'' then ''NONE'' else [])"
  by (simp add: lit_of_def busLits_def fold_update_lookup)

lemma lit_of_none:
  assumes "valid_address_map res" "decodable res"
  shows "lit_of (busLits res) ''none'' = ''NONE''"
proof -
  have "bd_name d \<noteq> ''none''" if "d \<in> set (busDevicesOf res)" for d
    using that set_busDevicesOf [OF assms(2)] on_bus_facts(6) [OF assms] by metis
  then have "''none'' \<notin> bd_name ` set (busDevicesOf res)" by (metis imageE)
  then show ?thesis by (simp add: lit_of_busLits)
qed

section \<open>The decode function\<close>

lemma addr_word_bits: "addr_bits (addr_word a)"
  by (simp add: addr_word_def)

lemma uint_ucast32: "uint (ucast (a :: 32 word) :: u64) = uint a"
proof -
  have "0 \<le> uint a" "uint a < 2 ^ 64" using uint_lt2p [of a] by simp_all
  then show ?thesis by (simp add: unsigned_ucast_eq unsigned_take_bit_eq take_bit_int_eq_self)
qed

lemma uint_ucast32_less: "uint (ucast (a :: 32 word) :: u64) < 2 ^ 32"
  using uint_lt2p [of a] by (simp add: uint_ucast32)

text \<open>The statements of the whole body, in terms of the prefix map the mode gives.\<close>

definition prefix_map :: "bus_device list \<Rightarrow> bool \<Rightarrow> string strmap" where
  "prefix_map devs simple = (case devicePrefixes devs simple of Some m \<Rightarrow> m | None \<Rightarrow> [])"

lemma scheme_facts:
  assumes "separable devs"
  shows "devicePrefixes devs simple = Some (prefix_map devs simple)"
    "\<And>d. d \<in> set devs \<Longrightarrow> prefix (lit_of (prefix_map devs simple) (bd_name d)) (exactPrefix d)"
    "\<exists>ss. decodeStmts (prefix_map devs simple) devs lits = Some ss \<and>
       (\<forall>w. addr_bits w \<longrightarrow> take 4 w = region_bits \<longrightarrow>
          decides lits (set (coded (prefix_map devs simple) devs)) w (exec_stmts w ss))"
proof -
  show m: "devicePrefixes devs simple = Some (prefix_map devs simple)"
    using exact_scheme.total [OF assms] simple_scheme.total [OF assms]
    by (cases simple) (auto simp: prefix_map_def)
  show "\<And>d. d \<in> set devs \<Longrightarrow> prefix (lit_of (prefix_map devs simple) (bd_name d)) (exactPrefix d)"
    using exact_scheme.shortens [OF assms] simple_scheme.shortens [OF assms] m
    by (cases simple) auto
  show "\<exists>ss. decodeStmts (prefix_map devs simple) devs lits = Some ss \<and>
       (\<forall>w. addr_bits w \<longrightarrow> take 4 w = region_bits \<longrightarrow>
          decides lits (set (coded (prefix_map devs simple) devs)) w (exec_stmts w ss))"
    using exact_scheme.decodeStmts_correct [OF assms] simple_scheme.decodeStmts_correct [OF assms] m
    by (cases simple) auto
qed

lemma exec_comments: "exec_stmts w (decodeComments @ ss) = exec_stmts w ss"
  by (simp add: decodeComments_def)

lemma exec_tail:
  assumes "exec_stmts w ss = r" "r \<noteq> Stuck"
  shows "exec_stmts w (ss @ [ReturnStmt [] (Some (Ident n))]) =
    (case r of Returned x \<Rightarrow> Returned x | _ \<Rightarrow> Returned n)"
  using assms by (cases r) (auto simp: exec_stmts_append)

lemma decides_not_Stuck: "decides lits L w r \<Longrightarrow> r \<noteq> Stuck"
  unfolding decides_def by blast

lemma decodeBody_decides:
  assumes "separable devs"
  shows "\<exists>body. decodeBody devs lits simple = Some body \<and>
    (\<forall>w. addr_bits w \<longrightarrow> take 4 w = region_bits \<longrightarrow>
      (\<forall>(p, d) \<in> set (coded (prefix_map devs simple) devs). prefix p w \<longrightarrow>
         exec_stmts w body = Returned (lit_of lits (bd_name d))) \<and>
      ((\<forall>(p, d) \<in> set (coded (prefix_map devs simple) devs). \<not> prefix p w) \<longrightarrow>
         exec_stmts w body = Returned (lit_of lits ''none'')))"
proof -
  let ?L = "set (coded (prefix_map devs simple) devs)"
  obtain ss where ss: "decodeStmts (prefix_map devs simple) devs lits = Some ss"
    "\<And>w. addr_bits w \<Longrightarrow> take 4 w = region_bits \<Longrightarrow> decides lits ?L w (exec_stmts w ss)"
    using scheme_facts(3) [OF assms, of simple lits] by blast
  let ?ret = "[ReturnStmt [] (Some (Ident (lit_of lits ''none'')))]"
  have "devs \<noteq> []" using assms by (simp add: separable_def)
  then have "decodeBody devs lits simple = Some (decodeComments @ ss @ ?ret)"
    using ss(1) scheme_facts(1) [OF assms, of simple] by (simp add: decodeBody_def)
  moreover have "(\<forall>(p, d) \<in> ?L. prefix p w \<longrightarrow>
       exec_stmts w (decodeComments @ ss @ ?ret) = Returned (lit_of lits (bd_name d))) \<and>
      ((\<forall>(p, d) \<in> ?L. \<not> prefix p w) \<longrightarrow>
       exec_stmts w (decodeComments @ ss @ ?ret) = Returned (lit_of lits ''none''))"
    if w: "addr_bits w" "take 4 w = region_bits" for w
  proof -
    note d = ss(2) [OF w]
    have "exec_stmts w (decodeComments @ ss @ ?ret) =
        (case exec_stmts w ss of Returned x \<Rightarrow> Returned x | _ \<Rightarrow> Returned (lit_of lits ''none''))"
      unfolding exec_comments by (rule exec_tail [OF refl decides_not_Stuck [OF d]])
    with d show ?thesis by (auto simp: decides_def)
  qed
  ultimately show ?thesis by blast
qed

lemma exact_prefix_map:
  assumes "separable devs"
  shows "set (coded (prefix_map devs False) devs) = (\<lambda>d. (exactPrefix d, d)) ` set devs"
proof -
  obtain m where "exactPrefixes devs False [] = Some m"
    "\<And>d. d \<in> set devs \<Longrightarrow> lit_of m (bd_name d) = exactPrefix d"
    "set (coded m devs) = (\<lambda>d. (exactPrefix d, d)) ` set devs"
    by (rule separable_exact [where s = False, OF assms]) (rule that)
  then show ?thesis by (simp add: prefix_map_def devicePrefixes_def)
qed

text \<open>The outcome for an address of the device region, in both modes.\<close>

lemma decode_total:
  assumes "valid_address_map res" "decodable res"
  shows "\<exists>body. decodeBody (busDevicesOf res) (busLits res) simple = Some body \<and>
    (\<forall>a. in_device_region (ucast a) \<longrightarrow>
      (\<forall>dev b lab. on_bus res dev b lab \<longrightarrow> uint a \<in> addr_space b lab \<longrightarrow>
         exec_stmts (addr_word a) body = Returned (devLit (rd_name dev))) \<and>
      (\<not> simple \<longrightarrow> (\<forall>dev b lab. on_bus res dev b lab \<longrightarrow> uint a \<notin> addr_space b lab) \<longrightarrow>
         exec_stmts (addr_word a) body = Returned ''NONE''))"
proof (cases "busDevicesOf res = []")
  case True
  then have "\<not> on_bus res dev b lab" for dev b lab
    using set_busDevicesOf [OF assms(2), of "\<lparr>bd_name = rd_name dev, bd_base = b, bd_left = lab\<rparr>"]
    by auto
  moreover have "decodeBody (busDevicesOf res) (busLits res) simple =
      Some [ReturnStmt [] (Some (Ident ''NONE''))]"
    using True lit_of_none [OF assms] by (simp add: decodeBody_def)
  ultimately show ?thesis by simp
next
  case False
  let ?devs = "busDevicesOf res"
  note sep = separable_busDevices [OF assms False]
  let ?L = "set (coded (prefix_map ?devs simple) ?devs)"
  obtain body where body: "decodeBody ?devs (busLits res) simple = Some body"
    "\<And>w p d. addr_bits w \<Longrightarrow> take 4 w = region_bits \<Longrightarrow> (p, d) \<in> ?L \<Longrightarrow> prefix p w \<Longrightarrow>
       exec_stmts w body = Returned (lit_of (busLits res) (bd_name d))"
    "\<And>w. addr_bits w \<Longrightarrow> take 4 w = region_bits \<Longrightarrow> \<forall>(p, d) \<in> ?L. \<not> prefix p w \<Longrightarrow>
       exec_stmts w body = Returned (lit_of (busLits res) ''none'')"
    using decodeBody_decides [OF sep, of "busLits res" simple] by blast
  have reg: "take 4 (addr_word a) = region_bits" if "in_device_region (ucast a)" for a
    using that by (simp add: region_take4 addr_word_def)
  have iff: "prefix (exactPrefix d) (addr_word a) \<longleftrightarrow> uint a \<in> addr_space (bd_base d) (bd_left d)"
    if d: "d \<in> set ?devs" for d a
  proof -
    obtain dev where "on_bus res dev (bd_base d) (bd_left d)"
      using d set_busDevicesOf [OF assms(2), of d] by auto
    note f = on_bus_facts [OF assms this]
    show ?thesis
      using exactPrefix_addr [OF f(5,3,4,2) uint_ucast32_less, of a]
      by (simp add: addr_word_def uint_ucast32)
  qed
  have hit: "exec_stmts (addr_word a) body = Returned (devLit (rd_name dev))"
    if a: "in_device_region (ucast a)" and dev: "on_bus res dev b lab" "uint a \<in> addr_space b lab"
    for a dev b lab
  proof -
    let ?d = "\<lparr>bd_name = rd_name dev, bd_base = b, bd_left = lab\<rparr>"
    let ?p = "lit_of (prefix_map ?devs simple) (bd_name ?d)"
    have d: "?d \<in> set ?devs" unfolding set_busDevicesOf [OF assms(2)] using dev by auto
    have "prefix ?p (exactPrefix ?d)" by (rule scheme_facts(2) [OF sep d])
    moreover have "prefix (exactPrefix ?d) (addr_word a)" using iff [OF d] dev by simp
    ultimately have "prefix ?p (addr_word a)" by (rule prefix_order.trans)
    moreover have "(?p, ?d) \<in> ?L" using d by (force simp: coded_def)
    ultimately have "exec_stmts (addr_word a) body = Returned (lit_of (busLits res) (bd_name ?d))"
      using body(2) [OF addr_word_bits reg [OF a]] by blast
    with d show ?thesis by (force simp: lit_of_busLits)
  qed
  have miss: "exec_stmts (addr_word a) body = Returned ''NONE''"
    if a: "in_device_region (ucast a)" and "\<not> simple"
      and no: "\<forall>dev b lab. on_bus res dev b lab \<longrightarrow> uint a \<notin> addr_space b lab" for a
  proof -
    have "\<not> prefix (exactPrefix d) (addr_word a)" if "d \<in> set ?devs" for d
      using that no iff set_busDevicesOf [OF assms(2)] by blast
    then have "\<forall>(p, d) \<in> ?L. \<not> prefix p (addr_word a)"
      using exact_prefix_map [OF sep] \<open>\<not> simple\<close> by auto
    from body(3) [OF addr_word_bits reg [OF a] this] show ?thesis
      by (simp add: lit_of_none [OF assms])
  qed
  from body(1) hit miss show ?thesis by blast
qed

section \<open>Properties\<close>

definition demo_class :: "string \<Rightarrow> int \<Rightarrow> resolved_class" where
  "demo_class n lab = \<lparr>rc_name = n, rc_entity = None, rc_arch_name = ''rtl'', rc_config = None,
     rc_regs = [], rc_left_addr_bit = lab, rc_reg_range = (0, 0), rc_generics = []\<rparr>"

definition demo_device :: "string \<Rightarrow> string \<Rightarrow> u64 \<Rightarrow> resolved_device" where
  "demo_device n c b = \<lparr>rd_name = n, rd_class = c, rd_generics = [], rd_base_addr = Some b,
     rd_ports = [], rd_data_bus = True, rd_generic_types = []\<rparr>"

definition demo_resolution :: "resolved_device list \<Rightarrow> resolution" where
  "demo_resolution ds = \<lparr>res_classes = [(''gpio'', demo_class ''gpio'' 4), (''uart'', demo_class ''uart'' 3)],
     res_devices = ds, res_top_entities = [], res_padring_entities = [], res_signals = [],
     res_pins = [], res_entity_bound_pads = [],
     res_data_bus = Some \<lparr>pbm_master_bus = ''cpu0'', pbm_connected = [''cpu0''],
       pbm_disconnected = [], pbm_mux_stages = [], pbm_decode_mode = ''exact''\<rparr>\<rparr>"

text \<open>Two devices inside the device region.\<close>

definition demo_board :: resolution where
  "demo_board = demo_resolution
     [demo_device ''uart0'' ''UART'' 0xABCD0100, demo_device ''gpio'' ''gpio'' 0xABCD0000]"

text \<open>Two devices whose base addresses differ above bit 31 only.\<close>

definition wide_board :: resolution where
  "wide_board = demo_resolution
     [demo_device ''a'' ''uart'' 0xA0000000, demo_device ''b'' ''uart'' 0x1A0000000]"

lemma class_of_demo:
  "class_of (demo_resolution ds) (demo_device n ''uart'' b) = Some (demo_class ''uart'' 3)"
  "class_of (demo_resolution ds) (demo_device n ''UART'' b) = Some (demo_class ''uart'' 3)"
  "class_of (demo_resolution ds) (demo_device n ''gpio'' b) = Some (demo_class ''gpio'' 4)"
  by code_simp+

lemma demo_board_valid: "validateAddresses (Some demo_board) = []"
  by code_simp

lemma demo_simps:
  "res_devices (demo_resolution ds) = ds" "rd_base_addr (demo_device n c b) = Some b"
  "rd_data_bus (demo_device n c b)" "rd_name (demo_device n c b) = n"
  "rc_left_addr_bit (demo_class n l) = l"
  by (simp_all add: demo_resolution_def demo_device_def demo_class_def)

lemma on_demo_board:
  "on_bus demo_board dev b lab \<longleftrightarrow>
     (dev = demo_device ''uart0'' ''UART'' 0xABCD0100 \<and> b = 0xABCD0100 \<and> lab = 3) \<or>
     (dev = demo_device ''gpio'' ''gpio'' 0xABCD0000 \<and> b = 0xABCD0000 \<and> lab = 4)"
  by (auto simp: on_bus_def mapped_def demo_board_def demo_simps class_of_demo)

lemma demo_board_decodable: "decodable demo_board"
  unfolding decodable_def
proof
  show "distinct (map bd_name (busDevicesOf demo_board))" by code_simp
  show "\<forall>dev \<in> set (res_devices demo_board). \<forall>b. rd_data_bus dev \<longrightarrow> rd_base_addr dev = Some b \<longrightarrow>
      class_of demo_board dev \<noteq> None \<and> uint b < 2 ^ 32 \<and> rd_name dev \<noteq> ''none''"
    by (simp add: demo_board_def class_of_demo, simp add: demo_resolution_def class_of_demo [unfolded demo_resolution_def])
      (simp add: demo_device_def)
qed

text \<open>What the generated function of a design returns for an address.\<close>

definition decode_result :: "resolution \<Rightarrow> bool \<Rightarrow> 32 word \<Rightarrow> outcome option" where
  "decode_result res simple a =
     (case decodeFunction (busDevicesOf res) (busLits res) simple of
        Some (SubprogramBody _ _ _ _ _ _ _ body) \<Rightarrow> Some (exec_stmts (addr_word a) body)
      | _ \<Rightarrow> None)"

lemma decode_result_body:
  "decode_result res simple a =
     map_option (exec_stmts (addr_word a)) (decodeBody (busDevicesOf res) (busLits res) simple)"
  by (cases "decodeBody (busDevicesOf res) (busLits res) simple")
    (simp_all add: decode_result_def decodeFunction_def)

text \<open>
  C3: for a design whose address map validation accepts and that is \<open>decodable\<close> (the devices on the bus have
  different names, none of them \<open>none\<close>, a resolved class and a base address below \<open>2 ^ 32\<close>), the generated
  \<open>decode_address\<close> returns, for every address of the device region inside a device's address space, the enumeration
  literal of that device, in the exact and in the simple decode mode.
\<close>

theorem decode_selects_device:
  assumes "validateAddresses (Some res) = []" "decodable res" "on_bus res dev b lab"
    "in_device_region (ucast a)" "uint a \<in> addr_space b lab"
  shows "decode_result res simple a = Some (Returned (devLit (rd_name dev)))"
proof -
  obtain body where "decodeBody (busDevicesOf res) (busLits res) simple = Some body"
    "exec_stmts (addr_word a) body = Returned (devLit (rd_name dev))"
    using decode_total [OF iffD1 [OF validateAddresses_Nil assms(1)] assms(2), of simple] assms(3-5)
    by blast
  then show ?thesis by (simp add: decode_result_body)
qed

theorem decode_selects_device_witness:
  "decode_result demo_board True 0xABCD0104 = Some (Returned ''DEV_UART0'')"
proof -
  have "on_bus demo_board (demo_device ''uart0'' ''UART'' 0xABCD0100) 0xABCD0100 3"
    by (simp add: on_demo_board)
  from decode_selects_device [OF demo_board_valid demo_board_decodable this,
      of "0xABCD0104" True]
  have "decode_result demo_board True 0xABCD0104 =
      Some (Returned (devLit (rd_name (demo_device ''uart0'' ''UART'' 0xABCD0100))))"
    by (simp add: in_device_region_def addr_space_def)
  moreover have "devLit (rd_name (demo_device ''uart0'' ''UART'' 0xABCD0100)) = ''DEV_UART0''"
    by code_simp
  ultimately show ?thesis by simp
qed

text \<open>
  C21: for a design whose address map validation accepts and that is \<open>decodable\<close> (the devices on the bus have
  different names, none of them \<open>none\<close>, a resolved class and a base address below \<open>2 ^ 32\<close>), an address of
  the device region that is in the address space of no device on the bus decodes to \<open>NONE\<close> in the exact mode.
\<close>

theorem decode_exact_none:
  assumes "validateAddresses (Some res) = []" "decodable res" "in_device_region (ucast a)"
    "\<forall>dev b lab. on_bus res dev b lab \<longrightarrow> uint a \<notin> addr_space b lab"
  shows "decode_result res False a = Some (Returned ''NONE'')"
proof -
  obtain body where "decodeBody (busDevicesOf res) (busLits res) False = Some body"
    "exec_stmts (addr_word a) body = Returned ''NONE''"
    using decode_total [OF iffD1 [OF validateAddresses_Nil assms(1)] assms(2), of False] assms(3-4)
    by blast
  then show ?thesis by (simp add: decode_result_body)
qed

theorem decode_exact_none_witness: "decode_result demo_board False 0xABCD0200 = Some (Returned ''NONE'')"
proof (rule decode_exact_none [OF demo_board_valid demo_board_decodable])
  show "in_device_region (ucast (0xABCD0200 :: 32 word))" by (simp add: in_device_region_def)
  show "\<forall>dev b lab. on_bus demo_board dev b lab \<longrightarrow> uint (0xABCD0200 :: 32 word) \<notin> addr_space b lab"
  proof (intro allI impI)
    fix dev b lab assume "on_bus demo_board dev b lab"
    then show "uint (0xABCD0200 :: 32 word) \<notin> addr_space b lab"
      by (auto simp: addr_space_def on_demo_board)
  qed
qed

lemma wide_trie:
  "extractPrefix (prefixTrie (prefix_map (busDevicesOf wide_board) False) (busDevicesOf wide_board)) =
     (''1010000000000000000000000000'',
      Trie [] (Some \<lparr>bd_name = ''b'', bd_base = 0x1A0000000, bd_left = 3\<rparr>))"
  by code_simp

lemma wide_lits: "lit_of (busLits wide_board) ''b'' = ''DEV_B''"
  by code_simp

definition wide_stmts :: "stmt list" where
  "wide_stmts = decodeComments @
     [IfStmt [] (buildCond 27 (drop 4 ''1010000000000000000000000000''))
        [Comment (range_comment \<lparr>bd_name = ''b'', bd_base = 0x1A0000000, bd_left = 3\<rparr>),
         ReturnStmt [] (Some (Ident ''DEV_B''))] [] []]"

lemma wide_body:
  "decodeBody (busDevicesOf wide_board) (busLits wide_board) False =
     Some (wide_stmts @ [ReturnStmt [] (Some (Ident (lit_of (busLits wide_board) ''none'')))])"
proof -
  have ne: "busDevicesOf wide_board \<noteq> []" by code_simp
  have m: "devicePrefixes (busDevicesOf wide_board) False =
      Some (prefix_map (busDevicesOf wide_board) False)" by code_simp
  show ?thesis
    using ne m by (simp add: decodeBody_def decodeStmts_def wide_trie buildIfs_leaf wide_lits wide_stmts_def)
qed

lemma exec_wide_body: "exec_stmts (addr_word 0xA0000000) (wide_stmts @ ss) = Returned ''DEV_B''"
proof -
  let ?p = "drop 4 ''1010000000000000000000000000''"
  have "cond_holds (addr_word 0xA0000000) (buildCond (31 - int 4) ?p) =
      Some (prefix ?p (drop 4 (addr_word 0xA0000000)))"
    by (rule cond_holds_buildCond) (simp_all add: addr_word_def)
  moreover have "prefix ?p (drop 4 (addr_word 0xA0000000))" by code_simp
  ultimately have "cond_holds (addr_word 0xA0000000) (buildCond 27 ?p) = Some True" by simp
  then show ?thesis by (simp add: wide_stmts_def exec_comments del: drop_Suc_Cons)
qed

text \<open>
  The hypothesis on the width of base addresses is needed. The validation tests bits 31 to 28
  of a base address but not the bits above, and the decoder keeps the low 32 bits, so two
  devices that differ above bit 31 pass the validation and collide in the decoder: the first
  device's base address selects the second device.
\<close>

theorem wide_base_collides:
  "validateAddresses (Some wide_board) = [] \<and>
   decode_result wide_board False 0xA0000000 = Some (Returned ''DEV_B'')"
proof
  show "validateAddresses (Some wide_board) = []" by code_simp
  show "decode_result wide_board False 0xA0000000 = Some (Returned ''DEV_B'')"
    unfolding decode_result_body wide_body by (simp add: exec_wide_body)
qed

text \<open>
  The hypothesis on the name \<open>none\<close> is needed too: the literal of a device of that name replaces the one that
  the function returns for an address of no device.
\<close>

lemma device_named_none:
  "lit_of (busLits (demo_resolution [demo_device ''none'' ''uart'' 0xABCD0100])) ''none'' = ''DEV_NONE''"
  by code_simp

end
