(* ===== verification/Elab_Sound.thy ===== *)
theory Elab_Sound
  imports Elab_Top Emit_Decoder_Props
begin

text \<open>
  The passes of elaboration together with the address decoder that \<open>emit/databus.go\<close> generates from
  their result: a board that elaborates without an error gets a decoder that finds its devices.
\<close>

section \<open>From elaboration to the decoder\<close>

lemma map_filter_names:
  "distinct (map rd_name ds) \<Longrightarrow> distinct (map bd_name (List.map_filter (bus_device_of res) ds))"
proof (induction ds)
  case Nil
  then show ?case by (simp add: List.map_filter_simps)
next
  case (Cons dev ds)
  have name: "bd_name b = rd_name r" if "bus_device_of res r = Some b" for r b
    using that by (auto simp: bus_device_of_def split: if_splits option.splits)
  have "rd_name dev \<notin> set (map bd_name (List.map_filter (bus_device_of res) ds))"
  proof
    assume "rd_name dev \<in> set (map bd_name (List.map_filter (bus_device_of res) ds))"
    then obtain r b where r: "r \<in> set ds" "bus_device_of res r = Some b" "bd_name b = rd_name dev"
      by (auto simp: List.map_filter_def)
    then have "rd_name dev = rd_name r" using name [OF r(2)] by simp
    with r(1) have "rd_name dev \<in> set (map rd_name ds)" by simp
    with Cons.prems show False by simp
  qed
  with Cons name show ?case
    by (cases "bus_device_of res dev") (auto simp: List.map_filter_simps)
qed

lemma map_dev_id_parts:
  assumes "map dev_id xs = map dev_id ys"
  shows "map rd_name xs = map rd_name ys"
    and "map (\<lambda>r. (rd_class r, rd_base_addr r)) xs = map (\<lambda>r. (rd_class r, rd_base_addr r)) ys"
proof -
  have "map rd_name zs = map fst (map dev_id zs)"
    "map (\<lambda>r. (rd_class r, rd_base_addr r)) zs = map snd (map dev_id zs)" for zs
    by (simp_all add: dev_id_def comp_def)
  then show "map rd_name xs = map rd_name ys"
    "map (\<lambda>r. (rd_class r, rd_base_addr r)) xs = map (\<lambda>r. (rd_class r, rd_base_addr r)) ys"
    using assms by metis+
qed

lemma Elaborate_decodable:
  assumes "snd (Elaborate lg rx (Some d) (Some l)) = []"
    and "\<forall>dev \<in> set (d_devices d). \<forall>b. dev_base_addr dev = Some b \<longrightarrow> uint b < 2 ^ 32"
    and "\<forall>dev \<in> set (res_devices (el_res (fst (Elaborate lg rx (Some d) (Some l))))). rd_name dev \<noteq> ''none''"
  shows "decodable (el_res (fst (Elaborate lg rx (Some d) (Some l))))"
    and "validateAddresses (Some (el_res (fst (Elaborate lg rx (Some d) (Some l))))) = []"
    and "distinct (map rd_name (res_devices (el_res (fst (Elaborate lg rx (Some d) (Some l))))))"
proof -
  let ?res = "el_res (fst (Elaborate lg rx (Some d) (Some l)))" and ?dev = "fst (Devices lg (Some d) (Some l))"
  have ok: "snd (Devices lg (Some d) (Some l)) = []" "validateAddresses (Some ?res) = []"
    using assms(1) unfolding Elaborate_errors Elaborate_res Let_def by blast+
  note D = Devices_ok [OF ok(1)]
  note ids = Elaborate_keeps(1) [of lg rx d "Some l"]
  from map_dev_id_parts(1) [OF ids] D(1) show names: "distinct (map rd_name (res_devices ?res))" by simp
  have cb: "map (\<lambda>r. (rd_class r, rd_base_addr r)) (res_devices ?res) =
      map (\<lambda>dev. (dev_class dev, dev_base_addr dev)) (d_devices d)"
    using map_dev_id_parts(2) [OF ids] D(2) by simp
  show "validateAddresses (Some ?res) = []" by (rule ok(2))
  show "decodable ?res"
    unfolding decodable_def
  proof (intro conjI ballI allI impI)
    show "distinct (map bd_name (busDevicesOf ?res))"
      using map_filter_names [OF names, of ?res] unfolding busDevicesOf_def by (simp add: distinct_map)
    fix rd b assume rd: "rd \<in> set (res_devices ?res)" "rd_base_addr rd = Some b"
    have "dev_id rd \<in> set (map dev_id (res_devices ?dev))" using rd(1) unfolding ids [symmetric] by simp
    then obtain r0 where "r0 \<in> set (res_devices ?dev)" "rd_class rd = rd_class r0"
      by (auto simp: dev_id_def)
    then show "class_of ?res rd \<noteq> None"
      using D(3) unfolding class_of_def Elaborate_keeps(2) by metis
    have "(rd_class rd, Some b) \<in> set (map (\<lambda>r. (rd_class r, rd_base_addr r)) (res_devices ?res))"
      using rd by force
    then obtain dev where "dev \<in> set (d_devices d)" "dev_base_addr dev = Some b" unfolding cb by auto
    then show "uint b < 2 ^ 32" using assms(2) by blast
    show "rd_name rd \<noteq> ''none''" using assms(3) rd(1) by blast
  qed
qed

section \<open>Properties\<close>

text \<open>
  C1: end to end. When a board elaborates without an error, all base addresses of its devices are below
  \<open>2 ^ 32\<close> and no device is named \<open>none\<close>, then the device names are pairwise different and the generated
  \<open>decode_address\<close> returns, for every address of the device region inside the address space of a
  device on the bus, the literal of that device, in both decode modes.
\<close>

theorem Elaborate_decodes:
  assumes "Elaborate lg rx (Some d) (Some l) = (e, [])"
    and "\<forall>dev \<in> set (d_devices d). \<forall>b. dev_base_addr dev = Some b \<longrightarrow> uint b < 2 ^ 32"
    and "\<forall>dev \<in> set (res_devices (el_res e)). rd_name dev \<noteq> ''none''"
    and "on_bus (el_res e) dev b lab" "in_device_region (ucast a)" "uint a \<in> addr_space b lab"
  shows "distinct (map rd_name (res_devices (el_res e))) \<and>
    decode_result (el_res e) simple a = Some (Returned (devLit (rd_name dev)))"
proof -
  have E: "snd (Elaborate lg rx (Some d) (Some l)) = []" "fst (Elaborate lg rx (Some d) (Some l)) = e"
    using assms(1) by simp_all
  note D = Elaborate_decodable [OF E(1) assms(2), unfolded E(2), OF assms(3)]
  obtain body where "decodeBody (busDevicesOf (el_res e)) (busLits (el_res e)) simple = Some body"
    "exec_stmts (addr_word a) body = Returned (devLit (rd_name dev))"
    using decode_total [OF iffD1 [OF validateAddresses_Nil D(2)] D(1), of simple] assms(4-6) by blast
  then show ?thesis using D(3) by (simp add: decode_result_body)
qed

text \<open>A board with two UARTs, the second auto-named around the first.\<close>

definition uart_entity :: entity where
  "uart_entity = \<lparr>en_name = ''uart'', en_generics = [],
     en_ports = [\<lparr>ip_name = ''db_i'', ip_dir = ''in'', ip_type = \<lparr>tr_mark = ''cpu_data_o_t'', tr_constraint = None\<rparr>,
                  ip_global_name = [], ip_local_name = [], ip_irq = False\<rparr>,
                 \<lparr>ip_name = ''db_o'', ip_dir = ''out'', ip_type = \<lparr>tr_mark = ''cpu_data_i_t'', tr_constraint = None\<rparr>,
                  ip_global_name = [], ip_local_name = [], ip_irq = False\<rparr>],
     en_peripheral_buses = [], en_uses = []\<rparr>"

definition uart_library :: library where
  "uart_library = \<lparr>lib_entities = [(''uart'', uart_entity)], lib_packages = [],
     lib_architectures = [(''uart'', [\<lparr>ar_name = ''rtl'', ar_entity = ''uart''\<rparr>])],
     lib_configurations = [], lib_index = []\<rparr>"

definition uart_design :: design where
  "uart_design = (demo_design [demo_dev ''uart'' ''uart0'', demo_dev ''uart'' []])
     \<lparr>d_device_classes := [(''uart'', demo_regs)],
      d_devices := [(demo_dev ''uart'' ''uart0'')\<lparr>dev_base_addr := Some 0xABCD0100\<rparr>,
                    (demo_dev ''uart'' [])\<lparr>dev_base_addr := Some 0xABCD0200\<rparr>]\<rparr>"

definition no_regex :: regex_engine where
  "no_regex = (\<lambda>_ _. None)"

definition uart_elaborated :: elaborated where
  "uart_elaborated = fst (Elaborate ceil_log2 no_regex (Some uart_design) (Some uart_library))"

text \<open>What the passes make of it.\<close>

definition uart_class :: resolved_class where
  "uart_class = \<lparr>rc_name = ''uart'', rc_entity = Some uart_entity, rc_arch_name = ''rtl'', rc_config = None,
     rc_regs = [\<lparr>rr_name = ''rx'', rr_addr = 0, rr_width = 4, rr_byte_range = (0, 3), rr_mode = ''r'', rr_type = ''fixed''\<rparr>,
                \<lparr>rr_name = ''ctl'', rr_addr = 8, rr_width = 2, rr_byte_range = (8, 9), rr_mode = ''rw'', rr_type = ''fixed''\<rparr>],
     rc_left_addr_bit = 3, rc_reg_range = (0, 12), rc_generics = []\<rparr>"

definition uart_port :: "string \<Rightarrow> string \<Rightarrow> string \<Rightarrow> string \<Rightarrow> resolved_port" where
  "uart_port n dir mark sig = \<lparr>rp_name = n, rp_dir = dir,
     rp_type = Some \<lparr>rt_mark = mark, rt_constraint = None, rt_left = None, rt_right = None, rt_dir = []\<rparr>,
     rp_kind = KindDataBus, rp_global_signal = sig, rp_value = None\<rparr>"

definition uart_rd :: "string \<Rightarrow> u64 \<Rightarrow> resolved_device" where
  "uart_rd n b = \<lparr>rd_name = n, rd_class = ''uart'', rd_generics = [], rd_base_addr = Some b,
     rd_ports = [uart_port ''db_i'' ''in'' ''cpu_data_o_t'' (n @ ''_db_i''), uart_port ''db_o'' ''out'' ''cpu_data_i_t'' (n @ ''_db_o'')],
     rd_data_bus = True, rd_generic_types = []\<rparr>"

definition uart_resolved :: resolution where
  "uart_resolved = \<lparr>res_classes = [(''uart'', uart_class)],
     res_devices = [uart_rd ''uart0'' 0xABCD0100, uart_rd ''uart1'' 0xABCD0200],
     res_top_entities = [], res_padring_entities = [], res_signals = [], res_pins = [], res_entity_bound_pads = [],
     res_data_bus = Some \<lparr>pbm_master_bus = ''cpu0'', pbm_connected = [], pbm_disconnected = [], pbm_mux_stages = [],
       pbm_decode_mode = ''simple''\<rparr>\<rparr>"

lemma uart_structure:
  "snd (Devices ceil_log2 (Some uart_design) (Some uart_library)) = []"
  "elaborateStructure uart_design (Some uart_library) (fst (Devices ceil_log2 (Some uart_design) (Some uart_library))) =
     (uart_resolved, [])"
  by code_simp+

lemma uart_signals: "elaborateSignals no_regex uart_design uart_resolved = (uart_resolved, [])"
  by code_simp

lemma uart_checks:
  "validateAddresses (Some uart_resolved) = []" "snd (buildIRQ uart_resolved (Some uart_design)) = []"
  by code_simp+

lemma categorize_empty: "res_signals res = [] \<Longrightarrow> snd (categorize res) = []"
  by (simp add: categorize_def Let_def split_beta boundary_ports_def padringTopSigs_def topDevicesSigs_def
      filterByContext_def contextSets_def bucket_def sorted_keys_def List.map_filter_def)

lemma uart_board_ok: "Elaborate ceil_log2 no_regex (Some uart_design) (Some uart_library) = (uart_elaborated, [])"
proof -
  have "res_signals uart_resolved = []" by (simp add: uart_resolved_def)
  then have "snd (Elaborate ceil_log2 no_regex (Some uart_design) (Some uart_library)) = []"
    unfolding Elaborate_errors Let_def by (simp add: uart_structure uart_signals uart_checks categorize_empty)
  then show ?thesis unfolding uart_elaborated_def by (metis prod.collapse)
qed

lemma uart_elaborated_res: "el_res uart_elaborated = uart_resolved"
  by (simp add: uart_elaborated_def Elaborate_res uart_structure uart_signals)

theorem Elaborate_decodes_witness:
  "decode_result (el_res uart_elaborated) True 0xABCD0208 = Some (Returned ''DEV_UART1'')"
proof -
  let ?r = "uart_rd ''uart1'' 0xABCD0200"
  have cls: "class_of uart_resolved ?r = Some uart_class" by code_simp
  have "\<forall>dev \<in> set (d_devices uart_design). \<forall>b. dev_base_addr dev = Some b \<longrightarrow> uint b < 2 ^ 32"
    by (simp add: uart_design_def demo_design_def)
  moreover have "\<forall>dev \<in> set (res_devices (el_res uart_elaborated)). rd_name dev \<noteq> ''none''"
    by (simp add: uart_elaborated_res uart_resolved_def uart_rd_def)
  moreover have "on_bus (el_res uart_elaborated) ?r 0xABCD0200 3"
    by (simp add: uart_elaborated_res on_bus_def mapped_def cls)
      (simp add: uart_resolved_def uart_rd_def uart_class_def)
  moreover have "in_device_region (ucast (0xABCD0208 :: 32 word))" "uint (0xABCD0208 :: 32 word) \<in> addr_space 0xABCD0200 3"
    by (simp_all add: in_device_region_def addr_space_def)
  ultimately have "decode_result (el_res uart_elaborated) True 0xABCD0208 = Some (Returned (devLit (rd_name ?r)))"
    using Elaborate_decodes [OF uart_board_ok, of ?r "0xABCD0200" 3 "0xABCD0208" True] by blast
  moreover have "devLit ''uart1'' = ''DEV_UART1''" by code_simp
  ultimately show ?thesis by (simp add: uart_rd_def)
qed

end
