(* ===== verification/Vhdl_Lexer.thy ===== *)
theory Vhdl_Lexer
  imports Vhdl_Token
begin

text \<open>
  Model of \<open>src/tools/socgen/vhdl/lexer.go\<close> and of the token loop of \<open>newParser\<close> in \<open>parser.go\<close>.

  The state holds the bytes from the current offset on (\<open>src[off:]\<close>), the offset, the kind of the last
  token and the file with its line table. A scanning loop of the code advances over a run of bytes
  until its condition fails: here a function gives that run and \<open>advances\<close> moves over it, byte by
  byte, as the loop does. A byte is a \<open>char\<close>.
\<close>

section \<open>State\<close>

record lexer =
  lx_rest :: string
  lx_off :: nat
  lx_prev :: kind
  lx_file :: src_file

definition NewLexer :: "string \<Rightarrow> src_file option \<Rightarrow> lexer" where
  "NewLexer src fo =
     \<lparr>lx_rest = src, lx_off = 0, lx_prev = Kind 0,
      lx_file = (case fo of Some f \<Rightarrow> f | None \<Rightarrow> fst (AddFile NewFileSet [] (length src)))\<rparr>"

abbreviation nul :: char where "nul \<equiv> CHR 0x00"

definition peek :: "lexer \<Rightarrow> char" where
  "peek l = (case lx_rest l of [] \<Rightarrow> nul | c # s \<Rightarrow> c)"

definition peekAt :: "lexer \<Rightarrow> nat \<Rightarrow> char" where
  "peekAt l n = (case drop n (lx_rest l) of [] \<Rightarrow> nul | c # s \<Rightarrow> c)"

definition lex_advance :: "lexer \<Rightarrow> lexer" where
  "lex_advance l =
     (case lx_rest l of
        [] \<Rightarrow> l
      | c # s \<Rightarrow>
          let l' = l\<lparr>lx_rest := s, lx_off := lx_off l + 1\<rparr>
          in if c = CHR 0x0A then l'\<lparr>lx_file := AddLine (lx_file l) (int (lx_off l + 1))\<rparr> else l')"

definition advances :: "nat \<Rightarrow> lexer \<Rightarrow> lexer" where
  "advances n l = (lex_advance ^^ n) l"

section \<open>Character classes\<close>

definition isLetter :: "char \<Rightarrow> bool" where
  "isLetter c \<longleftrightarrow> is_lower c \<or> is_upper c"

definition isIdentStart :: "char \<Rightarrow> bool" where
  "isIdentStart c \<longleftrightarrow> isLetter c"

definition isIdentCont :: "char \<Rightarrow> bool" where
  "isIdentCont c \<longleftrightarrow> isLetter c \<or> is_digit c \<or> c = CHR ''_''"

definition isBitstringBase :: "char \<Rightarrow> bool" where
  "isBitstringBase c \<longleftrightarrow> c \<in> set ''bBoOxX''"

definition isNameEnd :: "kind \<Rightarrow> bool" where
  "isNameEnd k \<longleftrightarrow> k = K_IDENT \<or> k = K_EXTIDENT \<or> k = K_RPAREN \<or> k = K_TICK"

definition lex_space :: "char \<Rightarrow> bool" where
  "lex_space c \<longleftrightarrow> c = CHR '' '' \<or> c = CHR 0x09 \<or> c = CHR 0x0D \<or> c = CHR 0x0A"

definition digit_or_us :: "char \<Rightarrow> bool" where
  "digit_or_us c \<longleftrightarrow> is_digit c \<or> c = CHR ''_''"

definition based_digit :: "char \<Rightarrow> bool" where
  "based_digit c \<longleftrightarrow> is_digit c \<or> c \<in> set ''abcdefABCDEF'' \<or> c = CHR ''_''"

section \<open>Runs of bytes\<close>

text \<open>
  The rest of a quoted text after its opening quote: up to the closing quote, a doubled quote not
  being one, or to the end of the source.
\<close>

fun scan_quoted :: "char \<Rightarrow> string \<Rightarrow> string" where
  "scan_quoted q [] = []"
| "scan_quoted q [c] = [c]"
| "scan_quoted q (c # d # s) =
     (if c = q then (if d = q then c # d # scan_quoted q s else [c]) else c # scan_quoted q (d # s))"

text \<open>An optional exponent: \<open>e\<close>, an optional sign, digits.\<close>

definition scan_sign :: "string \<Rightarrow> string" where
  "scan_sign s = (case s of c # t \<Rightarrow> if c = CHR ''+'' \<or> c = CHR ''-'' then [c] else [] | [] \<Rightarrow> [])"

definition scan_exponent :: "string \<Rightarrow> string" where
  "scan_exponent s =
     (case s of
        [] \<Rightarrow> []
      | c # t \<Rightarrow>
          if c = CHR ''e'' \<or> c = CHR ''E''
          then c # scan_sign t @ takeWhile is_digit (drop (length (scan_sign t)) t)
          else [])"

text \<open>A number: integer, based or real literal.\<close>

definition scan_number :: "string \<Rightarrow> kind \<times> string" where
  "scan_number s =
     (let ds = takeWhile digit_or_us s; r = dropWhile digit_or_us s in
      case r of
        [] \<Rightarrow> (K_INT, ds)
      | c # t \<Rightarrow>
          if c = CHR ''#'' then
            (let bs = takeWhile based_digit t; u = dropWhile based_digit t;
                 cl = (case u of d # v \<Rightarrow> if d = CHR ''#'' then [d] else [] | [] \<Rightarrow> [])
             in (K_BASEDLIT, ds @ [c] @ bs @ cl @ scan_exponent (drop (length cl) u)))
          else if c = CHR ''.'' \<and> t \<noteq> [] \<and> is_digit (hd t) then
            (let fs = takeWhile digit_or_us t
             in (K_REAL, ds @ [c] @ fs @ scan_exponent (drop (length fs) t)))
          else if c = CHR ''e'' \<or> c = CHR ''E'' then (K_REAL, ds @ scan_exponent r)
          else (K_INT, ds))"

text \<open>An identifier, a keyword, or a bit string when a base letter is followed by a quote.\<close>

definition scan_ident :: "string \<Rightarrow> kind \<times> string" where
  "scan_ident s =
     (let lit = takeWhile isIdentCont s; r = dropWhile isIdentCont s in
      if length lit = 1 \<and> isBitstringBase (hd lit) \<and> r \<noteq> [] \<and> hd r = CHR 0x22
      then (K_BITSTRINGLIT, lit @ [CHR 0x22] @ scan_quoted (CHR 0x22) (tl r))
      else (case LookupKeyword lit of Some k \<Rightarrow> (k, lit) | None \<Rightarrow> (K_IDENT, lit)))"

text \<open>\<open>string(c)\<close> of a byte: Go encodes the code point as UTF-8, two bytes from 128 on.\<close>

definition byte_string :: "char \<Rightarrow> string" where
  "byte_string c =
     (let n = char_code c in if n < 128 then [c] else [char_of (192 + n div 64), char_of (128 + n mod 64)])"

text \<open>
  A delimiter that starts with \<open>c\<close>: its kind, its literal text and how many bytes follow \<open>c\<close> in it.
\<close>

definition second :: "string \<Rightarrow> char \<Rightarrow> bool" where
  "second s d \<longleftrightarrow> s \<noteq> [] \<and> hd s = d"

definition delimiter :: "kind \<Rightarrow> char \<Rightarrow> string \<Rightarrow> kind \<times> string \<times> nat" where
  "delimiter prev c s =
     (if c = CHR ''('' then (K_LPAREN, [], 0)
      else if c = CHR '')'' then (K_RPAREN, [], 0)
      else if c = CHR ''['' then (K_LBRACKET, [], 0)
      else if c = CHR '']'' then (K_RBRACKET, [], 0)
      else if c = CHR '','' then (K_COMMA, [], 0)
      else if c = CHR '';'' then (K_SEMICOLON, [], 0)
      else if c = CHR ''+'' then (K_PLUS, [], 0)
      else if c = CHR ''-'' then (K_MINUS, [], 0)
      else if c = CHR ''&'' then (K_AMP, [], 0)
      else if c = CHR ''|'' then (K_BAR, [], 0)
      else if c = CHR ''.'' then (K_DOT, [], 0)
      else if c = CHR 0x27 then
        (if isNameEnd prev then (K_TICK, [], 0)
         else if 2 \<le> length s \<and> s ! 1 = CHR 0x27
         then (K_CHARLIT, [CHR 0x27] @ byte_string (hd s) @ [CHR 0x27], 2)
         else (K_TICK, [], 0))
      else if c = CHR '':'' then (if second s (CHR ''='') then (K_ASSIGN, [], 1) else (K_COLON, [], 0))
      else if c = CHR ''='' then (if second s (CHR ''>'') then (K_ARROW, [], 1) else (K_EQ, [], 0))
      else if c = CHR ''>'' then (if second s (CHR ''='') then (K_GE, [], 1) else (K_GT, [], 0))
      else if c = CHR ''<'' then
        (if second s (CHR ''='') then (K_LE, [], 1)
         else if second s (CHR ''>'') then (K_BOX, [], 1) else (K_LT, [], 0))
      else if c = CHR ''/'' then (if second s (CHR ''='') then (K_NE, [], 1) else (K_SLASH, [], 0))
      else if c = CHR ''*'' then (if second s (CHR ''*'') then (K_EXP, [], 1) else (K_STAR, [], 0))
      else (K_ILLEGAL, byte_string c, 0))"

text \<open>The token at the start of a text that is not empty and does not start with white space: its kind,
  its literal text and its length in bytes.\<close>

definition lex_token :: "kind \<Rightarrow> char \<Rightarrow> string \<Rightarrow> kind \<times> string \<times> nat" where
  "lex_token prev c s =
     (if c = CHR ''-'' \<and> second s (CHR ''-'') then
        (let t = takeWhile (\<lambda>d. d \<noteq> CHR 0x0A) (c # s) in (K_COMMENT, t, length t))
      else if c = CHR 0x5C then (let t = c # scan_quoted c s in (K_EXTIDENT, t, length t))
      else if c = CHR 0x22 then (let t = c # scan_quoted c s in (K_STRINGLIT, t, length t))
      else if isIdentStart c then (case scan_ident (c # s) of (k, t) \<Rightarrow> (k, t, length t))
      else if is_digit c then (case scan_number (c # s) of (k, t) \<Rightarrow> (k, t, length t))
      else (case delimiter prev c s of (k, t, n) \<Rightarrow> (k, t, Suc n)))"

section \<open>Next\<close>

definition skip_space :: "lexer \<Rightarrow> lexer" where
  "skip_space l = advances (length (takeWhile lex_space (lx_rest l))) l"

definition emit :: "lexer \<Rightarrow> kind \<Rightarrow> string \<Rightarrow> int \<Rightarrow> token \<times> lexer" where
  "emit l k lit p = (\<lparr>tok_kind = k, tok_lit = lit, tok_pos = p\<rparr>, l\<lparr>lx_prev := k\<rparr>)"

definition Next :: "lexer \<Rightarrow> token \<times> lexer" where
  "Next l0 =
     (let l = skip_space l0; startPos = file_Pos (lx_file l) (int (lx_off l)) in
      case lx_rest l of
        [] \<Rightarrow> emit l K_EOF [] startPos
      | c # s \<Rightarrow>
          (case lex_token (lx_prev l) c s of
             (k, lit, n) \<Rightarrow> emit (advances n l) k lit startPos))"

text \<open>
  The loop of \<open>newParser\<close>, with its bound on the number of iterations; the token and the file at the end.
\<close>

definition eof_token :: token where
  "eof_token = \<lparr>tok_kind = K_EOF, tok_lit = [], tok_pos = 0\<rparr>"

fun lex_loop :: "nat \<Rightarrow> lexer \<Rightarrow> token list \<times> src_file" where
  "lex_loop 0 l = ([eof_token], lx_file l)"
| "lex_loop (Suc n) l =
     (case Next l of
        (tok, l') \<Rightarrow>
          if tok_kind tok = K_COMMENT then lex_loop n l'
          else if tok_kind tok = K_EOF then ([tok], lx_file l')
          else (case lex_loop n l' of (toks, f) \<Rightarrow> (tok # toks, f)))"

definition lex_source :: "string \<Rightarrow> src_file option \<Rightarrow> token list \<times> src_file" where
  "lex_source src fo =
     (let f = (case fo of Some f \<Rightarrow> f | None \<Rightarrow> fst (AddFile NewFileSet [] (length src)))
      in lex_loop (length src * 2 + 17) (NewLexer src (Some f)))"

end
