(* ===== verification/Vhdl_Lex_Props.thy ===== *)
theory Vhdl_Lex_Props
  imports Vhdl_Lexer
begin

text \<open>
  Correctness of the lexer: every token takes at least one byte, so the bound of \<open>newParser\<close> is never
  reached; token positions and line starts are those of the source; and a description of the token
  list as a function of the remaining text, on which the round trip of the printer rests.
\<close>

section \<open>Moving over bytes\<close>

lemma lex_advance_simps [simp]:
  "lx_rest (lex_advance l) = tl (lx_rest l)" "lx_prev (lex_advance l) = lx_prev l"
  by (simp_all add: lex_advance_def Let_def split: list.split)

lemma advances_0 [simp]: "advances 0 l = l"
  by (simp add: advances_def)

lemma advances_Suc: "advances (Suc n) l = advances n (lex_advance l)"
  unfolding advances_def funpow_Suc_right by simp

lemma advances_rest [simp]: "lx_rest (advances n l) = drop n (lx_rest l)"
  by (induction n arbitrary: l) (simp_all add: advances_Suc drop_Suc)

lemma advances_prev [simp]: "lx_prev (advances n l) = lx_prev l"
  by (induction n arbitrary: l) (simp_all add: advances_Suc)

lemma advances_off: "n \<le> length (lx_rest l) \<Longrightarrow> lx_off (advances n l) = lx_off l + n"
proof (induction n arbitrary: l)
  case 0
  then show ?case by simp
next
  case (Suc n)
  then obtain c s where "lx_rest l = c # s" by (cases "lx_rest l") auto
  with Suc show ?case by (simp add: advances_Suc lex_advance_def Let_def)
qed

text \<open>The line starts a run of bytes adds, for a run that begins at an offset.\<close>

definition line_starts :: "nat \<Rightarrow> string \<Rightarrow> int list" where
  "line_starts off s = map (\<lambda>i. int (off + i + 1)) (filter (\<lambda>i. s ! i = CHR 0x0A) [0..<length s])"

lemma line_starts_Nil [simp]: "line_starts off [] = []"
  by (simp add: line_starts_def)

lemma filter_upt_Suc: "filter P [0..<Suc n] = (if P 0 then [0] else []) @ map Suc (filter (\<lambda>i. P (Suc i)) [0..<n])"
proof -
  have "[0..<Suc n] = 0 # map Suc [0..<n]" by (simp add: upt_conv_Cons map_Suc_upt del: upt_Suc)
  then show ?thesis by (simp add: filter_map comp_def)
qed

lemma line_starts_Cons:
  "line_starts off (c # s) = (if c = CHR 0x0A then [int (off + 1)] else []) @ line_starts (Suc off) s"
  unfolding line_starts_def length_Cons filter_upt_Suc by (simp add: comp_def)

lemma line_starts_append: "line_starts off (s @ t) = line_starts off s @ line_starts (off + length s) t"
  by (induction s arbitrary: off) (simp_all add: line_starts_Cons)

lemma advances_file:
  "n \<le> length (lx_rest l) \<Longrightarrow>
     lx_file (advances n l) = (lx_file l)\<lparr>file_lines := file_lines (lx_file l) @ line_starts (lx_off l) (take n (lx_rest l))\<rparr>"
proof (induction n arbitrary: l)
  case 0
  then show ?case by simp
next
  case (Suc n)
  from Suc.prems obtain c s where r: "lx_rest l = c # s" by (cases "lx_rest l") auto
  have adv: "lx_off (lex_advance l) = Suc (lx_off l)"
    "lx_file (lex_advance l) = (lx_file l)\<lparr>file_lines := file_lines (lx_file l) @
       (if c = CHR 0x0A then [int (lx_off l + 1)] else [])\<rparr>"
    by (simp_all add: lex_advance_def r Let_def AddLine_def)
  have "n \<le> length (lx_rest (lex_advance l))" using Suc.prems by (simp add: r)
  from Suc.IH [OF this] have "lx_file (advances n (lex_advance l)) =
      (lx_file (lex_advance l))\<lparr>file_lines := file_lines (lx_file (lex_advance l)) @ line_starts (Suc (lx_off l)) (take n s)\<rparr>"
    by (simp add: adv(1) r)
  then show ?case
    unfolding advances_Suc r take_Suc_Cons line_starts_Cons adv(2) by simp
qed

section \<open>Every token takes bytes of the source\<close>

lemma scan_quoted_prefix: "prefix (scan_quoted q s) s"
  by (induction q s rule: scan_quoted.induct) auto

lemma scan_sign_prefix: "prefix (scan_sign s) s"
  by (auto simp: scan_sign_def split: list.split)

lemma prefix_drop: "prefix a s \<Longrightarrow> prefix b (drop (length a) s) \<Longrightarrow> prefix (a @ b) s"
  by (auto simp: prefix_def)

lemma prefix_takeWhile: "prefix (takeWhile P s @ w) s \<longleftrightarrow> prefix w (dropWhile P s)"
  using same_prefix_prefix [of "takeWhile P s" w "dropWhile P s"] by simp

lemma scan_exponent_prefix: "prefix (scan_exponent s) s"
  using prefix_drop [OF scan_sign_prefix takeWhile_is_prefix]
  by (auto simp: scan_exponent_def split: list.split)

lemma scan_number_prefix: "prefix (snd (scan_number s)) s"
proof -
  let ?ds = "takeWhile digit_or_us s" and ?r = "dropWhile digit_or_us s"
  note tail = prefix_takeWhile [of digit_or_us s]
  show ?thesis
  proof (cases ?r)
    case Nil
    then show ?thesis using takeWhile_is_prefix [of digit_or_us s] unfolding scan_number_def Let_def Nil by simp
  next
    case (Cons c t)
    let ?bs = "takeWhile based_digit t" and ?u = "dropWhile based_digit t"
    let ?cl = "case ?u of d # v \<Rightarrow> if d = CHR ''#'' then [d] else [] | [] \<Rightarrow> []"
    have "prefix (case u of d # v \<Rightarrow> if d = CHR ''#'' then [d] else [] | [] \<Rightarrow> []) u" for u :: string
      by (cases u) auto
    then have "prefix ?cl ?u" .
    then have "prefix (?cl @ scan_exponent (drop (length ?cl) ?u)) ?u"
      by (rule prefix_drop [OF _ scan_exponent_prefix])
    then have "prefix (?bs @ ?cl @ scan_exponent (drop (length ?cl) ?u)) t"
      by (simp only: prefix_takeWhile)
    then have based: "prefix (?ds @ [c] @ ?bs @ ?cl @ scan_exponent (drop (length ?cl) ?u)) s"
      unfolding tail Cons by simp
    have "prefix (takeWhile digit_or_us t @ scan_exponent (drop (length (takeWhile digit_or_us t)) t)) t"
      by (rule prefix_drop [OF takeWhile_is_prefix scan_exponent_prefix])
    then have real: "prefix (?ds @ [c] @ takeWhile digit_or_us t @ scan_exponent (drop (length (takeWhile digit_or_us t)) t)) s"
      unfolding tail Cons by simp
    have int_exp: "prefix (?ds @ scan_exponent ?r) s" unfolding tail by (rule scan_exponent_prefix)
    have plain: "prefix ?ds s" by (rule takeWhile_is_prefix)
    show ?thesis
      using based real int_exp plain unfolding scan_number_def Let_def Cons by auto
  qed
qed

lemma scan_ident_prefix: "prefix (snd (scan_ident s)) s"
proof -
  let ?lit = "takeWhile isIdentCont s" and ?r = "dropWhile isIdentCont s"
  show ?thesis
  proof (cases "length ?lit = 1 \<and> isBitstringBase (hd ?lit) \<and> ?r \<noteq> [] \<and> hd ?r = CHR 0x22")
    case True
    then obtain t where r: "?r = CHR 0x22 # t" by (cases ?r) auto
    have "prefix ([CHR 0x22] @ scan_quoted (CHR 0x22) t) ?r" unfolding r by (simp add: scan_quoted_prefix)
    then have "prefix (?lit @ [CHR 0x22] @ scan_quoted (CHR 0x22) t) s"
      by (simp only: prefix_takeWhile)
    with True r show ?thesis by (simp add: scan_ident_def Let_def)
  next
    case False
    then have "snd (scan_ident s) = ?lit"
      unfolding scan_ident_def Let_def by (simp only: if_False) (simp split: option.split)
    then show ?thesis by (simp add: takeWhile_is_prefix)
  qed
qed

lemma delimiter_length: "case delimiter p c s of (k, t, n) \<Rightarrow> n \<le> length s"
  by (simp add: delimiter_def second_def split: if_splits) (auto simp: Suc_le_eq)

lemma scan_head:
  "isIdentStart c \<Longrightarrow> snd (scan_ident (c # s)) \<noteq> []"
  "is_digit c \<Longrightarrow> snd (scan_number (c # s)) \<noteq> []"
proof -
  assume "isIdentStart c"
  then have "isIdentCont c" by (simp add: isIdentStart_def isIdentCont_def)
  then show "snd (scan_ident (c # s)) \<noteq> []"
    by (simp add: scan_ident_def Let_def split: option.split)
next
  assume "is_digit c"
  then have "digit_or_us c" by (simp add: digit_or_us_def)
  then show "snd (scan_number (c # s)) \<noteq> []"
    by (simp add: scan_number_def Let_def split: list.split)
qed

lemma lex_token_length: "case lex_token p c s of (k, t, n) \<Rightarrow> 0 < n \<and> n \<le> length (c # s)"
proof -
  have "length (takeWhile (\<lambda>d. d \<noteq> CHR 0x0A) (c # s)) \<le> length (c # s)" by (rule length_takeWhile_le)
  then show ?thesis
    using prefix_length_le [OF scan_ident_prefix [of "c # s"]] prefix_length_le [OF scan_number_prefix [of "c # s"]]
      prefix_length_le [OF scan_quoted_prefix [of c s]] delimiter_length [where p = p and c = c and s = s] scan_head [of c s]
    by (auto simp: lex_token_def Let_def split_beta)
qed

text \<open>A literal is the text of the token, except for characters and illegal bytes, which are re-encoded.\<close>

lemma lex_token_text:
  assumes "lex_token p c s = (k, t, n)" "t \<noteq> []" "k \<noteq> K_CHARLIT" "k \<noteq> K_ILLEGAL"
  shows "take n (c # s) = t"
proof -
  have pre: "take (length t) r = t" if "prefix t r" for r t :: string using that by (auto simp: prefix_def)
  have "prefix (c # scan_quoted c s) (c # s)" by (simp add: scan_quoted_prefix)
  then show ?thesis
    using assms pre [OF scan_ident_prefix [of "c # s"]] pre [OF scan_number_prefix [of "c # s"]]
      pre [OF takeWhile_is_prefix [of "\<lambda>d. d \<noteq> CHR 0x0A" "c # s"]] pre [of "c # scan_quoted c s" "c # s"]
    by (auto simp: lex_token_def Let_def delimiter_def split_beta split: if_splits)
qed

lemma lex_token_kind: "case lex_token p c s of (k, t, n) \<Rightarrow> k \<noteq> K_EOF"
proof -
  have "fst (scan_ident r) \<noteq> K_EOF" for r
    by (auto simp: scan_ident_def Let_def is_keyword_def dest: LookupKeyword_SomeD split: option.split)
  moreover have "fst (scan_number r) \<noteq> K_EOF" for r
    by (auto simp: scan_number_def Let_def split: list.split)
  moreover have "fst (delimiter p c s) \<noteq> K_EOF"
    by (simp add: delimiter_def)
  ultimately show ?thesis
    by (auto simp: lex_token_def Let_def split_beta)
qed

section \<open>The lexer in its source\<close>

text \<open>A state of the lexer over a source: where it is, and which line starts it has recorded.\<close>

definition lexing :: "string \<Rightarrow> src_file \<Rightarrow> lexer \<Rightarrow> bool" where
  "lexing src f l \<longleftrightarrow> lx_off l \<le> length src \<and> lx_rest l = drop (lx_off l) src \<and>
     lx_file l = f\<lparr>file_lines := file_lines f @ line_starts 0 (take (lx_off l) src)\<rparr>"

lemma lexing_new: "lexing src f (NewLexer src (Some f))"
  by (simp add: lexing_def NewLexer_def)

lemma lexing_advances:
  assumes "lexing src f l" "n \<le> length (lx_rest l)"
  shows "lexing src f (advances n l)" "lx_off (advances n l) = lx_off l + n"
proof -
  have l: "lx_off l + n \<le> length src" "lx_rest l = drop (lx_off l) src"
    using assms by (auto simp: lexing_def)
  show off: "lx_off (advances n l) = lx_off l + n" by (rule advances_off [OF assms(2)])
  have "line_starts 0 (take (lx_off l + n) src) =
      line_starts 0 (take (lx_off l) src) @ line_starts (lx_off l) (take n (drop (lx_off l) src))"
    unfolding take_add line_starts_append using l(1) by simp
  then show "lexing src f (advances n l)"
    using assms advances_file [OF assms(2)] l off by (simp add: lexing_def add.commute)
qed

lemma lexing_prev: "lexing src f (l\<lparr>lx_prev := k\<rparr>) \<longleftrightarrow> lexing src f l"
  by (simp add: lexing_def)

text \<open>One call of \<open>Next\<close>.\<close>

definition token_at :: "string \<Rightarrow> src_file \<Rightarrow> nat \<Rightarrow> token \<Rightarrow> bool" where
  "token_at src f i t \<longleftrightarrow> i < length src \<and> tok_pos t = file_base f + int i \<and>
     (tok_lit t \<noteq> [] \<and> tok_kind t \<noteq> K_CHARLIT \<and> tok_kind t \<noteq> K_ILLEGAL \<longrightarrow>
        take (length (tok_lit t)) (drop i src) = tok_lit t)"

lemma skip_space_lexing:
  assumes "lexing src f l"
  shows "lexing src f (skip_space l)" "lx_rest (skip_space l) = dropWhile lex_space (lx_rest l)"
    "lx_off l \<le> lx_off (skip_space l)"
proof -
  have n: "length (takeWhile lex_space (lx_rest l)) \<le> length (lx_rest l)" by (rule length_takeWhile_le)
  show "lexing src f (skip_space l)" unfolding skip_space_def by (rule lexing_advances(1) [OF assms n])
  show "lx_rest (skip_space l) = dropWhile lex_space (lx_rest l)"
    unfolding skip_space_def by (simp add: dropWhile_eq_drop)
  show "lx_off l \<le> lx_off (skip_space l)"
    unfolding skip_space_def lexing_advances(2) [OF assms n] by simp
qed

lemma Next_EOF:
  assumes "lexing src f l" "dropWhile lex_space (lx_rest l) = []" "Next l = (t, l')"
  shows "t = \<lparr>tok_kind = K_EOF, tok_lit = [], tok_pos = file_base f + int (length src)\<rparr>"
    "lx_file l' = f\<lparr>file_lines := file_lines f @ line_starts 0 src\<rparr>"
proof -
  note sk = skip_space_lexing [OF assms(1)]
  have "lx_off (skip_space l) = length src"
    using sk(1,2) assms(2) by (auto simp: lexing_def)
  with sk(1) have sk': "lx_file (skip_space l) = f\<lparr>file_lines := file_lines f @ line_starts 0 src\<rparr>"
    "lx_off (skip_space l) = length src" by (simp_all add: lexing_def)
  have "lx_rest (skip_space l) = []" unfolding sk(2) by (rule assms(2))
  then have "Next l = emit (skip_space l) K_EOF [] (file_base f + int (length src))"
    by (simp add: Next_def Let_def file_Pos_def sk')
  with assms(3) sk'(1) show "t = \<lparr>tok_kind = K_EOF, tok_lit = [], tok_pos = file_base f + int (length src)\<rparr>"
    "lx_file l' = f\<lparr>file_lines := file_lines f @ line_starts 0 src\<rparr>"
    by (auto simp: emit_def)
qed

lemma Next_token:
  assumes "lexing src f l" "dropWhile lex_space (lx_rest l) = c # s" "Next l = (t, l')"
  shows "tok_kind t \<noteq> K_EOF" "\<exists>i. lx_off l \<le> i \<and> i < lx_off l' \<and> token_at src f i t" "lexing src f l'"
    "length (lx_rest l') < length (lx_rest l)"
    "\<exists>n. lex_token (lx_prev l) c s = (tok_kind t, tok_lit t, n) \<and> lx_rest l' = drop n (c # s)" "lx_prev l' = tok_kind t"
proof -
  let ?l = "skip_space l"
  note sk = skip_space_lexing [OF assms(1)]
  have r: "lx_rest ?l = c # s" and pv: "lx_prev ?l = lx_prev l"
    using sk(2) assms(2) by (simp_all add: skip_space_def)
  obtain k lit n where lt: "lex_token (lx_prev l) c s = (k, lit, n)" by (rule prod_cases3)
  have t: "t = \<lparr>tok_kind = k, tok_lit = lit, tok_pos = file_Pos (lx_file ?l) (int (lx_off ?l))\<rparr>"
    "l' = (advances n ?l)\<lparr>lx_prev := k\<rparr>"
    using assms(3) r pv lt by (simp_all add: Next_def Let_def emit_def)
  have n: "0 < n" "n \<le> length (lx_rest ?l)"
    using lex_token_length [where p = "lx_prev l" and c = c and s = s] lt r by simp_all
  note adv = lexing_advances [OF sk(1) n(2)]
  show "tok_kind t \<noteq> K_EOF" using lex_token_kind [where p = "lx_prev l" and c = c and s = s] lt t by simp
  show "lexing src f l'" using adv(1) t(2) by (simp add: lexing_prev)
  show "lx_prev l' = tok_kind t" using t by simp
  show "\<exists>n. lex_token (lx_prev l) c s = (tok_kind t, tok_lit t, n) \<and> lx_rest l' = drop n (c # s)"
    using lt t r by simp
  have "length (lx_rest ?l) \<le> length (lx_rest l)" unfolding sk(2) by (rule length_dropWhile_le)
  with n show "length (lx_rest l') < length (lx_rest l)" unfolding t(2) by simp
  have src: "c # s = drop (lx_off ?l) src" using sk(1) r by (simp add: lexing_def)
  then have len: "lx_off ?l < length src" by (metis drop_all leI list.distinct(1))
  have "take (length lit) (drop (lx_off ?l) src) = lit" if k: "lit \<noteq> []" "k \<noteq> K_CHARLIT" "k \<noteq> K_ILLEGAL"
  proof -
    have "take n (c # s) = lit" by (rule lex_token_text [OF lt k])
    moreover from this have "length lit = n" using n(2) r by (metis length_take min.absorb2)
    ultimately show ?thesis unfolding src [symmetric] by simp
  qed
  moreover have "file_base (lx_file ?l) = file_base f" using sk(1) by (simp add: lexing_def)
  ultimately have "token_at src f (lx_off ?l) t"
    using len t(1) by (simp add: token_at_def file_Pos_def)
  moreover have "lx_off ?l < lx_off l'" using adv(2) t(2) n(1) by simp
  ultimately have "token_at src f (lx_off ?l) t \<and> lx_off ?l < lx_off l'" ..
  with sk(3) show "\<exists>i. lx_off l \<le> i \<and> i < lx_off l' \<and> token_at src f i t" by blast
qed

lemma lex_loop_sound:
  assumes "lexing src f l" "length (lx_rest l) < n"
  shows "\<exists>ts. lex_loop n l = (ts @ [\<lparr>tok_kind = K_EOF, tok_lit = [], tok_pos = file_base f + int (length src)\<rparr>],
                f\<lparr>file_lines := file_lines f @ line_starts 0 src\<rparr>) \<and>
    (\<forall>t \<in> set ts. tok_kind t \<noteq> K_EOF \<and> tok_kind t \<noteq> K_COMMENT \<and> (\<exists>i \<ge> lx_off l. token_at src f i t)) \<and>
    sorted_wrt (<) (map tok_pos ts)"
  using assms
proof (induction n arbitrary: l)
  case 0
  then show ?case by simp
next
  case (Suc n)
  obtain t l' where nx: "Next l = (t, l')" by (rule prod.exhaust)
  show ?case
  proof (cases "dropWhile lex_space (lx_rest l)")
    case Nil
    note E = Next_EOF [OF Suc.prems(1) Nil nx]
    from E show ?thesis by (intro exI [of _ "[]"]) (simp add: nx)
  next
    case (Cons c s)
    note T = Next_token [OF Suc.prems(1) Cons nx]
    obtain ts where ts: "lex_loop n l' = (ts @ [\<lparr>tok_kind = K_EOF, tok_lit = [], tok_pos = file_base f + int (length src)\<rparr>],
                f\<lparr>file_lines := file_lines f @ line_starts 0 src\<rparr>)"
      "\<forall>t \<in> set ts. tok_kind t \<noteq> K_EOF \<and> tok_kind t \<noteq> K_COMMENT \<and> (\<exists>i \<ge> lx_off l'. token_at src f i t)"
      "sorted_wrt (<) (map tok_pos ts)"
      using Suc.IH [OF T(3)] T(4) Suc.prems(2) by auto
    obtain i where i: "lx_off l \<le> i" "i < lx_off l'" "token_at src f i t" using T(2) by blast
    have all: "\<forall>t \<in> set ts. tok_kind t \<noteq> K_EOF \<and> tok_kind t \<noteq> K_COMMENT \<and> (\<exists>i \<ge> lx_off l. token_at src f i t)"
      using ts(2) i(1,2) by (meson le_trans less_imp_le_nat)
    show ?thesis
    proof (cases "tok_kind t = K_COMMENT")
      case True
      with nx ts(1,3) all show ?thesis by (intro exI [of _ ts]) simp
    next
      case False
      have "tok_pos t < tok_pos u" if "u \<in> set ts" for u
        using ts(2) i that by (fastforce simp: token_at_def)
      with False nx ts(1,3) all T(1) i show ?thesis by (intro exI [of _ "t # ts"]) auto
    qed
  qed
qed

section \<open>Lines and columns\<close>

lemma line_starts_bounds: "x \<in> set (line_starts off s) \<Longrightarrow> int off < x \<and> x \<le> int (off + length s)"
  by (auto simp: line_starts_def)

lemma line_starts_sorted: "sorted (line_starts off s)"
  by (induction s arbitrary: off) (auto simp: line_starts_Cons dest!: line_starts_bounds)

lemma line_starts_upto: "filter (\<lambda>x. x \<le> int i) (line_starts 0 src) = line_starts 0 (take i src)"
proof -
  have "line_starts 0 src = line_starts 0 (take i src) @ line_starts (length (take i src)) (drop i src)"
    using line_starts_append [of 0 "take i src" "drop i src"] by simp
  moreover have "filter (\<lambda>x. x \<le> int i) (line_starts 0 (take i src)) = line_starts 0 (take i src)"
    by (auto intro!: filter_True dest!: line_starts_bounds)
  moreover have "filter (\<lambda>x. x \<le> int i) (line_starts (length (take i src)) (drop i src)) = []"
  proof (cases "i \<le> length src")
    case True
    then show ?thesis by (auto simp: filter_empty_conv dest!: line_starts_bounds)
  qed simp
  ultimately show ?thesis by simp
qed

lemma line_starts_count: "length (line_starts off s) = length (filter (\<lambda>c. c = CHR 0x0A) s)"
  by (induction s arbitrary: off) (simp_all add: line_starts_Cons)

lemma line_starts_last:
  "int (length s) - last (0 # line_starts 0 s) = int (length (takeWhile (\<lambda>c. c \<noteq> CHR 0x0A) (rev s)))"
proof (induction s rule: rev_induct)
  case Nil
  then show ?case by simp
next
  case (snoc c s)
  have "line_starts 0 (s @ [c]) = line_starts 0 s @ (if c = CHR 0x0A then [int (length s + 1)] else [])"
    by (simp add: line_starts_append line_starts_Cons)
  with snoc show ?case by (auto simp: algebra_simps)
qed

lemma search_lines:
  assumes "sorted L"
  shows "search_loop (\<lambda>i. L ! i > off) 0 (length L) = length (filter (\<lambda>x. x \<le> (off :: int)) L)"
    and "filter (\<lambda>x. x \<le> off) L = take (length (filter (\<lambda>x. x \<le> off) L)) L"
proof -
  let ?n = "search_loop (\<lambda>i. L ! i > off) 0 (length L)"
  have up: "off < L ! b" if "a \<le> b" "b < length L" "off < L ! a" for a b
    using sorted_nth_mono [OF assms that(1,2)] that(3) by linarith
  note bd = search_loop_boundary [of "length L" "\<lambda>i. off < L ! i" 0, OF up]
  have n: "?n \<le> length L" using search_loop_range [of 0 "length L" "\<lambda>i. off < L ! i"] by simp
  have below: "\<forall>k < ?n. L ! k \<le> off" and above: "\<forall>k. ?n \<le> k \<and> k < length L \<longrightarrow> off < L ! k"
    using bd by (simp_all add: not_less)
  have "filter (\<lambda>x. x \<le> off) (take ?n L) = take ?n L"
    using below n by (auto intro!: filter_True simp: in_set_conv_nth)
  moreover have "filter (\<lambda>x. x \<le> off) (drop ?n L) = []"
    using above n by (auto simp: filter_empty_conv in_set_conv_nth not_le)
  ultimately have f: "filter (\<lambda>x. x \<le> off) L = take ?n L"
    by (metis append.right_neutral append_take_drop_id filter_append)
  with n show "?n = length (filter (\<lambda>x. x \<le> off) L)" by simp
  with f show "filter (\<lambda>x. x \<le> off) L = take (length (filter (\<lambda>x. x \<le> off) L)) L" by simp
qed

section \<open>The tokens as a function of the text\<close>

lemma dropWhile_Cons_length: "dropWhile P s = c # t \<Longrightarrow> length t < length s"
  using length_dropWhile_le [of P s] by simp

lemma lex_token_taken: "(k, lit, n) = lex_token p c t \<Longrightarrow> 0 < n \<and> n \<le> Suc (length t)"
  using lex_token_length [where p = p and c = c and s = t] by (auto split: prod.splits)

function lex_text :: "kind \<Rightarrow> string \<Rightarrow> (kind \<times> string) list" where
  "lex_text p s =
     (case dropWhile lex_space s of
        [] \<Rightarrow> []
      | c # t \<Rightarrow>
          (case lex_token p c t of
             (k, lit, n) \<Rightarrow> (if k = K_COMMENT then [] else [(k, lit)]) @ lex_text k (drop n (c # t))))"
  by pat_completeness auto
termination
  by (relation "measure (\<lambda>(p, s). length s)") (auto dest!: dropWhile_Cons_length lex_token_taken)

declare lex_text.simps [simp del]

lemma lex_loop_text:
  assumes "lexing src f l" "length (lx_rest l) < n"
  shows "map (\<lambda>t. (tok_kind t, tok_lit t)) (fst (lex_loop n l)) = lex_text (lx_prev l) (lx_rest l) @ [(K_EOF, [])]"
  using assms
proof (induction n arbitrary: l)
  case 0
  then show ?case by simp
next
  case (Suc n)
  obtain t l' where nx: "Next l = (t, l')" by (rule prod.exhaust)
  show ?case
  proof (cases "dropWhile lex_space (lx_rest l)")
    case Nil
    have "lex_text (lx_prev l) (lx_rest l) = []" by (subst lex_text.simps) (simp only: Nil list.case)
    with Next_EOF(1) [OF Suc.prems(1) Nil nx] show ?thesis by (simp add: nx)
  next
    case (Cons c s)
    note T = Next_token [OF Suc.prems(1) Cons nx]
    obtain m where m: "lex_token (lx_prev l) c s = (tok_kind t, tok_lit t, m)" "lx_rest l' = drop m (c # s)"
      using T(5) by blast
    have IH: "map (\<lambda>t. (tok_kind t, tok_lit t)) (fst (lex_loop n l')) = lex_text (tok_kind t) (drop m (c # s)) @ [(K_EOF, [])]"
      using Suc.IH [OF T(3)] T(4,6) Suc.prems(2) m(2) by simp
    have "lex_text (lx_prev l) (lx_rest l) = (if tok_kind t = K_COMMENT then [] else [(tok_kind t, tok_lit t)]) @
        lex_text (tok_kind t) (drop m (c # s))"
      by (subst lex_text.simps) (simp only: Cons list.case m(1) prod.case)
    with IH T(1) nx show ?thesis by (simp add: split_beta)
  qed
qed

lemma lex_source_facts:
  "\<exists>ts. lex_source src (Some f) =
      (ts @ [\<lparr>tok_kind = K_EOF, tok_lit = [], tok_pos = file_base f + int (length src)\<rparr>],
       f\<lparr>file_lines := file_lines f @ line_starts 0 src\<rparr>) \<and>
     list_all (\<lambda>t. tok_kind t \<noteq> K_EOF \<and> tok_kind t \<noteq> K_COMMENT \<and> (\<exists>i. token_at src f i t)) ts \<and>
     sorted_wrt (<) (map tok_pos ts)"
proof -
  have "length (lx_rest (NewLexer src (Some f))) < length src * 2 + 17" by (simp add: NewLexer_def)
  from lex_loop_sound [OF lexing_new this] show ?thesis
    by (fastforce simp: lex_source_def list_all_iff)
qed

section \<open>The tokens of a source\<close>

text \<open>
  What the tokens of a source are, without reference to the lexer. Between two tokens there is white
  space and comments, each to the end of its line. \<open>gap p s r q\<close>, for the gap \<open>s\<close> before the text \<open>r\<close>,
  also follows the kind of the token before, on which the reading of an apostrophe depends.
\<close>

inductive gap :: "kind \<Rightarrow> string \<Rightarrow> string \<Rightarrow> kind \<Rightarrow> bool" where
  gap_end: "gap p [] r p"
| gap_space: "lex_space c \<Longrightarrow> gap p s r q \<Longrightarrow> gap p (c # s) r q"
| gap_comment: "CHR 0x0A \<notin> set b \<Longrightarrow> s @ r = [] \<or> hd (s @ r) = CHR 0x0A \<Longrightarrow> gap K_COMMENT s r q \<Longrightarrow> gap p (''--'' @ b @ s) r q"

text \<open>The text goes on with no byte of a class.\<close>

definition no_more :: "(char \<Rightarrow> bool) \<Rightarrow> string \<Rightarrow> bool" where
  "no_more P r \<longleftrightarrow> r = [] \<or> \<not> P (hd r)"

text \<open>A text in which every quote is doubled, and a quoted text: closed, or open to the end of the source.\<close>

fun doubled :: "char \<Rightarrow> string \<Rightarrow> bool" where
  "doubled q [] = True"
| "doubled q (c # s) = (if c = q then (case s of [] \<Rightarrow> False | d # u \<Rightarrow> d = q \<and> doubled q u) else doubled q s)"

definition quoted :: "char \<Rightarrow> string \<Rightarrow> string \<Rightarrow> bool" where
  "quoted q w r \<longleftrightarrow>
     (\<exists>b. doubled q b \<and> (w = q # b @ [q] \<and> no_more (\<lambda>c. c = q) r \<or> w = q # b \<and> r = []))"

definition exponent :: "string \<Rightarrow> bool" where
  "exponent x \<longleftrightarrow> x = [] \<or>
     (\<exists>e g ds. x = e # g @ ds \<and> e \<in> {CHR ''e'', CHR ''E''} \<and> g \<in> {[], ''+'', ''-''} \<and> list_all is_digit ds)"

definition digits :: "string \<Rightarrow> bool" where
  "digits ds \<longleftrightarrow> ds \<noteq> [] \<and> is_digit (hd ds) \<and> list_all digit_or_us ds"

inductive number_text :: "kind \<Rightarrow> string \<Rightarrow> string \<Rightarrow> bool" where
  number_int: "digits ds \<Longrightarrow> no_more (\<lambda>c. digit_or_us c \<or> c \<in> {CHR ''#'', CHR ''e'', CHR ''E''}) r \<Longrightarrow>
     \<not> (2 \<le> length r \<and> hd r = CHR ''.'' \<and> is_digit (r ! 1)) \<Longrightarrow> number_text K_INT ds r"
| number_fraction: "digits ds \<Longrightarrow> digits fs \<Longrightarrow> exponent x \<Longrightarrow> no_more is_digit r \<Longrightarrow>
     number_text K_REAL (ds @ CHR ''.'' # fs @ x) r"
| number_exponent: "digits ds \<Longrightarrow> exponent x \<Longrightarrow> x \<noteq> [] \<Longrightarrow> no_more is_digit r \<Longrightarrow> number_text K_REAL (ds @ x) r"
| number_based: "digits ds \<Longrightarrow> list_all based_digit bs \<Longrightarrow> cl = [] \<and> no_more (\<lambda>c. c = CHR ''#'' \<or> based_digit c) (x @ r) \<or> cl = ''#'' \<Longrightarrow>
     exponent x \<Longrightarrow> number_text K_BASEDLIT (ds @ CHR ''#'' # bs @ cl @ x) r"

definition delim_kinds :: "kind list" where
  "delim_kinds = [K_LPAREN, K_RPAREN, K_LBRACKET, K_RBRACKET, K_COMMA, K_SEMICOLON, K_PLUS, K_MINUS, K_AMP, K_BAR,
     K_DOT, K_ASSIGN, K_COLON, K_ARROW, K_EQ, K_GE, K_GT, K_LE, K_BOX, K_LT, K_NE, K_SLASH, K_EXP, K_STAR]"

definition bit_string_head :: "string \<Rightarrow> string \<Rightarrow> bool" where
  "bit_string_head w r \<longleftrightarrow> length w = 1 \<and> isBitstringBase (hd w) \<and> r \<noteq> [] \<and> hd r = CHR 0x22"

definition keyword_text :: "kind \<Rightarrow> string \<Rightarrow> bool" where
  "keyword_text k w \<longleftrightarrow> is_keyword k \<and> to_lower w = kind_string k"

text \<open>
  \<open>token_text p k lit w r\<close>: after a token of kind \<open>p\<close>, a text that starts with the bytes \<open>w\<close> and goes on
  with \<open>r\<close> has there a token of kind \<open>k\<close> with the literal \<open>lit\<close>, the longest one.
\<close>

inductive token_text :: "kind \<Rightarrow> kind \<Rightarrow> string \<Rightarrow> string \<Rightarrow> string \<Rightarrow> bool" where
  tt_ident: "w \<noteq> [] \<Longrightarrow> isLetter (hd w) \<Longrightarrow> list_all isIdentCont w \<Longrightarrow> no_more isIdentCont r \<Longrightarrow>
     \<not> bit_string_head w r \<Longrightarrow> \<nexists>k. keyword_text k w \<Longrightarrow> token_text p K_IDENT w w r"
| tt_keyword: "w \<noteq> [] \<Longrightarrow> isLetter (hd w) \<Longrightarrow> list_all isIdentCont w \<Longrightarrow> no_more isIdentCont r \<Longrightarrow>
     \<not> bit_string_head w r \<Longrightarrow> keyword_text k w \<Longrightarrow> token_text p k w w r"
| tt_bits: "isBitstringBase b \<Longrightarrow> quoted (CHR 0x22) w r \<Longrightarrow> token_text p K_BITSTRINGLIT (b # w) (b # w) r"
| tt_extended: "quoted (CHR 0x5C) w r \<Longrightarrow> token_text p K_EXTIDENT w w r"
| tt_string: "quoted (CHR 0x22) w r \<Longrightarrow> token_text p K_STRINGLIT w w r"
| tt_number: "number_text k w r \<Longrightarrow> token_text p k w w r"
| tt_char: "\<not> isNameEnd p \<Longrightarrow> token_text p K_CHARLIT ([CHR 0x27] @ byte_string c @ [CHR 0x27]) [CHR 0x27, c, CHR 0x27] r"
| tt_tick: "isNameEnd p \<or> \<not> (2 \<le> length r \<and> r ! 1 = CHR 0x27) \<Longrightarrow> token_text p K_TICK [] [CHR 0x27] r"
| tt_delimiter: "k \<in> set delim_kinds \<Longrightarrow> w = kind_string k \<Longrightarrow>
     no_more (\<lambda>c. w @ [c] \<in> set [''--'', '':='', ''=>'', ''>='', ''<='', ''<>'', ''/='', ''**'']) r \<Longrightarrow> token_text p k [] w r"
| tt_illegal: "\<not> isLetter c \<Longrightarrow> \<not> is_digit c \<Longrightarrow> c \<notin> {CHR 0x5C, CHR 0x22, CHR 0x27} \<Longrightarrow> \<not> lex_space c \<Longrightarrow>
     [c] \<notin> kind_string ` set delim_kinds \<Longrightarrow> token_text p K_ILLEGAL (byte_string c) [c] r"

text \<open>
  \<open>lexes pos p s ts\<close>: the text \<open>s\<close>, which starts at position \<open>pos\<close> after a token of kind \<open>p\<close>, consists of the
  tokens \<open>ts\<close>, each at its position, and of gaps between them.
\<close>

inductive lexes :: "int \<Rightarrow> kind \<Rightarrow> string \<Rightarrow> token list \<Rightarrow> bool" where
  lexes_end: "gap p s [] q \<Longrightarrow> lexes pos p s []"
| lexes_token: "gap p g (w @ r) q \<Longrightarrow> token_text q k lit w r \<Longrightarrow> lexes (pos + int (length g) + int (length w)) k r ts \<Longrightarrow>
     lexes pos p (g @ w @ r) (\<lparr>tok_kind = k, tok_lit = lit, tok_pos = pos + int (length g)\<rparr> # ts)"

lemma gap_spaces: "gap p s r q \<Longrightarrow> list_all lex_space g \<Longrightarrow> gap p (g @ s) r q"
  by (induction g) (auto intro: gap_space)

lemma lexes_space:
  assumes "lexes (pos + int (length g)) p s ts" "list_all lex_space g"
  shows "lexes pos p (g @ s) ts"
  using assms(1)
proof cases
  case (lexes_end q)
  show ?thesis unfolding lexes_end(1) by (rule lexes.lexes_end [OF gap_spaces [OF lexes_end(2) assms(2)]])
next
  case (lexes_token g' w r q k lit ts')
  from lexes.lexes_token [OF gap_spaces [OF lexes_token(3) assms(2)] lexes_token(4), of pos ts'] lexes_token(1,2,5)
  show ?thesis by (simp add: add.assoc)
qed

lemma lexes_comment:
  assumes "lexes (pos + int (length b) + 2) K_COMMENT s ts" "CHR 0x0A \<notin> set b" "s = [] \<or> hd s = CHR 0x0A"
  shows "lexes pos p (''--'' @ b @ s) ts"
  using assms(1)
proof cases
  case (lexes_end q)
  then show ?thesis using gap_comment [OF assms(2)] assms(3) by (auto intro!: lexes.lexes_end)
next
  case (lexes_token g w r q k lit ts')
  have "gap p (''--'' @ b @ g) (w @ r) q"
    using lexes_token(1,3) assms(3) by (intro gap_comment [OF assms(2)]) auto
  from lexes.lexes_token [OF this lexes_token(4), of pos ts'] lexes_token(1,2,5)
  show ?thesis by (simp add: add.assoc add.commute add.left_commute)
qed

section \<open>The lexer finds them\<close>

lemma scan_quoted_text:
  "\<exists>b. doubled q b \<and> (scan_quoted q s = b @ [q] \<and> no_more (\<lambda>c. c = q) (drop (length (scan_quoted q s)) s) \<or>
     scan_quoted q s = b \<and> drop (length (scan_quoted q s)) s = [])"
proof (induction q s rule: scan_quoted.induct)
  case (1 q)
  show ?case by (intro exI [of _ "[]"]) simp
next
  case (2 q c)
  show ?case by (cases "c = q") (auto simp: no_more_def intro: exI [of _ "[]"] exI [of _ "[c]"])
next
  case (3 q c d s)
  consider "c \<noteq> q" | "c = q" "d \<noteq> q" | "c = q" "d = q" by blast
  then show ?case
  proof cases
    case 1
    then obtain b where "doubled q b" "scan_quoted q (d # s) = b @ [q] \<and> no_more (\<lambda>c. c = q) (drop (length (scan_quoted q (d # s))) (d # s)) \<or>
        scan_quoted q (d # s) = b \<and> drop (length (scan_quoted q (d # s))) (d # s) = []"
      using 3 by blast
    with 1 show ?thesis by (intro exI [of _ "c # b"]) auto
  next
    case 2
    then show ?thesis by (intro exI [of _ "[]"]) (simp add: no_more_def)
  next
    case cd: 3
    then obtain b where "doubled q b" "scan_quoted q s = b @ [q] \<and> no_more (\<lambda>c. c = q) (drop (length (scan_quoted q s)) s) \<or>
        scan_quoted q s = b \<and> drop (length (scan_quoted q s)) s = []"
      using 3 by blast
    with cd show ?thesis by (intro exI [of _ "c # d # b"]) auto
  qed
qed

lemma scan_quoted_quoted: "quoted q (q # scan_quoted q s) (drop (length (scan_quoted q s)) s)"
  using scan_quoted_text [of q s] by (auto simp: quoted_def)

lemma no_more_dropWhile [simp]: "no_more P (dropWhile P s)"
  using hd_dropWhile [of P s] by (auto simp: no_more_def)

lemma scan_exponent_text:
  "exponent (scan_exponent s)" "scan_exponent s \<noteq> [] \<Longrightarrow> no_more is_digit (drop (length (scan_exponent s)) s)"
  "scan_exponent s = [] \<Longrightarrow> no_more (\<lambda>c. c \<in> {CHR ''e'', CHR ''E''}) s"
proof -
  have tw: "list_all P (takeWhile P t)" for P and t :: string by (auto simp: list_all_iff dest: set_takeWhileD)
  have sign: "scan_sign t \<in> {[], ''+'', ''-''}" for t by (auto simp: scan_sign_def split: list.split)
  show "exponent (scan_exponent s)"
  proof (cases s)
    case (Cons c t)
    have "exponent (c # scan_sign t @ takeWhile is_digit (drop (length (scan_sign t)) t))" if "c = CHR ''e'' \<or> c = CHR ''E''"
      unfolding exponent_def using that sign [of t] tw by blast
    then show ?thesis using Cons by (auto simp: scan_exponent_def exponent_def)
  qed (simp add: scan_exponent_def exponent_def)
  show "no_more is_digit (drop (length (scan_exponent s)) s)" if "scan_exponent s \<noteq> []"
  proof -
    have d: "drop (length g + length (takeWhile P (drop (length g) t))) t = dropWhile P (drop (length g) t)" for g P and t :: string
      by (metis add.commute drop_drop dropWhile_eq_drop)
    show ?thesis using that by (auto simp: scan_exponent_def d split: list.splits if_splits)
  qed
  show "no_more (\<lambda>c. c \<in> {CHR ''e'', CHR ''E''}) s" if "scan_exponent s = []"
    using that by (cases s) (auto simp: scan_exponent_def no_more_def split: if_splits)
qed


lemma no_more_mono: "no_more P r \<Longrightarrow> (\<And>c. Q c \<Longrightarrow> P c) \<Longrightarrow> no_more Q r"
  by (auto simp: no_more_def)

lemma takeWhile_all: "list_all P (takeWhile P t)"
  by (auto simp: list_all_iff dest: set_takeWhileD)

lemma digits_takeWhile: "s \<noteq> [] \<Longrightarrow> is_digit (hd s) \<Longrightarrow> digits (takeWhile digit_or_us s)"
  by (cases s) (auto simp: digits_def digit_or_us_def list_all_iff dest: set_takeWhileD)

lemma based_close:
  assumes "no_more based_digit v"
  shows "(case v of e # w \<Rightarrow> if e = CHR ''#'' then [e] else [] | [] \<Rightarrow> []) = [] \<and>
      no_more (\<lambda>c. c = CHR ''#'' \<or> based_digit c)
        (scan_exponent (drop (length (case v of e # w \<Rightarrow> if e = CHR ''#'' then [e] else [] | [] \<Rightarrow> [])) v) @
         drop (length ((case v of e # w \<Rightarrow> if e = CHR ''#'' then [e] else [] | [] \<Rightarrow> []) @
           scan_exponent (drop (length (case v of e # w \<Rightarrow> if e = CHR ''#'' then [e] else [] | [] \<Rightarrow> [])) v))) v) \<or>
    (case v of e # w \<Rightarrow> if e = CHR ''#'' then [e] else [] | [] \<Rightarrow> []) = ''#''"
proof (cases "v \<noteq> [] \<and> hd v = CHR ''#''")
  case True
  then show ?thesis by (cases v) auto
next
  case False
  then have cl: "(case v of e # w \<Rightarrow> if e = CHR ''#'' then [e] else [] | [] \<Rightarrow> []) = []" by (cases v) auto
  have "scan_exponent v @ drop (length (scan_exponent v)) v = v"
    using scan_exponent_prefix [of v] by (metis append_eq_conv_conj prefix_def)
  then show ?thesis unfolding cl using assms False by (auto simp: no_more_def)
qed

lemma scan_number_text:
  assumes "is_digit c" "scan_number (c # s) = (k, t)"
  shows "number_text k t (drop (length t) (c # s))"
proof -
  let ?s = "c # s"
  let ?ds = "takeWhile digit_or_us ?s" and ?r = "dropWhile digit_or_us ?s"
  have ds: "digits ?ds" by (rule digits_takeWhile) (use assms(1) in simp_all)
  have app: "drop (length (?ds @ w)) ?s = drop (length w) ?r" for w
    unfolding dropWhile_eq_drop drop_drop by (simp add: add.commute)
  have tw: "drop (length (takeWhile P t @ w)) t = drop (length w) (dropWhile P t)" for P w and t :: string
    unfolding dropWhile_eq_drop drop_drop by (simp add: add.commute)
  have sp: "no_more digit_or_us ?r" by (rule no_more_dropWhile)
  have dus: "is_digit d \<Longrightarrow> digit_or_us d" for d by (simp add: digit_or_us_def)
  note ex = scan_exponent_text
  show ?thesis
  proof (cases ?r)
    case Nil
    then have "k = K_INT" "t = ?ds" using assms(2) unfolding scan_number_def Let_def by simp_all
    moreover have "drop (length ?ds) ?s = []" using app [of "[]"] Nil by simp
    ultimately show ?thesis using number_int [OF ds, of "[]"] by (simp add: no_more_def)
  next
    case (Cons d u)
    show ?thesis
    proof (cases "d = CHR ''#''")
      case True
      let ?bs = "takeWhile based_digit u" and ?v = "dropWhile based_digit u"
      let ?cl = "case ?v of e # v \<Rightarrow> if e = CHR ''#'' then [e] else [] | [] \<Rightarrow> []"
      let ?x = "scan_exponent (drop (length ?cl) ?v)"
      have kt: "k = K_BASEDLIT" "t = ?ds @ CHR ''#'' # ?bs @ ?cl @ ?x"
        using assms(2) True unfolding scan_number_def Let_def Cons by simp_all
      have rest: "drop (length t) ?s = drop (length (?cl @ ?x)) ?v"
        unfolding kt(2) app Cons length_Cons drop_Suc_Cons by (rule tw)
      note based_close [OF no_more_dropWhile [of based_digit u]]
      from number_based [OF ds takeWhile_all this ex(1)] show ?thesis unfolding rest unfolding kt .
    next
      case no_hash: False
      show ?thesis
      proof (cases "d = CHR ''.'' \<and> u \<noteq> [] \<and> is_digit (hd u)")
        case True
        let ?fs = "takeWhile digit_or_us u" and ?v = "dropWhile digit_or_us u"
        let ?x = "scan_exponent ?v"
        have v: "drop (length ?fs) u = ?v" by (simp add: dropWhile_eq_drop)
        have kt: "k = K_REAL" "t = ?ds @ CHR ''.'' # ?fs @ ?x"
          using assms(2) True no_hash unfolding scan_number_def Let_def Cons by (simp_all add: v)
        have rest: "drop (length t) ?s = drop (length ?x) ?v"
          unfolding kt(2) app Cons length_Cons drop_Suc_Cons by (rule tw)
        have "no_more is_digit (drop (length ?x) ?v)"
          using ex(2) [of ?v] no_more_mono [OF no_more_dropWhile [of digit_or_us u], of is_digit] dus by (cases "?x = []") auto
        from number_fraction [OF ds digits_takeWhile ex(1) this] show ?thesis unfolding rest unfolding kt using True by blast
      next
        case no_dot: False
        show ?thesis
        proof (cases "d = CHR ''e'' \<or> d = CHR ''E''")
          case True
          then have kt: "k = K_REAL" "t = ?ds @ scan_exponent ?r" "scan_exponent ?r \<noteq> []"
            using assms(2) no_hash no_dot unfolding scan_number_def Let_def Cons by (auto simp: scan_exponent_def)
          have rest: "drop (length t) ?s = drop (length (scan_exponent ?r)) ?r" unfolding kt(2) app ..
          show ?thesis unfolding kt(1) rest unfolding kt(2) by (rule number_exponent [OF ds ex(1) kt(3) ex(2) [OF kt(3)]])
        next
          case False
          have kt: "k = K_INT" "t = ?ds"
            using assms(2) no_hash no_dot False unfolding scan_number_def Let_def Cons by (auto split: if_splits)
          have rest: "drop (length t) ?s = d # u" using app [of "[]"] Cons kt(2) by simp
          have "no_more (\<lambda>c. digit_or_us c \<or> c \<in> {CHR ''#'', CHR ''e'', CHR ''E''}) (d # u)"
            using sp no_hash False unfolding Cons by (simp add: no_more_def)
          moreover have "\<not> (2 \<le> length (d # u) \<and> hd (d # u) = CHR ''.'' \<and> is_digit ((d # u) ! 1))"
            using no_dot by (cases u) auto
          ultimately show ?thesis unfolding rest unfolding kt by (rule number_int [OF ds])
        qed
      qed
    qed
  qed
qed

lemma scan_ident_text:
  assumes "isIdentStart c" "scan_ident (c # s) = (k, t)"
  shows "token_text p k t t (drop (length t) (c # s))"
proof -
  let ?s = "c # s"
  let ?w = "takeWhile isIdentCont ?s" and ?r = "dropWhile isIdentCont ?s"
  have c: "isIdentCont c" "isLetter c" using assms(1) by (simp_all add: isIdentStart_def isIdentCont_def)
  then have w: "?w \<noteq> []" "isLetter (hd ?w)" "list_all isIdentCont ?w" "no_more isIdentCont ?r"
    by (simp_all add: takeWhile_all)
  have r: "drop (length ?w) ?s = ?r" by (simp add: dropWhile_eq_drop)
  show ?thesis
  proof (cases "bit_string_head ?w ?r")
    case True
    then obtain b where b: "?w = [b]" "isBitstringBase b" "?r \<noteq> []" "hd ?r = CHR 0x22"
      unfolding bit_string_head_def by (cases ?w) auto
    then obtain v where v: "?r = CHR 0x22 # v" by (cases ?r) auto
    have kt: "k = K_BITSTRINGLIT" "t = b # CHR 0x22 # scan_quoted (CHR 0x22) v"
      using assms(2) b v unfolding scan_ident_def Let_def by simp_all
    have "?s = b # CHR 0x22 # v" using takeWhile_dropWhile_id [of isIdentCont ?s] unfolding b(1) v by simp
    then have "drop (length t) ?s = drop (length (scan_quoted (CHR 0x22) v)) v" unfolding kt by simp
    then show ?thesis unfolding kt(1) using tt_bits [OF b(2) scan_quoted_quoted] kt(2) by simp
  next
    case False
    then have "(case LookupKeyword ?w of Some k \<Rightarrow> (k, ?w) | None \<Rightarrow> (K_IDENT, ?w)) = (k, t)"
      using assms(2) unfolding scan_ident_def Let_def bit_string_head_def by (simp only: if_False)
    then consider "LookupKeyword ?w = None" "k = K_IDENT" "t = ?w" | "LookupKeyword ?w = Some k" "t = ?w"
      by (auto split: option.splits)
    then show ?thesis
    proof cases
      case 1
      have "LookupKeyword ?w = Some k" if "keyword_text k ?w" for k
        using that LookupKeyword_kind_string [of k] by (auto simp: keyword_text_def LookupKeyword_lower keyword_texts_lower)
      then have "\<nexists>k. keyword_text k ?w" using 1(1) by auto
      from tt_ident [OF w False this] show ?thesis unfolding 1(2,3) r .
    next
      case 2
      have "keyword_text k ?w" using LookupKeyword_SomeD [OF 2(1)] by (simp add: keyword_text_def)
      from tt_keyword [OF w False this] show ?thesis unfolding 2(2) r .
    qed
  qed
qed


lemma delim_kind_strings: "map kind_string delim_kinds =
    [''('', '')'', ''['', '']'', '','', '';'', ''+'', ''-'', ''&'', ''|'', ''.'', '':='', '':'', ''=>'', ''='', ''>='', ''>'',
     ''<='', ''<>'', ''<'', ''/='', ''/'', ''**'', ''*'']"
  by code_simp

lemmas delim_strings = delim_kind_strings [unfolded delim_kinds_def list.map list.inject]

lemma delimiter_text:
  assumes "delimiter p c s = (k, t, n)" "\<not> isLetter c" "\<not> is_digit c" "c \<notin> {CHR 0x5C, CHR 0x22}" "\<not> lex_space c"
    "\<not> (c = CHR ''-'' \<and> second s (CHR ''-''))"
  shows "token_text p k t (take (Suc n) (c # s)) (drop n s)"
proof (cases "c = CHR 0x27")
  case True
  show ?thesis
  proof (cases "\<not> isNameEnd p \<and> 2 \<le> length s \<and> s ! 1 = CHR 0x27")
    case char: True
    then obtain d u where s: "s = d # CHR 0x27 # u" by (cases s; cases "tl s") auto
    have "k = K_CHARLIT" "t = [CHR 0x27] @ byte_string d @ [CHR 0x27]" "n = 2"
      using assms(1) True char s by (simp_all add: delimiter_def)
    then show ?thesis using tt_char [of p d u] char s True by (simp add: eval_nat_numeral)
  next
    case False
    then have "k = K_TICK" "t = []" "n = 0" using assms(1) True by (auto simp: delimiter_def split: if_splits)
    then show ?thesis using tt_tick [of p s] False True by auto
  qed
next
  case False
  show ?thesis
  proof (cases "c \<in> set ''()[],;+-&|.:=></*''")
    case True
    let ?w = "take (Suc n) (c # s)"
    have second: "second s d \<longleftrightarrow> (\<exists>u. s = d # u)" for d by (cases s) (auto simp: second_def)
    have minus: "\<not> second s (CHR ''-'')" if "c = CHR ''-''" using assms(6) that by simp
    have nth: "no_more P s" if "\<And>d. P d \<Longrightarrow> \<not> second s d" for P using that by (cases s) (auto simp: no_more_def second_def)
    have "k \<in> set delim_kinds \<and> ?w = kind_string k \<and> t = []"
      using True assms(1) by (auto simp: delimiter_def second delim_kinds_def delim_strings split: if_splits)
    moreover have "no_more (\<lambda>d. ?w @ [d] \<in> set [''--'', '':='', ''=>'', ''>='', ''<='', ''<>'', ''/='', ''**'']) (drop n s)"
    proof (cases "n = 0")
      case n: True
      show ?thesis unfolding n
        using True assms(1) minus by (auto simp: n delimiter_def intro!: nth split: if_splits)
    next
      case False
      then obtain d u where "s = d # u" "n = 1"
        using True assms(1) by (auto simp: delimiter_def second split: if_splits)
      then show ?thesis by (auto simp: no_more_def)
    qed
    ultimately show ?thesis using tt_delimiter by simp
  next
    case ill: False
    then have kt: "k = K_ILLEGAL" "t = byte_string c" "n = 0"
      using assms(1) False by (auto simp: delimiter_def split: if_splits)
    have "[c] \<notin> set (map kind_string delim_kinds)" using ill unfolding delim_kind_strings by auto
    then show ?thesis using tt_illegal [of c p s] assms(2-5) False kt by simp
  qed
qed

lemma lex_token_sound:
  assumes "lex_token p c s = (k, t, n)" "\<not> lex_space c"
  shows "k = K_COMMENT \<and> (\<exists>b. take n (c # s) = ''--'' @ b \<and> CHR 0x0A \<notin> set b \<and> (drop n (c # s) = [] \<or> hd (drop n (c # s)) = CHR 0x0A)) \<or>
    token_text p k t (take n (c # s)) (drop n (c # s))"
proof -
  have tk: "take (length t) (c # s) = t" if "n = length t" "t \<noteq> []" "k \<noteq> K_CHARLIT" "k \<noteq> K_ILLEGAL"
    using lex_token_text [OF assms(1) that(2-4)] that(1) by simp
  consider (comment) "c = CHR ''-''" "second s (CHR ''-'')" | (ext) "c = CHR 0x5C" | (str) "c = CHR 0x22" | (ident) "isIdentStart c"
    | (number) "is_digit c" | (other) "\<not> (c = CHR ''-'' \<and> second s (CHR ''-''))" "c \<notin> {CHR 0x5C, CHR 0x22}" "\<not> isIdentStart c" "\<not> is_digit c"
    by blast
  then show ?thesis
  proof cases
    case comment
    then obtain u where s: "s = CHR ''-'' # u" by (cases s) (auto simp: second_def)
    let ?b = "takeWhile (\<lambda>d. d \<noteq> CHR 0x0A) u"
    have kn: "k = K_COMMENT" "n = length ?b + 2" using assms(1) comment s by (simp_all add: lex_token_def Let_def)
    have "take n (c # s) = ''--'' @ ?b" "drop n (c # s) = dropWhile (\<lambda>d. d \<noteq> CHR 0x0A) u"
      unfolding kn(2) comment(1) s by (simp_all add: takeWhile_eq_take [symmetric] dropWhile_eq_drop)
    moreover have "CHR 0x0A \<notin> set ?b" by (auto dest: set_takeWhileD)
    moreover have "no_more (\<lambda>d. d \<noteq> CHR 0x0A) (dropWhile (\<lambda>d. d \<noteq> CHR 0x0A) u)" by (rule no_more_dropWhile)
    ultimately show ?thesis unfolding kn(1) by (auto simp: no_more_def)
  next
    case ext
    then have "k = K_EXTIDENT" "t = c # scan_quoted c s" "n = length t" using assms(1) by (auto simp: lex_token_def Let_def)
    then show ?thesis using tt_extended [of "c # scan_quoted c s"] scan_quoted_quoted [of c s] tk ext by auto
  next
    case str
    then have "k = K_STRINGLIT" "t = c # scan_quoted c s" "n = length t" using assms(1) by (auto simp: lex_token_def Let_def)
    then show ?thesis using tt_string [of "c # scan_quoted c s"] scan_quoted_quoted [of c s] tk str by auto
  next
    case ident
    then have "c \<noteq> CHR ''-''" "c \<noteq> CHR 0x5C" "c \<noteq> CHR 0x22"
      by (auto simp: isIdentStart_def isLetter_def is_lower_def is_upper_def char_code_def)
    then have kt: "scan_ident (c # s) = (k, t)" "n = length t"
      using assms(1) ident by (auto simp: lex_token_def split: prod.splits)
    have "prefix t (c # s)" using scan_ident_prefix [of "c # s"] kt(1) by simp
    then have "take (length t) (c # s) = t" by (auto simp: prefix_def)
    with scan_ident_text [OF ident kt(1)] show ?thesis unfolding kt(2) by simp
  next
    case number
    then have "c \<noteq> CHR ''-''" "c \<noteq> CHR 0x5C" "c \<noteq> CHR 0x22" "\<not> isIdentStart c"
      by (auto simp: isIdentStart_def isLetter_def is_lower_def is_upper_def is_digit_def char_code_def)
    then have kt: "scan_number (c # s) = (k, t)" "n = length t"
      using assms(1) number by (auto simp: lex_token_def split: prod.splits)
    have "prefix t (c # s)" using scan_number_prefix [of "c # s"] kt(1) by simp
    then have "take (length t) (c # s) = t" by (auto simp: prefix_def)
    with tt_number [OF scan_number_text [OF number kt(1)]] show ?thesis unfolding kt(2) by simp
  next
    case other
    obtain k' t' m where d: "delimiter p c s = (k', t', m)" by (rule prod_cases3)
    then have "k = k'" "t = t'" "n = Suc m" using assms(1) other by (auto simp: lex_token_def)
    with delimiter_text [OF d _ other(4,2) assms(2) other(1)] other(3) show ?thesis by (simp add: isIdentStart_def)
  qed
qed

lemma token_text_kind: "token_text p k l w r \<Longrightarrow> k \<noteq> K_COMMENT \<and> k \<noteq> K_EOF"
proof (induction rule: token_text.induct)
  case (tt_number k w r p)
  then show ?case by (induction rule: number_text.induct) simp_all
qed (auto simp: keyword_text_def is_keyword_def delim_kinds_def)

lemma Next_exact:
  assumes "lexing src f l" "dropWhile lex_space (lx_rest l) = c # s" "Next l = (t, l')"
  shows "\<exists>n. lex_token (lx_prev l) c s = (tok_kind t, tok_lit t, n) \<and> lx_rest l' = drop n (c # s) \<and> n \<le> length (c # s) \<and>
    tok_pos t = file_base f + int (lx_off l + length (takeWhile lex_space (lx_rest l))) \<and>
    lx_off l' = lx_off l + length (takeWhile lex_space (lx_rest l)) + n"
proof -
  let ?l = "skip_space l"
  note sk = skip_space_lexing [OF assms(1)]
  have r: "lx_rest ?l = c # s" and pv: "lx_prev ?l = lx_prev l"
    using sk(2) assms(2) by (simp_all add: skip_space_def)
  obtain k lit n where lt: "lex_token (lx_prev l) c s = (k, lit, n)" by (rule prod_cases3)
  have t: "t = \<lparr>tok_kind = k, tok_lit = lit, tok_pos = file_Pos (lx_file ?l) (int (lx_off ?l))\<rparr>"
    "l' = (advances n ?l)\<lparr>lx_prev := k\<rparr>"
    using assms(3) r pv lt by (simp_all add: Next_def Let_def emit_def)
  have n: "n \<le> length (lx_rest ?l)"
    using lex_token_length [where p = "lx_prev l" and c = c and s = s] lt r by simp
  have off: "lx_off ?l = lx_off l + length (takeWhile lex_space (lx_rest l))"
    unfolding skip_space_def by (rule lexing_advances(2) [OF assms(1) length_takeWhile_le])
  have "file_base (lx_file ?l) = file_base f" using sk(1) by (simp add: lexing_def)
  with t lt n r off lexing_advances(2) [OF sk(1) n] show ?thesis by (auto simp: file_Pos_def)
qed

lemma lex_loop_lexes:
  assumes "lexing src f l" "length (lx_rest l) < n"
  shows "\<exists>ts e. fst (lex_loop n l) = ts @ [e] \<and> lexes (file_base f + int (lx_off l)) (lx_prev l) (lx_rest l) ts"
  using assms
proof (induction n arbitrary: l)
  case 0
  then show ?case by simp
next
  case (Suc n)
  obtain t l' where nx: "Next l = (t, l')" by (rule prod.exhaust)
  let ?g = "takeWhile lex_space (lx_rest l)"
  have g: "lx_rest l = ?g @ dropWhile lex_space (lx_rest l)" by simp
  show ?case
  proof (cases "dropWhile lex_space (lx_rest l)")
    case Nil
    note E = Next_EOF [OF Suc.prems(1) Nil nx]
    have "lexes pos (lx_prev l) (?g @ []) []" for pos
      by (rule lexes_space [OF lexes_end [OF gap_end] takeWhile_all])
    with E(1) nx g Nil show ?thesis by (intro exI [of _ "[]"]) simp
  next
    case (Cons c s)
    note T = Next_token [OF Suc.prems(1) Cons nx]
    obtain m where m: "lex_token (lx_prev l) c s = (tok_kind t, tok_lit t, m)" "lx_rest l' = drop m (c # s)"
      "m \<le> length (c # s)" "tok_pos t = file_base f + int (lx_off l + length ?g)" "lx_off l' = lx_off l + length ?g + m"
      using Next_exact [OF Suc.prems(1) Cons nx] by blast
    obtain ts e where ts: "fst (lex_loop n l') = ts @ [e]"
      "lexes (file_base f + int (lx_off l')) (tok_kind t) (drop m (c # s)) ts"
      using Suc.IH [OF T(3)] T(4,6) Suc.prems(2) m(2) by auto
    have "\<not> lex_space c" using hd_dropWhile [of lex_space "lx_rest l"] Cons by simp
    note tok = lex_token_sound [OF m(1) this]
    have len: "length (take m (c # s)) = m" using m(3) by simp
    show ?thesis
    proof (cases "tok_kind t = K_COMMENT")
      case True
      then obtain b where b: "take m (c # s) = ''--'' @ b" "CHR 0x0A \<notin> set b" "drop m (c # s) = [] \<or> hd (drop m (c # s)) = CHR 0x0A"
        using tok token_text_kind by metis
      have mb: "m = length b + 2" using len unfolding b(1) by simp
      have "lexes (file_base f + int (lx_off l) + int (length ?g)) (lx_prev l) (''--'' @ b @ drop m (c # s)) ts"
        using ts(2) True m(5) mb by (intro lexes_comment [OF _ b(2,3)]) (simp add: algebra_simps)
      moreover have "''--'' @ b @ drop m (c # s) = c # s" by (metis append.assoc append_take_drop_id b(1))
      ultimately have "lexes (file_base f + int (lx_off l)) (lx_prev l) (?g @ c # s) ts"
        by (metis lexes_space takeWhile_all)
      with True nx ts(1) g Cons show ?thesis by (intro exI [of _ ts] exI [of _ e]) simp
    next
      case False
      with tok have tt: "token_text (lx_prev l) (tok_kind t) (tok_lit t) (take m (c # s)) (drop m (c # s))" by blast
      have "lexes (file_base f + int (lx_off l) + int (length ?g)) (lx_prev l) ([] @ take m (c # s) @ drop m (c # s)) (t # ts)"
      proof -
        have "t = \<lparr>tok_kind = tok_kind t, tok_lit = tok_lit t,
            tok_pos = file_base f + int (lx_off l) + int (length ?g) + int (length [])\<rparr>" using m(4) by simp
        moreover have "lexes (file_base f + int (lx_off l) + int (length ?g) + int (length []) + int (length (take m (c # s))))
            (tok_kind t) (drop m (c # s)) ts" using ts(2) m(5) len by (simp add: add.assoc)
        ultimately show ?thesis using lexes_token [OF gap_end tt] by metis
      qed
      then have "lexes (file_base f + int (lx_off l)) (lx_prev l) (?g @ c # s) (t # ts)"
        by (intro lexes_space [OF _ takeWhile_all]) simp
      with False nx ts(1) g Cons T(1) show ?thesis by (intro exI [of _ "t # ts"] exI [of _ e]) (simp add: split_beta)
    qed
  qed
qed

section \<open>Properties\<close>

text \<open>
  C22: lexing always ends before the bound of the token loop, and the tokens are those of the source: the
  source is the texts of the tokens in their order, with gaps of white space and comments between them and
  nothing else (\<open>lexes\<close>). Each token stands at its position; its kind and its literal are those of its text
  (\<open>token_text\<close>): a word is the keyword it spells or else an identifier, literals have the form of their
  kind, a delimiter is the text of its kind, and a byte that starts no token is illegal; words, delimiters
  and integers are the longest possible. The last token, the only end-of-file token, stands at the end of the source, and exactly
  the starts of its lines have been added to the file.
\<close>

theorem lex_source_sound:
  "\<exists>ts. lex_source src (Some f) =
      (ts @ [\<lparr>tok_kind = K_EOF, tok_lit = [], tok_pos = file_base f + int (length src)\<rparr>],
       f\<lparr>file_lines := file_lines f @ line_starts 0 src\<rparr>) \<and>
     lexes (file_base f) K_ILLEGAL src ts \<and>
     list_all (\<lambda>t. tok_kind t \<noteq> K_EOF \<and> tok_kind t \<noteq> K_COMMENT \<and> (\<exists>i. token_at src f i t)) ts \<and>
     sorted_wrt (<) (map tok_pos ts)"
proof -
  obtain ts where ts: "lex_source src (Some f) =
      (ts @ [\<lparr>tok_kind = K_EOF, tok_lit = [], tok_pos = file_base f + int (length src)\<rparr>],
       f\<lparr>file_lines := file_lines f @ line_starts 0 src\<rparr>)"
    "list_all (\<lambda>t. tok_kind t \<noteq> K_EOF \<and> tok_kind t \<noteq> K_COMMENT \<and> (\<exists>i. token_at src f i t)) ts"
    "sorted_wrt (<) (map tok_pos ts)"
    using lex_source_facts [of src f] by blast
  have "length (lx_rest (NewLexer src (Some f))) < length src * 2 + 17" by (simp add: NewLexer_def)
  from lex_loop_lexes [OF lexing_new this] obtain ts' e where "fst (lex_source src (Some f)) = ts' @ [e]"
    "lexes (file_base f) K_ILLEGAL src ts'"
    by (auto simp: lex_source_def NewLexer_def)
  with ts show ?thesis by (intro exI [of _ ts]) simp
qed

text \<open>
  C23: the position of an offset of a lexed source: its line is one more than the number of line feeds
  before it, its column one more than the number of bytes since the last of them.
\<close>

theorem lexed_position:
  assumes "file_lines f = [0]" "i \<le> length src"
  shows "file_Position (snd (lex_source src (Some f))) (file_base f + int i) =
    \<lparr>pos_filename = file_name f, pos_offset = int i,
     pos_line = 1 + int (length (filter (\<lambda>c. c = CHR 0x0A) (take i src))),
     pos_column = 1 + int (length (takeWhile (\<lambda>c. c \<noteq> CHR 0x0A) (rev (take i src))))\<rparr>"
proof -
  let ?f = "f\<lparr>file_lines := [0] @ line_starts 0 src\<rparr>"
  let ?L = "0 # line_starts 0 src" and ?F = "0 # line_starts 0 (take i src)"
  have f: "snd (lex_source src (Some f)) = ?f"
    using lex_loop_sound [OF lexing_new, of src f "length src * 2 + 17"] assms(1)
    by (auto simp: lex_source_def NewLexer_def)
  have "sorted ?L" using line_starts_sorted [of 0 src] by (auto dest!: line_starts_bounds)
  note S = search_lines [OF this, of "int i"]
  have F: "filter (\<lambda>x. x \<le> int i) ?L = ?F" using line_starts_upto [of i src] by simp
  have n: "search_loop (\<lambda>k. ?L ! k > int i) 0 (length ?L) = length ?F" using S(1) unfolding F .
  have "?F = take (length ?F) ?L" using S(2) unfolding F .
  then have "last ?F = ?L ! (length ?F - 1)"
    by (metis diff_less last_conv_nth length_greater_0_conv list.distinct(1) nth_take zero_less_one)
  then have "?L ! length (line_starts 0 (take i src)) = last ?F" by simp
  moreover have "int i - last ?F = int (length (takeWhile (\<lambda>c. c \<noteq> CHR 0x0A) (rev (take i src))))"
    using line_starts_last [of "take i src"] assms(2) by simp
  ultimately have "file_Position ?f (file_base f + int i) =
    \<lparr>pos_filename = file_name f, pos_offset = int i, pos_line = int (length ?F - 1) + 1,
     pos_column = int (length (takeWhile (\<lambda>c. c \<noteq> CHR 0x0A) (rev (take i src)))) + 1\<rparr>"
    using n by (simp add: file_Position_def Let_def)
  then show ?thesis unfolding f by (simp add: line_starts_count)
qed

definition demo_file :: src_file where
  "demo_file = \<lparr>file_name = ''a.vhd'', file_base = 1, file_size = 9, file_lines = [0]\<rparr>"

theorem lexed_position_witness:
  "pos_line (file_Position (snd (lex_source [CHR ''a'', CHR 0x0A, CHR ''b'', CHR '';''] (Some demo_file))) 4) = 2"
  using lexed_position [of demo_file 3 "[CHR ''a'', CHR 0x0A, CHR ''b'', CHR '';'']"]
  by (simp add: demo_file_def)

text \<open>
  A character literal is the byte between its quotes re-encoded as UTF-8, so its text is that of the
  source only for an ASCII byte: a Latin-1 character, which VHDL allows, becomes two bytes.
\<close>

theorem latin1_character_literal:
  "fst (lex_source [CHR 0x27, c, CHR 0x27] (Some f)) =
     [\<lparr>tok_kind = K_CHARLIT, tok_lit = [CHR 0x27] @ byte_string c @ [CHR 0x27], tok_pos = file_base f\<rparr>,
      \<lparr>tok_kind = K_EOF, tok_lit = [], tok_pos = file_base f + 3\<rparr>] \<and>
   (byte_string c = [c] \<longleftrightarrow> char_code c < 128)"
proof -
  have tok: "lex_token K_ILLEGAL (CHR 0x27) [c, CHR 0x27] = (K_CHARLIT, [CHR 0x27] @ byte_string c @ [CHR 0x27], 3)"
    by (simp add: lex_token_def delimiter_def second_def isIdentStart_def isLetter_def is_lower_def is_upper_def
        is_digit_def char_code_def isNameEnd_def)
  let ?s = "[CHR 0x27, c, CHR 0x27]"
  have sp: "skip_space (NewLexer ?s (Some f)) = NewLexer ?s (Some f)"
    by (simp add: skip_space_def NewLexer_def lex_space_def)
  have rest: "lx_rest (NewLexer ?s (Some f)) = ?s" "lx_prev (NewLexer ?s (Some f)) = K_ILLEGAL"
    "lx_off (NewLexer ?s (Some f)) = 0" "lx_file (NewLexer ?s (Some f)) = f"
    by (simp_all add: NewLexer_def)
  obtain t l' where nx: "Next (NewLexer ?s (Some f)) = (t, l')" by (rule prod.exhaust)
  have t: "t = \<lparr>tok_kind = K_CHARLIT, tok_lit = [CHR 0x27] @ byte_string c @ [CHR 0x27], tok_pos = file_base f\<rparr>"
    and l': "lx_rest l' = []"
    using nx by (auto simp: Next_def Let_def sp rest tok emit_def file_Pos_def)
  have "dropWhile lex_space (lx_rest (NewLexer ?s (Some f))) = CHR 0x27 # [c, CHR 0x27]"
    by (simp add: rest lex_space_def)
  note L = Next_token(3) [OF lexing_new this nx]
  obtain t2 l2 where nx2: "Next l' = (t2, l2)" by (rule prod.exhaust)
  have t2: "t2 = \<lparr>tok_kind = K_EOF, tok_lit = [], tok_pos = file_base f + 3\<rparr>"
    using Next_EOF(1) [OF L _ nx2] l' by simp
  have "lex_source ?s (Some f) = lex_loop (Suc (Suc 21)) (NewLexer ?s (Some f))" by (simp add: lex_source_def)
  also have "\<dots> = ([t, t2], lx_file l2)" unfolding lex_loop.simps nx prod.case nx2 by (simp add: t t2)
  finally have "fst (lex_source ?s (Some f)) = [t, t2]" by simp
  with t t2 show ?thesis by (simp add: byte_string_def Let_def)
qed

end
