(* ===== verification/Vhdl_Parse_Expr.thy ===== *)
theory Vhdl_Parse_Expr
  imports Vhdl_Printer Vhdl_Lexer
begin

text \<open>
  Model of the token stream and of the expression part of \<open>src/tools/socgen/vhdl/parser.go\<close>.

  The state is the list of tokens from the current one on and the errors recorded so far, each with the
  raw position that the code renders through the file. The list is never empty: \<open>advance\<close> stays on
  the last token, the end of the file. Positions inside the syntax tree are erased.

  The grammar functions call each other in a cycle that goes through \<open>parseExpr\<close>. Each is defined over
  a parameter \<open>pe\<close>, the expression parser it calls, and \<open>parsePrimary\<close> ties the knot with fuel. A
  loop of the code takes the number of remaining tokens as its bound: every iteration consumes one.
\<close>

section \<open>The token stream\<close>

record parse_error =
  pe_pos :: int
  pe_msg :: string

record pstate =
  ps_toks :: "token list"
  ps_errs :: "parse_error list"

type_synonym 'a parse = "pstate \<Rightarrow> 'a \<times> pstate"

definition newParser :: "string \<Rightarrow> src_file option \<Rightarrow> pstate" where
  "newParser src fo = \<lparr>ps_toks = fst (lex_source src fo), ps_errs = []\<rparr>"

definition cur :: "pstate \<Rightarrow> token" where
  "cur st = (case ps_toks st of [] \<Rightarrow> eof_token | t # ts \<Rightarrow> t)"

definition cur_kind :: "pstate \<Rightarrow> kind" where
  "cur_kind st = tok_kind (cur st)"

definition at_kind :: "kind \<Rightarrow> pstate \<Rightarrow> bool" where
  "at_kind k st \<longleftrightarrow> cur_kind st = k"

definition skip :: "pstate \<Rightarrow> pstate" where
  "skip st = (case ps_toks st of t # u # ts \<Rightarrow> st\<lparr>ps_toks := u # ts\<rparr> | _ \<Rightarrow> st)"

definition advance :: "token parse" where
  "advance st = (cur st, skip st)"

definition accept :: "kind \<Rightarrow> bool parse" where
  "accept k st = (if at_kind k st then (True, skip st) else (False, st))"

definition errorf :: "int \<Rightarrow> string \<Rightarrow> pstate \<Rightarrow> pstate" where
  "errorf p msg st = st\<lparr>ps_errs := ps_errs st @ [\<lparr>pe_pos = p, pe_msg = msg\<rparr>]\<rparr>"

definition expect :: "kind \<Rightarrow> token parse" where
  "expect k st =
     (let tok = cur st in
      if tok_kind tok = k then (tok, skip st)
      else (tok, errorf (tok_pos tok)
              (''expected '' @ kind_string k @ '', got '' @ kind_string (tok_kind tok) @ '' '' @ go_quote (tok_lit tok)) st))"

definition peekKind :: "nat \<Rightarrow> pstate \<Rightarrow> kind" where
  "peekKind n st = (case drop n (ps_toks st) of [] \<Rightarrow> K_EOF | t # ts \<Rightarrow> tok_kind t)"

definition ensureProgress :: "pstate \<Rightarrow> string \<Rightarrow> pstate \<Rightarrow> pstate" where
  "ensureProgress start place st =
     (if length (ps_toks st) = length (ps_toks start) \<and> \<not> at_kind K_EOF st
      then skip (errorf (tok_pos (cur st))
             (''skipping unexpected '' @ kind_string (cur_kind st) @ '' '' @ go_quote (tok_lit (cur st)) @ '' in '' @ place) st)
      else st)"

definition fuel :: "pstate \<Rightarrow> nat" where
  "fuel st = length (ps_toks st)"

section \<open>Operator tiers\<close>

fun tierLoop :: "nat \<Rightarrow> kind list \<Rightarrow> expr parse \<Rightarrow> expr \<Rightarrow> expr parse" where
  "tierLoop 0 ops sub left st = (left, st)"
| "tierLoop (Suc n) ops sub left st =
     (if cur_kind st \<in> set ops
      then (case sub (skip st) of (right, st') \<Rightarrow> tierLoop n ops sub (BinaryExpr left (cur_kind st) right) st')
      else (left, st))"

definition parseTier :: "kind list \<Rightarrow> expr parse \<Rightarrow> expr parse" where
  "parseTier ops sub st = (case sub st of (left, st') \<Rightarrow> tierLoop (fuel st') ops sub left st')"

definition logicalOps :: "kind list" where "logicalOps = [K_AND, K_OR, K_NAND, K_NOR, K_XOR, K_XNOR]"
definition relationOps :: "kind list" where "relationOps = [K_EQ, K_NE, K_LT, K_LE, K_GT, K_GE]"
definition shiftOps :: "kind list" where "shiftOps = [K_SLL, K_SRL, K_SLA, K_SRA, K_ROL, K_ROR]"
definition addingOps :: "kind list" where "addingOps = [K_PLUS, K_MINUS, K_AMP]"
definition multiplyingOps :: "kind list" where "multiplyingOps = [K_STAR, K_SLASH, K_MOD, K_REM]"

text \<open>The tiers over the parser of primaries.\<close>

definition parseFactor :: "expr parse \<Rightarrow> expr parse" where
  "parseFactor prim st =
     (if at_kind K_ABS st \<or> at_kind K_NOT st
      then (case prim (skip st) of (x, st') \<Rightarrow> (UnaryExpr (cur_kind st) x, st'))
      else (case prim st of
              (left, st1) \<Rightarrow>
                if at_kind K_EXP st1
                then (case prim (skip st1) of (right, st2) \<Rightarrow> (BinaryExpr left K_EXP right, st2))
                else (left, st1)))"

definition parseTerm :: "expr parse \<Rightarrow> expr parse" where
  "parseTerm prim = parseTier multiplyingOps (parseFactor prim)"

definition parseSign :: "expr parse \<Rightarrow> expr parse" where
  "parseSign prim st =
     (if at_kind K_PLUS st \<or> at_kind K_MINUS st
      then (case parseTerm prim (skip st) of (x, st') \<Rightarrow> (UnaryExpr (cur_kind st) x, st'))
      else parseTerm prim st)"

definition parseSimple :: "expr parse \<Rightarrow> expr parse" where
  "parseSimple prim st =
     (case parseSign prim st of (left, st') \<Rightarrow> tierLoop (fuel st') addingOps (parseTerm prim) left st')"

definition parseShift :: "expr parse \<Rightarrow> expr parse" where
  "parseShift prim = parseTier shiftOps (parseSimple prim)"

definition parseRelation :: "expr parse \<Rightarrow> expr parse" where
  "parseRelation prim = parseTier relationOps (parseShift prim)"

definition parseLogical :: "expr parse \<Rightarrow> expr parse" where
  "parseLogical prim = parseTier logicalOps (parseRelation prim)"

definition parseExprWith :: "expr parse \<Rightarrow> expr parse" where
  "parseExprWith prim st =
     (case parseLogical prim st of
        (left, st1) \<Rightarrow>
          if at_kind K_TO st1 \<or> at_kind K_DOWNTO st1
          then (case parseLogical prim (skip st1) of (right, st2) \<Rightarrow> (RangeE left (cur_kind st1) right, st2))
          else (left, st1))"

section \<open>Lists\<close>

text \<open>\<open>for p.accept(sep) { xs = append(xs, item()) }\<close>.\<close>

fun sepLoop :: "nat \<Rightarrow> kind \<Rightarrow> 'a parse \<Rightarrow> 'a list \<Rightarrow> 'a list parse" where
  "sepLoop 0 sep item acc st = (acc, st)"
| "sepLoop (Suc n) sep item acc st =
     (if at_kind sep st
      then (case item (skip st) of (x, st') \<Rightarrow> sepLoop n sep item (acc @ [x]) st')
      else (acc, st))"

definition parseElementAssoc :: "expr parse \<Rightarrow> element_assoc parse" where
  "parseElementAssoc pe st =
     (case pe st of
        (e, st1) \<Rightarrow>
          if at_kind K_BAR st1 \<or> at_kind K_ARROW st1
          then (case sepLoop (fuel st1) K_BAR pe [e] st1 of
                  (choices, st2) \<Rightarrow>
                    (case expect K_ARROW st2 of
                       (arrow, st3) \<Rightarrow> (case pe st3 of (x, st4) \<Rightarrow> (ElementAssoc choices x, st4))))
          else (ElementAssoc [] e, st1))"

text \<open>The loop over aggregate elements tolerates a trailing comma.\<close>

fun elemLoop :: "nat \<Rightarrow> expr parse \<Rightarrow> element_assoc list \<Rightarrow> element_assoc list parse" where
  "elemLoop 0 pe acc st = (acc, st)"
| "elemLoop (Suc n) pe acc st =
     (if at_kind K_COMMA st
      then if at_kind K_RPAREN (skip st) then (acc, skip st)
           else (case parseElementAssoc pe (skip st) of (x, st') \<Rightarrow> elemLoop n pe (acc @ [x]) st')
      else (acc, st))"

definition parseElems :: "expr parse \<Rightarrow> element_assoc list parse" where
  "parseElems pe st =
     (if at_kind K_RPAREN st then ([], st)
      else (case parseElementAssoc pe st of (x, st') \<Rightarrow> elemLoop (fuel st') pe [x] st'))"

definition parseParenOrAggregate :: "expr parse \<Rightarrow> expr parse" where
  "parseParenOrAggregate pe st =
     (case expect K_LPAREN st of
        (open_tok, st1) \<Rightarrow>
          (case parseElems pe st1 of
             (elems, st2) \<Rightarrow>
               (case expect K_RPAREN st2 of
                  (close_tok, st3) \<Rightarrow>
                    (case elems of
                       [ElementAssoc [] x] \<Rightarrow> (ParenExpr x, st3)
                     | _ \<Rightarrow> (Aggregate elems, st3)))))"

definition parseAssocElement :: "expr parse \<Rightarrow> assoc_element parse" where
  "parseAssocElement pe st =
     (case pe st of
        (e, st1) \<Rightarrow>
          if at_kind K_ARROW st1
          then (case pe (skip st1) of (actual, st2) \<Rightarrow> (AssocElement (exprString e) actual, st2))
          else (AssocElement [] e, st1))"

definition parseAssocs :: "expr parse \<Rightarrow> assoc_element list parse" where
  "parseAssocs pe st =
     (if at_kind K_RPAREN st then ([], st)
      else (case parseAssocElement pe st of
              (x, st') \<Rightarrow> sepLoop (fuel st') K_COMMA (parseAssocElement pe) [x] st'))"

definition parseAssocList :: "expr parse \<Rightarrow> assoc_element list parse" where
  "parseAssocList pe st =
     (case expect K_LPAREN st of
        (open_tok, st1) \<Rightarrow>
          (case parseAssocs pe st1 of
             (elems, st2) \<Rightarrow> (case expect K_RPAREN st2 of (close_tok, st3) \<Rightarrow> (elems, st3))))"

section \<open>Names\<close>

definition isAttrNameKind :: "kind \<Rightarrow> bool" where
  "isAttrNameKind k \<longleftrightarrow> k = K_IDENT \<or> k = K_EXTIDENT \<or> is_keyword k"

definition is_selector :: "kind \<Rightarrow> bool" where
  "is_selector k \<longleftrightarrow> k = K_IDENT \<or> k = K_EXTIDENT \<or> k = K_ALL"

text \<open>The text of a token, the text of its kind when it has none.\<close>

definition tok_text :: "token \<Rightarrow> string" where
  "tok_text t = (if tok_lit t = [] then kind_string (tok_kind t) else tok_lit t)"

text \<open>The dotted prefix: a dot that nothing fits is consumed all the same.\<close>

fun dotLoop :: "nat \<Rightarrow> string \<Rightarrow> string parse" where
  "dotLoop 0 text st = (text, st)"
| "dotLoop (Suc n) text st =
     (if at_kind K_DOT st
      then if is_selector (cur_kind (skip st))
           then dotLoop n (text @ ''.'' @ tok_text (cur (skip st))) (skip (skip st))
           else (text, skip st)
      else (text, st))"

fun tickLoop :: "nat \<Rightarrow> string \<Rightarrow> string parse" where
  "tickLoop 0 text st = (text, st)"
| "tickLoop (Suc n) text st =
     (if at_kind K_TICK st \<and> isAttrNameKind (peekKind 1 st)
      then tickLoop n (text @ [tick_char] @ tok_text (cur (skip st))) (skip (skip st))
      else (text, st))"

fun suffixLoop :: "nat \<Rightarrow> expr parse \<Rightarrow> expr \<Rightarrow> expr parse" where
  "suffixLoop 0 pe e st = (e, st)"
| "suffixLoop (Suc n) pe e st =
     (if at_kind K_LPAREN st
      then (case parseAssocs pe (skip st) of
              (args, st1) \<Rightarrow> (case expect K_RPAREN st1 of (close_tok, st2) \<Rightarrow> suffixLoop n pe (CallExpr e args) st2))
      else if at_kind K_DOT st \<and> is_selector (peekKind 1 st)
      then suffixLoop n pe (SelectorExpr e (tok_text (cur (skip st)))) (skip (skip st))
      else if at_kind K_TICK st \<and> isAttrNameKind (peekKind 1 st)
      then suffixLoop n pe (AttributeName e (tok_text (cur (skip st)))) (skip (skip st))
      else (e, st))"

definition parseName :: "expr parse \<Rightarrow> expr parse" where
  "parseName pe st =
     (case advance st of
        (tok, st1) \<Rightarrow>
          (case dotLoop (fuel st1) (tok_lit tok) st1 of
             (text1, st2) \<Rightarrow>
               (case tickLoop (fuel st2) text1 st2 of
                  (text, st3) \<Rightarrow>
                    if at_kind K_TICK st3 \<and> peekKind 1 st3 = K_LPAREN
                    then (case parseParenOrAggregate pe (skip st3) of (x, st4) \<Rightarrow> (QualifiedExpr (Ident text) x, st4))
                    else suffixLoop (fuel st3) pe (Ident text) st3)))"

section \<open>Primaries and expressions\<close>

definition primary_body :: "expr parse \<Rightarrow> expr parse" where
  "primary_body pe st =
     (let tok = cur st; k = tok_kind tok in
      if k \<in> {K_INT, K_REAL, K_BASEDLIT}
      then if at_kind K_IDENT (skip st)
           then (PhysicalLit (tok_lit tok) (tok_lit (cur (skip st))), skip (skip st))
           else (BasicLit k (tok_lit tok), skip st)
      else if k \<in> {K_CHARLIT, K_STRINGLIT, K_BITSTRINGLIT} then (BasicLit k (tok_lit tok), skip st)
      else if k = K_LPAREN then parseParenOrAggregate pe st
      else if k \<in> {K_IDENT, K_EXTIDENT} then parseName pe st
      else if k = K_NEW then (case pe (skip st) of (x, st') \<Rightarrow> (AllocatorExpr x, st'))
      else if k \<in> {K_OTHERS, K_ALL, K_RANGE, K_NULL, K_OPEN} then (Ident (kind_string k), skip st)
      else (BasicLit k [],
            errorf (tok_pos tok) (''unexpected token '' @ kind_string k @ '' '' @ go_quote (tok_lit tok) @ '' in primary'') st))"

fun parsePrimary :: "nat \<Rightarrow> expr parse" where
  "parsePrimary 0 st = (BasicLit (cur_kind st) [], st)"
| "parsePrimary (Suc n) st = primary_body (parseExprWith (parsePrimary n)) st"

definition parseExprN :: "nat \<Rightarrow> expr parse" where
  "parseExprN n = parseExprWith (parsePrimary n)"

definition parseExpr :: "expr parse" where
  "parseExpr st = parseExprN (fuel st) st"

definition parseDiscreteRange :: "expr parse" where
  "parseDiscreteRange st =
     (case parseExpr st of
        (e, st1) \<Rightarrow>
          if at_kind K_RANGE st1
          then (case parseExpr (skip st1) of (r, st2) \<Rightarrow> (RangeConstraint e r, st2))
          else (e, st1))"

end
