(* ===== verification/Vhdl_Written.thy ===== *)
theory Vhdl_Written
  imports Vhdl_Parse_Expr Vhdl_Lex_Props
begin

text \<open>
  Which expressions the printer writes so that the parser can read them back, and the tokens their text
  has. The predicates follow the grammar of \<open>parser.go\<close>: a level from 0 (logical) to 6 (primary) says
  which operators may stand at the top without parentheses. Two kinds of tree that the parser can build
  are left out: a selection from a name with an attribute, and an allocator as the operand of an operator.
\<close>

section \<open>Words and literals\<close>

type_synonym lexeme = "kind \<times> string"

definition word :: "lexeme \<Rightarrow> bool" where
  "word t \<longleftrightarrow> snd t \<noteq> [] \<and> isIdentStart (hd (snd t)) \<and> list_all isIdentCont (snd t) \<and>
     (case LookupKeyword (snd t) of Some k \<Rightarrow> fst t = k | None \<Rightarrow> fst t = K_IDENT)"

text \<open>The rest of a quoted text is closed: it ends with the quote that closes it.\<close>

fun closed_quote :: "char \<Rightarrow> string \<Rightarrow> bool" where
  "closed_quote q [] = False"
| "closed_quote q [c] = (c = q)"
| "closed_quote q (c # d # s) = (if c = q then d = q \<and> closed_quote q s else closed_quote q (d # s))"

definition ext_ident :: "lexeme \<Rightarrow> bool" where
  "ext_ident t \<longleftrightarrow> fst t = K_EXTIDENT \<and> snd t \<noteq> [] \<and> hd (snd t) = CHR 0x5C \<and> closed_quote (CHR 0x5C) (tl (snd t))"

definition name_word :: "lexeme \<Rightarrow> bool" where
  "name_word t \<longleftrightarrow> (word t \<and> fst t = K_IDENT) \<or> ext_ident t"

definition selector_word :: "lexeme \<Rightarrow> bool" where
  "selector_word t \<longleftrightarrow> name_word t \<or> (word t \<and> fst t = K_ALL)"

definition attr_word :: "lexeme \<Rightarrow> bool" where
  "attr_word t \<longleftrightarrow> word t \<or> ext_ident t"

definition number_lit :: "lexeme \<Rightarrow> bool" where
  "number_lit t \<longleftrightarrow> snd t \<noteq> [] \<and> is_digit (hd (snd t)) \<and> scan_number (snd t) = t"

definition text_lit :: "lexeme \<Rightarrow> bool" where
  "text_lit t \<longleftrightarrow>
     (fst t = K_CHARLIT \<and> (\<exists>c. snd t = [CHR 0x27, c, CHR 0x27] \<and> char_code c < 128)) \<or>
     (fst t = K_STRINGLIT \<and> snd t \<noteq> [] \<and> hd (snd t) = CHR 0x22 \<and> closed_quote (CHR 0x22) (tl (snd t))) \<or>
     (fst t = K_BITSTRINGLIT \<and> 2 \<le> length (snd t) \<and> isBitstringBase (hd (snd t)) \<and> snd t ! 1 = CHR 0x22 \<and>
        closed_quote (CHR 0x22) (drop 2 (snd t)))"

text \<open>The token of an operator or of a keyword, as the printer writes it.\<close>

definition op_tok :: "kind \<Rightarrow> lexeme" where
  "op_tok k = (k, if is_keyword k then kind_string k else [])"

definition op_level :: "kind \<Rightarrow> nat option" where
  "op_level k =
     (if k \<in> set logicalOps then Some 0 else if k \<in> set relationOps then Some 1
      else if k \<in> set shiftOps then Some 2 else if k \<in> set addingOps then Some 3
      else if k \<in> set multiplyingOps then Some 4 else None)"

abbreviation lpar :: lexeme where "lpar \<equiv> (K_LPAREN, [])"
abbreviation rpar :: lexeme where "rpar \<equiv> (K_RPAREN, [])"

definition ends_name :: "lexeme list \<Rightarrow> bool" where
  "ends_name ts \<longleftrightarrow> isNameEnd (fst (last ts))"

section \<open>Names\<close>

text \<open>The text of a name that the parser keeps flat, with its tokens: a dotted prefix, then attributes.\<close>

inductive dotted :: "string \<Rightarrow> lexeme list \<Rightarrow> bool" where
  dotted_word: "name_word t \<Longrightarrow> dotted (snd t) [t]"
| dotted_dot: "dotted s ts \<Longrightarrow> selector_word t \<Longrightarrow> dotted (s @ ''.'' @ snd t) (ts @ [(K_DOT, []), t])"

inductive flat_name :: "string \<Rightarrow> lexeme list \<Rightarrow> bool" where
  flat_dotted: "dotted s ts \<Longrightarrow> flat_name s ts"
| flat_attr: "flat_name s ts \<Longrightarrow> ends_name ts \<Longrightarrow> attr_word t \<Longrightarrow> flat_name (s @ [tick_char] @ snd t) (ts @ [(K_TICK, []), t])"

definition is_Ident :: "expr \<Rightarrow> bool" where
  "is_Ident e \<longleftrightarrow> (case e of Ident n \<Rightarrow> True | _ \<Rightarrow> False)"

section \<open>Expressions\<close>

inductive writes :: "nat \<Rightarrow> expr \<Rightarrow> lexeme list \<Rightarrow> bool"
  and writesP :: "expr \<Rightarrow> lexeme list \<Rightarrow> bool"
  and writesN :: "expr \<Rightarrow> lexeme list \<Rightarrow> bool"
  and writesE :: "expr \<Rightarrow> lexeme list \<Rightarrow> bool"
  and writesA :: "assoc_element \<Rightarrow> lexeme list \<Rightarrow> bool"
  and writesAs :: "assoc_element list \<Rightarrow> lexeme list \<Rightarrow> bool"
  and writesCs :: "expr list \<Rightarrow> lexeme list \<Rightarrow> bool"
  and writesEl :: "element_assoc \<Rightarrow> lexeme list \<Rightarrow> bool"
  and writesEls :: "element_assoc list \<Rightarrow> lexeme list \<Rightarrow> bool" where
  W_prim: "writesP e ts \<Longrightarrow> k \<le> 6 \<Longrightarrow> writes k e ts"
| W_bin: "op_level op = Some j \<Longrightarrow> k \<le> j \<Longrightarrow> writes j x ts \<Longrightarrow> writes (Suc j) y us \<Longrightarrow>
    writes k (BinaryExpr x op y) (ts @ op_tok op # us)"
| W_sign: "op = K_PLUS \<or> op = K_MINUS \<Longrightarrow> k \<le> 3 \<Longrightarrow> writes 4 x ts \<Longrightarrow> writes k (UnaryExpr op x) (op_tok op # ts)"
| W_not: "op = K_ABS \<or> op = K_NOT \<Longrightarrow> k \<le> 5 \<Longrightarrow> writesP x ts \<Longrightarrow> writes k (UnaryExpr op x) (op_tok op # ts)"
| W_exp: "k \<le> 5 \<Longrightarrow> writesP x ts \<Longrightarrow> writesP y us \<Longrightarrow> writes k (BinaryExpr x K_EXP y) (ts @ op_tok K_EXP # us)"
| P_number: "number_lit t \<Longrightarrow> writesP (BasicLit (fst t) (snd t)) [t]"
| P_text: "text_lit t \<Longrightarrow> writesP (BasicLit (fst t) (snd t)) [t]"
| P_phys: "number_lit t \<Longrightarrow> word u \<Longrightarrow> fst u = K_IDENT \<Longrightarrow> writesP (PhysicalLit (snd t) (snd u)) [t, u]"
| P_keyword: "k \<in> {K_OTHERS, K_ALL, K_RANGE, K_NULL, K_OPEN} \<Longrightarrow> writesP (Ident (kind_string k)) [op_tok k]"
| P_name: "writesN e ts \<Longrightarrow> writesP e ts"
| P_paren: "writesE x ts \<Longrightarrow> writesP (ParenExpr x) (lpar # ts @ [rpar])"
| P_aggregate: "writesEls es ts \<Longrightarrow> \<forall>x. es \<noteq> [ElementAssoc [] x] \<Longrightarrow> writesP (Aggregate es) (lpar # ts @ [rpar])"
| P_qualified: "flat_name s ts \<Longrightarrow> ends_name ts \<Longrightarrow> writesP x (lpar # us) \<Longrightarrow>
    writesP (QualifiedExpr (Ident s) x) (ts @ (K_TICK, []) # lpar # us)"
| N_flat: "flat_name s ts \<Longrightarrow> writesN (Ident s) ts"
| N_call: "writesN f ts \<Longrightarrow> writesAs args us \<Longrightarrow> writesN (CallExpr f args) (ts @ lpar # us @ [rpar])"
| N_selector: "writesN x ts \<Longrightarrow> \<not> is_Ident x \<Longrightarrow> selector_word t \<Longrightarrow>
    writesN (SelectorExpr x (snd t)) (ts @ [(K_DOT, []), t])"
| N_attribute: "writesN x ts \<Longrightarrow> \<not> is_Ident x \<Longrightarrow> ends_name ts \<Longrightarrow> attr_word t \<Longrightarrow>
    writesN (AttributeName x (snd t)) (ts @ [(K_TICK, []), t])"
| E_plain: "writes 0 e ts \<Longrightarrow> writesE e ts"
| E_range: "d = K_TO \<or> d = K_DOWNTO \<Longrightarrow> writes 0 l ts \<Longrightarrow> writes 0 r us \<Longrightarrow> writesE (RangeE l d r) (ts @ op_tok d # us)"
| E_new: "writesE x ts \<Longrightarrow> writesE (AllocatorExpr x) (op_tok K_NEW # ts)"
| A_positional: "writesE x ts \<Longrightarrow> writesA (AssocElement [] x) ts"
| A_named: "writesE f ts \<Longrightarrow> writesE x us \<Longrightarrow> writesA (AssocElement (printExpr f) x) (ts @ (K_ARROW, []) # us)"
| As_none: "writesAs [] []"
| As_one: "writesA a ts \<Longrightarrow> writesAs [a] ts"
| As_more: "writesA a ts \<Longrightarrow> writesAs (b # bs) us \<Longrightarrow> writesAs (a # b # bs) (ts @ (K_COMMA, []) # us)"
| Cs_one: "writesE c ts \<Longrightarrow> writesCs [c] ts"
| Cs_more: "writesE c ts \<Longrightarrow> writesCs (d # ds) us \<Longrightarrow> writesCs (c # d # ds) (ts @ (K_BAR, []) # us)"
| El_positional: "writesE x ts \<Longrightarrow> writesEl (ElementAssoc [] x) ts"
| El_named: "writesCs cs ts \<Longrightarrow> writesE x us \<Longrightarrow> writesEl (ElementAssoc cs x) (ts @ (K_ARROW, []) # us)"
| Els_none: "writesEls [] []"
| Els_one: "writesEl e ts \<Longrightarrow> writesEls [e] ts"
| Els_more: "writesEl e ts \<Longrightarrow> writesEls (f # fs) us \<Longrightarrow> writesEls (e # f # fs) (ts @ (K_COMMA, []) # us)"

lemmas writes_mutual = writes_writesP_writesN_writesE_writesA_writesAs_writesCs_writesEl_writesEls.inducts

end
