(* ===== verification/Vhdl_Relex.thy ===== *)
theory Vhdl_Relex
  imports Vhdl_Written
begin

text \<open>
  The lexer reads the printed text of an expression back as its tokens: first each token by itself, up to
  a character that cannot belong to it, then the expressions by induction on how they are written.
\<close>

section \<open>Where a token ends\<close>

definition boundary :: "string \<Rightarrow> bool" where
  "boundary rest \<longleftrightarrow> rest = [] \<or> hd rest \<in> set '' ),(.'' \<or> hd rest = tick_char"

definition hard_boundary :: "string \<Rightarrow> bool" where
  "hard_boundary rest \<longleftrightarrow> rest = [] \<or> hd rest \<in> set '' ),''"

lemma hard_boundaryD: "hard_boundary rest \<Longrightarrow> boundary rest"
  by (auto simp: hard_boundary_def boundary_def)

lemma boundary_simps [simp]:
  "boundary []" "boundary (c # s) \<longleftrightarrow> c \<in> set '' ),(.'' \<or> c = tick_char"
  "hard_boundary []" "hard_boundary (c # s) \<longleftrightarrow> c \<in> set '' ),''"
  by (simp_all add: boundary_def hard_boundary_def)

text \<open>A class of characters that stops at the end of a token.\<close>

definition stops_at :: "(char \<Rightarrow> bool) \<Rightarrow> string \<Rightarrow> bool" where
  "stops_at P rest \<longleftrightarrow> rest = [] \<or> \<not> P (hd rest)"

lemma stops_at_takeWhile:
  assumes "stops_at P rest"
  shows "takeWhile P (s @ rest) = takeWhile P s" "dropWhile P (s @ rest) = dropWhile P s @ rest"
proof -
  have "takeWhile P rest = []" "dropWhile P rest = rest"
    using assms by (cases rest; simp add: stops_at_def)+
  then show "takeWhile P (s @ rest) = takeWhile P s" "dropWhile P (s @ rest) = dropWhile P s @ rest"
    by (induction s) auto
qed

lemma char_facts:
  "\<not> isIdentCont (CHR '' '')" "\<not> isIdentCont (CHR '')'')" "\<not> isIdentCont (CHR '','')" "\<not> isIdentCont (CHR ''('')"
  "\<not> isIdentCont (CHR ''.'')" "\<not> isIdentCont tick_char"
  "\<not> digit_or_us (CHR '' '')" "\<not> digit_or_us (CHR '')'')" "\<not> digit_or_us (CHR '','')"
  "\<not> based_digit (CHR '' '')" "\<not> based_digit (CHR '')'')" "\<not> based_digit (CHR '','')"
  "\<not> is_digit (CHR '' '')" "\<not> is_digit (CHR '')'')" "\<not> is_digit (CHR '','')"
  by (simp_all add: isIdentCont_def isLetter_def is_lower_def is_upper_def is_digit_def char_code_def
      digit_or_us_def based_digit_def)

lemma boundary_ident: "boundary rest \<Longrightarrow> stops_at isIdentCont rest"
  by (auto simp: boundary_def stops_at_def char_facts)

lemma hard_boundary_stops:
  "hard_boundary rest \<Longrightarrow> stops_at digit_or_us rest" "hard_boundary rest \<Longrightarrow> stops_at based_digit rest"
  "hard_boundary rest \<Longrightarrow> stops_at is_digit rest"
  by (auto simp: hard_boundary_def stops_at_def char_facts)

section \<open>Scanning up to a boundary\<close>

lemma scan_sign_append: "hard_boundary rest \<Longrightarrow> scan_sign (s @ rest) = scan_sign s"
  by (cases s; cases rest) (auto simp: scan_sign_def)

lemma scan_exponent_append:
  assumes "hard_boundary rest"
  shows "scan_exponent (s @ rest) = scan_exponent s"
proof (cases s)
  case Nil
  with assms show ?thesis by (cases rest) (auto simp: scan_exponent_def)
next
  case (Cons c t)
  have "length (scan_sign t) \<le> length t" by (cases t) (auto simp: scan_sign_def)
  then have "drop (length (scan_sign t)) (t @ rest) = drop (length (scan_sign t)) t @ rest" by simp
  with Cons assms show ?thesis
    by (simp add: scan_exponent_def scan_sign_append stops_at_takeWhile(1) [OF hard_boundary_stops(3)])
qed

lemma scan_number_append:
  assumes "hard_boundary rest"
  shows "scan_number (s @ rest) = scan_number s"
proof -
  note st = stops_at_takeWhile [OF hard_boundary_stops(1) [OF assms]]
    and bt = stops_at_takeWhile [OF hard_boundary_stops(2) [OF assms]]
    and ex = scan_exponent_append [OF assms]
  show ?thesis
  proof (cases "dropWhile digit_or_us s")
    case Nil
    then have dw: "dropWhile digit_or_us (s @ rest) = rest" by (simp only: st append_Nil)
    show ?thesis
      unfolding scan_number_def Let_def dw st(1) Nil using assms by (cases rest) (auto simp: char_facts)
  next
    case (Cons c t)
    have cl: "(case u @ rest of d # v \<Rightarrow> if d = CHR ''#'' then [d] else [] | [] \<Rightarrow> []) =
        (case u of d # v \<Rightarrow> if d = CHR ''#'' then [d] else [] | [] \<Rightarrow> [])" for u :: string
      using assms by (cases u; cases rest) auto
    have drop_cl: "drop (length (case u of d # v \<Rightarrow> if d = CHR ''#'' then [d] else [] | [] \<Rightarrow> [])) (u @ rest) =
        drop (length (case u of d # v \<Rightarrow> if d = CHR ''#'' then [d] else [] | [] \<Rightarrow> [])) u @ rest" for u :: string
      by (cases u) auto
    have tw: "length (takeWhile digit_or_us t) \<le> length t" by (rule length_takeWhile_le)
    have dot: "(t @ rest \<noteq> [] \<and> is_digit (hd (t @ rest))) = (t \<noteq> [] \<and> is_digit (hd t))"
      using hard_boundary_stops(3) [OF assms] by (cases t) (auto simp: stops_at_def)
    have e: "scan_exponent (c # t @ rest) = scan_exponent (c # t)" using ex [of "c # t"] by simp
    show ?thesis
      unfolding scan_number_def Let_def st Cons append_Cons list.case dot bt cl drop_cl e ex
      using tw by (simp add: ex)
  qed
qed

lemma scan_ident_append:
  assumes "boundary rest" "s \<noteq> []" "list_all isIdentCont s"
  shows "scan_ident (s @ rest) = (case LookupKeyword s of Some k \<Rightarrow> (k, s) | None \<Rightarrow> (K_IDENT, s))"
proof -
  note st = stops_at_takeWhile [OF boundary_ident [OF assms(1)]]
  have "takeWhile isIdentCont s = s" "dropWhile isIdentCont s = []"
    using assms(3) by (simp_all add: list_all_iff)
  then have tw: "takeWhile isIdentCont (s @ rest) = s" "dropWhile isIdentCont (s @ rest) = rest"
    by (simp_all only: st append_Nil)
  have "\<not> (rest \<noteq> [] \<and> hd rest = CHR 0x22)" using assms(1) by (auto simp: boundary_def)
  then show ?thesis unfolding scan_ident_def Let_def tw by (simp only: if_False simp_thms)
qed

lemma scan_quoted_append:
  "closed_quote q s \<Longrightarrow> rest = [] \<or> hd rest \<noteq> q \<Longrightarrow> scan_quoted q (s @ rest) = s"
proof (induction q s rule: closed_quote.induct)
  case (2 q c)
  then show ?case by (cases rest) auto
next
  case (3 q c d s)
  then show ?case by (cases s; cases rest) (auto split: if_splits)
qed simp

section \<open>One token\<close>

lemma lex_text_space: "lex_text p (CHR '' '' # s) = lex_text p s"
  by (subst (1 2) lex_text.simps) (simp add: lex_space_def)

lemma lex_text_step:
  assumes "lex_token p c s = (k, lit, n)" "\<not> lex_space c" "k \<noteq> K_COMMENT"
  shows "lex_text p (c # s) = (k, lit) # lex_text k (drop n (c # s))"
  using assms by (subst lex_text.simps) simp

lemma letter_facts:
  assumes "isIdentStart c"
  shows "\<not> lex_space c" "c \<noteq> CHR ''-''" "c \<noteq> CHR 0x5C" "c \<noteq> CHR 0x22"
  using assms by (auto simp: isIdentStart_def isLetter_def is_lower_def is_upper_def lex_space_def char_code_def)

lemma digit_facts:
  assumes "is_digit c"
  shows "\<not> lex_space c" "c \<noteq> CHR ''-''" "c \<noteq> CHR 0x5C" "c \<noteq> CHR 0x22" "\<not> isIdentStart c"
  using assms by (auto simp: isIdentStart_def isLetter_def is_lower_def is_upper_def is_digit_def lex_space_def char_code_def)

lemma keyword_not_comment: "is_keyword k \<Longrightarrow> k \<noteq> K_COMMENT"
  by (auto simp: is_keyword_def)

lemma lex_word:
  assumes "word t" "boundary rest"
  shows "lex_text p (snd t @ rest) = t # lex_text (fst t) rest"
proof -
  obtain c s where v: "snd t = c # s" "isIdentStart c" "list_all isIdentCont (c # s)"
    using assms(1) by (cases "snd t") (auto simp: word_def)
  note L = letter_facts [OF v(2)]
  have "scan_ident (c # s @ rest) = t"
    using scan_ident_append [OF assms(2), of "c # s"] v(1,3) assms(1)
    by (cases t) (auto simp: word_def split: option.splits)
  then have "lex_token p c (s @ rest) = (fst t, snd t, length (snd t))"
    using L v(2) by (simp add: lex_token_def split_beta)
  moreover have "fst t \<noteq> K_COMMENT"
    using assms(1) by (auto simp: word_def dest!: LookupKeyword_SomeD keyword_not_comment split: option.splits)
  ultimately show ?thesis
    using lex_text_step [of p c "s @ rest"] L(1) v(1) by (cases t) simp
qed

lemma lex_ext:
  assumes "ext_ident t" "boundary rest"
  shows "lex_text p (snd t @ rest) = t # lex_text (fst t) rest"
proof -
  obtain s where v: "snd t = CHR 0x5C # s" "closed_quote (CHR 0x5C) s"
    using assms(1) by (cases "snd t") (auto simp: ext_ident_def)
  have "rest = [] \<or> hd rest \<noteq> CHR 0x5C" using assms(2) by (auto simp: boundary_def)
  then have "lex_token p (CHR 0x5C) (s @ rest) = (K_EXTIDENT, snd t, length (snd t))"
    using v by (simp add: lex_token_def scan_quoted_append)
  then show ?thesis
    using lex_text_step [of p "CHR 0x5C" "s @ rest"] v(1) assms(1)
    by (cases t) (simp add: lex_space_def ext_ident_def)
qed

lemma lex_number:
  assumes "number_lit t" "hard_boundary rest"
  shows "lex_text p (snd t @ rest) = t # lex_text (fst t) rest"
proof -
  obtain c s where v: "snd t = c # s" "is_digit c" "scan_number (c # s) = t"
    using assms(1) by (cases "snd t") (auto simp: number_lit_def)
  note D = digit_facts [OF v(2)]
  have "scan_number (c # s @ rest) = t" using scan_number_append [OF assms(2), of "c # s"] v(3) by simp
  then have tok: "lex_token p c (s @ rest) = (fst t, snd t, length (snd t))"
    using D v(2) by (simp add: lex_token_def split_beta)
  have "fst (scan_number (c # s)) \<noteq> K_COMMENT" by (auto simp: scan_number_def Let_def split: list.split)
  then show ?thesis
    using lex_text_step [OF tok D(1)] v(1,3) by (cases t) simp
qed

lemma lex_lit:
  assumes "text_lit t" "boundary rest" "isNameEnd p \<longrightarrow> fst t \<noteq> K_CHARLIT"
  shows "lex_text p (snd t @ rest) = t # lex_text (fst t) rest"
proof -
  have q: "rest = [] \<or> hd rest \<noteq> CHR 0x22" using assms(2) by (auto simp: boundary_def)
  from assms(1) consider
      (char) c where "fst t = K_CHARLIT" "snd t = [CHR 0x27, c, CHR 0x27]" "char_code c < 128"
    | (str) s where "fst t = K_STRINGLIT" "snd t = CHR 0x22 # s" "closed_quote (CHR 0x22) s"
    | (bit) b s where "fst t = K_BITSTRINGLIT" "snd t = b # CHR 0x22 # s" "isBitstringBase b" "closed_quote (CHR 0x22) s"
    unfolding text_lit_def
  proof (elim disjE conjE exE, goal_cases)
    case (2)
    then show ?thesis by (cases "snd t") auto
  next
    case (3)
    then show ?thesis by (cases "snd t"; cases "tl (snd t)") auto
  qed blast
  then show ?thesis
  proof cases
    case char
    then have "lex_token p (CHR 0x27) (c # CHR 0x27 # rest) = (K_CHARLIT, snd t, 3)"
      using assms(3) by (simp add: lex_token_def delimiter_def second_def isIdentStart_def isLetter_def is_lower_def
          is_upper_def is_digit_def char_code_def byte_string_def)
    then show ?thesis
      using lex_text_step [of p "CHR 0x27" "c # CHR 0x27 # rest"] char by (cases t) (simp add: lex_space_def)
  next
    case str
    then have "lex_token p (CHR 0x22) (s @ rest) = (K_STRINGLIT, snd t, length (snd t))"
      by (simp add: lex_token_def scan_quoted_append q)
    then show ?thesis
      using lex_text_step [of p "CHR 0x22" "s @ rest"] str by (cases t) (simp add: lex_space_def)
  next
    case bit
    have b: "isIdentStart b" "isIdentCont b"
      using bit(3) by (auto simp: isBitstringBase_def isIdentStart_def isIdentCont_def isLetter_def is_lower_def
          is_upper_def char_code_def)
    note L = letter_facts [OF b(1)]
    have "\<not> isIdentCont (CHR 0x22)"
      by (simp add: isIdentCont_def isLetter_def is_lower_def is_upper_def is_digit_def char_code_def)
    then have "scan_ident (b # CHR 0x22 # s @ rest) = (K_BITSTRINGLIT, snd t)"
      using bit b by (simp add: scan_ident_def scan_quoted_append q)
    then have "lex_token p b (CHR 0x22 # s @ rest) = (K_BITSTRINGLIT, snd t, length (snd t))"
      using L b by (simp add: lex_token_def)
    then show ?thesis
      using lex_text_step [of p b "CHR 0x22 # s @ rest"] bit L(1) by (cases t) simp
  qed
qed

section \<open>Punctuation and operators\<close>

lemmas delim_eval = lex_token_def delimiter_def second_def isIdentStart_def isLetter_def is_lower_def
  is_upper_def is_digit_def char_code_def lex_space_def

lemma lex_punctuation:
  "lex_text p (CHR ''('' # s) = lpar # lex_text K_LPAREN s"
  "lex_text p (CHR '')'' # s) = rpar # lex_text K_RPAREN s"
  "lex_text p (CHR '','' # s) = (K_COMMA, []) # lex_text K_COMMA s"
  "lex_text p (CHR ''|'' # s) = (K_BAR, []) # lex_text K_BAR s"
  "lex_text p (CHR ''.'' # s) = (K_DOT, []) # lex_text K_DOT s"
  "lex_text p (CHR ''='' # CHR ''>'' # s) = (K_ARROW, []) # lex_text K_ARROW s"
  "isNameEnd p \<Longrightarrow> lex_text p (tick_char # s) = (K_TICK, []) # lex_text K_TICK s"
  by (subst lex_text.simps, simp add: delim_eval)+

lemma lex_symbol_op:
  assumes "k \<in> {K_EQ, K_NE, K_LT, K_LE, K_GT, K_GE, K_PLUS, K_MINUS, K_AMP, K_STAR, K_SLASH, K_EXP}"
  shows "lex_text p (kind_string k @ CHR '' '' # s) = op_tok k # lex_text k s"
proof -
  have e: "lex_text p (kind_string k @ CHR '' '' # s) = (k, []) # lex_text k (CHR '' '' # s)"
    using assms by (elim insertE emptyE; simp add: kind_string_def kindStr_def) (subst lex_text.simps, simp add: delim_eval)+
  have "\<not> is_keyword k" using assms by (auto simp: is_keyword_def)
  then show ?thesis unfolding e lex_text_space by (simp add: op_tok_def)
qed

lemma keyword_words:
  "list_all (\<lambda>p. snd p \<noteq> [] \<and> isIdentStart (hd (snd p)) \<and> list_all isIdentCont (snd p)) (drop 36 kindStr)"
  by code_simp

lemma word_keyword:
  assumes "is_keyword k"
  shows "word (op_tok k)"
  using keyword_words keyword_entry [OF assms] LookupKeyword_kind_string [OF assms] assms
  by (auto simp: list_all_iff word_def op_tok_def)

lemma lex_keyword_op:
  assumes "is_keyword k"
  shows "lex_text p (kind_string k @ CHR '' '' # s) = op_tok k # lex_text k s"
  using lex_word [OF word_keyword [OF assms], of "CHR '' '' # s" p] assms
  by (simp add: op_tok_def lex_text_space)

definition written_op :: "kind \<Rightarrow> bool" where
  "written_op k \<longleftrightarrow> is_keyword k \<or>
     k \<in> {K_EQ, K_NE, K_LT, K_LE, K_GT, K_GE, K_PLUS, K_MINUS, K_AMP, K_STAR, K_SLASH, K_EXP}"

lemma lex_op: "written_op k \<Longrightarrow> lex_text p (kind_string k @ CHR '' '' # s) = op_tok k # lex_text k s"
  unfolding written_op_def using lex_keyword_op lex_symbol_op by blast

lemma op_level_written: "op_level k = Some j \<Longrightarrow> written_op k"
  by (auto simp: op_level_def written_op_def is_keyword_def logicalOps_def relationOps_def shiftOps_def
      addingOps_def multiplyingOps_def split: if_splits)

lemma written_op_kind: "written_op k \<Longrightarrow> \<not> isNameEnd k \<and> k \<noteq> K_CHARLIT \<and> fst (op_tok k) = k"
  by (auto simp: written_op_def isNameEnd_def is_keyword_def op_tok_def)

section \<open>Texts that are read back\<close>

definition numeric :: "lexeme \<Rightarrow> bool" where
  "numeric t \<longleftrightarrow> fst t \<in> {K_INT, K_REAL, K_BASEDLIT}"

definition reads :: "string \<Rightarrow> lexeme list \<Rightarrow> bool" where
  "reads s ts \<longleftrightarrow> ts \<noteq> [] \<and>
     (\<forall>p rest. (isNameEnd p \<longrightarrow> fst (hd ts) \<noteq> K_CHARLIT) \<longrightarrow>
        (if numeric (last ts) then hard_boundary rest else boundary rest) \<longrightarrow>
        lex_text p (s @ rest) = ts @ lex_text (fst (last ts)) rest)"

lemma readsD:
  assumes "reads s ts" "isNameEnd p \<longrightarrow> fst (hd ts) \<noteq> K_CHARLIT"
    "hard_boundary rest \<or> (\<not> numeric (last ts) \<and> boundary rest)"
  shows "lex_text p (s @ rest) = ts @ lex_text (fst (last ts)) rest"
  using assms hard_boundaryD [of rest] unfolding reads_def by auto

lemma reads_nonempty: "reads s ts \<Longrightarrow> s \<noteq> []"
proof
  assume r: "reads s ts" "s = []"
  have "lex_text K_EOF [] = []" by (subst lex_text.simps) simp
  moreover have "lex_text K_EOF (s @ []) = ts @ lex_text (fst (last ts)) []"
    by (rule readsD [OF r(1)]) (simp_all add: isNameEnd_def)
  ultimately show False using r by (simp add: reads_def)
qed

text \<open>A separator: white space or a comma first, and one token.\<close>

definition separates :: "string \<Rightarrow> lexeme \<Rightarrow> bool" where
  "separates sp t \<longleftrightarrow> (\<forall>rest. hard_boundary (sp @ rest)) \<and> \<not> isNameEnd (fst t) \<and>
     (\<forall>p rest. lex_text p (sp @ rest) = t # lex_text (fst t) rest)"

lemma separators:
  "written_op k \<Longrightarrow> separates ('' '' @ kind_string k @ '' '') (op_tok k)"
  "separates '' => '' (K_ARROW, [])" "separates '' | '' (K_BAR, [])" "separates '', '' (K_COMMA, [])"
proof -
  assume k: "written_op k"
  then show "separates ('' '' @ kind_string k @ '' '') (op_tok k)"
    using written_op_kind [OF k] by (simp add: separates_def lex_text_space lex_op)
qed (simp_all add: separates_def lex_text_space lex_punctuation isNameEnd_def)

lemma reads_sep:
  assumes "reads s ts" "separates sp t" "reads s' us"
  shows "reads (s @ sp @ s') (ts @ t # us)"
  unfolding reads_def
proof (intro conjI allI impI)
  fix p rest
  assume p: "isNameEnd p \<longrightarrow> fst (hd (ts @ t # us)) \<noteq> K_CHARLIT"
    and rest: "if numeric (last (ts @ t # us)) then hard_boundary rest else boundary rest"
  have ne: "ts \<noteq> []" "us \<noteq> []" using assms by (simp_all add: reads_def)
  have "lex_text p (s @ sp @ s' @ rest) = ts @ lex_text (fst (last ts)) (sp @ s' @ rest)"
    using assms(2) p ne by (intro readsD [OF assms(1)]) (simp_all add: separates_def)
  also have "lex_text (fst (last ts)) (sp @ s' @ rest) = t # lex_text (fst t) (s' @ rest)"
    using assms(2) by (simp add: separates_def)
  also have "lex_text (fst t) (s' @ rest) = us @ lex_text (fst (last us)) rest"
    using assms(2) rest ne by (intro readsD [OF assms(3)]) (auto simp: separates_def split: if_splits)
  finally show "lex_text p ((s @ sp @ s') @ rest) = (ts @ t # us) @ lex_text (fst (last (ts @ t # us))) rest"
    using ne by simp
qed simp

text \<open>A prefix of one token.\<close>

definition prefixes_token :: "string \<Rightarrow> lexeme \<Rightarrow> bool" where
  "prefixes_token pt t \<longleftrightarrow> \<not> isNameEnd (fst t) \<and> fst t \<noteq> K_CHARLIT \<and>
     (\<forall>p rest. lex_text p (pt @ rest) = t # lex_text (fst t) rest)"

lemma prefix_tokens:
  "written_op k \<Longrightarrow> prefixes_token (kind_string k @ '' '') (op_tok k)" "prefixes_token ''('' lpar"
proof -
  assume k: "written_op k"
  then show "prefixes_token (kind_string k @ '' '') (op_tok k)"
    using written_op_kind [OF k] by (simp add: prefixes_token_def lex_op)
qed (simp add: prefixes_token_def lex_punctuation isNameEnd_def)

lemma reads_prefix:
  assumes "prefixes_token pt t" "reads s ts"
  shows "reads (pt @ s) (t # ts)"
  unfolding reads_def
proof (intro conjI allI impI)
  fix p rest
  assume rest: "if numeric (last (t # ts)) then hard_boundary rest else boundary rest"
  have ne: "ts \<noteq> []" using assms by (simp add: reads_def)
  have "lex_text (fst t) (s @ rest) = ts @ lex_text (fst (last ts)) rest"
    using assms(1) rest ne by (intro readsD [OF assms(2)]) (auto simp: prefixes_token_def split: if_splits)
  then show "lex_text p ((pt @ s) @ rest) = (t # ts) @ lex_text (fst (last (t # ts))) rest"
    using assms(1) ne by (simp add: prefixes_token_def)
qed simp

text \<open>A closing parenthesis; a list in parentheses may be empty.\<close>

lemma reads_rpar:
  assumes "reads s ts"
  shows "reads (s @ '')'') (ts @ [rpar])"
  unfolding reads_def
proof (intro conjI allI impI)
  fix p rest
  assume p: "isNameEnd p \<longrightarrow> fst (hd (ts @ [rpar])) \<noteq> K_CHARLIT"
  have ne: "ts \<noteq> []" using assms by (simp add: reads_def)
  have "lex_text p (s @ '')'' @ rest) = ts @ lex_text (fst (last ts)) ('')'' @ rest)"
    using p ne by (intro readsD [OF assms]) simp_all
  then show "lex_text p ((s @ '')'') @ rest) = (ts @ [rpar]) @ lex_text (fst (last (ts @ [rpar]))) rest"
    by (simp add: lex_punctuation)
qed simp

lemma reads_empty_parens: "reads ''()'' [lpar, rpar]"
  by (simp add: reads_def lex_punctuation)

definition reads_list :: "string \<Rightarrow> lexeme list \<Rightarrow> bool" where
  "reads_list s ts \<longleftrightarrow> (s = [] \<and> ts = []) \<or> reads s ts"

lemma reads_parens: "reads_list s ts \<Longrightarrow> reads (''('' @ s @ '')'') (lpar # ts @ [rpar])"
  using reads_prefix [OF prefix_tokens(2) reads_rpar] reads_empty_parens unfolding reads_list_def by fastforce

text \<open>What follows a name: a parenthesised part, a selector, an attribute.\<close>

lemma reads_append:
  assumes "reads s ts" "\<not> numeric (last ts)" "\<And>rest. boundary (s' @ rest)"
    "\<And>rest. (if numeric (last us) then hard_boundary rest else boundary rest) \<Longrightarrow>
       lex_text (fst (last ts)) (s' @ rest) = us @ lex_text (fst (last us)) rest" "us \<noteq> []"
  shows "reads (s @ s') (ts @ us)"
  unfolding reads_def
proof (intro conjI allI impI)
  fix p rest
  assume p: "isNameEnd p \<longrightarrow> fst (hd (ts @ us)) \<noteq> K_CHARLIT"
    and rest: "if numeric (last (ts @ us)) then hard_boundary rest else boundary rest"
  have ne: "ts \<noteq> []" using assms(1) by (simp add: reads_def)
  have "lex_text p (s @ s' @ rest) = ts @ lex_text (fst (last ts)) (s' @ rest)"
    using p ne assms(2,3) by (intro readsD [OF assms(1)]) simp_all
  then show "lex_text p ((s @ s') @ rest) = (ts @ us) @ lex_text (fst (last (ts @ us))) rest"
    using assms(4) [of rest] rest assms(5) by simp
qed (use assms(5) in simp)

lemma reads_call:
  assumes "reads s ts" "\<not> numeric (last ts)" "reads (''('' @ s') (lpar # us)"
  shows "reads (s @ ''('' @ s') (ts @ lpar # us)"
proof (rule reads_append [OF assms(1,2)])
  show "boundary ((''('' @ s') @ rest)" for rest by simp
  show "lex_text (fst (last ts)) ((''('' @ s') @ rest) = (lpar # us) @ lex_text (fst (last (lpar # us))) rest"
    if "if numeric (last (lpar # us)) then hard_boundary rest else boundary rest" for rest
    using that by (intro readsD [OF assms(3)]) (auto split: if_splits)
qed simp

lemma lex_attr_word: "attr_word t \<Longrightarrow> boundary rest \<Longrightarrow> lex_text p (snd t @ rest) = t # lex_text (fst t) rest"
  using lex_word lex_ext unfolding attr_word_def by blast

lemma selector_attr: "selector_word t \<Longrightarrow> attr_word t"
  by (auto simp: selector_word_def name_word_def attr_word_def)

lemma attr_word_not_numeric: "attr_word t \<Longrightarrow> \<not> numeric t"
  by (auto simp: attr_word_def word_def ext_ident_def numeric_def is_keyword_def dest!: LookupKeyword_SomeD
      split: option.splits)

lemma reads_selector:
  assumes "reads s ts" "\<not> numeric (last ts)" "selector_word t"
  shows "reads (s @ ''.'' @ snd t) (ts @ [(K_DOT, []), t])"
proof (rule reads_append [OF assms(1,2)])
  note t = selector_attr [OF assms(3)]
  show "lex_text (fst (last ts)) ((''.'' @ snd t) @ rest) = [(K_DOT, []), t] @ lex_text (fst (last [(K_DOT, []), t])) rest"
    if "if numeric (last [(K_DOT, []), t]) then hard_boundary rest else boundary rest" for rest
    using that attr_word_not_numeric [OF t] by (simp add: lex_punctuation lex_attr_word [OF t])
qed simp_all

lemma reads_attr:
  assumes "reads s ts" "ends_name ts" "attr_word t"
  shows "reads (s @ [tick_char] @ snd t) (ts @ [(K_TICK, []), t])"
proof (rule reads_append [OF assms(1)])
  show "\<not> numeric (last ts)" using assms(2) by (auto simp: ends_name_def isNameEnd_def numeric_def)
  show "lex_text (fst (last ts)) (([tick_char] @ snd t) @ rest) = [(K_TICK, []), t] @ lex_text (fst (last [(K_TICK, []), t])) rest"
    if "if numeric (last [(K_TICK, []), t]) then hard_boundary rest else boundary rest" for rest
    using that attr_word_not_numeric [OF assms(3)] assms(2)
    by (simp add: lex_punctuation lex_attr_word [OF assms(3)] ends_name_def)
qed simp_all

lemma reads_qualified:
  assumes "reads s ts" "ends_name ts" "reads s' (lpar # us)"
  shows "reads (s @ [tick_char] @ s') (ts @ (K_TICK, []) # lpar # us)"
proof (rule reads_append [OF assms(1)])
  show "\<not> numeric (last ts)" using assms(2) by (auto simp: ends_name_def isNameEnd_def numeric_def)
  show "lex_text (fst (last ts)) (([tick_char] @ s') @ rest) =
      ((K_TICK, []) # lpar # us) @ lex_text (fst (last ((K_TICK, []) # lpar # us))) rest"
    if "if numeric (last ((K_TICK, []) # lpar # us)) then hard_boundary rest else boundary rest" for rest
    using that assms(2) readsD [OF assms(3), of K_TICK rest]
    by (auto simp: lex_punctuation ends_name_def split: if_splits)
qed simp_all

lemma reads_word: "attr_word t \<Longrightarrow> reads (snd t) [t]"
  by (auto simp: reads_def lex_attr_word attr_word_not_numeric)

section \<open>Printed expressions are read back\<close>

lemma dotted_reads: "dotted s ts \<Longrightarrow> reads s ts \<and> \<not> numeric (last ts)"
proof (induction rule: dotted.induct)
  case (dotted_word t)
  then have "attr_word t" by (auto simp: name_word_def attr_word_def)
  then show ?case by (simp add: reads_word attr_word_not_numeric)
next
  case (dotted_dot s ts t)
  then show ?case using reads_selector [of s ts t] attr_word_not_numeric [OF selector_attr, of t] by simp
qed

lemma flat_name_reads: "flat_name s ts \<Longrightarrow> reads s ts \<and> \<not> numeric (last ts)"
proof (induction rule: flat_name.induct)
  case (flat_dotted s ts)
  then show ?case by (rule dotted_reads)
next
  case (flat_attr s ts t)
  then show ?case using reads_attr [of s ts t] attr_word_not_numeric [of t] by simp
qed

lemma scan_number_kind: "fst (scan_number s) \<in> {K_INT, K_REAL, K_BASEDLIT}"
  by (simp add: scan_number_def Let_def split: list.split)

lemma reads_number:
  assumes "number_lit t"
  shows "reads (snd t) [t]"
proof -
  have "numeric t" using assms scan_number_kind [of "snd t"] by (simp add: number_lit_def numeric_def)
  then show ?thesis using lex_number [OF assms] by (simp add: reads_def)
qed

lemma reads_text: "text_lit t \<Longrightarrow> reads (snd t) [t]"
  using lex_lit [of t] by (auto simp: reads_def text_lit_def numeric_def)

lemma reads_physical:
  assumes "number_lit t" "word u"
  shows "reads (snd t @ '' '' @ snd u) [t, u]"
proof -
  have "\<not> numeric u" using attr_word_not_numeric assms(2) by (simp add: attr_word_def)
  then show ?thesis
    using lex_number [OF assms(1)] lex_word [OF assms(2)] by (simp add: reads_def lex_text_space)
qed

lemma reads_written:
  "writes k e ts \<Longrightarrow> reads (printExpr e) ts"
  "writesP e us \<Longrightarrow> reads (printExpr e) us"
  "writesN e ns \<Longrightarrow> reads (printExpr e) ns \<and> \<not> numeric (last ns)"
  "writesE e es \<Longrightarrow> reads (printExpr e) es"
  "writesA a as \<Longrightarrow> reads (printAssoc a) as"
  "writesAs args vs \<Longrightarrow> (args = [] \<and> vs = []) \<or> (args \<noteq> [] \<and> reads (join_strings (map printAssoc args) '', '') vs)"
  "writesCs cs ws \<Longrightarrow> reads (join_strings (map printExpr cs) '' | '') ws"
  "writesEl el xs \<Longrightarrow> reads (printElementAssoc el) xs"
  "writesEls els ys \<Longrightarrow> (els = [] \<and> ys = []) \<or> (els \<noteq> [] \<and> reads (join_strings (map printElementAssoc els) '', '') ys)"
proof (induction rule: writes_mutual)
  case (W_bin op j k x ts y us)
  then show ?case using reads_sep [OF _ separators(1) [OF op_level_written]] by simp
next
  case (W_sign op k x ts)
  have "written_op op" using W_sign by (auto simp: written_op_def)
  then show ?case using reads_prefix [OF prefix_tokens(1)] W_sign by simp
next
  case (W_not op k x ts)
  have "written_op op" using W_not by (auto simp: written_op_def is_keyword_def)
  then show ?case using reads_prefix [OF prefix_tokens(1)] W_not by simp
next
  case (W_exp k x ts y us)
  have "written_op K_EXP" by (simp add: written_op_def)
  then show ?case using reads_sep [OF _ separators(1)] W_exp by simp
next
  case (P_number t)
  then show ?case by (simp add: reads_number)
next
  case (P_text t)
  then show ?case by (simp add: reads_text)
next
  case (P_phys t u)
  then show ?case using reads_physical by simp
next
  case (P_keyword k)
  then have "is_keyword k" by (auto simp: is_keyword_def)
  then show ?case using reads_word [of "op_tok k"] word_keyword [of k] by (simp add: attr_word_def op_tok_def)
next
  case (P_paren x ts)
  then show ?case using reads_parens [of "printExpr x" ts] by (simp add: reads_list_def)
next
  case (P_aggregate es ts)
  then show ?case using reads_parens [of "join_strings (map printElementAssoc es) '', ''" ts] by (auto simp: reads_list_def)
next
  case (P_qualified s ts x us)
  then show ?case using reads_qualified flat_name_reads by simp
next
  case (N_flat s ts)
  then show ?case using flat_name_reads by simp
next
  case (N_call f ts args us)
  then show ?case
    using reads_call [of "printExpr f" ts "join_strings (map printAssoc args) '', '' @ '')''" "us @ [rpar]"]
      reads_parens [of "join_strings (map printAssoc args) '', ''" us] by (auto simp: reads_list_def numeric_def)
next
  case (N_selector x ts t)
  then show ?case using reads_selector [of "printExpr x" ts t] attr_word_not_numeric [OF selector_attr, of t] by simp
next
  case (N_attribute x ts t)
  then show ?case using reads_attr [of "printExpr x" ts t] attr_word_not_numeric [of t] by simp
next
  case (E_range d l ts r us)
  have "written_op d" using E_range by (auto simp: written_op_def is_keyword_def)
  then show ?case using reads_sep [OF _ separators(1)] E_range by simp
next
  case (E_new x ts)
  have "written_op K_NEW" "kind_string K_NEW = ''new''" by (auto simp: written_op_def is_keyword_def kind_string_def kindStr_def)
  then show ?case using reads_prefix [OF prefix_tokens(1), of K_NEW] E_new by simp
next
  case (A_named f ts x us)
  then show ?case using reads_sep [OF _ separators(2)] reads_nonempty [of "printExpr f" ts] by simp
next
  case (As_more a ts b bs us)
  then show ?case using reads_sep [OF _ separators(4)] by simp
next
  case (Cs_more c ts d ds us)
  then show ?case using reads_sep [OF _ separators(3)] by simp
next
  case (El_named cs ts x us)
  then have "cs \<noteq> []" by (auto elim: writesCs.cases)
  then show ?case using reads_sep [OF _ separators(2)] El_named by simp
next
  case (Els_more e ts f fs us)
  then show ?case using reads_sep [OF _ separators(4)] by simp
qed (simp_all add: reads_list_def)

end
