(* ===== verification/Vhdl_Parse_Run.thy ===== *)
theory Vhdl_Parse_Run
  imports Vhdl_Relex
begin

text \<open>
  What the parser does with a run of tokens: the levels of operators of \<open>parser.go\<close> uniformly, prefix and
  binary operators, and the list loops. A level leaves its loop open, so that operators associate to the left.
\<close>

section \<open>Parsing a run of tokens\<close>

definition lexeme_of :: "token \<Rightarrow> lexeme" where
  "lexeme_of t = (tok_kind t, tok_lit t)"

abbreviation tokens :: "pstate \<Rightarrow> token list \<Rightarrow> pstate" where
  "tokens st ts \<equiv> st\<lparr>ps_toks := ts\<rparr>"

definition parses :: "'a parse \<Rightarrow> kind set \<Rightarrow> 'a \<Rightarrow> lexeme list \<Rightarrow> bool" where
  "parses p S x ts \<longleftrightarrow> ts \<noteq> [] \<and> fst (hd ts) \<noteq> K_RPAREN \<and>
     (\<forall>st toks u us. map lexeme_of toks = ts \<longrightarrow> tok_kind u \<notin> S \<longrightarrow>
        p (tokens st (toks @ u # us)) = (x, tokens st (u # us)))"

lemma parsesD:
  "parses p S x ts \<Longrightarrow> map lexeme_of toks = ts \<Longrightarrow> tok_kind u \<notin> S \<Longrightarrow>
     p (tokens st (toks @ u # us)) = (x, tokens st (u # us))"
  by (auto simp: parses_def)

lemma parsesI:
  assumes "ts \<noteq> []" "fst (hd ts) \<noteq> K_RPAREN"
    "\<And>st toks u us. map lexeme_of toks = ts \<Longrightarrow> tok_kind u \<notin> S \<Longrightarrow>
       p (tokens st (toks @ u # us)) = (x, tokens st (u # us))"
  shows "parses p S x ts"
  using assms by (auto simp: parses_def)

lemma parses_start: "parses p S x ts \<Longrightarrow> ts \<noteq> [] \<and> fst (hd ts) \<noteq> K_RPAREN"
  by (simp add: parses_def)

lemma parses_mono: "parses p S x ts \<Longrightarrow> S \<subseteq> S' \<Longrightarrow> parses p S' x ts"
  unfolding parses_def by blast

lemma stream_simps [simp]:
  "cur (tokens st (t # ts)) = t" "cur_kind (tokens st (t # ts)) = tok_kind t"
  "at_kind k (tokens st (t # ts)) \<longleftrightarrow> tok_kind t = k"
  "skip (tokens st (t # u # us)) = tokens st (u # us)"
  "skip (tokens st (t # ts @ u # us)) = tokens st (ts @ u # us)"
  "advance (tokens st (t # u # us)) = (t, tokens st (u # us))"
  "peekKind 0 (tokens st (t # ts)) = tok_kind t" "peekKind (Suc 0) (tokens st (t # u # us)) = tok_kind u"
  "fuel (tokens st ts) = length ts"
  by (cases ts; simp add: cur_def cur_kind_def at_kind_def skip_def advance_def peekKind_def fuel_def)+

lemma expect_kind: "tok_kind t = k \<Longrightarrow> expect k (tokens st (t # u # us)) = (t, tokens st (u # us))"
  by (simp add: expect_def Let_def)

section \<open>The levels of the grammar\<close>

definition level :: "nat \<Rightarrow> expr parse \<Rightarrow> expr parse" where
  "level k prim =
     (if k = 0 then parseLogical prim else if k = 1 then parseRelation prim else if k = 2 then parseShift prim
      else if k = 3 then parseSimple prim else if k = 4 then parseTerm prim else if k = 5 then parseFactor prim
      else prim)"

definition ops_of :: "nat \<Rightarrow> kind list" where
  "ops_of k = (if k = 0 then logicalOps else if k = 1 then relationOps else if k = 2 then shiftOps
     else if k = 3 then addingOps else if k = 4 then multiplyingOps else [])"

lemma op_level_ops: "op_level k = Some j \<longleftrightarrow> j \<le> 4 \<and> k \<in> set (ops_of j)"
  by (auto simp: op_level_def ops_of_def logicalOps_def relationOps_def shiftOps_def addingOps_def
      multiplyingOps_def split: if_splits)

text \<open>The tokens that a level may go on with.\<close>

definition name_cont :: "kind set" where "name_cont = {K_LPAREN, K_DOT, K_TICK, K_IDENT}"

definition cont :: "nat \<Rightarrow> kind set" where
  "cont k = name_cont \<union> (if k \<le> 5 then {K_EXP} else {}) \<union> (\<Union>j \<in> {k..4}. set (ops_of j))"

definition cont_expr :: "kind set" where "cont_expr = cont 0 \<union> {K_TO, K_DOWNTO}"

lemma cont_Suc: "k \<le> 4 \<Longrightarrow> cont k = cont (Suc k) \<union> set (ops_of k)"
proof -
  assume "k \<le> 4"
  then have "{k..4} = insert k {Suc k..4}" by auto
  with \<open>k \<le> 4\<close> show ?thesis by (auto simp: cont_def)
qed

lemma cont_5: "cont 5 = insert K_EXP (cont 6)" and cont_6: "cont 6 = name_cont"
  by (auto simp: cont_def)

definition good_head :: "nat \<Rightarrow> kind \<Rightarrow> bool" where
  "good_head k h \<longleftrightarrow> (4 \<le> k \<longrightarrow> h \<noteq> K_PLUS \<and> h \<noteq> K_MINUS) \<and> (6 \<le> k \<longrightarrow> h \<noteq> K_ABS \<and> h \<noteq> K_NOT)"

text \<open>A level of operators: its first operand, then the loop.\<close>

lemma level_tier:
  assumes "k \<le> 4" "level (Suc k) prim (tokens st (t # ts)) = (x, st')" "k = 3 \<longrightarrow> good_head 4 (tok_kind t)"
  shows "level k prim (tokens st (t # ts)) = tierLoop (fuel st') (ops_of k) (level (Suc k) prim) x st'"
proof -
  consider "k = 0" | "k = 1" | "k = 2" | "k = 3" | "k = 4" using assms(1) by linarith
  then show ?thesis
    using assms(2,3)
    by cases (simp_all add: level_def ops_of_def parseLogical_def parseRelation_def parseShift_def parseSimple_def
        parseTerm_def parseTier_def parseSign_def good_head_def)
qed

lemma tierLoop_stop: "cur_kind st \<notin> set ops \<Longrightarrow> tierLoop m ops sub x st = (x, st)"
  by (cases m) simp_all

lemma level_factor:
  assumes "prim (tokens st (t # ts)) = (x, tokens st' (u # us))" "tok_kind u \<noteq> K_EXP" "good_head 6 (tok_kind t)"
  shows "level 5 prim (tokens st (t # ts)) = (x, tokens st' (u # us))"
  using assms by (simp add: level_def parseFactor_def good_head_def)

lemma level_down:
  assumes "level j prim (tokens st (t # ts)) = (x, tokens st' (u # us))" "k \<le> j" "j \<le> 6" "tok_kind u \<notin> cont k"
    "good_head j (tok_kind t)"
  shows "level k prim (tokens st (t # ts)) = (x, tokens st' (u # us))"
  using assms
proof (induction j)
  case 0
  then show ?case by simp
next
  case (Suc j)
  show ?case
  proof (cases "k = Suc j")
    case True
    with Suc.prems show ?thesis by simp
  next
    case False
    with Suc.prems have k: "k \<le> j" by simp
    have u: "tok_kind u \<notin> cont j" using Suc.prems(4) k Suc.prems(3) by (auto simp: cont_def)
    have h: "good_head j (tok_kind t)" using Suc.prems(5) by (auto simp: good_head_def)
    have "level j prim (tokens st (t # ts)) = (x, tokens st' (u # us))"
    proof (cases "j \<le> 4")
      case True
      then show ?thesis
        using level_tier [OF True Suc.prems(1)] Suc.prems(5) u cont_Suc [OF True]
        by (simp add: tierLoop_stop good_head_def)
    next
      case False
      with Suc.prems have j: "j = 5" by simp
      then show ?thesis using level_factor Suc.prems(1,5) u by (simp add: level_def cont_5)
    qed
    from Suc.IH [OF this k _ Suc.prems(4) h] Suc.prems(3) show ?thesis by simp
  qed
qed


section \<open>Levels of written expressions\<close>

text \<open>What a level does with the tokens of an expression written at it: the second form leaves the loop open.\<close>

definition parses_level :: "nat \<Rightarrow> expr parse \<Rightarrow> expr \<Rightarrow> lexeme list \<Rightarrow> bool" where
  "parses_level k prim x ts \<longleftrightarrow> parses (level k prim) (cont k) x ts \<and>
     (k \<le> 4 \<longrightarrow> (\<forall>st toks u us. map lexeme_of toks = ts \<longrightarrow> tok_kind u \<notin> cont (Suc k) \<longrightarrow>
        (\<exists>m > length us. level k prim (tokens st (toks @ u # us)) =
           tierLoop m (ops_of k) (level (Suc k) prim) x (tokens st (u # us)))))"

lemma parses_levelD:
  "parses_level k prim x ts \<Longrightarrow> k \<le> 4 \<Longrightarrow> map lexeme_of toks = ts \<Longrightarrow> tok_kind u \<notin> cont (Suc k) \<Longrightarrow>
     \<exists>m > length us. level k prim (tokens st (toks @ u # us)) =
       tierLoop m (ops_of k) (level (Suc k) prim) x (tokens st (u # us))"
  by (simp add: parses_level_def)

lemma parses_head: "parses p S x ts \<Longrightarrow> map lexeme_of toks = ts \<Longrightarrow>
   \<exists>t toks'. toks = t # toks' \<and> tok_kind t = fst (hd ts)"
  by (cases toks) (auto simp: parses_def lexeme_of_def)

lemma parses_level_down:
  assumes "parses (level j prim) (cont j) x ts" "good_head j (fst (hd ts))" "k < j" "j \<le> 6"
  shows "parses_level k prim x ts"
  unfolding parses_level_def
proof (intro conjI impI allI)
  have run: "level i prim (tokens st (toks @ u # us)) = (x, tokens st (u # us))"
    if i: "k \<le> i" "i \<le> j" "map lexeme_of toks = ts" "tok_kind u \<notin> cont i" for i st toks u us
  proof -
    obtain t toks' where t: "toks = t # toks'" "tok_kind t = fst (hd ts)" using parses_head [OF assms(1) i(3)] by blast
    have "tok_kind u \<notin> cont j" using i(2,4) assms(4) by (auto simp: cont_def split: if_splits)
    with parsesD [OF assms(1) i(3)] have "level j prim (tokens st (t # (toks' @ u # us))) = (x, tokens st (u # us))"
      by (simp add: t(1))
    from level_down [OF this i(2) assms(4) i(4)] assms(2) t show ?thesis by simp
  qed
  show "parses (level k prim) (cont k) x ts"
    using run [of k] assms(1,3) by (simp add: parses_def)
  fix st toks and u :: token and us
  assume k: "k \<le> 4" and tk: "map lexeme_of toks = ts" "tok_kind u \<notin> cont (Suc k)"
  obtain t toks' where t: "toks = t # toks'" "tok_kind t = fst (hd ts)" using parses_head [OF assms(1) tk(1)] by blast
  have "level (Suc k) prim (tokens st (toks @ u # us)) = (x, tokens st (u # us))"
    using assms(3) tk by (intro run) simp_all
  from level_tier [OF k this [unfolded t(1) append_Cons]] have "level k prim (tokens st (toks @ u # us)) =
      tierLoop (Suc (length us)) (ops_of k) (level (Suc k) prim) x (tokens st (u # us))"
    using assms(2,3) t by (simp add: good_head_def)
  then show "\<exists>m > length us. level k prim (tokens st (toks @ u # us)) =
      tierLoop m (ops_of k) (level (Suc k) prim) x (tokens st (u # us))" by blast
qed

lemma lexeme_op_tok: "lexeme_of t = op_tok k \<Longrightarrow> tok_kind t = k"
  by (simp add: lexeme_of_def op_tok_def)

lemma map_eq_middle:
  assumes "map f xs = as @ b # bs"
  obtains us v vs where "xs = us @ v # vs" "map f us = as" "f v = b" "map f vs = bs"
  using assms by (auto simp: map_eq_append_conv map_eq_Cons_conv)

lemma op_not_cont: "op \<in> set (ops_of j) \<Longrightarrow> j \<le> 4 \<Longrightarrow> op \<notin> cont (Suc j)"
  by (auto simp: cont_def name_cont_def ops_of_def logicalOps_def relationOps_def shiftOps_def addingOps_def
      multiplyingOps_def split: if_splits)

lemma parses_binary:
  assumes "parses_level j prim x ts" "parses (level (Suc j) prim) (cont (Suc j)) y us" "op \<in> set (ops_of j)" "j \<le> 4"
  shows "parses_level j prim (BinaryExpr x op y) (ts @ op_tok op # us)"
proof -
  have loop: "\<exists>m > length vs. level j prim (tokens st (toks @ u # vs)) =
      tierLoop m (ops_of j) (level (Suc j) prim) (BinaryExpr x op y) (tokens st (u # vs))"
    if tk: "map lexeme_of toks = ts @ op_tok op # us" "tok_kind u \<notin> cont (Suc j)" for st toks u vs
  proof -
    obtain xs o' ys where s: "toks = xs @ o' # ys" "map lexeme_of xs = ts" "lexeme_of o' = op_tok op" "map lexeme_of ys = us"
      using tk(1) by (rule map_eq_middle)
    have o': "tok_kind o' = op" using s(3) by (rule lexeme_op_tok)
    have ys: "ys \<noteq> []" using assms(2) s(4) by (auto simp: parses_def)
    obtain m where m: "m > length (ys @ u # vs)" "level j prim (tokens st (xs @ o' # ys @ u # vs)) =
        tierLoop m (ops_of j) (level (Suc j) prim) x (tokens st (o' # ys @ u # vs))"
      using parses_levelD [OF assms(1,4) s(2), of o' "ys @ u # vs" st] op_not_cont [OF assms(3,4)] o' by auto
    obtain n where n: "m = Suc n" using m(1) by (cases m) auto
    have "level (Suc j) prim (tokens st (ys @ u # vs)) = (y, tokens st (u # vs))"
      using parsesD [OF assms(2) s(4) tk(2)] .
    then have "tierLoop m (ops_of j) (level (Suc j) prim) x (tokens st (o' # ys @ u # vs)) =
        tierLoop n (ops_of j) (level (Suc j) prim) (BinaryExpr x op y) (tokens st (u # vs))"
      using assms(3) o' by (simp add: n)
    with m n s(1) show ?thesis by (intro exI [of _ n]) simp
  qed
  show ?thesis
    unfolding parses_level_def
  proof (intro conjI impI allI)
    show "parses (level j prim) (cont j) (BinaryExpr x op y) (ts @ op_tok op # us)"
      unfolding parses_def
    proof (intro conjI impI allI)
      fix st toks and u :: token and vs
      assume tk: "map lexeme_of toks = ts @ op_tok op # us" and u: "tok_kind u \<notin> cont j"
      have u': "tok_kind u \<notin> cont (Suc j)" "tok_kind u \<notin> set (ops_of j)" using u assms(4) by (simp_all add: cont_Suc)
      from loop [OF tk u'(1), of vs st] u'(2)
      show "level j prim (tokens st (toks @ u # vs)) = (BinaryExpr x op y, tokens st (u # vs))"
        by (auto simp: tierLoop_stop)
    qed (use assms(1) in \<open>auto simp: parses_level_def parses_def\<close>)
  qed (use loop in blast)
qed

lemma parses_level_lower:
  assumes "parses_level j prim x ts" "good_head j (fst (hd ts))" "k \<le> j" "j \<le> 6"
  shows "parses_level k prim x ts"
  using assms parses_level_down [of j prim x ts k] by (cases "k = j") (auto simp: parses_level_def)

lemma map_eq_first:
  assumes "map f xs = b # bs"
  obtains v vs where "xs = v # vs" "f v = b" "map f vs = bs"
  using assms by (auto simp: map_eq_Cons_conv)

lemma parses_sign:
  assumes "parses (level 4 prim) (cont 4) x ts" "op = K_PLUS \<or> op = K_MINUS"
  shows "parses_level 3 prim (UnaryExpr op x) (op_tok op # ts)"
proof -
  have loop: "level 3 prim (tokens st (toks @ u # us)) =
      tierLoop (Suc (length us)) (ops_of 3) (level 4 prim) (UnaryExpr op x) (tokens st (u # us))"
    if tk: "map lexeme_of toks = op_tok op # ts" "tok_kind u \<notin> cont 4" for st toks u us
  proof -
    obtain o' xs where s: "toks = o' # xs" "lexeme_of o' = op_tok op" "map lexeme_of xs = ts"
      using tk(1) by (rule map_eq_first)
    show ?thesis
      using parsesD [OF assms(1) s(3) tk(2), of us st] assms(2) s(1) lexeme_op_tok [OF s(2)]
      by (auto simp: level_def parseSimple_def parseSign_def ops_of_def)
  qed
  show ?thesis
    unfolding parses_level_def
  proof (intro conjI impI allI)
    show "parses (level 3 prim) (cont 3) (UnaryExpr op x) (op_tok op # ts)"
      unfolding parses_def
    proof (intro conjI impI allI)
      fix st toks and u :: token and us
      assume "map lexeme_of toks = op_tok op # ts" "tok_kind u \<notin> cont 3"
      then show "level 3 prim (tokens st (toks @ u # us)) = (UnaryExpr op x, tokens st (u # us))"
        using loop [of toks u us st] cont_Suc [of 3] by (simp add: tierLoop_stop)
    qed (use assms(2) in \<open>auto simp: op_tok_def\<close>)
  next
    fix st toks and u :: token and us
    assume "map lexeme_of toks = op_tok op # ts" "tok_kind u \<notin> cont (Suc 3)"
    then show "\<exists>m > length us. level 3 prim (tokens st (toks @ u # us)) =
        tierLoop m (ops_of 3) (level (Suc 3) prim) (UnaryExpr op x) (tokens st (u # us))"
      using loop [of toks u us st] by (intro exI [of _ "Suc (length us)"]) simp
  qed
qed

lemma parses_not:
  assumes "parses prim (cont 6) x ts" "op = K_ABS \<or> op = K_NOT"
  shows "parses (level 5 prim) (cont 5) (UnaryExpr op x) (op_tok op # ts)"
  unfolding parses_def
proof (intro conjI impI allI)
  fix st toks and u :: token and us
  assume tk: "map lexeme_of toks = op_tok op # ts" "tok_kind u \<notin> cont 5"
  obtain o' xs where s: "toks = o' # xs" "lexeme_of o' = op_tok op" "map lexeme_of xs = ts"
    using tk(1) by (rule map_eq_first)
  have "tok_kind u \<notin> cont 6" using tk(2) by (simp add: cont_5)
  from parsesD [OF assms(1) s(3) this] show "level 5 prim (tokens st (toks @ u # us)) = (UnaryExpr op x, tokens st (u # us))"
    using assms(2) s(1) lexeme_op_tok [OF s(2)] by (auto simp: level_def parseFactor_def)
qed (use assms(2) in \<open>auto simp: op_tok_def\<close>)

lemma parses_power:
  assumes "parses prim (cont 6) x ts" "parses prim (cont 6) y us" "good_head 6 (fst (hd ts))"
  shows "parses (level 5 prim) (cont 5) (BinaryExpr x K_EXP y) (ts @ op_tok K_EXP # us)"
  unfolding parses_def
proof (intro conjI impI allI)
  fix st toks and u :: token and vs
  assume tk: "map lexeme_of toks = ts @ op_tok K_EXP # us" "tok_kind u \<notin> cont 5"
  obtain xs o' ys where s: "toks = xs @ o' # ys" "map lexeme_of xs = ts" "lexeme_of o' = op_tok K_EXP" "map lexeme_of ys = us"
    using tk(1) by (rule map_eq_middle)
  obtain t xs' where t: "xs = t # xs'" "tok_kind t = fst (hd ts)" using parses_head [OF assms(1) s(2)] by blast
  have u: "tok_kind u \<notin> cont 6" and o': "tok_kind o' \<notin> cont 6" "tok_kind o' = K_EXP"
    using tk(2) lexeme_op_tok [OF s(3)] by (simp_all add: cont_5 cont_6 name_cont_def)
  have "prim (tokens st (t # xs' @ o' # ys @ u # vs)) = (x, tokens st (o' # ys @ u # vs))"
    using parsesD [OF assms(1) s(2) o'(1)] t(1) by simp
  moreover have "prim (tokens st (ys @ u # vs)) = (y, tokens st (u # vs))"
    using parsesD [OF assms(2) s(4) u] .
  ultimately show "level 5 prim (tokens st (toks @ u # vs)) = (BinaryExpr x K_EXP y, tokens st (u # vs))"
    using s(1) t assms(3) o'(2) by (simp add: level_def parseFactor_def good_head_def)
qed (use parses_start [OF assms(1)] in auto)

section \<open>Lists\<close>

fun sep_concat :: "'a \<Rightarrow> 'a list list \<Rightarrow> 'a list" where
  "sep_concat sep [] = []"
| "sep_concat sep [ts] = ts"
| "sep_concat sep (ts # us # tss) = ts @ sep # sep_concat sep (us # tss)"

text \<open>A list of items, each with its tokens, between separators.\<close>

definition parses_list :: "kind \<Rightarrow> 'a parse \<Rightarrow> kind set \<Rightarrow> 'a list \<Rightarrow> lexeme list \<Rightarrow> bool" where
  "parses_list sep item S xs ts \<longleftrightarrow> (\<exists>tss. list_all2 (parses item S) xs tss \<and> ts = sep_concat (sep, []) tss)"

lemma parses_list_Nil: "parses_list sep item S [] []"
  by (simp add: parses_list_def)

lemma parses_list_one: "parses item S x ts \<Longrightarrow> parses_list sep item S [x] ts"
  unfolding parses_list_def by (intro exI [of _ "[ts]"]) simp

lemma parses_list_more:
  assumes "parses item S x ts" "parses_list sep item S (y # ys) us"
  shows "parses_list sep item S (x # y # ys) (ts @ (sep, []) # us)"
proof -
  obtain tss where t: "list_all2 (parses item S) (y # ys) tss" "us = sep_concat (sep, []) tss"
    using assms(2) by (auto simp: parses_list_def)
  then obtain vs vss where "tss = vs # vss" by (cases tss) auto
  with t assms(1) show ?thesis unfolding parses_list_def by (intro exI [of _ "ts # tss"]) simp
qed

lemma parses_list_Cons:
  assumes "parses_list sep item S (x # xs) ts"
  obtains (one) "xs = []" "parses item S x ts"
  | (more) y ys us vs where "xs = y # ys" "parses item S x us" "parses_list sep item S (y # ys) vs" "ts = us @ (sep, []) # vs"
proof -
  obtain us tss where t: "parses item S x us" "list_all2 (parses item S) xs tss" "ts = sep_concat (sep, []) (us # tss)"
    using assms by (auto simp: parses_list_def list_all2_Cons1)
  show thesis
  proof (cases xs)
    case Nil
    then show thesis using t by (intro one) auto
  next
    case (Cons y ys)
    then obtain vs vss where "tss = vs # vss" using t(2) by (cases tss) auto
    then show thesis using t Cons by (intro more [of y ys us "sep_concat (sep, []) tss"]) (auto simp: parses_list_def)
  qed
qed

lemma parses_list_length: "parses_list sep item S xs ts \<Longrightarrow> length xs \<le> length ts"
proof (induction xs arbitrary: ts)
  case Nil
  then show ?case by simp
next
  case (Cons x xs)
  from Cons.prems show ?case
  proof (cases rule: parses_list_Cons)
    case one
    then show ?thesis by (cases ts) (auto simp: parses_def)
  next
    case (more y ys us vs)
    with Cons.IH [of vs] show ?thesis by simp
  qed
qed

lemma parses_list_nonempty: "parses_list sep item S (x # xs) ts \<Longrightarrow> ts \<noteq> []"
  using parses_list_length [of sep item S "x # xs" ts] by auto

text \<open>The two list loops of the parser after a first item.\<close>

lemma sepLoop_list:
  assumes "parses_list sep item S (x # xs) ts" "map lexeme_of toks = ts" "sep \<notin> S" "tok_kind u \<notin> insert sep S"
  shows "\<exists>st'. item (tokens st (toks @ u # us)) = (x, st') \<and> length xs \<le> length (ps_toks st') \<and>
    cur_kind st' \<in> {sep, tok_kind u} \<and> (\<forall>acc m. length xs \<le> m \<longrightarrow> sepLoop m sep item (acc @ [x]) st' = (acc @ x # xs, tokens st (u # us)))"
  using assms
proof (induction xs arbitrary: x ts toks)
  case Nil
  have p: "parses item S x ts" using Nil.prems(1) by (rule parses_list_Cons) auto
  have i: "item (tokens st (toks @ u # us)) = (x, tokens st (u # us))"
    using parsesD [OF p Nil.prems(2)] Nil.prems(4) by simp
  have "sepLoop m sep item acc (tokens st (u # us)) = (acc, tokens st (u # us))" for m acc
    using Nil.prems(4) by (cases m) auto
  with i show ?case by simp
next
  case (Cons y ys)
  obtain vs ws where c: "parses item S x vs" "parses_list sep item S (y # ys) ws" "ts = vs @ (sep, []) # ws"
    using Cons.prems(1) by (rule parses_list_Cons) auto
  have toks: "map lexeme_of toks = vs @ (sep, []) # ws" using Cons.prems(2) c(3) by simp
  obtain xs' o' ys' where s: "toks = xs' @ o' # ys'" "map lexeme_of xs' = vs" "lexeme_of o' = (sep, [])" "map lexeme_of ys' = ws"
    by (rule map_eq_middle [OF toks])
  have o': "tok_kind o' = sep" using s(3) by (simp add: lexeme_of_def)
  have i: "item (tokens st (toks @ u # us)) = (x, tokens st (o' # ys' @ u # us))"
    using parsesD [OF c(1) s(2)] o' Cons.prems(3) s(1) by simp
  obtain st' where t: "item (tokens st (ys' @ u # us)) = (y, st')"
    "\<forall>acc m. length ys \<le> m \<longrightarrow> sepLoop m sep item (acc @ [y]) st' = (acc @ y # ys, tokens st (u # us))"
    using Cons.IH [OF c(2) s(4) Cons.prems(3,4)] by blast
  have "length ys' = length ws" using s(4) by auto
  then have len: "length (y # ys) \<le> length (o' # ys' @ u # us)" using parses_list_length [OF c(2)] by simp
  have "sepLoop m sep item (acc @ [x]) (tokens st (o' # ys' @ u # us)) = (acc @ x # y # ys, tokens st (u # us))"
    if m: "length (y # ys) \<le> m" for acc m
  proof -
    obtain n where n: "m = Suc n" "length ys \<le> n" using m by (cases m) auto
    show ?thesis using t(1) t(2) [rule_format, OF n(2), of "acc @ [x]"] o' by (simp add: n(1))
  qed
  with i len o' show ?case by auto
qed

lemma parses_list_start: "parses_list sep item S (x # xs) ts \<Longrightarrow> ts \<noteq> [] \<and> fst (hd ts) \<noteq> K_RPAREN"
  by (erule parses_list_Cons; drule parses_start; auto)

lemma list_first:
  assumes "parses_list sep item S (x # xs) ts" "map lexeme_of toks = ts"
  obtains t toks' where "toks = t # toks'" "tok_kind t \<noteq> K_RPAREN"
  using parses_list_start [OF assms(1)] assms(2) by (cases toks) (auto simp: lexeme_of_def)

lemma elemLoop_list:
  assumes "parses_list K_COMMA (parseElementAssoc pe) S (x # xs) ts" "map lexeme_of toks = ts" "K_COMMA \<notin> S"
    "K_RPAREN \<notin> S" "tok_kind u = K_RPAREN"
  shows "\<exists>st'. parseElementAssoc pe (tokens st (toks @ u # us)) = (x, st') \<and> length xs \<le> length (ps_toks st') \<and>
    (\<forall>acc m. length xs \<le> m \<longrightarrow> elemLoop m pe (acc @ [x]) st' = (acc @ x # xs, tokens st (u # us)))"
  using assms
proof (induction xs arbitrary: x ts toks)
  case Nil
  have p: "parses (parseElementAssoc pe) S x ts" using Nil.prems(1) by (rule parses_list_Cons) auto
  have i: "parseElementAssoc pe (tokens st (toks @ u # us)) = (x, tokens st (u # us))"
    using parsesD [OF p Nil.prems(2)] Nil.prems(4,5) by simp
  have "elemLoop m pe acc (tokens st (u # us)) = (acc, tokens st (u # us))" for m acc
    using Nil.prems(5) by (cases m) auto
  with i show ?case by simp
next
  case (Cons y ys)
  obtain vs ws where c: "parses (parseElementAssoc pe) S x vs" "parses_list K_COMMA (parseElementAssoc pe) S (y # ys) ws"
    "ts = vs @ (K_COMMA, []) # ws"
    using Cons.prems(1) by (rule parses_list_Cons) auto
  have toks: "map lexeme_of toks = vs @ (K_COMMA, []) # ws" using Cons.prems(2) c(3) by simp
  obtain xs' o' ys' where s: "toks = xs' @ o' # ys'" "map lexeme_of xs' = vs" "lexeme_of o' = (K_COMMA, [])"
    "map lexeme_of ys' = ws"
    by (rule map_eq_middle [OF toks])
  have o': "tok_kind o' = K_COMMA" using s(3) by (simp add: lexeme_of_def)
  obtain t ys'' where h: "ys' = t # ys''" "tok_kind t \<noteq> K_RPAREN" using list_first [OF c(2) s(4)] .
  have i: "parseElementAssoc pe (tokens st (toks @ u # us)) = (x, tokens st (o' # ys' @ u # us))"
    using parsesD [OF c(1) s(2)] o' Cons.prems(3) s(1) by simp
  obtain st' where r: "parseElementAssoc pe (tokens st (ys' @ u # us)) = (y, st')"
    "\<forall>acc m. length ys \<le> m \<longrightarrow> elemLoop m pe (acc @ [y]) st' = (acc @ y # ys, tokens st (u # us))"
    using Cons.IH [OF c(2) s(4) Cons.prems(3,4,5)] by blast
  have "length ys' = length ws" using s(4) by auto
  then have len: "length (y # ys) \<le> length (o' # ys' @ u # us)" using parses_list_length [OF c(2)] by simp
  have "elemLoop m pe (acc @ [x]) (tokens st (o' # ys' @ u # us)) = (acc @ x # y # ys, tokens st (u # us))"
    if m: "length (y # ys) \<le> m" for acc m
  proof -
    obtain n where n: "m = Suc n" "length ys \<le> n" using m by (cases m) auto
    show ?thesis using r(1) r(2) [rule_format, OF n(2), of "acc @ [x]"] o' h by (simp add: n(1))
  qed
  with i len show ?case by auto
qed

lemma parseElems_list:
  assumes "parses_list K_COMMA (parseElementAssoc pe) S xs ts" "map lexeme_of toks = ts" "K_COMMA \<notin> S"
    "K_RPAREN \<notin> S" "tok_kind u = K_RPAREN"
  shows "parseElems pe (tokens st (toks @ u # us)) = (xs, tokens st (u # us))"
proof (cases xs)
  case Nil
  then have "ts = []" using assms(1) by (auto simp: parses_list_def)
  with assms(2,5) Nil show ?thesis by (simp add: parseElems_def)
next
  case (Cons y ys)
  note L = assms(1) [unfolded Cons]
  obtain t toks' where h: "toks = t # toks'" "tok_kind t \<noteq> K_RPAREN" using list_first [OF L assms(2)] .
  obtain st' where r: "parseElementAssoc pe (tokens st (toks @ u # us)) = (y, st')" "length ys \<le> fuel st'"
    "\<forall>acc m. length ys \<le> m \<longrightarrow> elemLoop m pe (acc @ [y]) st' = (acc @ y # ys, tokens st (u # us))"
    using elemLoop_list [OF L assms(2-5), of us st] by (auto simp: fuel_def)
  then show ?thesis using r(3) [rule_format, OF r(2), of "[]"] h by (simp add: parseElems_def Cons)
qed

lemma parseAssocs_list:
  assumes "parses_list K_COMMA (parseAssocElement pe) S xs ts" "map lexeme_of toks = ts" "K_COMMA \<notin> S"
    "K_RPAREN \<notin> S" "tok_kind u = K_RPAREN"
  shows "parseAssocs pe (tokens st (toks @ u # us)) = (xs, tokens st (u # us))"
proof (cases xs)
  case Nil
  then have "ts = []" using assms(1) by (auto simp: parses_list_def)
  with assms(2,5) Nil show ?thesis by (simp add: parseAssocs_def)
next
  case (Cons y ys)
  note L = assms(1) [unfolded Cons]
  obtain t toks' where h: "toks = t # toks'" "tok_kind t \<noteq> K_RPAREN" using list_first [OF L assms(2)] .
  have u: "tok_kind u \<notin> insert K_COMMA S" using assms(4,5) by simp
  obtain st' where r: "parseAssocElement pe (tokens st (toks @ u # us)) = (y, st')" "length ys \<le> fuel st'"
    "\<forall>acc m. length ys \<le> m \<longrightarrow> sepLoop m K_COMMA (parseAssocElement pe) (acc @ [y]) st' = (acc @ y # ys, tokens st (u # us))"
    using sepLoop_list [OF L assms(2,3) u, of us st] by (auto simp: fuel_def)
  then show ?thesis using r(3) [rule_format, OF r(2), of "[]"] h by (simp add: parseAssocs_def Cons)
qed

end
