(* ===== verification/Vhdl_Parse_Names.thy ===== *)
theory Vhdl_Parse_Names
  imports Vhdl_Parse_Run
begin

text \<open>
  What the parser does with the tokens of aggregates, associations and names, whose suffix loop is left open.
\<close>

section \<open>Elements, associations, parentheses\<close>

lemma parses_element:
  assumes "parses pe S e ts"
  shows "parses (parseElementAssoc pe) (S \<union> {K_BAR, K_ARROW}) (ElementAssoc [] e) ts"
proof (rule parsesI)
  fix st toks and u :: token and us
  assume "map lexeme_of toks = ts" "tok_kind u \<notin> S \<union> {K_BAR, K_ARROW}"
  then show "parseElementAssoc pe (tokens st (toks @ u # us)) = (ElementAssoc [] e, tokens st (u # us))"
    using parsesD [OF assms, of toks u us st] by (simp add: parseElementAssoc_def)
qed (use parses_start [OF assms] in auto)

lemma parses_element_choices:
  assumes "parses_list K_BAR pe S (c # cs) ts" "parses pe S x us" "K_ARROW \<notin> S" "K_BAR \<notin> S"
  shows "parses (parseElementAssoc pe) S (ElementAssoc (c # cs) x) (ts @ (K_ARROW, []) # us)"
proof (rule parsesI)
  fix st toks and u :: token and vs
  assume tk: "map lexeme_of toks = ts @ (K_ARROW, []) # us" "tok_kind u \<notin> S"
  obtain xs o' ys where s: "toks = xs @ o' # ys" "map lexeme_of xs = ts" "lexeme_of o' = (K_ARROW, [])" "map lexeme_of ys = us"
    using tk(1) by (rule map_eq_middle)
  have o': "tok_kind o' = K_ARROW" using s(3) by (simp add: lexeme_of_def)
  have bar: "tok_kind o' \<notin> insert K_BAR S" using o' assms(3) by simp
  obtain st' where t: "pe (tokens st (toks @ u # vs)) = (c, st')" "length cs \<le> fuel st'" "cur_kind st' \<in> {K_BAR, K_ARROW}"
    "\<forall>acc m. length cs \<le> m \<longrightarrow> sepLoop m K_BAR pe (acc @ [c]) st' = (acc @ c # cs, tokens st (o' # ys @ u # vs))"
    using sepLoop_list [OF assms(1) s(2) assms(4) bar, of "ys @ u # vs" st] o' s(1) by (auto simp: fuel_def)
  have l: "sepLoop (fuel st') K_BAR pe [c] st' = (c # cs, tokens st (o' # ys @ u # vs))"
    using t(4) [rule_format, OF t(2), of "[]"] by simp
  obtain y ys' where y: "ys = y # ys'" using parses_head [OF assms(2) s(4)] by blast
  have e: "expect K_ARROW (tokens st (o' # ys @ u # vs)) = (o', tokens st (ys @ u # vs))"
    unfolding y append_Cons by (rule expect_kind [OF o'])
  have "at_kind K_BAR st' \<or> at_kind K_ARROW st'" using t(3) by (auto simp: at_kind_def)
  then show "parseElementAssoc pe (tokens st (toks @ u # vs)) = (ElementAssoc (c # cs) x, tokens st (u # vs))"
    using parsesD [OF assms(2) s(4) tk(2), of vs st] by (simp add: parseElementAssoc_def t(1) l e)
qed (use parses_list_start [OF assms(1)] in auto)

lemma parses_assoc:
  assumes "parses pe S e ts"
  shows "parses (parseAssocElement pe) (insert K_ARROW S) (AssocElement [] e) ts"
proof (rule parsesI)
  fix st toks and u :: token and us
  assume "map lexeme_of toks = ts" "tok_kind u \<notin> insert K_ARROW S"
  then show "parseAssocElement pe (tokens st (toks @ u # us)) = (AssocElement [] e, tokens st (u # us))"
    using parsesD [OF assms, of toks u us st] by (simp add: parseAssocElement_def)
qed (use parses_start [OF assms] in auto)

lemma parses_assoc_named:
  assumes "parses pe S f ts" "parses pe S x us" "K_ARROW \<notin> S"
  shows "parses (parseAssocElement pe) S (AssocElement (printExpr f) x) (ts @ (K_ARROW, []) # us)"
proof (rule parsesI)
  fix st toks and u :: token and vs
  assume tk: "map lexeme_of toks = ts @ (K_ARROW, []) # us" "tok_kind u \<notin> S"
  obtain xs o' ys where s: "toks = xs @ o' # ys" "map lexeme_of xs = ts" "lexeme_of o' = (K_ARROW, [])" "map lexeme_of ys = us"
    using tk(1) by (rule map_eq_middle)
  have o': "tok_kind o' = K_ARROW" using s(3) by (simp add: lexeme_of_def)
  have "pe (tokens st (toks @ u # vs)) = (f, tokens st (o' # ys @ u # vs))"
    using parsesD [OF assms(1) s(2), of o'] o' assms(3) s(1) by simp
  then show "parseAssocElement pe (tokens st (toks @ u # vs)) = (AssocElement (printExpr f) x, tokens st (u # vs))"
    using parsesD [OF assms(2) s(4) tk(2), of vs st] o' by (simp add: parseAssocElement_def exprString_def)
qed (use parses_start [OF assms(1)] in auto)

lemma map_parens:
  assumes "map lexeme_of toks = lpar # ts @ [rpar]"
  obtains l xs r where "toks = l # xs @ [r]" "tok_kind l = K_LPAREN" "map lexeme_of xs = ts" "tok_kind r = K_RPAREN"
proof -
  obtain l ys where l: "toks = l # ys" "lexeme_of l = lpar" "map lexeme_of ys = ts @ [rpar]"
    using assms by (rule map_eq_first)
  obtain xs r vs where r: "ys = xs @ r # vs" "map lexeme_of xs = ts" "lexeme_of r = rpar" "map lexeme_of vs = []"
    using l(3) by (rule map_eq_middle)
  with l show thesis by (intro that [of l xs r]) (auto simp: lexeme_of_def)
qed

lemma parses_parens:
  assumes "parses_list K_COMMA (parseElementAssoc pe) S es ts" "K_COMMA \<notin> S" "K_RPAREN \<notin> S"
  shows "parses (parseParenOrAggregate pe) {} (case es of [ElementAssoc [] x] \<Rightarrow> ParenExpr x | _ \<Rightarrow> Aggregate es) (lpar # ts @ [rpar])"
proof (rule parsesI)
  fix st toks and u :: token and us
  assume "map lexeme_of toks = lpar # ts @ [rpar]"
  then obtain l xs r where s: "toks = l # xs @ [r]" "tok_kind l = K_LPAREN" "map lexeme_of xs = ts" "tok_kind r = K_RPAREN"
    by (rule map_parens)
  have "expect K_LPAREN (tokens st (l # xs @ r # u # us)) = (l, tokens st (xs @ r # u # us))"
    using s(2) by (cases xs) (simp_all add: expect_kind)
  then show "parseParenOrAggregate pe (tokens st (toks @ u # us)) =
      (case es of [ElementAssoc [] x] \<Rightarrow> ParenExpr x | _ \<Rightarrow> Aggregate es, tokens st (u # us))"
    using parseElems_list [OF assms(1) s(3) assms(2,3) s(4), of "u # us" st] expect_kind [OF s(4)] s(1)
    by (simp add: parseParenOrAggregate_def split: list.splits element_assoc.splits)
qed simp_all

section \<open>Names\<close>

lemma name_word_kind: "name_word t \<Longrightarrow> (fst t = K_IDENT \<or> fst t = K_EXTIDENT) \<and> snd t \<noteq> []"
  by (auto simp: name_word_def ext_ident_def word_def)

lemma selector_word_kind: "selector_word t \<Longrightarrow> is_selector (fst t) \<and> snd t \<noteq> []"
  using name_word_kind [of t] by (auto simp: selector_word_def is_selector_def word_def)

lemma attr_word_kind: "attr_word t \<Longrightarrow> isAttrNameKind (fst t) \<and> snd t \<noteq> []"
  by (auto simp: attr_word_def isAttrNameKind_def word_def ext_ident_def dest!: LookupKeyword_SomeD split: option.splits)

lemma lexeme_text: "lexeme_of v = t \<Longrightarrow> snd t \<noteq> [] \<Longrightarrow> tok_text v = snd t \<and> tok_kind v = fst t \<and> tok_lit v = snd t"
  by (auto simp: lexeme_of_def tok_text_def)

text \<open>The two loops over the flat part of a name.\<close>

definition nameText :: "string parse" where
  "nameText st =
     (case advance st of (tok, st1) \<Rightarrow>
        (case dotLoop (fuel st1) (tok_lit tok) st1 of (text, st2) \<Rightarrow> tickLoop (fuel st2) text st2))"

lemma map_eq_suffix2:
  assumes "map f xs = as @ [b, c]"
  obtains us v w where "xs = us @ [v, w]" "map f us = as" "f v = b" "f w = c"
  using assms by (auto simp: map_eq_append_conv map_eq_Cons_conv)

lemma dotted_parses:
  assumes "dotted s ts" "map lexeme_of toks = ts"
  shows "\<exists>t rest m. toks = t # rest \<and> (tok_kind t = K_IDENT \<or> tok_kind t = K_EXTIDENT) \<and> length us < m \<and>
    dotLoop (length (rest @ u # us)) (tok_lit t) (tokens st (rest @ u # us)) = dotLoop m s (tokens st (u # us))"
  using assms
proof (induction arbitrary: toks u us rule: dotted.induct)
  case (dotted_word t)
  obtain v where v: "toks = [v]" "lexeme_of v = t" using dotted_word.prems by auto
  have "tok_lit v = snd t \<and> (tok_kind v = K_IDENT \<or> tok_kind v = K_EXTIDENT)"
    using lexeme_text [OF v(2)] name_word_kind [OF dotted_word.hyps] by auto
  then show ?case unfolding v(1) by (intro exI [of _ v] exI [of _ "[]"] exI [of _ "Suc (length us)"]) simp
next
  case (dotted_dot s ts t)
  obtain xs d w where s: "toks = xs @ [d, w]" "map lexeme_of xs = ts" "lexeme_of d = (K_DOT, [])" "lexeme_of w = t"
    using dotted_dot.prems by (rule map_eq_suffix2)
  note W = selector_word_kind [OF dotted_dot.hyps(2)]
  have d: "tok_kind d = K_DOT" using s(3) by (simp add: lexeme_of_def)
  have w: "tok_text w = snd t" "is_selector (tok_kind w)" using lexeme_text [OF s(4)] W by simp_all
  obtain h rest m where IH: "xs = h # rest" "tok_kind h = K_IDENT \<or> tok_kind h = K_EXTIDENT" "length (w # u # us) < m"
    "dotLoop (length (rest @ d # w # u # us)) (tok_lit h) (tokens st (rest @ d # w # u # us)) =
     dotLoop m s (tokens st (d # w # u # us))"
    using dotted_dot.IH [OF s(2), of "w # u # us" d] by blast
  obtain n where n: "m = Suc n" using IH(3) by (cases m) auto
  have "dotLoop m s (tokens st (d # w # u # us)) = dotLoop n (s @ ''.'' @ snd t) (tokens st (u # us))"
    using d w by (simp add: n)
  with IH n s(1) show ?case
    by (intro exI [of _ h] exI [of _ "rest @ [d, w]"] exI [of _ n]) simp
qed

lemma flat_name_parses:
  assumes "flat_name s ts" "map lexeme_of toks = ts" "tok_kind u \<noteq> K_DOT"
  shows "\<exists>t rest m. toks = t # rest \<and> (tok_kind t = K_IDENT \<or> tok_kind t = K_EXTIDENT) \<and> length us < m \<and>
    nameText (tokens st (toks @ u # us)) = tickLoop m s (tokens st (u # us))"
  using assms
proof (induction arbitrary: toks u us rule: flat_name.induct)
  case (flat_dotted s ts)
  obtain t rest m where D: "toks = t # rest" "tok_kind t = K_IDENT \<or> tok_kind t = K_EXTIDENT" "length us < m"
    "dotLoop (length (rest @ u # us)) (tok_lit t) (tokens st (rest @ u # us)) = dotLoop m s (tokens st (u # us))"
    using dotted_parses [OF flat_dotted.hyps flat_dotted.prems(1)] by blast
  have adv: "advance (tokens st (t # rest @ u # us)) = (t, tokens st (rest @ u # us))"
    by (cases rest) simp_all
  have "dotLoop m s (tokens st (u # us)) = (s, tokens st (u # us))"
    using flat_dotted.prems(2) by (cases m) simp_all
  with D adv show ?case
    by (intro exI [of _ t] exI [of _ rest] exI [of _ "Suc (length us)"]) (simp add: nameText_def)
next
  case (flat_attr s ts t)
  obtain xs d w where s: "toks = xs @ [d, w]" "map lexeme_of xs = ts" "lexeme_of d = (K_TICK, [])" "lexeme_of w = t"
    using flat_attr.prems(1) by (rule map_eq_suffix2)
  note W = attr_word_kind [OF flat_attr.hyps(3)]
  have d: "tok_kind d = K_TICK" using s(3) by (simp add: lexeme_of_def)
  have w: "tok_text w = snd t" "isAttrNameKind (tok_kind w)" using lexeme_text [OF s(4)] W by simp_all
  obtain h rest m where IH: "xs = h # rest" "tok_kind h = K_IDENT \<or> tok_kind h = K_EXTIDENT" "length (w # u # us) < m"
    "nameText (tokens st (xs @ d # w # u # us)) = tickLoop m s (tokens st (d # w # u # us))"
    using flat_attr.IH [OF s(2), of d "w # u # us"] d by auto
  obtain n where n: "m = Suc n" using IH(3) by (cases m) auto
  have "tickLoop m s (tokens st (d # w # u # us)) = tickLoop n (s @ [tick_char] @ snd t) (tokens st (u # us))"
    using d w by (simp add: n)
  with IH n s(1) show ?case
    by (intro exI [of _ h] exI [of _ "rest @ [d, w]"] exI [of _ n]) simp
qed

text \<open>A name, and the suffix loop it leaves open.\<close>

definition name_head :: "lexeme list \<Rightarrow> bool" where
  "name_head ts \<longleftrightarrow> ts \<noteq> [] \<and> (fst (hd ts) = K_IDENT \<or> fst (hd ts) = K_EXTIDENT)"

definition parses_name :: "expr parse \<Rightarrow> expr \<Rightarrow> lexeme list \<Rightarrow> bool" where
  "parses_name pe e ts \<longleftrightarrow>
     (\<forall>st toks u us. map lexeme_of toks = ts \<longrightarrow> (is_Ident e \<longrightarrow> tok_kind u \<notin> {K_DOT, K_TICK}) \<longrightarrow>
        (\<exists>m > length us. parseName pe (tokens st (toks @ u # us)) = suffixLoop m pe e (tokens st (u # us))))"

lemma parses_nameD:
  assumes "parses_name pe e ts" "map lexeme_of toks = ts" "is_Ident e \<longrightarrow> tok_kind u \<notin> {K_DOT, K_TICK}"
  shows "\<exists>m. parseName pe (tokens st (toks @ u # us)) = suffixLoop (Suc m) pe e (tokens st (u # us)) \<and> length us \<le> m"
proof -
  obtain m where m: "m > length us" "parseName pe (tokens st (toks @ u # us)) = suffixLoop m pe e (tokens st (u # us))"
    using assms unfolding parses_name_def by blast
  then show ?thesis by (intro exI [of _ "m - 1"]) simp
qed

lemma parses_nameI:
  "(\<And>st toks u us. map lexeme_of toks = ts \<Longrightarrow> is_Ident e \<longrightarrow> tok_kind u \<notin> {K_DOT, K_TICK} \<Longrightarrow>
     \<exists>m > length us. parseName pe (tokens st (toks @ u # us)) = suffixLoop m pe e (tokens st (u # us))) \<Longrightarrow> parses_name pe e ts"
  by (simp add: parses_name_def)

lemma parseName_text:
  "parseName pe st =
     (case nameText st of (text, st3) \<Rightarrow>
        if at_kind K_TICK st3 \<and> peekKind 1 st3 = K_LPAREN
        then (case parseParenOrAggregate pe (skip st3) of (x, st4) \<Rightarrow> (QualifiedExpr (Ident text) x, st4))
        else suffixLoop (fuel st3) pe (Ident text) st3)"
  by (simp add: parseName_def nameText_def split: prod.split)

lemma parses_flat:
  assumes "flat_name s ts"
  shows "parses_name pe (Ident s) ts"
proof (rule parses_nameI)
  fix st toks and u :: token and us
  assume tk: "map lexeme_of toks = ts" "is_Ident (Ident s) \<longrightarrow> tok_kind u \<notin> {K_DOT, K_TICK}"
  then have u: "tok_kind u \<noteq> K_DOT" "tok_kind u \<noteq> K_TICK" by (simp_all add: is_Ident_def)
  obtain m where "nameText (tokens st (toks @ u # us)) = tickLoop m s (tokens st (u # us))"
    using flat_name_parses [OF assms tk(1) u(1)] by blast
  moreover have "tickLoop m s (tokens st (u # us)) = (s, tokens st (u # us))" using u(2) by (cases m) simp_all
  ultimately show "\<exists>m > length us. parseName pe (tokens st (toks @ u # us)) = suffixLoop m pe (Ident s) (tokens st (u # us))"
    using u(2) by (intro exI [of _ "Suc (length us)"]) (simp add: parseName_text)
qed

lemma parses_call:
  assumes "parses_name pe f ts" "parses_list K_COMMA (parseAssocElement pe) S args us" "K_COMMA \<notin> S" "K_RPAREN \<notin> S"
  shows "parses_name pe (CallExpr f args) (ts @ lpar # us @ [rpar])"
proof (rule parses_nameI)
  fix st toks and u :: token and vs
  assume "map lexeme_of toks = ts @ lpar # us @ [rpar]"
  then obtain xs l ys where s: "toks = xs @ l # ys" "map lexeme_of xs = ts" "lexeme_of l = lpar" "map lexeme_of ys = us @ [rpar]"
    by (rule map_eq_middle)
  obtain zs r ws where z: "ys = zs @ r # ws" "map lexeme_of zs = us" "lexeme_of r = rpar" "map lexeme_of ws = []"
    using s(4) by (rule map_eq_middle)
  have l: "tok_kind l = K_LPAREN" and r: "tok_kind r = K_RPAREN" using s(3) z(3) by (simp_all add: lexeme_of_def)
  obtain m where m: "parseName pe (tokens st (xs @ l # zs @ r # u # vs)) = suffixLoop (Suc m) pe f (tokens st (l # zs @ r # u # vs))"
    "length (zs @ r # u # vs) \<le> m"
    using parses_nameD [OF assms(1) s(2), of l "zs @ r # u # vs" st] l by auto
  have "suffixLoop (Suc m) pe f (tokens st (l # zs @ r # u # vs)) = suffixLoop m pe (CallExpr f args) (tokens st (u # vs))"
    using parseAssocs_list [OF assms(2) z(2) assms(3,4) r, of "u # vs" st] expect_kind [OF r] l by simp
  then show "\<exists>m > length vs. parseName pe (tokens st (toks @ u # vs)) = suffixLoop m pe (CallExpr f args) (tokens st (u # vs))"
    using m s(1) z by (intro exI [of _ m]) simp
qed

lemma parses_suffix:
  assumes "parses_name pe x ts" "\<not> is_Ident x" "snd t \<noteq> []"
    "(d = K_DOT \<and> is_selector (fst t) \<and> e = SelectorExpr x (snd t)) \<or>
     (d = K_TICK \<and> isAttrNameKind (fst t) \<and> e = AttributeName x (snd t))"
  shows "parses_name pe e (ts @ [(d, []), t])"
proof (rule parses_nameI)
  fix st toks and u :: token and us
  assume "map lexeme_of toks = ts @ [(d, []), t]"
  then obtain xs v w where s: "toks = xs @ [v, w]" "map lexeme_of xs = ts" "lexeme_of v = (d, [])" "lexeme_of w = t"
    by (rule map_eq_suffix2)
  have v: "tok_kind v = d" using s(3) by (simp add: lexeme_of_def)
  note w = lexeme_text [OF s(4) assms(3)]
  obtain m where m: "parseName pe (tokens st (xs @ v # w # u # us)) = suffixLoop (Suc m) pe x (tokens st (v # w # u # us))"
    "length (w # u # us) \<le> m"
    using parses_nameD [OF assms(1) s(2), of v "w # u # us" st] assms(2) by auto
  have "suffixLoop (Suc m) pe x (tokens st (v # w # u # us)) = suffixLoop m pe e (tokens st (u # us))"
    using assms(4) v w by auto
  then show "\<exists>m > length us. parseName pe (tokens st (toks @ u # us)) = suffixLoop m pe e (tokens st (u # us))"
    using m s(1) by (intro exI [of _ m]) simp
qed

section \<open>Primaries\<close>

lemma primary_name:
  assumes "parses_name (parseExprN n) e ts" "name_head ts"
  shows "parses (parsePrimary (Suc n)) (cont 6) e ts"
proof (rule parsesI)
  fix st toks and u :: token and us
  assume tk: "map lexeme_of toks = ts" "tok_kind u \<notin> cont 6"
  obtain t toks' where t: "toks = t # toks'" "tok_kind t = K_IDENT \<or> tok_kind t = K_EXTIDENT"
    using assms(2) tk(1) by (cases toks) (auto simp: name_head_def lexeme_of_def)
  obtain m where m: "parseName (parseExprN n) (tokens st (toks @ u # us)) = suffixLoop (Suc m) (parseExprN n) e (tokens st (u # us))"
    using parses_nameD [OF assms(1) tk(1), of u us st] tk(2) by (auto simp: cont_6 name_cont_def)
  have "suffixLoop (Suc m) (parseExprN n) e (tokens st (u # us)) = (e, tokens st (u # us))"
    using tk(2) by (simp add: cont_6 name_cont_def)
  with m have "parseName (parseExprN n) (tokens st (t # toks' @ u # us)) = (e, tokens st (u # us))" by (simp add: t(1))
  then show "parsePrimary (Suc n) (tokens st (toks @ u # us)) = (e, tokens st (u # us))"
    using t by (auto simp: primary_body_def parseExprN_def [symmetric])
qed (use assms(2) in \<open>auto simp: name_head_def\<close>)

lemma primary_parens:
  assumes "parses (parseParenOrAggregate (parseExprN n)) S x (lpar # ts)"
  shows "parses (parsePrimary (Suc n)) S x (lpar # ts)"
proof (rule parsesI)
  fix st toks and u :: token and us
  assume tk: "map lexeme_of toks = lpar # ts" "tok_kind u \<notin> S"
  obtain l xs where "toks = l # xs" "lexeme_of l = lpar" using tk(1) by (rule map_eq_first)
  with parsesD [OF assms tk, of us st] show "parsePrimary (Suc n) (tokens st (toks @ u # us)) = (x, tokens st (u # us))"
    by (auto simp: primary_body_def parseExprN_def [symmetric] lexeme_of_def)
qed simp_all

lemma parens_primary:
  assumes "parses (parsePrimary (Suc n)) S x (lpar # ts)"
  shows "parses (parseParenOrAggregate (parseExprN n)) S x (lpar # ts)"
proof (rule parsesI)
  fix st toks and u :: token and us
  assume tk: "map lexeme_of toks = lpar # ts" "tok_kind u \<notin> S"
  obtain l xs where "toks = l # xs" "lexeme_of l = lpar" using tk(1) by (rule map_eq_first)
  with parsesD [OF assms tk, of us st] show "parseParenOrAggregate (parseExprN n) (tokens st (toks @ u # us)) = (x, tokens st (u # us))"
    by (auto simp: primary_body_def parseExprN_def [symmetric] lexeme_of_def)
qed simp_all

lemma primary_qualified:
  assumes "flat_name s ts" "parses (parseParenOrAggregate (parseExprN n)) (cont 6) x (lpar # us)" "name_head ts"
  shows "parses (parsePrimary (Suc n)) (cont 6) (QualifiedExpr (Ident s) x) (ts @ (K_TICK, []) # lpar # us)"
proof (rule parsesI)
  fix st toks and u :: token and vs
  assume tk: "map lexeme_of toks = ts @ (K_TICK, []) # lpar # us" "tok_kind u \<notin> cont 6"
  obtain xs k ys where s: "toks = xs @ k # ys" "map lexeme_of xs = ts" "lexeme_of k = (K_TICK, [])" "map lexeme_of ys = lpar # us"
    using tk(1) by (rule map_eq_middle)
  obtain l zs where l: "ys = l # zs" "lexeme_of l = lpar" using s(4) by (rule map_eq_first)
  have k: "tok_kind k = K_TICK" "tok_kind l = K_LPAREN" using s(3) l(2) by (simp_all add: lexeme_of_def)
  obtain t rest m where N: "xs = t # rest" "tok_kind t = K_IDENT \<or> tok_kind t = K_EXTIDENT"
    "nameText (tokens st (xs @ k # ys @ u # vs)) = tickLoop m s (tokens st (k # ys @ u # vs))"
    using flat_name_parses [OF assms(1) s(2), of k "ys @ u # vs" st] k by auto
  have "tickLoop m s (tokens st (k # ys @ u # vs)) = (s, tokens st (k # ys @ u # vs))"
    using k by (cases m) (simp_all add: l(1) isAttrNameKind_def is_keyword_def)
  with N(3) have "parseName (parseExprN n) (tokens st (xs @ k # ys @ u # vs)) = (QualifiedExpr (Ident s) x, tokens st (u # vs))"
    using parsesD [OF assms(2) s(4) tk(2), of vs st] k by (simp add: parseName_text l(1))
  then have "parseName (parseExprN n) (tokens st (t # rest @ k # ys @ u # vs)) = (QualifiedExpr (Ident s) x, tokens st (u # vs))"
    by (simp add: N(1))
  then show "parsePrimary (Suc n) (tokens st (toks @ u # vs)) = (QualifiedExpr (Ident s) x, tokens st (u # vs))"
    using N(1,2) s(1) by (auto simp: primary_body_def parseExprN_def [symmetric])
qed (use assms(3) in \<open>auto simp: name_head_def\<close>)

end
