(* ===== verification/Vhdl_Roundtrip.thy ===== *)
theory Vhdl_Roundtrip
  imports Vhdl_Parse_Names
begin

text \<open>
  Every expression of the grammar is parsed from its tokens, by induction on how it is written, and so
  survives being printed and read again.
\<close>

lemma primary_steps:
  "k \<in> {K_INT, K_REAL, K_BASEDLIT} \<Longrightarrow> tok_kind v = k \<Longrightarrow> tok_kind u \<noteq> K_IDENT \<Longrightarrow>
     parsePrimary (Suc n) (tokens st (v # u # us)) = (BasicLit k (tok_lit v), tokens st (u # us))"
  "k \<in> {K_CHARLIT, K_STRINGLIT, K_BITSTRINGLIT} \<Longrightarrow> tok_kind v = k \<Longrightarrow>
     parsePrimary (Suc n) (tokens st (v # u # us)) = (BasicLit k (tok_lit v), tokens st (u # us))"
  "k \<in> {K_INT, K_REAL, K_BASEDLIT} \<Longrightarrow> tok_kind v = k \<Longrightarrow> tok_kind w = K_IDENT \<Longrightarrow>
     parsePrimary (Suc n) (tokens st (v # w # u # us)) = (PhysicalLit (tok_lit v) (tok_lit w), tokens st (u # us))"
  "tok_kind v = K_NEW \<Longrightarrow>
     parsePrimary (Suc n) (tokens st (v # w # us)) =
       (case parseExprN n (tokens st (w # us)) of (x, st') \<Rightarrow> (AllocatorExpr x, st'))"
  by (elim insertE emptyE; simp add: primary_body_def)+ (simp add: primary_body_def parseExprN_def)

lemma lexeme_parts: "lexeme_of v = t \<Longrightarrow> tok_kind v = fst t" "lexeme_of v = t \<Longrightarrow> tok_lit v = snd t"
  by (auto simp: lexeme_of_def)

lemma primary_literal:
  assumes "number_lit t \<or> text_lit t"
  shows "parses (parsePrimary (Suc n)) (cont 6) (BasicLit (fst t) (snd t)) [t]"
proof -
  have k: "fst t \<in> {K_INT, K_REAL, K_BASEDLIT} \<or> fst t \<in> {K_CHARLIT, K_STRINGLIT, K_BITSTRINGLIT}"
    using assms scan_number_kind [of "snd t"] by (auto simp: number_lit_def text_lit_def)
  show ?thesis
  proof (rule parsesI)
    fix st toks and u :: token and us
    assume tk: "map lexeme_of toks = [t]" "tok_kind u \<notin> cont 6"
    from tk(1) obtain v where "toks = [v]" "lexeme_of v = t" by auto
    then have v: "toks = [v]" "tok_kind v = fst t" "tok_lit v = snd t" by (simp_all only: lexeme_parts)
    have "tok_kind u \<noteq> K_IDENT" using tk(2) by (auto simp: cont_6 name_cont_def)
    then have "parsePrimary (Suc n) (tokens st (v # u # us)) = (BasicLit (fst t) (tok_lit v), tokens st (u # us))"
      using k primary_steps(1,2) [OF _ v(2)] by blast
    then show "parsePrimary (Suc n) (tokens st (toks @ u # us)) = (BasicLit (fst t) (snd t), tokens st (u # us))"
      unfolding v(1,3) by simp
  qed (use k in auto)
qed

lemma primary_physical:
  assumes "number_lit t" "fst w = K_IDENT"
  shows "parses (parsePrimary (Suc n)) (cont 6) (PhysicalLit (snd t) (snd w)) [t, w]"
proof -
  have k: "fst t \<in> {K_INT, K_REAL, K_BASEDLIT}" using assms(1) scan_number_kind [of "snd t"] by (simp add: number_lit_def)
  show ?thesis
  proof (rule parsesI)
    fix st toks and u :: token and us
    assume tk: "map lexeme_of toks = [t, w]" "tok_kind u \<notin> cont 6"
    from tk(1) obtain v x where "toks = [v, x]" "lexeme_of v = t" "lexeme_of x = w" by auto
    then have v: "toks = [v, x]" "tok_kind v = fst t" "tok_lit v = snd t" "tok_kind x = fst w" "tok_lit x = snd w"
      by (simp_all only: lexeme_parts)
    have "tok_kind x = K_IDENT" using v(4) assms(2) by (rule trans)
    from primary_steps(3) [OF k v(2) this]
    show "parsePrimary (Suc n) (tokens st (toks @ u # us)) = (PhysicalLit (snd t) (snd w), tokens st (u # us))"
      unfolding v(1,3,5) by simp
  qed (use k in auto)
qed

lemma primary_keyword:
  assumes "k \<in> {K_OTHERS, K_ALL, K_RANGE, K_NULL, K_OPEN}"
  shows "parses (parsePrimary (Suc n)) (cont 6) (Ident (kind_string k)) [op_tok k]"
proof (rule parsesI)
  fix st toks and u :: token and us
  assume tk: "map lexeme_of toks = [op_tok k]" "tok_kind u \<notin> cont 6"
  then obtain v where v: "toks = [v]" "tok_kind v = k" by (auto dest: lexeme_op_tok)
  show "parsePrimary (Suc n) (tokens st (toks @ u # us)) = (Ident (kind_string k), tokens st (u # us))"
    using assms v by (elim insertE emptyE; simp add: primary_body_def)
qed (use assms in \<open>auto simp: op_tok_def\<close>)

lemma level_start: "parses_level k p x ts \<Longrightarrow> ts \<noteq> [] \<and> fst (hd ts) \<noteq> K_RPAREN"
  unfolding parses_level_def by (blast dest: parses_start)

lemma expr_plain:
  assumes "parses_level 0 (parsePrimary n) e ts"
  shows "parses (parseExprN n) cont_expr e ts"
proof (rule parsesI)
  fix st toks and u :: token and us
  assume tk: "map lexeme_of toks = ts" "tok_kind u \<notin> cont_expr"
  have "level 0 (parsePrimary n) (tokens st (toks @ u # us)) = (e, tokens st (u # us))"
    using assms tk by (intro parsesD [of _ "cont 0"]) (simp_all add: parses_level_def cont_expr_def)
  then show "parseExprN n (tokens st (toks @ u # us)) = (e, tokens st (u # us))"
    using tk(2) by (simp add: parseExprN_def parseExprWith_def level_def cont_expr_def)
qed (use level_start [OF assms] in auto)

lemma to_not_cont: "d = K_TO \<or> d = K_DOWNTO \<Longrightarrow> d \<notin> cont 0"
  by (auto simp: cont_def name_cont_def ops_of_def logicalOps_def relationOps_def shiftOps_def addingOps_def
      multiplyingOps_def split: if_splits)

lemma expr_range:
  assumes "parses_level 0 (parsePrimary n) l ts" "parses_level 0 (parsePrimary n) r us" "d = K_TO \<or> d = K_DOWNTO"
  shows "parses (parseExprN n) cont_expr (RangeE l d r) (ts @ op_tok d # us)"
proof (rule parsesI)
  fix st toks and u :: token and vs
  assume tk: "map lexeme_of toks = ts @ op_tok d # us" "tok_kind u \<notin> cont_expr"
  obtain xs o' ys where s: "toks = xs @ o' # ys" "map lexeme_of xs = ts" "lexeme_of o' = op_tok d" "map lexeme_of ys = us"
    using tk(1) by (rule map_eq_middle)
  have o': "tok_kind o' = d" using s(3) by (rule lexeme_op_tok)
  have "level 0 (parsePrimary n) (tokens st (xs @ o' # ys @ u # vs)) = (l, tokens st (o' # ys @ u # vs))"
    using assms(1) s(2) to_not_cont [OF assms(3)] o'
    by (intro parsesD [of _ "cont 0"]) (simp_all add: parses_level_def)
  moreover have "level 0 (parsePrimary n) (tokens st (ys @ u # vs)) = (r, tokens st (u # vs))"
    using assms(2) s(4) tk(2) by (intro parsesD [of _ "cont 0"]) (simp_all add: parses_level_def cont_expr_def)
  ultimately show "parseExprN n (tokens st (toks @ u # vs)) = (RangeE l d r, tokens st (u # vs))"
    using assms(3) o' s(1) by (auto simp: parseExprN_def parseExprWith_def level_def)
qed (use level_start [OF assms(1)] in auto)

lemma expr_new:
  assumes "parses (parseExprN n) cont_expr x ts"
  shows "parses (parseExprN (Suc n)) cont_expr (AllocatorExpr x) (op_tok K_NEW # ts)"
proof (rule parsesI)
  fix st toks and u :: token and us
  assume tk: "map lexeme_of toks = op_tok K_NEW # ts" "tok_kind u \<notin> cont_expr"
  obtain o' xs where s: "toks = o' # xs" "lexeme_of o' = op_tok K_NEW" "map lexeme_of xs = ts"
    using tk(1) by (rule map_eq_first)
  have o': "tok_kind o' = K_NEW" using s(2) by (rule lexeme_op_tok)
  obtain y ys where y: "xs = y # ys" using parses_head [OF assms s(3)] by blast
  have "level 6 (parsePrimary (Suc n)) (tokens st (o' # xs @ u # us)) = (AllocatorExpr x, tokens st (u # us))"
    using parsesD [OF assms s(3) tk(2), of us st] o'
    by (simp add: level_def primary_steps(4) y del: parsePrimary.simps)
  moreover have "tok_kind u \<notin> cont 0" using tk(2) by (simp add: cont_expr_def)
  ultimately have "level 0 (parsePrimary (Suc n)) (tokens st (o' # xs @ u # us)) = (AllocatorExpr x, tokens st (u # us))"
    using o' by - (rule level_down [of 6], simp_all add: good_head_def)
  then show "parseExprN (Suc n) (tokens st (toks @ u # us)) = (AllocatorExpr x, tokens st (u # us))"
    using tk(2) s(1) by (simp add: parseExprN_def parseExprWith_def level_def cont_expr_def)
qed (simp_all add: op_tok_def)

section \<open>How written expressions start\<close>

lemma dotted_head: "dotted s ts \<Longrightarrow> name_head ts"
  by (induction rule: dotted.induct) (auto simp: name_head_def dest: name_word_kind)

lemma flat_name_head: "flat_name s ts \<Longrightarrow> name_head ts"
  by (induction rule: flat_name.induct) (auto simp: name_head_def dest: dotted_head [unfolded name_head_def])

lemma literal_head: "number_lit t \<or> text_lit t \<Longrightarrow> good_head 6 (fst t)"
  using scan_number_kind [of "snd t"] by (auto simp: number_lit_def text_lit_def good_head_def)

lemma op_head: "op_level op = Some j \<Longrightarrow> op \<noteq> K_ABS \<and> op \<noteq> K_NOT"
  by (auto simp: op_level_def logicalOps_def relationOps_def shiftOps_def addingOps_def multiplyingOps_def split: if_splits)

lemma good_head_mono: "good_head j h \<Longrightarrow> k \<le> j \<Longrightarrow> good_head k h"
  by (auto simp: good_head_def)

lemma op_level_le: "op_level op = Some j \<Longrightarrow> j \<le> 4 \<and> op \<in> set (ops_of j)"
  by (simp add: op_level_ops)

lemma written_heads:
  "writes k e ts \<Longrightarrow> ts \<noteq> [] \<and> good_head k (fst (hd ts)) \<and> k \<le> 6"
  "writesP e us \<Longrightarrow> us \<noteq> [] \<and> good_head 6 (fst (hd us))"
  "writesN e ns \<Longrightarrow> name_head ns"
  "writesE e es \<Longrightarrow> True"
  "writesA a as \<Longrightarrow> True"
  "writesAs args vs \<Longrightarrow> True"
  "writesCs cs ws \<Longrightarrow> cs \<noteq> []"
  "writesEl el xs \<Longrightarrow> True"
  "writesEls els ys \<Longrightarrow> True"
proof (induction rule: writes_mutual)
  case (W_prim e ts k)
  then show ?case using good_head_mono [of 6] by auto
next
  case (W_bin op j k x ts y us)
  then show ?case using good_head_mono [of j _ k] op_level_le [of op j] by auto
next
  case (P_qualified s ts x us)
  then show ?case using flat_name_head [of s ts] by (auto simp: name_head_def good_head_def)
next
  case (P_number t)
  then show ?case using literal_head by simp
next
  case (P_text t)
  then show ?case using literal_head by simp
next
  case (P_phys t u)
  then show ?case using literal_head by simp
next
  case (N_flat s ts)
  then show ?case by (rule flat_name_head)
qed (auto simp: good_head_def op_tok_def name_head_def)

section \<open>Written expressions are parsed\<close>

declare parsePrimary.simps [simp del]

lemma fuel_all: "(\<And>m. k \<le> m \<Longrightarrow> P (Suc m)) \<Longrightarrow> k < K \<Longrightarrow> \<forall>n \<ge> K. P n"
  by (metis Suc_leD Suc_le_D Suc_le_eq Suc_le_mono le_trans)

lemma separators_not_cont:
  "K_COMMA \<notin> cont_expr \<union> {K_BAR, K_ARROW}" "K_RPAREN \<notin> cont_expr \<union> {K_BAR, K_ARROW}"
  "K_ARROW \<notin> cont_expr" "K_BAR \<notin> cont_expr"
  by (auto simp: cont_expr_def cont_def name_cont_def ops_of_def logicalOps_def relationOps_def shiftOps_def addingOps_def
      multiplyingOps_def split: if_splits)

lemma level_6: "parses_level 6 prim x ts \<longleftrightarrow> parses prim (cont 6) x ts"
  by (simp add: parses_level_def level_def)

lemma level_5: "parses (level 5 prim) (cont 5) x ts \<Longrightarrow> parses_level 5 prim x ts"
  by (simp add: parses_level_def)

lemma parses_written:
  "writes k e ts \<Longrightarrow> \<forall>n \<ge> length ts. parses_level k (parsePrimary n) e ts"
  "writesP e us \<Longrightarrow> \<forall>n \<ge> length us. parses (parsePrimary n) (cont 6) e us"
  "writesN e ns \<Longrightarrow> \<forall>n. length ns \<le> Suc n \<longrightarrow> parses_name (parseExprN n) e ns"
  "writesE e es \<Longrightarrow> \<forall>n \<ge> length es. parses (parseExprN n) cont_expr e es"
  "writesA a as \<Longrightarrow> \<forall>n \<ge> length as. parses (parseAssocElement (parseExprN n)) (insert K_ARROW cont_expr) a as"
  "writesAs args vs \<Longrightarrow> \<forall>n \<ge> length vs. parses_list K_COMMA (parseAssocElement (parseExprN n)) (insert K_ARROW cont_expr) args vs"
  "writesCs cs ws \<Longrightarrow> \<forall>n \<ge> length ws. parses_list K_BAR (parseExprN n) cont_expr cs ws"
  "writesEl el xs \<Longrightarrow> \<forall>n \<ge> length xs. parses (parseElementAssoc (parseExprN n)) (cont_expr \<union> {K_BAR, K_ARROW}) el xs"
  "writesEls els ys \<Longrightarrow> \<forall>n \<ge> length ys. parses_list K_COMMA (parseElementAssoc (parseExprN n)) (cont_expr \<union> {K_BAR, K_ARROW}) els ys"
proof (induction rule: writes_mutual)
  case (W_prim e ts k)
  then show ?case
    using parses_level_lower [of 6 _ e ts k] written_heads(2) [of e ts] by (simp add: level_6)
next
  case (W_bin op j k x ts y us)
  note j = op_level_le [OF W_bin.hyps(1)] and hx = written_heads(1) [OF W_bin.hyps(3)]
  show ?case
  proof (intro allI impI)
    fix n assume n: "length (ts @ op_tok op # us) \<le> n"
    have "parses_level j (parsePrimary n) (BinaryExpr x op y) (ts @ op_tok op # us)"
      using W_bin.IH n j by (intro parses_binary [of j]) (auto simp: parses_level_def [of "Suc j"])
    then show "parses_level k (parsePrimary n) (BinaryExpr x op y) (ts @ op_tok op # us)"
      using j W_bin.hyps(2) hx by - (rule parses_level_lower [of j], auto)
  qed
next
  case (W_sign op k x ts)
  show ?case
  proof (intro allI impI)
    fix n assume n: "length (op_tok op # ts) \<le> n"
    have "parses_level 3 (parsePrimary n) (UnaryExpr op x) (op_tok op # ts)"
      using W_sign.IH n W_sign.hyps(1) by (intro parses_sign) (simp_all add: parses_level_def)
    then show "parses_level k (parsePrimary n) (UnaryExpr op x) (op_tok op # ts)"
      using W_sign.hyps(2) by - (rule parses_level_lower [of 3], auto simp: good_head_def)
  qed
next
  case (W_not op k x ts)
  show ?case
  proof (intro allI impI)
    fix n assume n: "length (op_tok op # ts) \<le> n"
    have "parses_level 5 (parsePrimary n) (UnaryExpr op x) (op_tok op # ts)"
      using W_not.IH n W_not.hyps(1) by (intro level_5 parses_not) simp_all
    then show "parses_level k (parsePrimary n) (UnaryExpr op x) (op_tok op # ts)"
      using W_not.hyps(1,2) by - (rule parses_level_lower [of 5], auto simp: good_head_def op_tok_def)
  qed
next
  case (W_exp k x ts y us)
  note hx = written_heads(2) [OF W_exp.hyps(2)]
  show ?case
  proof (intro allI impI)
    fix n assume n: "length (ts @ op_tok K_EXP # us) \<le> n"
    have "parses_level 5 (parsePrimary n) (BinaryExpr x K_EXP y) (ts @ op_tok K_EXP # us)"
      using W_exp.IH n hx by (intro level_5 parses_power) simp_all
    then show "parses_level k (parsePrimary n) (BinaryExpr x K_EXP y) (ts @ op_tok K_EXP # us)"
      using W_exp.hyps(1) hx good_head_mono [of 6] by - (rule parses_level_lower [of 5], auto)
  qed
next
  case (P_number t)
  then show ?case by (intro fuel_all [of 0] primary_literal) simp_all
next
  case (P_text t)
  then show ?case by (intro fuel_all [of 0] primary_literal) simp_all
next
  case (P_phys t u)
  then show ?case by (intro fuel_all [of 0] primary_physical) simp_all
next
  case (P_keyword k)
  then show ?case by (intro fuel_all [of 0] primary_keyword) simp_all
next
  case (P_name e ts)
  have h: "name_head ts" using written_heads(3) [OF P_name.hyps] .
  show ?case
  proof (rule fuel_all [of "length ts - 1"])
    show "parses (parsePrimary (Suc n)) (cont 6) e ts" if "length ts - 1 \<le> n" for n
      using P_name.IH that by (intro primary_name h) simp
  qed (use h in \<open>simp add: name_head_def\<close>)
next
  case (P_paren x ts)
  have "parses (parsePrimary (Suc n)) {} (ParenExpr x) (lpar # ts @ [rpar])" if n: "length ts \<le> n" for n
  proof -
    have "parses_list K_COMMA (parseElementAssoc (parseExprN n)) (cont_expr \<union> {K_BAR, K_ARROW}) [ElementAssoc [] x] ts"
      using P_paren.IH n by (intro parses_list_one parses_element) simp
    from primary_parens [OF parses_parens [OF this separators_not_cont(1,2)]] show ?thesis by simp
  qed
  then show ?case by - (rule fuel_all [of "length ts"], rule parses_mono [where S = "{}"], simp_all)
next
  case (P_aggregate es ts)
  have "parses (parsePrimary (Suc n)) {} (Aggregate es) (lpar # ts @ [rpar])" if n: "length ts \<le> n" for n
  proof -
    have "(case es of [ElementAssoc [] x] \<Rightarrow> ParenExpr x | _ \<Rightarrow> Aggregate es) = Aggregate es"
      using P_aggregate.hyps(2) by (auto split: list.splits element_assoc.splits)
    with primary_parens [OF parses_parens [OF _ separators_not_cont(1,2)]] P_aggregate.IH n
    show ?thesis by fastforce
  qed
  then show ?case by - (rule fuel_all [of "length ts"], rule parses_mono [where S = "{}"], simp_all)
next
  case (P_qualified s ts x us)
  have h: "name_head ts" using flat_name_head [OF P_qualified.hyps(1)] .
  have "parses (parsePrimary (Suc n)) (cont 6) (QualifiedExpr (Ident s) x) (ts @ (K_TICK, []) # lpar # us)"
    if n: "length us \<le> n" for n
    using primary_qualified [OF P_qualified.hyps(1) parens_primary h] P_qualified.IH n by simp
  then show ?case by (intro fuel_all [of "length us"]) simp_all
next
  case (N_flat s ts)
  then show ?case by (simp add: parses_flat)
next
  case (N_call f ts args us)
  have "parses_name (parseExprN n) (CallExpr f args) (ts @ lpar # us @ [rpar])"
    if n: "length ts \<le> Suc n" "length us \<le> n" for n
  proof (rule parses_call)
    show "parses_name (parseExprN n) f ts" using N_call.IH(1) n by simp
    show "parses_list K_COMMA (parseAssocElement (parseExprN n)) (insert K_ARROW cont_expr) args us"
      using N_call.IH(2) n by simp
  qed (use separators_not_cont in simp_all)
  then show ?case by simp
next
  case (N_selector x ts t)
  then show ?case using selector_word_kind [of t] by (auto intro!: parses_suffix)
next
  case (N_attribute x ts t)
  then show ?case using attr_word_kind [of t] by (auto intro!: parses_suffix)
next
  case (E_plain e ts)
  then show ?case by (simp add: expr_plain)
next
  case (E_range d l ts r us)
  then show ?case by (simp add: expr_range)
next
  case (E_new x ts)
  then show ?case by (intro fuel_all [of "length ts"] expr_new) simp_all
next
  case (A_positional x ts)
  then show ?case by (intro allI impI parses_assoc) simp
next
  case (A_named f ts x us)
  have "parses (parseAssocElement (parseExprN n)) cont_expr (AssocElement (printExpr f) x) (ts @ (K_ARROW, []) # us)"
    if "length ts \<le> n" "length us \<le> n" for n
    using A_named.IH that separators_not_cont by (intro parses_assoc_named) simp_all
  then show ?case by (intro allI impI, rule parses_mono [where S = cont_expr]) auto
next
  case (As_one a ts)
  then show ?case by (simp add: parses_list_one)
next
  case (As_more a ts b bs us)
  then show ?case by (simp add: parses_list_more)
next
  case (Cs_one c ts)
  then show ?case by (simp add: parses_list_one)
next
  case (Cs_more c ts d ds us)
  then show ?case by (simp add: parses_list_more)
next
  case (El_positional x ts)
  then show ?case by (intro allI impI parses_element) simp
next
  case (El_named cs ts x us)
  obtain c cs' where c: "cs = c # cs'" using written_heads(7) [OF El_named.hyps(1)] by (cases cs) auto
  have "parses (parseElementAssoc (parseExprN n)) cont_expr (ElementAssoc cs x) (ts @ (K_ARROW, []) # us)"
    if "length ts \<le> n" "length us \<le> n" for n
    unfolding c using El_named.IH that separators_not_cont
    by (intro parses_element_choices) (simp_all add: c)
  then show ?case by (intro allI impI, rule parses_mono [where S = cont_expr]) auto
next
  case (Els_one e ts)
  then show ?case by (simp add: parses_list_one)
next
  case (Els_more e ts f fs us)
  then show ?case by (simp add: parses_list_more)
qed (simp_all add: parses_list_Nil)

section \<open>Printing, lexing and parsing\<close>

lemma lex_source_tokens:
  "map lexeme_of (fst (lex_source src fo)) = lex_text (Kind 0) src @ [(K_EOF, [])]"
proof -
  obtain f where f: "lex_source src fo = lex_loop (length src * 2 + 17) (NewLexer src (Some f))"
    by (cases fo) (simp_all add: lex_source_def)
  have "length (lx_rest (NewLexer src (Some f))) < length src * 2 + 17" by (simp add: NewLexer_def)
  from lex_loop_text [OF lexing_new this] show ?thesis
    by (simp add: f NewLexer_def lexeme_of_def [abs_def])
qed

lemma lex_printed:
  assumes "reads s ts"
  shows "lex_text (Kind 0) s = ts"
proof -
  have "lex_text (fst (last ts)) [] = []" by (subst lex_text.simps) simp
  with readsD [OF assms, of "Kind 0" "[]"] show ?thesis by (simp add: isNameEnd_def)
qed

text \<open>
  C4: an expression tree of the grammar, printed, lexed and parsed again, is the same tree; the parser
  reports no error and stops at the end of the file.
\<close>

theorem printExpr_parseExpr:
  assumes "writesE e ts"
  shows "\<exists>eof. parseExpr (newParser (printExpr e) fo) = (e, \<lparr>ps_toks = [eof], ps_errs = []\<rparr>) \<and>
    tok_kind eof = K_EOF \<and> tok_lit eof = []"
proof -
  let ?st = "newParser (printExpr e) fo"
  have "map lexeme_of (ps_toks ?st) = ts @ (K_EOF, []) # []"
    using lex_source_tokens lex_printed [OF reads_written(4) [OF assms]] by (simp add: newParser_def)
  then obtain toks eof rest where s: "ps_toks ?st = toks @ eof # rest" "map lexeme_of toks = ts" "lexeme_of eof = (K_EOF, [])"
    "map lexeme_of rest = []"
    by (rule map_eq_middle)
  have eof: "tok_kind eof = K_EOF" "tok_lit eof = []" "rest = []" using s(3,4) by (simp_all add: lexeme_of_def)
  have st: "?st = tokens ?st (toks @ [eof])" using s(1) eof(3) by (simp add: newParser_def)
  have "length ts \<le> fuel ?st" using s(1,2) by (auto simp: fuel_def)
  then have "parses (parseExprN (fuel ?st)) cont_expr e ts" using parses_written(4) [OF assms] by simp
  moreover have "tok_kind eof \<notin> cont_expr"
    unfolding eof(1) by (auto simp: cont_expr_def cont_def name_cont_def ops_of_def logicalOps_def relationOps_def
        shiftOps_def addingOps_def multiplyingOps_def split: if_splits)
  ultimately have "parseExprN (fuel ?st) (tokens ?st (toks @ eof # [])) = (e, tokens ?st [eof])"
    using s(2) by (intro parsesD)
  with st have "parseExpr ?st = (e, tokens ?st [eof])" by (simp add: parseExpr_def)
  with eof(1,2) show ?thesis by (intro exI [of _ eof]) (simp add: newParser_def)
qed

text \<open>\<open>a + f(7 downto 0) = not b'length\<close>\<close>

definition demo_expr :: expr where
  "demo_expr = BinaryExpr (BinaryExpr (Ident ''a'') K_PLUS
       (CallExpr (Ident ''f'') [AssocElement [] (RangeE (BasicLit K_INT ''7'') K_DOWNTO (BasicLit K_INT ''0''))]))
     K_EQ (UnaryExpr K_NOT (Ident (''b'' @ [tick_char] @ ''length'')))"

lemma demo_keywords:
  "LookupKeyword ''a'' = None" "LookupKeyword ''b'' = None" "LookupKeyword ''f'' = None" "LookupKeyword ''length'' = None"
  by (simp_all add: LookupKeyword_def has_upper_def is_upper_def char_code_def keyword_table_eval kindStr_def)

lemma demo_words:
  "word (K_IDENT, ''a'')" "word (K_IDENT, ''f'')" "word (K_IDENT, ''b'')" "word (K_IDENT, ''length'')"
  "number_lit (K_INT, ''7'')" "number_lit (K_INT, ''0'')"
  by (simp_all add: word_def demo_keywords isIdentStart_def isIdentCont_def isLetter_def is_lower_def is_digit_def
      char_code_def number_lit_def scan_number_def digit_or_us_def)

lemma demo_name: "name_word (K_IDENT, s)" if "word (K_IDENT, s)" for s
  using that by (simp add: name_word_def)

lemma demo_ident: "word (K_IDENT, s) \<Longrightarrow> flat_name s [(K_IDENT, s)]"
  using flat_dotted [OF dotted_word [OF demo_name, of s]] by simp

lemma demo_written: "\<exists>ts. writesE demo_expr ts"
proof -
  have num: "writes 0 (BasicLit K_INT ''7'') [(K_INT, ''7'')]" "writes 0 (BasicLit K_INT ''0'') [(K_INT, ''0'')]"
    using W_prim [OF P_number [OF demo_words(5)], of 0] W_prim [OF P_number [OF demo_words(6)], of 0] by simp_all
  obtain rs where range: "writesE (RangeE (BasicLit K_INT ''7'') K_DOWNTO (BasicLit K_INT ''0'')) rs"
    using E_range [OF _ num, of K_DOWNTO] by blast
  obtain cs where call: "writesP (CallExpr (Ident ''f'') [AssocElement [] (RangeE (BasicLit K_INT ''7'') K_DOWNTO (BasicLit K_INT ''0''))]) cs"
    using P_name [OF N_call [OF N_flat [OF demo_ident [OF demo_words(2)]] As_one [OF A_positional [OF range]]]] by blast
  have a: "writes 3 (Ident ''a'') [(K_IDENT, ''a'')]"
    using W_prim [OF P_name [OF N_flat [OF demo_ident [OF demo_words(1)]]], of 3] by simp
  have plus: "op_level K_PLUS = Some 3" and eq: "op_level K_EQ = Some 1" by code_simp+
  obtain ss where sum: "writes 1 (BinaryExpr (Ident ''a'') K_PLUS
      (CallExpr (Ident ''f'') [AssocElement [] (RangeE (BasicLit K_INT ''7'') K_DOWNTO (BasicLit K_INT ''0''))])) ss"
    using W_bin [OF plus _ a W_prim [OF call], of 1] by auto
  have "flat_name (''b'' @ [tick_char] @ ''length'') [(K_IDENT, ''b''), (K_TICK, []), (K_IDENT, ''length'')]"
    using flat_attr [OF demo_ident [OF demo_words(3)], of "(K_IDENT, ''length'')"] demo_words(4)
    by (simp add: ends_name_def isNameEnd_def attr_word_def)
  from W_not [OF _ _ P_name [OF N_flat [OF this]], of K_NOT "Suc 1"]
  obtain us where neg: "writes (Suc 1) (UnaryExpr K_NOT (Ident (''b'' @ [tick_char] @ ''length''))) us" by auto
  from W_bin [OF eq _ sum neg, of 0] show ?thesis unfolding demo_expr_def by (blast intro: E_plain)
qed

theorem printExpr_parseExpr_witness:
  "fst (parseExpr (newParser (''a + f(7 downto 0) = not b'' @ [tick_char] @ ''length'') None)) = demo_expr"
proof -
  obtain ts where "writesE demo_expr ts" using demo_written by blast
  from printExpr_parseExpr [OF this, of None] have "fst (parseExpr (newParser (printExpr demo_expr) None)) = demo_expr"
    by auto
  moreover have "printExpr demo_expr = ''a + f(7 downto 0) = not b'' @ [tick_char] @ ''length''" by code_simp
  ultimately show ?thesis by simp
qed

end
