(* ===== verification/Vhdl_Parse_Monad.thy ===== *)
theory Vhdl_Parse_Monad
  imports Vhdl_Parse_Expr "HOL-Library.State_Monad"
begin

text \<open>
  The parser of \<open>src/tools/socgen/vhdl/parser.go\<close> as a state monad: the methods on the token stream and
  the expression parsers lifted, and the loops that the statement, declaration and unit parsers share.
  A method of the code that calls others in sequence is written in do-notation, so that its definition
  has the order of the code. Loops take the number of remaining tokens as their bound.
\<close>

type_synonym 'a parser = "(pstate, 'a) state"

abbreviation yield :: "'a \<Rightarrow> 'a parser" where
  "yield \<equiv> State_Monad.return"

section \<open>The token stream\<close>

definition look :: "(pstate \<Rightarrow> 'a) \<Rightarrow> 'a parser" where
  "look f = State (\<lambda>st. (f st, st))"

abbreviation atP :: "kind \<Rightarrow> bool parser" where "atP k \<equiv> look (at_kind k)"
abbreviation curP :: "token parser" where "curP \<equiv> look cur"
abbreviation fuelP :: "nat parser" where "fuelP \<equiv> look fuel"

definition advanceP :: "token parser" where "advanceP = State advance"
definition acceptP :: "kind \<Rightarrow> bool parser" where "acceptP k = State (accept k)"
definition expectP :: "kind \<Rightarrow> token parser" where "expectP k = State (expect k)"

definition errorP :: "int \<Rightarrow> string \<Rightarrow> unit parser" where
  "errorP p msg = State (\<lambda>st. ((), errorf p msg st))"

definition ensureProgressP :: "pstate \<Rightarrow> string \<Rightarrow> unit parser" where
  "ensureProgressP start place = State (\<lambda>st. ((), ensureProgress start place st))"

text \<open>\<open>p.expect(IDENT).Lit\<close>, and the optional closing name of a construct.\<close>

definition identP :: "string parser" where
  "identP = do { t \<leftarrow> expectP K_IDENT; yield (tok_lit t) }"

definition closingName :: "unit parser" where
  "closingName = do { b \<leftarrow> acceptP K_IDENT; yield () }"

definition whenP :: "kind \<Rightarrow> 'a parser \<Rightarrow> 'a option parser" where
  "whenP k p = do { b \<leftarrow> acceptP k; if b then do { x \<leftarrow> p; yield (Some x) } else yield None }"

text \<open>A report at the current token, whose kind and text it names.\<close>

definition unexpectedP :: "string \<Rightarrow> unit parser" where
  "unexpectedP what =
     do { t \<leftarrow> curP;
          errorP (tok_pos t) (what @ kind_string (tok_kind t) @ '' '' @ go_quote (tok_lit t)) }"

section \<open>Expressions\<close>

definition exprP :: "expr parser" where "exprP = State parseExpr"
definition rangeP :: "expr parser" where "rangeP = State parseDiscreteRange"

text \<open>The parsers that call \<open>parseExpr\<close> on what is left of the stream.\<close>

definition with_expr :: "(expr parse \<Rightarrow> 'a parse) \<Rightarrow> 'a parser" where
  "with_expr f = State (\<lambda>st. f (parseExprN (fuel st)) st)"

definition nameP :: "expr parser" where "nameP = with_expr parseName"
definition parenP :: "expr parser" where "parenP = with_expr parseParenOrAggregate"
definition assocListP :: "assoc_element list parser" where "assocListP = with_expr parseAssocList"

section \<open>Loops\<close>

fun loopN :: "nat \<Rightarrow> (pstate \<Rightarrow> bool) \<Rightarrow> 'a parser \<Rightarrow> 'a list \<Rightarrow> 'a list parser" where
  "loopN 0 c p acc = yield acc"
| "loopN (Suc n) c p acc =
     do { b \<leftarrow> look c;
          if b then do { x \<leftarrow> p; loopN n c p (acc @ [x]) } else yield acc }"

definition loopP :: "(pstate \<Rightarrow> bool) \<Rightarrow> 'a parser \<Rightarrow> 'a list parser" where
  "loopP c p = do { n \<leftarrow> fuelP; loopN n c p [] }"

text \<open>\<open>x {sep x}\<close>.\<close>

definition sepP :: "kind \<Rightarrow> 'a parser \<Rightarrow> 'a list parser" where
  "sepP sep p =
     do { x \<leftarrow> p;
          xs \<leftarrow> loopP (at_kind sep) (do { t \<leftarrow> advanceP; p });
          yield (x # xs) }"

text \<open>
  A loop guarded by \<open>ensureProgress\<close>, whose body may give nil: until the current token is one of \<open>stops\<close>
  or the end of the file.
\<close>

definition guarded :: "string \<Rightarrow> 'a parser \<Rightarrow> 'a parser" where
  "guarded place p =
     do { start \<leftarrow> look (\<lambda>st. st);
          x \<leftarrow> p;
          u \<leftarrow> ensureProgressP start place;
          yield x }"

definition at_any :: "kind list \<Rightarrow> pstate \<Rightarrow> bool" where
  "at_any ks st \<longleftrightarrow> cur_kind st \<in> set ks"

definition untilP :: "kind list \<Rightarrow> string \<Rightarrow> 'a option parser \<Rightarrow> 'a list parser" where
  "untilP stops place p =
     do { xs \<leftarrow> loopP (\<lambda>st. \<not> at_kind K_EOF st \<and> \<not> at_any stops st) (guarded place p);
          yield (List.map_filter id xs) }"

section \<open>Names\<close>

definition is_name_tok :: "kind \<Rightarrow> bool" where
  "is_name_tok k \<longleftrightarrow> k = K_IDENT \<or> k = K_EXTIDENT"

text \<open>The segments after the first: a dot that nothing fits is consumed, and ends the name.\<close>

fun dottedLoop :: "nat \<Rightarrow> string \<Rightarrow> string parser" where
  "dottedLoop 0 text = yield text"
| "dottedLoop (Suc n) text =
     do { b \<leftarrow> acceptP K_DOT;
          if b then do {
            t \<leftarrow> curP;
            if is_name_tok (tok_kind t) \<or> tok_kind t = K_ALL
            then do { u \<leftarrow> advanceP; dottedLoop n (text @ ''.'' @ tok_text t) }
            else if is_keyword (tok_kind t)
            then do { u \<leftarrow> advanceP; dottedLoop n (text @ ''.'' @ kind_string (tok_kind t)) }
            else yield text }
          else yield text }"

definition parseDottedName :: "string parser" where
  "parseDottedName =
     do { t \<leftarrow> curP;
          n \<leftarrow> fuelP;
          if is_name_tok (tok_kind t) then do { u \<leftarrow> advanceP; dottedLoop n (tok_lit t) }
          else if is_keyword (tok_kind t) then do { u \<leftarrow> advanceP; dottedLoop n (kind_string (tok_kind t)) }
          else do { u \<leftarrow> unexpectedP ''expected name, got ''; yield [] } }"

definition parseUseClause :: "string list parser" where
  "parseUseClause =
     do { t \<leftarrow> expectP K_USE;
          names \<leftarrow> sepP K_COMMA parseDottedName;
          s \<leftarrow> expectP K_SEMICOLON;
          yield names }"

definition parseNameList :: "string list parser" where
  "parseNameList = sepP K_COMMA identP"

text \<open>A name of a configuration specification, or of an attribute specification.\<close>

definition specName :: "string \<Rightarrow> string parser" where
  "specName what =
     do { t \<leftarrow> curP;
          if tok_kind t = K_IDENT then do { u \<leftarrow> advanceP; yield (tok_lit t) }
          else if tok_kind t = K_ALL \<or> tok_kind t = K_OTHERS
          then do { u \<leftarrow> advanceP; yield (kind_string (tok_kind t)) }
          else do { u \<leftarrow> unexpectedP what; v \<leftarrow> advanceP; yield [] } }"

definition parseConfigSpecName :: "string parser" where
  "parseConfigSpecName = specName ''expected configuration spec name, got ''"

definition parseEntityName :: "string parser" where
  "parseEntityName = specName ''expected entity name, got ''"

definition parseChoices :: "expr list parser" where
  "parseChoices = sepP K_BAR exprP"

section \<open>Maps and bindings\<close>

text \<open>\<open>[generic map (...)] [port map (...)] ;\<close>.\<close>

definition mapP :: "kind \<Rightarrow> assoc_element list parser" where
  "mapP k =
     do { b \<leftarrow> acceptP k;
          if b then do { m \<leftarrow> expectP K_MAP; assocListP } else yield [] }"

definition parseMaps :: "(assoc_element list \<times> assoc_element list) parser" where
  "parseMaps =
     do { gmap \<leftarrow> mapP K_GENERIC;
          pmap \<leftarrow> mapP K_PORT;
          s \<leftarrow> expectP K_SEMICOLON;
          yield (gmap, pmap) }"

text \<open>\<open>unit [(arch)]\<close>.\<close>

definition parseEntityUnit :: "(string \<times> string) parser" where
  "parseEntityUnit =
     do { unit \<leftarrow> parseDottedName;
          b \<leftarrow> acceptP K_LPAREN;
          if b then do { arch \<leftarrow> identP; r \<leftarrow> expectP K_RPAREN; yield (unit, arch) }
          else yield (unit, []) }"

definition parseBoundUnit :: "(kind \<times> string \<times> string) parser" where
  "parseBoundUnit =
     do { t \<leftarrow> curP;
          if tok_kind t = K_ENTITY
          then do { u \<leftarrow> advanceP; (unit, arch) \<leftarrow> parseEntityUnit; yield (K_ENTITY, unit, arch) }
          else if tok_kind t = K_CONFIGURATION
          then do { u \<leftarrow> advanceP; unit \<leftarrow> parseDottedName; yield (K_CONFIGURATION, unit, []) }
          else if tok_kind t = K_OPEN then do { u \<leftarrow> advanceP; yield (K_OPEN, [], []) }
          else do { u \<leftarrow> unexpectedP ''expected entity/configuration/open in binding, got '';
                    yield (Kind 0, [], []) } }"

definition parseBindingIndication :: "binding_indication parser" where
  "parseBindingIndication =
     do { t \<leftarrow> expectP K_USE;
          (k, unit, arch) \<leftarrow> parseBoundUnit;
          (gmap, pmap) \<leftarrow> parseMaps;
          yield \<lparr>bi_unit_kind = k, bi_unit = unit, bi_arch = arch, bi_generic_map = gmap, bi_port_map = pmap\<rparr> }"

end
