(* ===== verification/Vhdl_Parse_Stmt.thy ===== *)
theory Vhdl_Parse_Stmt
  imports Vhdl_Parse_Monad
begin

text \<open>
  Waveforms and the sequential statements of \<open>src/tools/socgen/vhdl/parser.go\<close>. A statement parser that
  contains statements takes the parser \<open>sq\<close> of one sequential statement; \<open>parseSeqN\<close> ties the knot with
  the number of remaining tokens as fuel. A nil statement is \<open>None\<close>.
\<close>

section \<open>Waveforms\<close>

definition parseDelayMechanism :: "delay_mechanism option parser" where
  "parseDelayMechanism =
     do { b \<leftarrow> acceptP K_TRANSPORT;
          if b then yield (Some \<lparr>dm_transport = True, dm_reject = None\<rparr>)
          else do {
            b \<leftarrow> acceptP K_REJECT;
            if b then do {
              e \<leftarrow> exprP;
              t \<leftarrow> expectP K_INERTIAL;
              yield (Some \<lparr>dm_transport = False, dm_reject = Some e\<rparr>) }
            else do {
              b \<leftarrow> acceptP K_INERTIAL;
              yield (if b then Some \<lparr>dm_transport = False, dm_reject = None\<rparr> else None) } } }"

definition parseWaveformElem :: "waveform_elem parser" where
  "parseWaveformElem =
     do { v \<leftarrow> exprP;
          after \<leftarrow> whenP K_AFTER exprP;
          yield \<lparr>we_value = v, we_after = after\<rparr> }"

definition parseWaveform :: "waveform_elem list parser" where
  "parseWaveform = sepP K_COMMA parseWaveformElem"

definition parseSelectedAlt :: "selected_waveform parser" where
  "parseSelectedAlt =
     do { wave \<leftarrow> parseWaveform;
          t \<leftarrow> expectP K_WHEN;
          choices \<leftarrow> parseChoices;
          yield \<lparr>sw_waveform = wave, sw_choices = choices\<rparr> }"

definition parseSelectedAssign :: "string \<Rightarrow> stmt parser" where
  "parseSelectedAssign label =
     do { t \<leftarrow> expectP K_WITH;
          sel \<leftarrow> exprP;
          t \<leftarrow> expectP K_SELECT;
          target \<leftarrow> nameP;
          t \<leftarrow> expectP K_LE;
          delay \<leftarrow> parseDelayMechanism;
          alts \<leftarrow> sepP K_COMMA parseSelectedAlt;
          t \<leftarrow> expectP K_SEMICOLON;
          yield (SelectedSignalAssign label sel target delay alts) }"

section \<open>Simple statements\<close>

text \<open>The optional \<open>label :\<close>.\<close>

definition parseLabel :: "string parser" where
  "parseLabel =
     do { b \<leftarrow> look (\<lambda>st. at_kind K_IDENT st \<and> peekKind 1 st = K_COLON);
          if b then do { t \<leftarrow> advanceP; u \<leftarrow> advanceP; yield (tok_lit t) } else yield [] }"

definition parseNextExit :: "string \<Rightarrow> bool \<Rightarrow> stmt parser" where
  "parseNextExit label isNext =
     do { t \<leftarrow> expectP (if isNext then K_NEXT else K_EXIT);
          t \<leftarrow> curP;
          b \<leftarrow> acceptP K_IDENT;
          cond \<leftarrow> whenP K_WHEN exprP;
          s \<leftarrow> expectP K_SEMICOLON;
          yield ((if isNext then NextStmt else ExitStmt) label (if b then tok_lit t else []) cond) }"

definition parseReturnStmt :: "string \<Rightarrow> stmt parser" where
  "parseReturnStmt label =
     do { t \<leftarrow> advanceP;
          b \<leftarrow> atP K_SEMICOLON;
          val \<leftarrow> (if b then yield None else do { e \<leftarrow> exprP; yield (Some e) });
          s \<leftarrow> expectP K_SEMICOLON;
          yield (ReturnStmt label val) }"

definition parseWaitStmt :: "string \<Rightarrow> stmt parser" where
  "parseWaitStmt label =
     do { t \<leftarrow> expectP K_WAIT;
          b \<leftarrow> acceptP K_ON;
          on \<leftarrow> (if b then sepP K_COMMA nameP else yield []);
          until \<leftarrow> whenP K_UNTIL exprP;
          time \<leftarrow> whenP K_FOR exprP;
          s \<leftarrow> expectP K_SEMICOLON;
          yield (WaitStmt label on until time) }"

definition parseAssertStmt :: "string \<Rightarrow> stmt parser" where
  "parseAssertStmt label =
     do { t \<leftarrow> expectP K_ASSERT;
          cond \<leftarrow> exprP;
          report \<leftarrow> whenP K_REPORT exprP;
          severity \<leftarrow> whenP K_SEVERITY exprP;
          s \<leftarrow> expectP K_SEMICOLON;
          yield (AssertStmt label cond report severity) }"

definition parseReportStmt :: "string \<Rightarrow> stmt parser" where
  "parseReportStmt label =
     do { t \<leftarrow> expectP K_REPORT;
          report \<leftarrow> exprP;
          severity \<leftarrow> whenP K_SEVERITY exprP;
          s \<leftarrow> expectP K_SEMICOLON;
          yield (ReportStmt label report severity) }"

text \<open>The Go type of a tree, which \<open>procCall\<close> reports for a target that is neither a call nor a name.\<close>

definition go_type :: "expr \<Rightarrow> string" where
  "go_type e = ''*vhdl.'' @
     (case e of
        PhysicalLit _ _ \<Rightarrow> ''PhysicalLit'' | BasicLit _ _ \<Rightarrow> ''BasicLit'' | Ident _ \<Rightarrow> ''Ident''
      | RangeE _ _ _ \<Rightarrow> ''Range'' | BinaryExpr _ _ _ \<Rightarrow> ''BinaryExpr'' | UnaryExpr _ _ \<Rightarrow> ''UnaryExpr''
      | CallExpr _ _ \<Rightarrow> ''CallExpr'' | SelectorExpr _ _ \<Rightarrow> ''SelectorExpr''
      | AttributeName _ _ \<Rightarrow> ''AttributeName'' | ParenExpr _ \<Rightarrow> ''ParenExpr'' | Aggregate _ \<Rightarrow> ''Aggregate''
      | QualifiedExpr _ _ \<Rightarrow> ''QualifiedExpr'' | RangeConstraint _ _ \<Rightarrow> ''RangeConstraint''
      | AllocatorExpr _ \<Rightarrow> ''AllocatorExpr'')"

definition procCall :: "int \<Rightarrow> string \<Rightarrow> expr \<Rightarrow> stmt option parser" where
  "procCall pos label target =
     (case target of
        CallExpr fn args \<Rightarrow> yield (Some (ProcedureCallStmt label (exprString fn) args))
      | Ident name \<Rightarrow> yield (Some (ProcedureCallStmt label name []))
      | _ \<Rightarrow> do { u \<leftarrow> errorP pos (''expected procedure call, got '' @ go_type target); yield None })"

section \<open>Compound statements\<close>

definition parseSeqStmtsUntil :: "stmt option parser \<Rightarrow> kind list \<Rightarrow> stmt list parser" where
  "parseSeqStmtsUntil sq stops = untilP stops ''sequential statement'' sq"

text \<open>\<open>end kind [label] ;\<close>.\<close>

definition parseEnd :: "kind \<Rightarrow> unit parser" where
  "parseEnd k =
     do { t \<leftarrow> expectP K_END;
          t \<leftarrow> expectP k;
          u \<leftarrow> closingName;
          s \<leftarrow> expectP K_SEMICOLON;
          yield () }"

definition parseLoopScheme :: "(kind \<times> string \<times> expr option \<times> expr option) parser" where
  "parseLoopScheme =
     do { k \<leftarrow> look cur_kind;
          if k = K_FOR then do {
            t \<leftarrow> advanceP;
            param \<leftarrow> identP;
            t \<leftarrow> expectP K_IN;
            rng \<leftarrow> rangeP;
            yield (K_FOR, param, Some rng, None) }
          else if k = K_WHILE then do {
            t \<leftarrow> advanceP;
            cond \<leftarrow> exprP;
            yield (K_WHILE, [], None, Some cond) }
          else yield (Kind 0, [], None, None) }"

definition parseLoopStmt :: "stmt option parser \<Rightarrow> string \<Rightarrow> stmt parser" where
  "parseLoopStmt sq label =
     do { (scheme, param, rng, cond) \<leftarrow> parseLoopScheme;
          t \<leftarrow> expectP K_LOOP;
          body \<leftarrow> parseSeqStmtsUntil sq [K_END];
          u \<leftarrow> parseEnd K_LOOP;
          yield (LoopStmt label scheme param rng cond body) }"

definition parseCaseAlt :: "stmt option parser \<Rightarrow> case_alt parser" where
  "parseCaseAlt sq =
     do { t \<leftarrow> advanceP;
          choices \<leftarrow> parseChoices;
          t \<leftarrow> expectP K_ARROW;
          body \<leftarrow> parseSeqStmtsUntil sq [K_WHEN, K_END];
          yield (CaseAlt choices body) }"

definition parseCaseStmt :: "stmt option parser \<Rightarrow> string \<Rightarrow> stmt parser" where
  "parseCaseStmt sq label =
     do { t \<leftarrow> expectP K_CASE;
          e \<leftarrow> exprP;
          t \<leftarrow> expectP K_IS;
          alts \<leftarrow> loopP (at_kind K_WHEN) (parseCaseAlt sq);
          u \<leftarrow> parseEnd K_CASE;
          yield (CaseStmt label e alts) }"

definition if_stops :: "kind list" where "if_stops = [K_ELSIF, K_ELSE, K_END]"

definition parseElsif :: "stmt option parser \<Rightarrow> elsif_clause parser" where
  "parseElsif sq =
     do { t \<leftarrow> advanceP;
          c \<leftarrow> exprP;
          t \<leftarrow> expectP K_THEN;
          body \<leftarrow> parseSeqStmtsUntil sq if_stops;
          yield (ElsifClause c body) }"

definition parseIfStmt :: "stmt option parser \<Rightarrow> string \<Rightarrow> stmt parser" where
  "parseIfStmt sq label =
     do { t \<leftarrow> expectP K_IF;
          cond \<leftarrow> exprP;
          t \<leftarrow> expectP K_THEN;
          thn \<leftarrow> parseSeqStmtsUntil sq if_stops;
          elsifs \<leftarrow> loopP (at_kind K_ELSIF) (parseElsif sq);
          b \<leftarrow> acceptP K_ELSE;
          els \<leftarrow> (if b then parseSeqStmtsUntil sq [K_END] else yield []);
          u \<leftarrow> parseEnd K_IF;
          yield (IfStmt label cond thn elsifs els) }"

section \<open>One sequential statement\<close>

text \<open>A statement that no keyword introduces: an assignment or a procedure call.\<close>

definition parseSeqName :: "int \<Rightarrow> string \<Rightarrow> stmt option parser" where
  "parseSeqName pos label =
     do { target \<leftarrow> nameP;
          t \<leftarrow> curP;
          if tok_kind t = K_LE then do {
            u \<leftarrow> advanceP;
            delay \<leftarrow> parseDelayMechanism;
            wave \<leftarrow> parseWaveform;
            s \<leftarrow> expectP K_SEMICOLON;
            yield (Some (SignalAssignStmt label target delay wave)) }
          else if tok_kind t = K_ASSIGN then do {
            u \<leftarrow> advanceP;
            val \<leftarrow> exprP;
            s \<leftarrow> expectP K_SEMICOLON;
            yield (Some (VariableAssignStmt label target val)) }
          else (case target of
                  CallExpr fn args \<Rightarrow> do { s \<leftarrow> expectP K_SEMICOLON; procCall pos label target }
                | Ident name \<Rightarrow>
                    if tok_kind t = K_SEMICOLON then do { s \<leftarrow> advanceP; procCall pos label target }
                    else do { u \<leftarrow> errorP (tok_pos t) ''deferred: sequential statement not yet parsed''; yield None }
                | _ \<Rightarrow> do { u \<leftarrow> errorP (tok_pos t) ''deferred: sequential statement not yet parsed''; yield None }) }"

definition seq_body :: "stmt option parser \<Rightarrow> stmt option parser" where
  "seq_body sq =
     do { start \<leftarrow> curP;
          label \<leftarrow> parseLabel;
          k \<leftarrow> look cur_kind;
          if k = K_NULL then do { t \<leftarrow> advanceP; s \<leftarrow> expectP K_SEMICOLON; yield (Some (NullStmt label)) }
          else if k = K_IF then do { s \<leftarrow> parseIfStmt sq label; yield (Some s) }
          else if k = K_CASE then do { s \<leftarrow> parseCaseStmt sq label; yield (Some s) }
          else if k = K_FOR \<or> k = K_WHILE \<or> k = K_LOOP then do { s \<leftarrow> parseLoopStmt sq label; yield (Some s) }
          else if k = K_NEXT then do { s \<leftarrow> parseNextExit label True; yield (Some s) }
          else if k = K_EXIT then do { s \<leftarrow> parseNextExit label False; yield (Some s) }
          else if k = K_RETURN then do { s \<leftarrow> parseReturnStmt label; yield (Some s) }
          else if k = K_WAIT then do { s \<leftarrow> parseWaitStmt label; yield (Some s) }
          else if k = K_ASSERT then do { s \<leftarrow> parseAssertStmt label; yield (Some s) }
          else if k = K_REPORT then do { s \<leftarrow> parseReportStmt label; yield (Some s) }
          else parseSeqName (tok_pos start) label }"

fun parseSeqN :: "nat \<Rightarrow> stmt option parser" where
  "parseSeqN 0 = yield None"
| "parseSeqN (Suc n) = seq_body (parseSeqN n)"

definition parseSequentialStmt :: "stmt option parser" where
  "parseSequentialStmt = do { n \<leftarrow> fuelP; parseSeqN n }"

end
