(* ===== verification/Vhdl_Parse_Decl.thy ===== *)
theory Vhdl_Parse_Decl
  imports Vhdl_Parse_Stmt
begin

text \<open>
  The declarations of \<open>src/tools/socgen/vhdl/parser.go\<close>. Only a subprogram body contains declarations, so
  the declaration parsers take the parser \<open>dc\<close> of one declaration where it is called, and \<open>parseDeclN\<close>
  ties the knot with the number of remaining tokens as fuel.
\<close>

section \<open>Subtypes and interfaces\<close>

definition parseSubtypeIndication :: "(string \<times> expr option) parser" where
  "parseSubtypeIndication =
     do { mark \<leftarrow> parseDottedName;
          k \<leftarrow> look cur_kind;
          if k = K_LPAREN then do { c \<leftarrow> parenP; yield (mark, Some c) }
          else if k = K_RANGE then do { t \<leftarrow> advanceP; c \<leftarrow> exprP; yield (mark, Some c) }
          else yield (mark, None) }"

text \<open>A keyword out of \<open>ks\<close>, as its canonical text; empty when there is none.\<close>

definition optKeyword :: "kind list \<Rightarrow> string parser" where
  "optKeyword ks =
     do { k \<leftarrow> look cur_kind;
          if k \<in> set ks then do { t \<leftarrow> advanceP; yield (kind_string k) } else yield [] }"

definition parseInterfaceDecl :: "interface_decl parser" where
  "parseInterfaceDecl =
     do { objClass \<leftarrow> optKeyword [K_CONSTANT, K_SIGNAL, K_VARIABLE];
          names \<leftarrow> parseNameList;
          t \<leftarrow> expectP K_COLON;
          mode \<leftarrow> optKeyword [K_IN, K_OUT, K_INOUT, K_BUFFER, K_LINKAGE];
          (mark, constraint) \<leftarrow> parseSubtypeIndication;
          dflt \<leftarrow> whenP K_ASSIGN exprP;
          yield \<lparr>id_obj_class = objClass, id_names = names, id_mode = mode, id_subtype_mark = mark,
                 id_constraint = constraint, id_default = dflt\<rparr> }"

text \<open>
  After a semicolon the closing parenthesis ends the loop, whose condition then fails too: the iteration
  that meets it gives nothing.
\<close>

definition parseInterfaceList :: "interface_decl list parser" where
  "parseInterfaceList =
     do { t \<leftarrow> expectP K_LPAREN;
          b \<leftarrow> atP K_RPAREN;
          decls \<leftarrow> (if b then yield []
                   else do {
                     d \<leftarrow> parseInterfaceDecl;
                     ds \<leftarrow> loopP (at_kind K_SEMICOLON)
                            (do { s \<leftarrow> advanceP;
                                  b \<leftarrow> atP K_RPAREN;
                                  if b then yield None
                                  else do { d \<leftarrow> parseInterfaceDecl; yield (Some d) } });
                     yield (d # List.map_filter id ds) });
          t \<leftarrow> expectP K_RPAREN;
          yield decls }"

text \<open>\<open>[generic (...) ;] [port (...) ;]\<close>.\<close>

definition interfaceClause :: "kind \<Rightarrow> interface_decl list parser" where
  "interfaceClause k =
     do { b \<leftarrow> acceptP k;
          if b then do { ds \<leftarrow> parseInterfaceList; s \<leftarrow> expectP K_SEMICOLON; yield ds } else yield [] }"

section \<open>Objects, types and components\<close>

definition parseConstantOrSignal :: "bool \<Rightarrow> decl parser" where
  "parseConstantOrSignal isConst =
     do { t \<leftarrow> advanceP;
          names \<leftarrow> parseNameList;
          t \<leftarrow> expectP K_COLON;
          (mark, constraint) \<leftarrow> parseSubtypeIndication;
          dflt \<leftarrow> whenP K_ASSIGN exprP;
          s \<leftarrow> expectP K_SEMICOLON;
          yield ((if isConst then ConstantDecl else SignalDecl) names mark constraint dflt) }"

definition finishVariableDecl :: "bool \<Rightarrow> decl parser" where
  "finishVariableDecl shared =
     do { names \<leftarrow> parseNameList;
          t \<leftarrow> expectP K_COLON;
          (mark, constraint) \<leftarrow> parseSubtypeIndication;
          dflt \<leftarrow> whenP K_ASSIGN exprP;
          s \<leftarrow> expectP K_SEMICOLON;
          yield (VariableDecl shared names mark constraint dflt) }"

definition parseVariableDecl :: "decl parser" where
  "parseVariableDecl = do { t \<leftarrow> expectP K_VARIABLE; finishVariableDecl False }"

definition parseSharedVariableDecl :: "decl parser" where
  "parseSharedVariableDecl =
     do { t \<leftarrow> expectP K_SHARED; t \<leftarrow> expectP K_VARIABLE; finishVariableDecl True }"

definition parseSubtypeDecl :: "decl parser" where
  "parseSubtypeDecl =
     do { t \<leftarrow> expectP K_SUBTYPE;
          name \<leftarrow> identP;
          t \<leftarrow> expectP K_IS;
          (mark, constraint) \<leftarrow> parseSubtypeIndication;
          s \<leftarrow> expectP K_SEMICOLON;
          yield (SubtypeDecl name mark constraint) }"

definition parseEnumLit :: "string parser" where
  "parseEnumLit =
     do { t \<leftarrow> curP;
          if tok_kind t = K_IDENT \<or> tok_kind t = K_CHARLIT then do { u \<leftarrow> advanceP; yield (tok_lit t) }
          else do { u \<leftarrow> unexpectedP ''expected enum literal, got ''; v \<leftarrow> advanceP; yield [] } }"

definition parseRecordField :: "record_field parser" where
  "parseRecordField =
     do { names \<leftarrow> parseNameList;
          t \<leftarrow> expectP K_COLON;
          (mark, constraint) \<leftarrow> parseSubtypeIndication;
          s \<leftarrow> expectP K_SEMICOLON;
          yield \<lparr>rf_names = names, rf_subtype_mark = mark, rf_constraint = constraint\<rparr> }"

definition parseRecordDef :: "type_def parser" where
  "parseRecordDef =
     do { t \<leftarrow> advanceP;
          fs \<leftarrow> untilP [K_END] ''record field'' (do { f \<leftarrow> parseRecordField; yield (Some f) });
          t \<leftarrow> expectP K_END;
          b \<leftarrow> acceptP K_RECORD;
          u \<leftarrow> closingName;
          yield (RecordDef fs) }"

text \<open>The text of the tokens before the semicolon.\<close>

definition rawTokens :: "string list parser" where
  "rawTokens =
     loopP (\<lambda>st. \<not> at_kind K_SEMICOLON st \<and> \<not> at_kind K_EOF st) (do { t \<leftarrow> advanceP; yield (tok_text t) })"

definition parseTypeDef :: "type_def option parser" where
  "parseTypeDef =
     do { t \<leftarrow> curP;
          if tok_kind t = K_LPAREN then do {
            u \<leftarrow> advanceP;
            lits \<leftarrow> sepP K_COMMA parseEnumLit;
            r \<leftarrow> expectP K_RPAREN;
            yield (Some (EnumDef lits)) }
          else if tok_kind t = K_RECORD then do { d \<leftarrow> parseRecordDef; yield (Some d) }
          else if tok_kind t = K_ARRAY then do {
            parts \<leftarrow> rawTokens;
            yield (Some (ArrayDef (join_strings parts '' ''))) }
          else if tok_kind t = K_FILE then do {
            u \<leftarrow> advanceP;
            v \<leftarrow> expectP K_OF;
            mark \<leftarrow> parseDottedName;
            yield (Some (FileTypeDef mark)) }
          else if tok_kind t = K_ACCESS then do {
            u \<leftarrow> advanceP;
            (mark, c) \<leftarrow> parseSubtypeIndication;
            yield (Some (AccessDef mark)) }
          else do {
            u \<leftarrow> errorP (tok_pos t) (''unsupported type definition starting with '' @ kind_string (tok_kind t));
            ts \<leftarrow> rawTokens;
            yield None } }"

definition parseTypeDecl :: "decl parser" where
  "parseTypeDecl =
     do { t \<leftarrow> expectP K_TYPE;
          name \<leftarrow> identP;
          t \<leftarrow> expectP K_IS;
          tdef \<leftarrow> parseTypeDef;
          s \<leftarrow> expectP K_SEMICOLON;
          yield (TypeDecl name tdef) }"

definition parseComponentDecl :: "decl parser" where
  "parseComponentDecl =
     do { t \<leftarrow> expectP K_COMPONENT;
          name \<leftarrow> identP;
          b \<leftarrow> acceptP K_IS;
          generics \<leftarrow> interfaceClause K_GENERIC;
          ports \<leftarrow> interfaceClause K_PORT;
          t \<leftarrow> expectP K_END;
          b \<leftarrow> acceptP K_COMPONENT;
          u \<leftarrow> closingName;
          s \<leftarrow> expectP K_SEMICOLON;
          yield (ComponentDecl name generics ports) }"

section \<open>Attributes, aliases, groups, files and configuration specifications\<close>

definition parseAttribute :: "decl parser" where
  "parseAttribute =
     do { t \<leftarrow> expectP K_ATTRIBUTE;
          name \<leftarrow> identP;
          b \<leftarrow> acceptP K_OF;
          if b then do {
            entities \<leftarrow> sepP K_COMMA parseEntityName;
            t \<leftarrow> expectP K_COLON;
            ct \<leftarrow> advanceP;
            u \<leftarrow> (if is_keyword (tok_kind ct) then yield ()
                 else errorP (tok_pos ct) (''expected entity class keyword, got '' @ kind_string (tok_kind ct) @
                        '' '' @ go_quote (tok_lit ct)));
            t \<leftarrow> expectP K_IS;
            val \<leftarrow> exprP;
            s \<leftarrow> expectP K_SEMICOLON;
            yield (AttributeSpec name entities (tok_kind ct) val) }
          else do {
            t \<leftarrow> expectP K_COLON;
            mark \<leftarrow> parseDottedName;
            s \<leftarrow> expectP K_SEMICOLON;
            yield (AttributeDecl name mark) } }"

definition parseSignature :: "signature parser" where
  "parseSignature =
     do { t \<leftarrow> expectP K_LBRACKET;
          b \<leftarrow> look (\<lambda>st. at_kind K_RETURN st \<or> at_kind K_RBRACKET st);
          types \<leftarrow> (if b then yield [] else sepP K_COMMA parseDottedName);
          b \<leftarrow> acceptP K_RETURN;
          ret \<leftarrow> (if b then parseDottedName else yield []);
          t \<leftarrow> expectP K_RBRACKET;
          yield \<lparr>sg_types = types, sg_return = ret\<rparr> }"

definition parseAliasDecl :: "decl parser" where
  "parseAliasDecl =
     do { t \<leftarrow> expectP K_ALIAS;
          name \<leftarrow> identP;
          b \<leftarrow> acceptP K_COLON;
          (mark, constraint) \<leftarrow> (if b then parseSubtypeIndication else yield ([], None));
          t \<leftarrow> expectP K_IS;
          target \<leftarrow> nameP;
          b \<leftarrow> atP K_LBRACKET;
          sig \<leftarrow> (if b then do { s \<leftarrow> parseSignature; yield (Some s) } else yield None);
          s \<leftarrow> expectP K_SEMICOLON;
          yield (AliasDecl name mark constraint target sig) }"

definition parseEntityClassEntry :: "string parser" where
  "parseEntityClassEntry =
     do { t \<leftarrow> advanceP;
          b \<leftarrow> acceptP K_BOX;
          yield (kind_string (tok_kind t) @ (if b then '' <>'' else [])) }"

definition parseGroupDecl :: "decl parser" where
  "parseGroupDecl =
     do { t \<leftarrow> expectP K_GROUP;
          name \<leftarrow> identP;
          b \<leftarrow> acceptP K_IS;
          if b then do {
            t \<leftarrow> expectP K_LPAREN;
            classes \<leftarrow> sepP K_COMMA parseEntityClassEntry;
            t \<leftarrow> expectP K_RPAREN;
            s \<leftarrow> expectP K_SEMICOLON;
            yield (GroupTemplateDecl name classes) }
          else do {
            t \<leftarrow> expectP K_COLON;
            tmpl \<leftarrow> parseDottedName;
            t \<leftarrow> expectP K_LPAREN;
            cons \<leftarrow> sepP K_COMMA parseDottedName;
            t \<leftarrow> expectP K_RPAREN;
            s \<leftarrow> expectP K_SEMICOLON;
            yield (GroupDecl name tmpl cons) } }"

definition parseFileDecl :: "decl parser" where
  "parseFileDecl =
     do { t \<leftarrow> expectP K_FILE;
          names \<leftarrow> parseNameList;
          t \<leftarrow> expectP K_COLON;
          mark \<leftarrow> parseDottedName;
          b \<leftarrow> acceptP K_OPEN;
          if b then do {
            openMode \<leftarrow> exprP;
            t \<leftarrow> expectP K_IS;
            logical \<leftarrow> exprP;
            s \<leftarrow> expectP K_SEMICOLON;
            yield (FileDecl names mark [] (Some openMode) (Some logical)) }
          else do {
            b \<leftarrow> acceptP K_IS;
            if b then do {
              mode \<leftarrow> optKeyword [K_IN, K_OUT];
              logical \<leftarrow> exprP;
              s \<leftarrow> expectP K_SEMICOLON;
              yield (FileDecl names mark mode None (Some logical)) }
            else do {
              s \<leftarrow> expectP K_SEMICOLON;
              yield (FileDecl names mark [] None None) } } }"

definition parseConfigSpec :: "decl parser" where
  "parseConfigSpec =
     do { t \<leftarrow> expectP K_FOR;
          insts \<leftarrow> sepP K_COMMA parseConfigSpecName;
          t \<leftarrow> expectP K_COLON;
          cname \<leftarrow> parseDottedName;
          binding \<leftarrow> parseBindingIndication;
          yield (ConfigSpec insts cname (Some binding)) }"

section \<open>Subprograms\<close>

definition parseDesignator :: "string parser" where
  "parseDesignator =
     do { t \<leftarrow> curP;
          if tok_kind t \<in> {K_IDENT, K_EXTIDENT, K_STRINGLIT} then do { u \<leftarrow> advanceP; yield (tok_lit t) }
          else do { u \<leftarrow> unexpectedP ''expected subprogram designator, got ''; v \<leftarrow> advanceP; yield [] } }"

text \<open>The specification: whether it is a procedure, pure, impure; its name, parameters and result.\<close>

definition parseSubprogramSpec ::
    "(bool \<times> bool \<times> bool \<times> string \<times> interface_decl list \<times> string) parser" where
  "parseSubprogramSpec =
     do { pure \<leftarrow> acceptP K_PURE;
          impure \<leftarrow> (if pure then yield False else acceptP K_IMPURE);
          isProc \<leftarrow> acceptP K_PROCEDURE;
          u \<leftarrow> (if isProc then yield () else do { t \<leftarrow> expectP K_FUNCTION; yield () });
          desig \<leftarrow> parseDesignator;
          b \<leftarrow> atP K_LPAREN;
          params \<leftarrow> (if b then parseInterfaceList else yield []);
          ret \<leftarrow> (if isProc then yield [] else do { t \<leftarrow> expectP K_RETURN; parseDottedName });
          yield (isProc, pure, impure, desig, params, ret) }"

definition closingDesignator :: "unit parser" where
  "closingDesignator =
     do { k \<leftarrow> look cur_kind;
          if k \<in> {K_IDENT, K_EXTIDENT, K_STRINGLIT} then do { t \<leftarrow> advanceP; yield () } else yield () }"

definition parseDeclsUntil :: "decl option parser \<Rightarrow> kind list \<Rightarrow> string \<Rightarrow> decl list parser" where
  "parseDeclsUntil dc stops place = untilP stops place dc"

definition parseSubprogramDecl :: "decl option parser \<Rightarrow> decl parser" where
  "parseSubprogramDecl dc =
     do { (isProc, pure, impure, desig, params, ret) \<leftarrow> parseSubprogramSpec;
          b \<leftarrow> acceptP K_IS;
          if b then do {
            decls \<leftarrow> parseDeclsUntil dc [K_BEGIN, K_END] ''subprogram declaration'';
            t \<leftarrow> expectP K_BEGIN;
            stmts \<leftarrow> parseSeqStmtsUntil parseSequentialStmt [K_END];
            t \<leftarrow> expectP K_END;
            b \<leftarrow> acceptP K_FUNCTION;
            b \<leftarrow> acceptP K_PROCEDURE;
            u \<leftarrow> closingDesignator;
            s \<leftarrow> expectP K_SEMICOLON;
            yield (SubprogramBody isProc pure impure desig params ret decls stmts) }
          else do {
            s \<leftarrow> expectP K_SEMICOLON;
            yield (SubprogramDecl isProc pure impure desig params ret) } }"

section \<open>One declaration\<close>

definition decl_body :: "decl option parser \<Rightarrow> decl option parser" where
  "decl_body dc =
     do { k \<leftarrow> look cur_kind;
          if k = K_CONSTANT then do { d \<leftarrow> parseConstantOrSignal True; yield (Some d) }
          else if k = K_SIGNAL then do { d \<leftarrow> parseConstantOrSignal False; yield (Some d) }
          else if k = K_VARIABLE then do { d \<leftarrow> parseVariableDecl; yield (Some d) }
          else if k = K_SHARED then do { d \<leftarrow> parseSharedVariableDecl; yield (Some d) }
          else if k = K_SUBTYPE then do { d \<leftarrow> parseSubtypeDecl; yield (Some d) }
          else if k = K_TYPE then do { d \<leftarrow> parseTypeDecl; yield (Some d) }
          else if k = K_COMPONENT then do { d \<leftarrow> parseComponentDecl; yield (Some d) }
          else if k = K_FUNCTION \<or> k = K_PROCEDURE \<or> k = K_PURE \<or> k = K_IMPURE
          then do { d \<leftarrow> parseSubprogramDecl dc; yield (Some d) }
          else if k = K_ATTRIBUTE then do { d \<leftarrow> parseAttribute; yield (Some d) }
          else if k = K_ALIAS then do { d \<leftarrow> parseAliasDecl; yield (Some d) }
          else if k = K_GROUP then do { d \<leftarrow> parseGroupDecl; yield (Some d) }
          else if k = K_FILE then do { d \<leftarrow> parseFileDecl; yield (Some d) }
          else if k = K_USE then do { names \<leftarrow> parseUseClause; yield (Some (UseDecl names)) }
          else if k = K_FOR then do { d \<leftarrow> parseConfigSpec; yield (Some d) }
          else do {
            t \<leftarrow> curP;
            u \<leftarrow> errorP (tok_pos t) (''unexpected token '' @ kind_string (tok_kind t) @ '' '' @
                  go_quote (tok_lit t) @ '' in declaration'');
            v \<leftarrow> advanceP;
            yield None } }"

fun parseDeclN :: "nat \<Rightarrow> decl option parser" where
  "parseDeclN 0 = yield None"
| "parseDeclN (Suc n) = decl_body (parseDeclN n)"

definition parseDecl :: "decl option parser" where
  "parseDecl = do { n \<leftarrow> fuelP; parseDeclN n }"

end
