(* ===== verification/Vhdl_Parse_File.thy ===== *)
theory Vhdl_Parse_File
  imports Vhdl_Parse_Decl
begin

text \<open>
  Concurrent statements, configurations, design units and files of \<open>src/tools/socgen/vhdl/parser.go\<close>.
  Generate statements contain concurrent statements and configuration items contain items; both knots
  are tied with the number of remaining tokens as fuel.
\<close>

section \<open>Concurrent statements\<close>

text \<open>
  \<open>waveform when cond {else waveform when cond} [else waveform]\<close>: the loop breaks after an alternative
  without a condition.
\<close>

fun condLoop :: "nat \<Rightarrow> cond_waveform list \<Rightarrow> cond_waveform list parser" where
  "condLoop 0 acc = yield acc"
| "condLoop (Suc n) acc =
     do { b \<leftarrow> acceptP K_ELSE;
          if b then do {
            wave \<leftarrow> parseWaveform;
            cond \<leftarrow> whenP K_WHEN exprP;
            (case cond of
               Some c \<Rightarrow> condLoop n (acc @ [\<lparr>cw_waveform = wave, cw_cond = Some c\<rparr>])
             | None \<Rightarrow> yield (acc @ [\<lparr>cw_waveform = wave, cw_cond = None\<rparr>])) }
          else yield acc }"

definition parseConcAssign :: "string \<Rightarrow> expr \<Rightarrow> stmt parser" where
  "parseConcAssign label target =
     do { t \<leftarrow> advanceP;
          delay \<leftarrow> parseDelayMechanism;
          wave \<leftarrow> parseWaveform;
          b \<leftarrow> acceptP K_WHEN;
          if b then do {
            c \<leftarrow> exprP;
            n \<leftarrow> fuelP;
            conds \<leftarrow> condLoop n [\<lparr>cw_waveform = wave, cw_cond = Some c\<rparr>];
            s \<leftarrow> expectP K_SEMICOLON;
            yield (ConcurrentSignalAssign label target delay [] conds) }
          else do {
            s \<leftarrow> expectP K_SEMICOLON;
            yield (ConcurrentSignalAssign label target delay wave []) } }"

definition finishInstantiation :: "string \<Rightarrow> kind \<Rightarrow> string \<Rightarrow> string \<Rightarrow> stmt parser" where
  "finishInstantiation label k unit arch =
     do { (gmap, pmap) \<leftarrow> parseMaps;
          yield (InstantiationStmt label k unit arch gmap pmap False) }"

definition parseProcess :: "string \<Rightarrow> stmt parser" where
  "parseProcess label =
     do { postponed \<leftarrow> acceptP K_POSTPONED;
          t \<leftarrow> expectP K_PROCESS;
          b \<leftarrow> acceptP K_LPAREN;
          sens \<leftarrow> (if b then do {
                    e \<leftarrow> atP K_RPAREN;
                    ns \<leftarrow> (if e then yield [] else sepP K_COMMA nameP);
                    r \<leftarrow> expectP K_RPAREN;
                    yield ns }
                  else yield []);
          b \<leftarrow> acceptP K_IS;
          decls \<leftarrow> parseDeclsUntil parseDecl [K_BEGIN, K_END] ''process declaration'';
          t \<leftarrow> expectP K_BEGIN;
          stmts \<leftarrow> parseSeqStmtsUntil parseSequentialStmt [K_END];
          t \<leftarrow> expectP K_END;
          b \<leftarrow> acceptP K_POSTPONED;
          t \<leftarrow> expectP K_PROCESS;
          u \<leftarrow> closingName;
          s \<leftarrow> expectP K_SEMICOLON;
          yield (ProcessStmt label postponed sens decls stmts) }"

definition isDeclStart :: "kind \<Rightarrow> bool" where
  "isDeclStart k \<longleftrightarrow>
     k \<in> {K_CONSTANT, K_SIGNAL, K_VARIABLE, K_SHARED, K_SUBTYPE, K_TYPE, K_COMPONENT, K_FUNCTION, K_PROCEDURE,
          K_PURE, K_IMPURE, K_ATTRIBUTE, K_ALIAS, K_GROUP, K_FILE, K_USE}"

definition parseGenScheme :: "kind \<Rightarrow> (string \<times> expr option \<times> expr option) parser" where
  "parseGenScheme k =
     (if k = K_FOR then do {
        t \<leftarrow> advanceP;
        param \<leftarrow> identP;
        t \<leftarrow> expectP K_IN;
        rng \<leftarrow> rangeP;
        yield (param, Some rng, None) }
      else do {
        t \<leftarrow> advanceP;
        cond \<leftarrow> exprP;
        yield ([], None, Some cond) })"

definition parseGenerate :: "stmt option parser \<Rightarrow> string \<Rightarrow> kind \<Rightarrow> stmt parser" where
  "parseGenerate cs label k =
     do { (param, rng, cond) \<leftarrow> parseGenScheme k;
          t \<leftarrow> expectP K_GENERATE;
          decls \<leftarrow> loopP (\<lambda>st. isDeclStart (cur_kind st)) (guarded ''generate declaration'' parseDecl);
          b \<leftarrow> acceptP K_BEGIN;
          stmts \<leftarrow> untilP [K_END] ''generate statement'' cs;
          u \<leftarrow> parseEnd K_GENERATE;
          yield (GenerateStmt label k param rng cond (List.map_filter id decls) stmts) }"

text \<open>A statement that no keyword introduces.\<close>

definition parseConcName :: "int \<Rightarrow> string \<Rightarrow> stmt option parser" where
  "parseConcName pos label =
     do { target \<leftarrow> nameP;
          t \<leftarrow> curP;
          if tok_kind t = K_LE then do { s \<leftarrow> parseConcAssign label target; yield (Some s) }
          else (case target of
                  CallExpr fn args \<Rightarrow>
                    if tok_kind t = K_SEMICOLON then do { s \<leftarrow> advanceP; procCall pos label target }
                    else do { u \<leftarrow> errorP (tok_pos t) ''deferred: concurrent statement not yet parsed''; yield None }
                | Ident name \<Rightarrow>
                    if label \<noteq> [] then do { s \<leftarrow> finishInstantiation label (Kind 0) name []; yield (Some s) }
                    else do { u \<leftarrow> errorP (tok_pos t) ''deferred: concurrent statement not yet parsed''; yield None }
                | _ \<Rightarrow> do { u \<leftarrow> errorP (tok_pos t) ''deferred: concurrent statement not yet parsed''; yield None }) }"

definition conc_body :: "stmt option parser \<Rightarrow> stmt option parser" where
  "conc_body cs =
     do { start \<leftarrow> curP;
          label \<leftarrow> parseLabel;
          t \<leftarrow> curP;
          let k = tok_kind t;
          if k = K_BLOCK \<or> k = K_GENERATE
          then do {
            u \<leftarrow> errorP (tok_pos t) (''deferred: '' @ kind_string k @ '' concurrent statement not yet parsed'');
            yield None }
          else if k = K_WITH then do { s \<leftarrow> parseSelectedAssign label; yield (Some s) }
          else if k = K_ASSERT then do { s \<leftarrow> parseAssertStmt label; yield (Some s) }
          else if k = K_POSTPONED \<or> k = K_PROCESS then do { s \<leftarrow> parseProcess label; yield (Some s) }
          else if k = K_FOR \<or> k = K_IF then do { s \<leftarrow> parseGenerate cs label k; yield (Some s) }
          else if k = K_ENTITY then do {
            u \<leftarrow> advanceP;
            (unit, arch) \<leftarrow> parseEntityUnit;
            s \<leftarrow> finishInstantiation label K_ENTITY unit arch;
            yield (Some s) }
          else if k = K_COMPONENT \<or> k = K_CONFIGURATION then do {
            u \<leftarrow> advanceP;
            unit \<leftarrow> parseDottedName;
            s \<leftarrow> finishInstantiation label k unit [];
            yield (Some s) }
          else parseConcName (tok_pos start) label }"

fun parseConcN :: "nat \<Rightarrow> stmt option parser" where
  "parseConcN 0 = yield None"
| "parseConcN (Suc n) = conc_body (parseConcN n)"

definition parseConcurrentStmt :: "stmt option parser" where
  "parseConcurrentStmt = do { n \<leftarrow> fuelP; parseConcN n }"

section \<open>Configurations\<close>

text \<open>\<open>p.parseConfigItem().(*BlockConfig)\<close>: a component configuration is dropped.\<close>

definition as_block :: "config_item \<Rightarrow> block_config option" where
  "as_block i = (case i of CfgBlock b \<Rightarrow> Some b | _ \<Rightarrow> None)"

definition optBlock :: "config_item parser \<Rightarrow> block_config option parser" where
  "optBlock ci =
     do { b \<leftarrow> atP K_FOR;
          if b then do { i \<leftarrow> ci; yield (as_block i) } else yield None }"

definition endFor :: "unit parser" where
  "endFor = do { t \<leftarrow> expectP K_END; t \<leftarrow> expectP K_FOR; s \<leftarrow> expectP K_SEMICOLON; yield () }"

definition config_body :: "config_item parser \<Rightarrow> config_item parser" where
  "config_body ci =
     do { t \<leftarrow> expectP K_FOR;
          specs \<leftarrow> sepP K_COMMA parseConfigSpecName;
          b \<leftarrow> acceptP K_COLON;
          if b then do {
            cname \<leftarrow> parseDottedName;
            b \<leftarrow> atP K_USE;
            binding \<leftarrow> (if b then do { x \<leftarrow> parseBindingIndication; yield (Some x) } else yield None);
            block \<leftarrow> optBlock ci;
            u \<leftarrow> endFor;
            yield (CfgComponent specs cname binding block) }
          else do {
            uses \<leftarrow> loopP (at_kind K_USE) parseUseClause;
            items \<leftarrow> untilP [K_END] ''configuration item'' (do { i \<leftarrow> ci; yield (Some i) });
            u \<leftarrow> endFor;
            yield (CfgBlock (BlockConfig (hd specs) uses items)) } }"

fun parseConfigItemN :: "nat \<Rightarrow> config_item parser" where
  "parseConfigItemN 0 = yield (CfgBlock (BlockConfig [] [] []))"
| "parseConfigItemN (Suc n) = config_body (parseConfigItemN n)"

definition parseConfigItem :: "config_item parser" where
  "parseConfigItem = do { n \<leftarrow> fuelP; parseConfigItemN n }"

definition parseConfigurationDecl :: "design_unit parser" where
  "parseConfigurationDecl =
     do { t \<leftarrow> expectP K_CONFIGURATION;
          name \<leftarrow> identP;
          t \<leftarrow> expectP K_OF;
          ent \<leftarrow> parseDottedName;
          t \<leftarrow> expectP K_IS;
          uses \<leftarrow> loopP (at_kind K_USE) parseUseClause;
          block \<leftarrow> optBlock parseConfigItem;
          t \<leftarrow> expectP K_END;
          b \<leftarrow> acceptP K_CONFIGURATION;
          u \<leftarrow> closingName;
          s \<leftarrow> expectP K_SEMICOLON;
          yield (ConfigurationDecl name ent uses block) }"

section \<open>Design units\<close>

definition parsePackageDecl :: "design_unit parser" where
  "parsePackageDecl =
     do { t \<leftarrow> expectP K_PACKAGE;
          name \<leftarrow> identP;
          t \<leftarrow> expectP K_IS;
          decls \<leftarrow> parseDeclsUntil parseDecl [K_END] ''package declaration'';
          t \<leftarrow> expectP K_END;
          b \<leftarrow> acceptP K_PACKAGE;
          u \<leftarrow> closingName;
          s \<leftarrow> expectP K_SEMICOLON;
          yield (PackageDecl name decls) }"

definition parsePackageBody :: "design_unit parser" where
  "parsePackageBody =
     do { t \<leftarrow> expectP K_PACKAGE;
          t \<leftarrow> expectP K_BODY;
          name \<leftarrow> identP;
          t \<leftarrow> expectP K_IS;
          decls \<leftarrow> parseDeclsUntil parseDecl [K_END] ''package body declaration'';
          t \<leftarrow> expectP K_END;
          b \<leftarrow> acceptP K_PACKAGE;
          b \<leftarrow> acceptP K_BODY;
          u \<leftarrow> closingName;
          s \<leftarrow> expectP K_SEMICOLON;
          yield (PackageBody name decls) }"

definition parseEntityDecl :: "design_unit parser" where
  "parseEntityDecl =
     do { t \<leftarrow> expectP K_ENTITY;
          name \<leftarrow> identP;
          t \<leftarrow> expectP K_IS;
          generics \<leftarrow> interfaceClause K_GENERIC;
          ports \<leftarrow> interfaceClause K_PORT;
          decls \<leftarrow> parseDeclsUntil parseDecl [K_END, K_BEGIN] ''entity declaration'';
          b \<leftarrow> acceptP K_BEGIN;
          stmts \<leftarrow> (if b then untilP [K_END] ''entity statement'' parseConcurrentStmt else yield []);
          t \<leftarrow> expectP K_END;
          b \<leftarrow> acceptP K_ENTITY;
          u \<leftarrow> closingName;
          s \<leftarrow> expectP K_SEMICOLON;
          yield (EntityDecl name generics ports decls stmts) }"

definition parseArchitectureBody :: "design_unit parser" where
  "parseArchitectureBody =
     do { t \<leftarrow> expectP K_ARCHITECTURE;
          name \<leftarrow> identP;
          t \<leftarrow> expectP K_OF;
          ent \<leftarrow> identP;
          t \<leftarrow> expectP K_IS;
          decls \<leftarrow> parseDeclsUntil parseDecl [K_BEGIN, K_END] ''architecture declaration'';
          t \<leftarrow> expectP K_BEGIN;
          stmts \<leftarrow> untilP [K_END] ''concurrent statement'' parseConcurrentStmt;
          t \<leftarrow> expectP K_END;
          b \<leftarrow> acceptP K_ARCHITECTURE;
          u \<leftarrow> closingName;
          s \<leftarrow> expectP K_SEMICOLON;
          yield (ArchitectureBody name ent decls stmts) }"

section \<open>Files\<close>

datatype file_item = FContext context_item | FUnit design_unit

definition parseLibraryClause :: "context_item parser" where
  "parseLibraryClause =
     do { t \<leftarrow> advanceP;
          names \<leftarrow> sepP K_COMMA identP;
          s \<leftarrow> expectP K_SEMICOLON;
          yield (LibraryClause names) }"

text \<open>One iteration of the loop of \<open>parseFile\<close>: \<open>None\<close> when the code returns at an unexpected token.\<close>

definition parseFileItem :: "file_item option parser" where
  "parseFileItem =
     do { k \<leftarrow> look cur_kind;
          body \<leftarrow> look (\<lambda>st. peekKind 1 st = K_BODY);
          if k = K_LIBRARY then do { c \<leftarrow> parseLibraryClause; yield (Some (FContext c)) }
          else if k = K_USE then do { ns \<leftarrow> parseUseClause; yield (Some (FContext (UseClause ns))) }
          else if k = K_PACKAGE then do {
            u \<leftarrow> (if body then parsePackageBody else parsePackageDecl);
            yield (Some (FUnit u)) }
          else if k = K_ENTITY then do { u \<leftarrow> parseEntityDecl; yield (Some (FUnit u)) }
          else if k = K_ARCHITECTURE then do { u \<leftarrow> parseArchitectureBody; yield (Some (FUnit u)) }
          else if k = K_CONFIGURATION then do { u \<leftarrow> parseConfigurationDecl; yield (Some (FUnit u)) }
          else do {
            t \<leftarrow> curP;
            u \<leftarrow> errorP (tok_pos t) (''unexpected token '' @ kind_string (tok_kind t) @ '' '' @
                  go_quote (tok_lit t) @ '' at top level'');
            yield None } }"

definition add_item :: "file_item \<Rightarrow> design_file \<Rightarrow> design_file" where
  "add_item i df =
     (case i of
        FContext c \<Rightarrow> df\<lparr>df_context := df_context df @ [c]\<rparr>
      | FUnit u \<Rightarrow> df\<lparr>df_units := df_units df @ [u]\<rparr>)"

fun parseFileN :: "nat \<Rightarrow> design_file \<Rightarrow> design_file parser" where
  "parseFileN 0 df = yield df"
| "parseFileN (Suc n) df =
     do { eof \<leftarrow> atP K_EOF;
          if eof then yield df
          else do {
            start \<leftarrow> look (\<lambda>st. st);
            i \<leftarrow> parseFileItem;
            (case i of
               None \<Rightarrow> yield df
             | Some x \<Rightarrow> do { u \<leftarrow> ensureProgressP start ''design unit''; parseFileN n (add_item x df) }) } }"

definition parseFile :: "design_file parser" where
  "parseFile = do { n \<leftarrow> fuelP; parseFileN n \<lparr>df_context = [], df_units = []\<rparr> }"

text \<open>
  \<open>ParseFile\<close>, for a source that the preprocessor, when one is set, has already processed: \<open>cpp\<close> stands for
  \<open>runCPP\<close> with the options. The error of the preprocessor gives no tree; otherwise there is a tree,
  and the errors of the parser.
\<close>

definition ParseFile ::
    "(string \<Rightarrow> string option) option \<Rightarrow> string \<Rightarrow> src_file \<Rightarrow> (design_file \<times> parse_error list) option" where
  "ParseFile cpp src f =
     (case (case cpp of None \<Rightarrow> Some src | Some run \<Rightarrow> run src) of
        None \<Rightarrow> None
      | Some s \<Rightarrow>
          (case run_state parseFile (newParser s (Some f)) of (df, st) \<Rightarrow> Some (df, ps_errs st)))"

end
