(* ===== verification/Vhdl_Parse_Inv.thy ===== *)
theory Vhdl_Parse_Inv
  imports Vhdl_Parse_File
begin

text \<open>
  What every parser of the file keeps. A predicate on the parser's state that survives the consumption of
  a token and a report at the position of a token it vouches for survives every grammar function: the
  locale proves it once for all of them, from the expression tiers to \<open>parseFile\<close>. Its interpretations
  give the facts about errors and about the stream.
\<close>

section \<open>The locale\<close>

locale parser_invariant =
  fixes I :: "pstate \<Rightarrow> bool" and G :: "token \<Rightarrow> bool"
  assumes I_skip: "I st \<Longrightarrow> I (skip st)"
    and I_cur: "I st \<Longrightarrow> G (cur st)"
    and I_report: "I st \<Longrightarrow> G t \<Longrightarrow> I (errorf (tok_pos t) msg st)"
begin

definition keeps :: "'a parse \<Rightarrow> bool" where
  "keeps p \<longleftrightarrow> (\<forall>st. I st \<longrightarrow> I (snd (p st)))"

lemma keepsI: "(\<And>st. I st \<Longrightarrow> I (snd (p st))) \<Longrightarrow> keeps p"
  by (simp add: keeps_def)

lemma keepsD: "keeps p \<Longrightarrow> I st \<Longrightarrow> I (snd (p st))"
  by (simp add: keeps_def)

lemma keeps_Pair: "keeps p \<Longrightarrow> I st \<Longrightarrow> p st = (x, st') \<Longrightarrow> I st'"
  using keepsD by fastforce

lemma I_if: "(b \<Longrightarrow> I (snd x)) \<Longrightarrow> (\<not> b \<Longrightarrow> I (snd y)) \<Longrightarrow> I (snd (if b then x else y))"
  by simp

lemma I_expect: "I st \<Longrightarrow> I (snd (expect k st))"
  by (simp add: expect_def Let_def I_skip I_report I_cur)

lemma G_expect: "I st \<Longrightarrow> G (fst (expect k st))"
  by (simp add: expect_def Let_def I_cur)

lemma I_accept: "I st \<Longrightarrow> I (snd (accept k st))"
  by (simp add: accept_def I_skip)

lemma I_ensure: "I st \<Longrightarrow> I (ensureProgress start place st)"
  by (simp add: ensureProgress_def I_skip I_report I_cur)

lemmas I_steps = I_skip I_expect I_accept I_ensure keepsD

section \<open>Expressions\<close>

lemma keeps_tierLoop: "keeps sub \<Longrightarrow> keeps (tierLoop n ops sub left)"
  by (induction n arbitrary: left; rule keepsI) (auto simp: split_beta keepsD intro!: I_steps)

lemma keeps_parseTier: "keeps sub \<Longrightarrow> keeps (parseTier ops sub)"
  by (rule keepsI) (simp add: parseTier_def split_beta keepsD[OF keeps_tierLoop] keepsD)

lemma keeps_parseFactor: "keeps prim \<Longrightarrow> keeps (parseFactor prim)"
  by (rule keepsI) (auto simp: parseFactor_def split_beta intro!: I_steps)

lemma keeps_parseTerm: "keeps prim \<Longrightarrow> keeps (parseTerm prim)"
  by (simp add: parseTerm_def keeps_parseTier keeps_parseFactor)

lemma keeps_parseSimple: "keeps prim \<Longrightarrow> keeps (parseSimple prim)"
  by (rule keepsI)
     (auto simp: parseSimple_def parseSign_def split_beta
       intro!: keepsD[OF keeps_tierLoop] keepsD[OF keeps_parseTerm] I_skip keeps_parseTerm)

lemma keeps_parseExprWith: "keeps prim \<Longrightarrow> keeps (parseExprWith prim)"
  by (rule keepsI)
     (auto simp: parseExprWith_def parseLogical_def parseRelation_def parseShift_def split_beta
       intro!: keepsD[OF keeps_parseTier] I_skip keeps_parseTier keeps_parseSimple)

lemma keeps_sepLoop: "keeps item \<Longrightarrow> keeps (sepLoop n sep item acc)"
  by (induction n arbitrary: acc; rule keepsI) (auto simp: split_beta keepsD intro!: I_steps)

lemma keeps_parseElementAssoc: "keeps pe \<Longrightarrow> keeps (parseElementAssoc pe)"
  by (rule keepsI)
     (simp add: parseElementAssoc_def split_beta keepsD[OF keeps_sepLoop] I_expect keepsD)

lemma keeps_elemLoop: "keeps pe \<Longrightarrow> keeps (elemLoop n pe acc)"
proof (induction n arbitrary: acc)
  case (Suc n)
  show ?case
    by (rule keepsI)
       (auto simp: split_beta intro!: I_skip keepsD[OF Suc.IH[OF Suc.prems]] keepsD[OF keeps_parseElementAssoc[OF Suc.prems]])
qed (simp add: keeps_def)

lemma keeps_parseElems: "keeps pe \<Longrightarrow> keeps (parseElems pe)"
  by (rule keepsI)
     (auto simp: parseElems_def split_beta intro!: keepsD[OF keeps_elemLoop] keepsD[OF keeps_parseElementAssoc])

lemma keeps_parseParenOrAggregate: "keeps pe \<Longrightarrow> keeps (parseParenOrAggregate pe)"
  by (rule keepsI)
     (auto simp: parseParenOrAggregate_def split_beta intro!: I_expect keepsD[OF keeps_parseElems]
       split: list.splits element_assoc.splits)

lemma keeps_parseAssocElement: "keeps pe \<Longrightarrow> keeps (parseAssocElement pe)"
  by (rule keepsI) (auto simp: parseAssocElement_def split_beta intro!: I_steps)

lemma keeps_parseAssocs: "keeps pe \<Longrightarrow> keeps (parseAssocs pe)"
  by (rule keepsI)
     (simp add: parseAssocs_def split_beta keepsD[OF keeps_sepLoop[OF keeps_parseAssocElement]]
       keepsD[OF keeps_parseAssocElement])

lemma keeps_parseAssocList: "keeps pe \<Longrightarrow> keeps (parseAssocList pe)"
  by (rule keepsI) (auto simp: parseAssocList_def split_beta intro!: I_expect keepsD[OF keeps_parseAssocs])

lemma keeps_dotLoop: "keeps (dotLoop n tx)"
  by (induction n arbitrary: tx; rule keepsI) (auto simp: keepsD intro!: I_steps)

lemma keeps_tickLoop: "keeps (tickLoop n tx)"
  by (induction n arbitrary: tx; rule keepsI) (auto simp: keepsD intro!: I_steps)

lemma keeps_suffixLoop: "keeps pe \<Longrightarrow> keeps (suffixLoop n pe e)"
proof (induction n arbitrary: e)
  case (Suc n)
  show ?case
    by (rule keepsI)
       (auto simp: split_beta intro!: I_skip I_expect keepsD[OF Suc.IH[OF Suc.prems]] keepsD[OF keeps_parseAssocs[OF Suc.prems]])
qed (simp add: keeps_def)

lemma keeps_parseName: "keeps pe \<Longrightarrow> keeps (parseName pe)"
  by (rule keepsI)
     (auto simp: parseName_def advance_def split_beta intro!: I_skip keepsD[OF keeps_dotLoop] keepsD[OF keeps_tickLoop]
       keepsD[OF keeps_suffixLoop] keepsD[OF keeps_parseParenOrAggregate])

lemma keeps_primary_body: "keeps pe \<Longrightarrow> keeps (primary_body pe)"
  by (rule keepsI)
     (auto simp: primary_body_def Let_def split_beta I_report I_cur intro!: I_steps keepsD[OF keeps_parseName]
       keepsD[OF keeps_parseParenOrAggregate])

lemma keeps_parsePrimary: "keeps (parsePrimary n)"
proof (induction n)
  case 0
  show ?case by (simp add: keeps_def)
next
  case (Suc n)
  have "keeps (primary_body (parseExprWith (parsePrimary n)))"
    by (intro keeps_primary_body keeps_parseExprWith Suc.IH)
  moreover have "parsePrimary (Suc n) = primary_body (parseExprWith (parsePrimary n))" by (rule ext) simp
  ultimately show ?case by (simp only:)
qed

lemma keeps_parseExprN: "keeps (parseExprN n)"
  by (simp add: parseExprN_def keeps_parseExprWith keeps_parsePrimary)

lemma keeps_parseExpr: "keeps parseExpr"
  by (rule keepsI) (simp add: parseExpr_def keepsD[OF keeps_parseExprN])

lemma keeps_parseDiscreteRange: "keeps parseDiscreteRange"
  by (rule keepsI) (simp add: parseDiscreteRange_def split_beta keepsD[OF keeps_parseExpr] I_skip)

section \<open>The monad\<close>

text \<open>\<open>valid p Q\<close>: \<open>p\<close> keeps the invariant, and its result satisfies \<open>Q\<close>.\<close>

definition valid :: "'a parser \<Rightarrow> ('a \<Rightarrow> bool) \<Rightarrow> bool" where
  "valid p Q \<longleftrightarrow> (\<forall>st. I st \<longrightarrow> I (snd (run_state p st)) \<and> Q (fst (run_state p st)))"

abbreviation ok :: "'a parser \<Rightarrow> bool" where
  "ok p \<equiv> valid p (\<lambda>x. True)"

lemma valid_bind: "valid p P \<Longrightarrow> (\<And>x. P x \<Longrightarrow> valid (f x) Q) \<Longrightarrow> valid (State_Monad.bind p f) Q"
  by (simp add: valid_def split_beta)

lemma ok_bind: "ok p \<Longrightarrow> (\<And>x. valid (f x) Q) \<Longrightarrow> valid (State_Monad.bind p f) Q"
  by (rule valid_bind)

lemma valid_yield: "ok (yield x)"
  by (simp add: valid_def)

lemma valid_if: "(b \<Longrightarrow> valid p Q) \<Longrightarrow> (\<not> b \<Longrightarrow> valid q Q) \<Longrightarrow> valid (if b then p else q) Q"
  by simp

lemma valid_prod: "(\<And>a b. valid (f a b) Q) \<Longrightarrow> valid (case x of (a, b) \<Rightarrow> f a b) Q"
  by (cases x) simp

lemma valid_look: "ok (look f)"
  by (simp add: valid_def look_def)

lemma valid_cur: "valid curP G"
  by (simp add: valid_def look_def I_cur)

lemma valid_advance: "valid advanceP G"
  by (simp add: valid_def advanceP_def advance_def I_cur I_skip)

lemma valid_expect: "valid (expectP k) G"
  by (simp add: valid_def expectP_def I_expect G_expect)

lemma valid_accept: "ok (acceptP k)"
  by (simp add: valid_def acceptP_def I_accept)

lemma valid_error: "G t \<Longrightarrow> ok (errorP (tok_pos t) msg)"
  by (simp add: valid_def errorP_def I_report)

lemma valid_ensure: "ok (ensureProgressP start place)"
  by (simp add: valid_def ensureProgressP_def I_ensure)

lemma valid_State: "keeps p \<Longrightarrow> ok (State p)"
  by (simp add: valid_def keepsD)

lemma valid_weaken: "valid p Q \<Longrightarrow> ok p"
  by (simp add: valid_def)

lemma valid_exprP: "ok exprP"
  by (simp add: exprP_def valid_State keeps_parseExpr)

lemma valid_rangeP: "ok rangeP"
  by (simp add: rangeP_def valid_State keeps_parseDiscreteRange)

lemma valid_with_expr: "(\<And>n. keeps (f (parseExprN n))) \<Longrightarrow> ok (with_expr f)"
  by (simp add: with_expr_def valid_def keepsD)

lemma valid_nameP: "ok nameP"
  by (simp add: nameP_def valid_with_expr keeps_parseName keeps_parseExprN)

lemma valid_parenP: "ok parenP"
  by (simp add: parenP_def valid_with_expr keeps_parseParenOrAggregate keeps_parseExprN)

lemma valid_assocListP: "ok assocListP"
  by (simp add: assocListP_def valid_with_expr keeps_parseAssocList keeps_parseExprN)

text \<open>The rules by which a parser in do-notation is taken apart, tokens first.\<close>

lemmas bind_tokens = valid_bind[OF valid_cur] valid_bind[OF valid_advance] valid_bind[OF valid_expect]

lemmas basic_rules = valid_yield valid_accept valid_error valid_ensure valid_look
  valid_weaken[OF valid_cur] valid_weaken[OF valid_advance] valid_weaken[OF valid_expect]
  valid_exprP valid_rangeP valid_nameP valid_parenP valid_assocListP

lemmas rules = bind_tokens ok_bind basic_rules valid_prod valid_if

section \<open>Loops and names\<close>

lemma valid_identP: "ok identP"
  unfolding identP_def by (rule rules)+

lemma valid_closingName: "ok closingName"
  unfolding closingName_def by (rule rules)+

lemma valid_whenP: "ok p \<Longrightarrow> ok (whenP k p)"
  unfolding whenP_def by (rule rules | assumption)+

lemma valid_unexpectedP: "ok (unexpectedP what)"
  unfolding unexpectedP_def by (rule rules | assumption)+

lemma valid_loopN: "ok p \<Longrightarrow> ok (loopN n c p acc)"
proof (induction n arbitrary: acc)
  case (Suc n)
  show ?case unfolding loopN.simps by (rule rules Suc | assumption)+
qed (simp add: valid_yield)

lemma valid_loopP: "ok p \<Longrightarrow> ok (loopP c p)"
  unfolding loopP_def by (rule rules valid_loopN | assumption)+

lemma valid_sepP: "ok p \<Longrightarrow> ok (sepP k p)"
  unfolding sepP_def by (rule rules valid_loopP | assumption)+

lemma valid_guarded: "ok p \<Longrightarrow> ok (guarded place p)"
  unfolding guarded_def by (rule rules | assumption)+

lemma valid_untilP: "ok p \<Longrightarrow> ok (untilP stops place p)"
  unfolding untilP_def by (rule rules valid_loopP valid_guarded | assumption)+

lemmas loop_rules = rules valid_identP valid_closingName valid_whenP valid_unexpectedP
  valid_loopP valid_sepP valid_guarded valid_untilP

lemma valid_dottedLoop: "ok (dottedLoop n tx)"
proof (induction n arbitrary: tx)
  case (Suc n)
  show ?case unfolding dottedLoop.simps by (rule loop_rules Suc | assumption)+
qed (simp add: valid_yield)

lemma valid_parseDottedName: "ok parseDottedName"
  unfolding parseDottedName_def by (rule loop_rules valid_dottedLoop | assumption)+

lemma valid_parseUseClause: "ok parseUseClause"
  unfolding parseUseClause_def by (rule loop_rules valid_parseDottedName)+

lemma valid_parseNameList: "ok parseNameList"
  unfolding parseNameList_def by (rule loop_rules)+

lemma valid_specName: "ok (specName what)"
  unfolding specName_def by (rule loop_rules | assumption)+

lemma valid_parseChoices: "ok parseChoices"
  unfolding parseChoices_def by (rule loop_rules)+

lemma valid_mapP: "ok (mapP k)"
  unfolding mapP_def by (rule loop_rules)+

lemma valid_parseMaps: "ok parseMaps"
  unfolding parseMaps_def by (rule loop_rules valid_mapP)+

lemma valid_parseEntityUnit: "ok parseEntityUnit"
  unfolding parseEntityUnit_def by (rule loop_rules valid_parseDottedName)+

lemma valid_parseBindingIndication: "ok parseBindingIndication"
  unfolding parseBindingIndication_def parseBoundUnit_def
  by (rule loop_rules valid_parseMaps valid_parseEntityUnit valid_parseDottedName)+

lemmas name_rules = loop_rules valid_parseDottedName valid_parseUseClause valid_parseNameList
  valid_specName valid_parseChoices valid_parseMaps valid_parseEntityUnit valid_parseBindingIndication

section \<open>Sequential statements\<close>

lemma valid_parseDelayMechanism: "ok parseDelayMechanism"
  unfolding parseDelayMechanism_def by (rule name_rules)+

lemma valid_parseWaveform: "ok parseWaveform"
  unfolding parseWaveform_def parseWaveformElem_def by (rule name_rules)+

lemma valid_parseSelectedAssign: "ok (parseSelectedAssign label)"
  unfolding parseSelectedAssign_def parseSelectedAlt_def
  by (rule name_rules valid_parseDelayMechanism valid_parseWaveform)+

lemma valid_parseLabel: "ok parseLabel"
  unfolding parseLabel_def by (rule name_rules)+

lemma valid_simple_stmts:
  "ok (parseNextExit label isNext)" "ok (parseReturnStmt label)" "ok (parseWaitStmt label)"
  "ok (parseAssertStmt label)" "ok (parseReportStmt label)"
  unfolding parseNextExit_def parseReturnStmt_def parseWaitStmt_def parseAssertStmt_def parseReportStmt_def
  by (rule name_rules)+

lemma valid_call_case:
  "(\<And>fn args. valid (p fn args) Q) \<Longrightarrow> (\<And>name. valid (q name) Q) \<Longrightarrow> valid r Q \<Longrightarrow>
   valid (case target of CallExpr fn args \<Rightarrow> p fn args | Ident name \<Rightarrow> q name | _ \<Rightarrow> r) Q"
  by (cases target) simp_all

lemma valid_procCall: "G t \<Longrightarrow> ok (procCall (tok_pos t) label target)"
  unfolding procCall_def by (rule name_rules valid_call_case | assumption)+

lemma valid_parseSeqStmtsUntil: "ok sq \<Longrightarrow> ok (parseSeqStmtsUntil sq stops)"
  unfolding parseSeqStmtsUntil_def by (rule name_rules | assumption)+

lemma valid_parseEnd: "ok (parseEnd k)"
  unfolding parseEnd_def by (rule name_rules)+

lemma valid_parseLoopStmt: "ok sq \<Longrightarrow> ok (parseLoopStmt sq label)"
  unfolding parseLoopStmt_def parseLoopScheme_def
  by (rule name_rules valid_parseEnd valid_parseSeqStmtsUntil | assumption)+

lemma valid_parseCaseStmt: "ok sq \<Longrightarrow> ok (parseCaseStmt sq label)"
  unfolding parseCaseStmt_def parseCaseAlt_def
  by (rule name_rules valid_parseEnd valid_parseSeqStmtsUntil | assumption)+

lemma valid_parseIfStmt: "ok sq \<Longrightarrow> ok (parseIfStmt sq label)"
  unfolding parseIfStmt_def parseElsif_def
  by (rule name_rules valid_parseEnd valid_parseSeqStmtsUntil | assumption)+

lemma valid_parseSeqName: "G t \<Longrightarrow> ok (parseSeqName (tok_pos t) label)"
  unfolding parseSeqName_def
  by (rule name_rules valid_call_case valid_procCall valid_parseDelayMechanism valid_parseWaveform | assumption)+

lemma valid_seq_body: "ok sq \<Longrightarrow> ok (seq_body sq)"
  unfolding seq_body_def
  by (rule name_rules valid_parseLabel valid_simple_stmts valid_parseLoopStmt valid_parseCaseStmt valid_parseIfStmt
        valid_parseSeqName | assumption)+

lemma valid_parseSeqN: "ok (parseSeqN n)"
  by (induction n) (simp_all add: valid_yield valid_seq_body)

lemma valid_parseSequentialStmt: "ok parseSequentialStmt"
  unfolding parseSequentialStmt_def by (rule name_rules valid_parseSeqN)+

section \<open>Declarations\<close>

lemma valid_parseSubtypeIndication: "ok parseSubtypeIndication"
  unfolding parseSubtypeIndication_def by (rule name_rules)+

lemma valid_optKeyword: "ok (optKeyword ks)"
  unfolding optKeyword_def by (rule name_rules)+

lemma valid_parseInterfaceDecl: "ok parseInterfaceDecl"
  unfolding parseInterfaceDecl_def by (rule name_rules valid_optKeyword valid_parseSubtypeIndication)+

lemma valid_parseInterfaceList: "ok parseInterfaceList"
  unfolding parseInterfaceList_def by (rule name_rules valid_parseInterfaceDecl)+

lemma valid_interfaceClause: "ok (interfaceClause k)"
  unfolding interfaceClause_def by (rule name_rules valid_parseInterfaceList)+

lemmas decl_rules = name_rules valid_parseSubtypeIndication valid_optKeyword valid_interfaceClause

lemma valid_objects:
  "ok (parseConstantOrSignal isConst)" "ok (finishVariableDecl shared)" "ok parseVariableDecl"
  "ok parseSharedVariableDecl" "ok parseSubtypeDecl"
  unfolding parseConstantOrSignal_def finishVariableDecl_def parseVariableDecl_def parseSharedVariableDecl_def
    parseSubtypeDecl_def
  by (rule decl_rules)+

lemma valid_parseEnumLit: "ok parseEnumLit"
  unfolding parseEnumLit_def by (rule decl_rules)+

lemma valid_parseRecordDef: "ok parseRecordDef"
  unfolding parseRecordDef_def parseRecordField_def by (rule decl_rules)+

lemma valid_parseTypeDecl: "ok parseTypeDecl"
  unfolding parseTypeDecl_def parseTypeDef_def rawTokens_def
  by (rule decl_rules valid_parseEnumLit valid_parseRecordDef | assumption)+

lemma valid_parseComponentDecl: "ok parseComponentDecl"
  unfolding parseComponentDecl_def by (rule decl_rules)+

lemma valid_parseAttribute: "ok parseAttribute"
  unfolding parseAttribute_def parseEntityName_def by (rule decl_rules | assumption)+

lemma valid_parseAliasDecl: "ok parseAliasDecl"
  unfolding parseAliasDecl_def parseSignature_def by (rule decl_rules)+

lemma valid_parseGroupDecl: "ok parseGroupDecl"
  unfolding parseGroupDecl_def parseEntityClassEntry_def by (rule decl_rules)+

lemma valid_parseFileDecl: "ok parseFileDecl"
  unfolding parseFileDecl_def by (rule decl_rules)+

lemma valid_parseConfigSpec: "ok parseConfigSpec"
  unfolding parseConfigSpec_def parseConfigSpecName_def by (rule decl_rules)+

lemma valid_parseSubprogramSpec: "ok parseSubprogramSpec"
  unfolding parseSubprogramSpec_def parseDesignator_def by (rule decl_rules valid_parseInterfaceList)+

lemma valid_parseSubprogramDecl: "ok dc \<Longrightarrow> ok (parseSubprogramDecl dc)"
  unfolding parseSubprogramDecl_def parseDeclsUntil_def closingDesignator_def
  by (rule decl_rules valid_parseSubprogramSpec valid_parseSeqStmtsUntil valid_parseSequentialStmt | assumption)+

lemma valid_decl_body: "ok dc \<Longrightarrow> ok (decl_body dc)"
  unfolding decl_body_def
  by (rule decl_rules valid_objects valid_parseTypeDecl valid_parseComponentDecl valid_parseAttribute
        valid_parseAliasDecl valid_parseGroupDecl valid_parseFileDecl valid_parseConfigSpec
        valid_parseSubprogramDecl | assumption)+

lemma valid_parseDeclN: "ok (parseDeclN n)"
  by (induction n) (simp_all add: valid_yield valid_decl_body)

lemma valid_parseDecl: "ok parseDecl"
  unfolding parseDecl_def by (rule name_rules valid_parseDeclN)+

lemma valid_parseDeclsUntil: "ok (parseDeclsUntil parseDecl stops place)"
  unfolding parseDeclsUntil_def by (rule name_rules valid_parseDecl)+

section \<open>Concurrent statements, configurations and units\<close>

lemma valid_condLoop: "ok (condLoop n acc)"
proof (induction n arbitrary: acc)
  case (Suc n)
  have "ok (case c of Some c \<Rightarrow> condLoop n (f c) | None \<Rightarrow> yield y)" for c f y
    by (cases c) (simp_all add: valid_yield Suc)
  then show ?case unfolding condLoop.simps by - (rule name_rules valid_parseWaveform | assumption)+
qed (simp add: valid_yield)

lemma valid_parseConcAssign: "ok (parseConcAssign label target)"
  unfolding parseConcAssign_def
  by (rule name_rules valid_condLoop valid_parseDelayMechanism valid_parseWaveform)+

lemma valid_finishInstantiation: "ok (finishInstantiation label k unit arch)"
  unfolding finishInstantiation_def by (rule name_rules)+

lemma valid_parseProcess: "ok (parseProcess label)"
  unfolding parseProcess_def
  by (rule name_rules valid_parseDeclsUntil valid_parseSeqStmtsUntil valid_parseSequentialStmt)+

lemma valid_parseGenerate: "ok cs \<Longrightarrow> ok (parseGenerate cs label k)"
  unfolding parseGenerate_def parseGenScheme_def
  by (rule name_rules valid_parseDecl valid_parseEnd | assumption)+

lemma valid_parseConcName: "G t \<Longrightarrow> ok (parseConcName (tok_pos t) label)"
  unfolding parseConcName_def
  by (rule name_rules valid_call_case valid_procCall valid_parseConcAssign valid_finishInstantiation | assumption)+

lemma valid_conc_body: "ok cs \<Longrightarrow> ok (conc_body cs)"
  unfolding conc_body_def Let_def
  by (rule name_rules valid_parseLabel valid_parseSelectedAssign valid_simple_stmts valid_parseProcess
        valid_parseGenerate valid_finishInstantiation valid_parseConcName | assumption)+

lemma valid_parseConcN: "ok (parseConcN n)"
  by (induction n) (simp_all add: valid_yield valid_conc_body)

lemma valid_parseConcurrentStmt: "ok parseConcurrentStmt"
  unfolding parseConcurrentStmt_def by (rule name_rules valid_parseConcN)+

lemma valid_endFor: "ok endFor"
  unfolding endFor_def by (rule name_rules)+

lemma valid_optBlock: "ok ci \<Longrightarrow> ok (optBlock ci)"
  unfolding optBlock_def by (rule name_rules | assumption)+

lemma valid_config_body: "ok ci \<Longrightarrow> ok (config_body ci)"
  unfolding config_body_def parseConfigSpecName_def
  by (rule name_rules valid_optBlock valid_endFor | assumption)+

lemma valid_parseConfigItem: "ok parseConfigItem"
proof -
  have "ok (parseConfigItemN n)" for n
    by (induction n) (simp_all add: valid_yield valid_config_body)
  then show ?thesis unfolding parseConfigItem_def by - (rule name_rules | assumption)+
qed

lemma valid_units:
  "ok parseConfigurationDecl" "ok parsePackageDecl" "ok parsePackageBody" "ok parseEntityDecl"
  "ok parseArchitectureBody"
  unfolding parseConfigurationDecl_def parsePackageDecl_def parsePackageBody_def parseEntityDecl_def
    parseArchitectureBody_def
  by (rule decl_rules valid_optBlock valid_parseConfigItem valid_parseDeclsUntil valid_parseConcurrentStmt)+

lemma valid_parseFileItem: "ok parseFileItem"
  unfolding parseFileItem_def parseLibraryClause_def by (rule decl_rules valid_units | assumption)+

lemma valid_parseFileN: "ok (parseFileN n df)"
proof (induction n arbitrary: df)
  case (Suc n)
  have "ok (case i of None \<Rightarrow> yield df
            | Some x \<Rightarrow> do { u \<leftarrow> ensureProgressP start place; parseFileN n (add_item x df) })" for i start place
    by (cases i) (simp_all, (rule decl_rules Suc)+)
  then show ?case unfolding parseFileN.simps by - (rule decl_rules valid_parseFileItem | assumption)+
qed (simp add: valid_yield)

theorem valid_parseFile: "ok parseFile"
  unfolding parseFile_def by (rule name_rules valid_parseFileN)+

lemma parseFile_keeps: "I st \<Longrightarrow> I (snd (run_state parseFile st))"
  using valid_parseFile by (simp add: valid_def)

end

end
