(* ===== verification/Vhdl_Parse_Progress.thy ===== *)
theory Vhdl_Parse_Progress
  imports Vhdl_Parse_Inv Vhdl_Roundtrip
begin

text \<open>
  What the invariants of the parser give: every diagnostic stands at a token of the source, the stream
  only shrinks, every iteration of the loop over design units consumes a token, and a file parsed
  without an error has been consumed to its end.
\<close>

section \<open>Interpretations\<close>

text \<open>The tokens stay within \<open>T\<close>, and so do the positions of the errors.\<close>

definition located :: "token set \<Rightarrow> pstate \<Rightarrow> bool" where
  "located T st \<longleftrightarrow> ps_toks st \<noteq> [] \<and> set (ps_toks st) \<subseteq> T \<and> pe_pos ` set (ps_errs st) \<subseteq> tok_pos ` T"

text \<open>The stream is what is left of \<open>ts\<close>, and the errors extend \<open>es\<close>.\<close>

definition stream_from :: "token list \<Rightarrow> parse_error list \<Rightarrow> pstate \<Rightarrow> bool" where
  "stream_from ts es st \<longleftrightarrow> ps_toks st \<noteq> [] \<and> suffix (ps_toks st) ts \<and> prefix es (ps_errs st)"

lemma skip_errs: "ps_errs (skip st) = ps_errs st"
  by (simp add: skip_def split: list.split)

lemma skip_suffix: "suffix (ps_toks (skip st)) (ps_toks st)"
  by (auto simp: skip_def suffix_Cons split: list.split)

lemma skip_nonempty: "ps_toks st \<noteq> [] \<Longrightarrow> ps_toks (skip st) \<noteq> []"
  by (auto simp: skip_def split: list.split)

lemma cur_mem: "ps_toks st \<noteq> [] \<Longrightarrow> cur st \<in> set (ps_toks st)"
  by (auto simp: cur_def split: list.split)

interpretation located: parser_invariant "located T" "\<lambda>t. t \<in> T" for T
proof
  fix st :: pstate and t :: token and msg
  assume L: "located T st"
  show "located T (skip st)"
    using L set_mono_suffix [OF skip_suffix, of st] by (auto simp: located_def skip_errs skip_nonempty)
  show "cur st \<in> T" using L cur_mem by (auto simp: located_def)
  assume "t \<in> T"
  with L show "located T (errorf (tok_pos t) msg st)" by (simp add: located_def errorf_def)
qed

interpretation stream: parser_invariant "stream_from ts es" "\<lambda>t. True" for ts es
proof
  fix st :: pstate and t :: token and msg
  assume S: "stream_from ts es st"
  then show "stream_from ts es (skip st)"
    using suffix_order.trans [OF skip_suffix] by (simp add: stream_from_def skip_errs skip_nonempty)
  from S show "stream_from ts es (errorf (tok_pos t) msg st)" by (simp add: stream_from_def errorf_def)
qed simp

lemma stream_from_self: "ps_toks st \<noteq> [] \<Longrightarrow> stream_from (ps_toks st) (ps_errs st) st"
  by (simp add: stream_from_def)

text \<open>A valid parser never lengthens the stream, and only adds errors.\<close>

lemma valid_shrinks:
  assumes "parser_invariant.valid (stream_from (ps_toks st) (ps_errs st)) p (\<lambda>x. True)" "ps_toks st \<noteq> []"
  shows "ps_toks (snd (run_state p st)) \<noteq> []" "suffix (ps_toks (snd (run_state p st))) (ps_toks st)"
    "prefix (ps_errs st) (ps_errs (snd (run_state p st)))"
  using assms stream_from_self [OF assms(2)] unfolding stream.valid_def by (auto simp: stream_from_def)

section \<open>The tokens of a source\<close>

definition last_eof :: "token list \<Rightarrow> bool" where
  "last_eof ts \<longleftrightarrow> ts \<noteq> [] \<and> tok_kind (last ts) = K_EOF \<and> (\<forall>t \<in> set (butlast ts). tok_kind t \<noteq> K_EOF)"

lemma lex_source_last_eof: "last_eof (fst (lex_source src fo))"
proof -
  obtain f where f: "lex_source src fo = lex_source src (Some f)"
    by (cases fo) (simp_all add: lex_source_def)
  from lex_source_facts [of src f] show ?thesis
    by (auto simp: f last_eof_def list_all_iff)
qed

lemma suffix_butlast: "suffix us ts \<Longrightarrow> us \<noteq> [] \<Longrightarrow> suffix (butlast us) (butlast ts)"
  by (auto simp: suffix_def butlast_append)

lemma last_eof_suffix: "last_eof ts \<Longrightarrow> suffix us ts \<Longrightarrow> us \<noteq> [] \<Longrightarrow> last_eof us"
  using set_mono_suffix [OF suffix_butlast] by (fastforce simp: last_eof_def suffix_def)

text \<open>At the end of the file one token is left.\<close>

lemma last_eof_at_end: "last_eof (ps_toks st) \<Longrightarrow> at_kind K_EOF st \<longleftrightarrow> (\<exists>t. ps_toks st = [t])"
  by (cases "ps_toks st") (auto simp: last_eof_def at_kind_def cur_kind_def cur_def split: if_splits)

lemma skip_consumes: "last_eof (ps_toks st) \<Longrightarrow> \<not> at_kind K_EOF st \<Longrightarrow> fuel (skip st) < fuel st"
  by (cases "ps_toks st" rule: remdups_adj.cases)
     (auto simp: at_kind_def cur_kind_def cur_def skip_def fuel_def last_eof_def)

section \<open>Progress\<close>

lemma ensureProgress_consumes:
  assumes "last_eof (ps_toks start)" "\<not> at_kind K_EOF start"
    and "suffix (ps_toks st) (ps_toks start)" "ps_toks st \<noteq> []"
  shows "fuel (ensureProgress start place st) < fuel start"
proof (cases "length (ps_toks st) = length (ps_toks start)")
  case True
  with assms(3) have eq: "ps_toks st = ps_toks start" by (auto simp: suffix_def)
  have st: "at_kind K_EOF (errorf p m st) = at_kind K_EOF start" for p m
    by (simp add: at_kind_def cur_kind_def cur_def errorf_def eq)
  with assms eq have "fuel (skip (errorf p m st)) < fuel start" for p m
    using skip_consumes [of "errorf p m st"] by (simp add: errorf_def fuel_def)
  moreover have "\<not> at_kind K_EOF st" using assms(2) by (simp add: at_kind_def cur_kind_def cur_def eq)
  ultimately show ?thesis using True by (simp add: ensureProgress_def)
next
  case False
  with assms(3) show ?thesis by (auto simp: ensureProgress_def fuel_def suffix_def)
qed

text \<open>
  The loop over design units: with a bound that the tokens fit, it ends at the end of the file or after
  the report of a token that begins no unit.
\<close>

lemma parseFileItem_error:
  "run_state parseFileItem st = (None, st') \<Longrightarrow> ps_errs st' \<noteq> []"
  by (auto simp: parseFileItem_def look_def errorP_def errorf_def split_beta split: if_splits)

lemma parseFileN_ends:
  assumes "last_eof (ps_toks st)" "fuel st \<le> n" "run_state (parseFileN n df) st = (df', st')"
  shows "at_kind K_EOF st' \<or> ps_errs st' \<noteq> []"
  using assms
proof (induction n arbitrary: st df)
  case 0
  then show ?case by (simp add: fuel_def last_eof_def)
next
  case (Suc n)
  show ?case
  proof (cases "at_kind K_EOF st")
    case True
    with Suc.prems(3) show ?thesis by (simp add: look_def)
  next
    case False
    obtain i st1 where i: "run_state parseFileItem st = (i, st1)" by (rule prod.exhaust)
    have ne: "ps_toks st \<noteq> []" using Suc.prems(1) by (simp add: last_eof_def)
    note sh = valid_shrinks [OF stream.valid_parseFileItem ne, unfolded i snd_conv]
    show ?thesis
    proof (cases i)
      case None
      with Suc.prems(3) False i have "st' = st1" by (simp add: look_def)
      with parseFileItem_error i None show ?thesis by simp
    next
      case (Some x)
      let ?s = "ensureProgress st ''design unit'' st1"
      have run: "run_state (parseFileN n (add_item x df)) ?s = (df', st')"
        using Suc.prems(3) False i Some by (simp add: look_def ensureProgressP_def)
      have "fuel ?s \<le> n"
        using ensureProgress_consumes [OF Suc.prems(1) False sh(2) sh(1), of "''design unit''"] Suc.prems(2) by simp
      moreover have "stream_from (ps_toks st) [] ?s"
        using sh by (intro stream.I_ensure) (simp add: stream_from_def)
      then have "last_eof (ps_toks ?s)"
        using last_eof_suffix [OF Suc.prems(1)] by (simp add: stream_from_def)
      ultimately show ?thesis using Suc.IH run by blast
    qed
  qed
qed

lemma parseFile_ends:
  assumes "last_eof (ps_toks st)" "run_state parseFile st = (df, st')"
  shows "at_kind K_EOF st' \<or> ps_errs st' \<noteq> []"
  using parseFileN_ends [OF assms(1) order_refl] assms(2) by (simp add: parseFile_def look_def)

section \<open>Properties\<close>

text \<open>
  C25: a file that is parsed without an error has been consumed to its end: what is left of the tokens
  of the source is the end-of-file token.
\<close>

theorem parseFile_consumes_all:
  assumes "run_state parseFile (newParser src fo) = (df, st)" "ps_errs st = []"
  shows "ps_toks st = [last (fst (lex_source src fo))]"
proof -
  have toks: "ps_toks (newParser src fo) = fst (lex_source src fo)" by (simp add: newParser_def)
  have L: "last_eof (ps_toks (newParser src fo))" using lex_source_last_eof toks by simp
  then have ne: "ps_toks (newParser src fo) \<noteq> []" by (simp add: last_eof_def)
  note sh = valid_shrinks [OF stream.valid_parseFile ne, unfolded assms(1) snd_conv]
  have "at_kind K_EOF st" using parseFile_ends [OF L assms(1)] assms(2) by simp
  then obtain t where "ps_toks st = [t]" using last_eof_at_end last_eof_suffix [OF L sh(2,1)] by blast
  with sh(2) toks show ?thesis by (auto simp: suffix_def)
qed

lemma demo_use_tokens:
  "lex_text (Kind 0) ''use a;'' = [(K_USE, ''use''), (K_IDENT, ''a''), (K_SEMICOLON, [])]"
proof -
  have kw: "LookupKeyword ''use'' = Some K_USE" "LookupKeyword ''a'' = None"
    by (simp_all add: LookupKeyword_def has_upper_def is_upper_def char_code_def keyword_table_eval kindStr_def)
  show ?thesis
    by (subst lex_text.simps, simp add: lex_space_def lex_token_def second_def isIdentStart_def isLetter_def
        isIdentCont_def is_lower_def is_upper_def is_digit_def char_code_def scan_ident_def kw delimiter_def)+
qed

lemma demo_use_parse:
  "run_state parseFile \<lparr>ps_toks = [\<lparr>tok_kind = K_USE, tok_lit = ''use'', tok_pos = p\<rparr>,
     \<lparr>tok_kind = K_IDENT, tok_lit = ''a'', tok_pos = q\<rparr>, \<lparr>tok_kind = K_SEMICOLON, tok_lit = [], tok_pos = r\<rparr>,
     \<lparr>tok_kind = K_EOF, tok_lit = [], tok_pos = s\<rparr>], ps_errs = []\<rparr>
   = (\<lparr>df_context = [UseClause [''a'']], df_units = []\<rparr>,
      \<lparr>ps_toks = [\<lparr>tok_kind = K_EOF, tok_lit = [], tok_pos = s\<rparr>], ps_errs = []\<rparr>)"
  by code_simp

lemma demo_use_run:
  "\<exists>st. run_state parseFile (newParser ''use a;'' fo) = (\<lparr>df_context = [UseClause [''a'']], df_units = []\<rparr>, st) \<and>
     ps_errs st = []"
proof -
  have "map lexeme_of (fst (lex_source ''use a;'' fo)) =
      [(K_USE, ''use''), (K_IDENT, ''a''), (K_SEMICOLON, []), (K_EOF, [])]"
    unfolding lex_source_tokens demo_use_tokens by simp
  then obtain p q r s where T: "fst (lex_source ''use a;'' fo) =
      [\<lparr>tok_kind = K_USE, tok_lit = ''use'', tok_pos = p\<rparr>, \<lparr>tok_kind = K_IDENT, tok_lit = ''a'', tok_pos = q\<rparr>,
       \<lparr>tok_kind = K_SEMICOLON, tok_lit = [], tok_pos = r\<rparr>, \<lparr>tok_kind = K_EOF, tok_lit = [], tok_pos = s\<rparr>]"
    by (auto simp: lexeme_of_def map_eq_Cons_conv) (metis token.surjective old.unit.exhaust)
  show ?thesis unfolding newParser_def T demo_use_parse by (intro exI conjI) (rule refl, simp)
qed

theorem parseFile_consumes_all_witness:
  "ps_toks (snd (run_state parseFile (newParser ''use a;'' None))) = [last (fst (lex_source ''use a;'' None))]"
proof -
  obtain st where st: "run_state parseFile (newParser ''use a;'' None) =
      (\<lparr>df_context = [UseClause [''a'']], df_units = []\<rparr>, st)" "ps_errs st = []"
    using demo_use_run by blast
  from parseFile_consumes_all [OF this] st(1) show ?thesis by simp
qed

text \<open>
  C26: every diagnostic of the parser stands at a token of the source, so inside it or at its end.
\<close>

theorem parse_errors_located:
  "list_all (\<lambda>e. pe_pos e \<in> tok_pos ` set (fst (lex_source src (Some f))) \<and>
       (\<exists>i. i \<le> length src \<and> pe_pos e = file_base f + int i))
     (ps_errs (snd (run_state parseFile (newParser src (Some f)))))"
proof -
  let ?T = "set (fst (lex_source src (Some f)))"
  have "fst (lex_source src (Some f)) \<noteq> []" using lex_source_last_eof by (simp add: last_eof_def)
  then have "located ?T (newParser src (Some f))" by (simp add: located_def newParser_def)
  then have "located ?T (snd (run_state parseFile (newParser src (Some f))))"
    by (rule located.parseFile_keeps)
  moreover have "\<exists>i. i \<le> length src \<and> tok_pos t = file_base f + int i" if "t \<in> ?T" for t
    using lex_source_facts [of src f] that
    by (fastforce simp: list_all_iff token_at_def file_Pos_def intro: less_imp_le_nat)
  ultimately show ?thesis by (auto simp: located_def list_all_iff)
qed

end
