(* ===== verification/Dts_Print.thy ===== *)
theory Dts_Print
  imports Design_Model
begin

text \<open>
  Model of \<open>src/tools/socgen/dts/dts.go\<close>: device-tree source trees and their printer. A property with an
  empty name is a blank line, a property without values a flag. Children are never nil.
\<close>

section \<open>Trees\<close>

datatype dts_value =
    DStr string
  | DCells "u64 list" bool "string list"
  | DRef string
  | DBytes "8 word list"

record dts_prop =
  dp_name :: string
  dp_values :: "dts_value list"
  dp_cmt :: string

datatype dts_node = DNode (dn_name: string) (dn_props: "dts_prop list") (dn_children: "dts_node list")

section \<open>Printing\<close>

definition uint_dec :: "u64 \<Rightarrow> string" where
  "uint_dec n = nat_str (unat n)"

definition uint_hex :: "u64 \<Rightarrow> string" where
  "uint_hex n = radix_str 16 (unat n)"

definition byte_hex :: "8 word \<Rightarrow> string" where
  "byte_hex b = (let h = radix_str 16 (unat b) in if length h = 1 then CHR ''0'' # h else h)"

fun render_value :: "dts_value \<Rightarrow> string" where
  "render_value (DStr s) = go_quote s"
| "render_value (DCells nums hex refs) =
     ''<'' @ join_strings (map (\<lambda>r. ''&'' @ r) refs @
                 map (\<lambda>n. if hex then ''0x'' @ uint_hex n else uint_dec n) nums) '' '' @ ''>''"
| "render_value (DRef r) = ''&'' @ r"
| "render_value (DBytes bs) = ''['' @ join_strings (map byte_hex bs) '' '' @ '']''"

definition renderProp :: "dts_prop \<Rightarrow> string" where
  "renderProp p =
     dp_name p @
     (if dp_values p \<noteq> [] then '' = '' @ join_strings (map render_value (dp_values p)) '', '' else []) @
     '';'' @ (if dp_cmt p \<noteq> [] then '' // '' @ dp_cmt p else [])"

abbreviation newline :: string where "newline \<equiv> [CHR 0x0A]"

definition tabs :: "nat \<Rightarrow> string" where
  "tabs n = replicate n (CHR 0x09)"

definition renderProps :: "nat \<Rightarrow> dts_prop list \<Rightarrow> string" where
  "renderProps indent ps =
     concat (map (\<lambda>p. if dp_name p = [] then newline else tabs (Suc indent) @ renderProp p @ newline) ps)"

fun renderNode :: "nat \<Rightarrow> dts_node \<Rightarrow> string" where
  "renderNode indent (DNode name props children) =
     (let body = renderProps indent props @
                 concat (map (\<lambda>c. newline @ renderNode (Suc indent) c) children)
      in tabs indent @ name @ '' {'' @
         (if body \<noteq> [] then newline @ body @ tabs indent @ ''};'' @ newline else '' };'' @ newline))"

definition Print_dts :: "dts_node \<Rightarrow> string" where
  "Print_dts root = ''/dts-v1/;'' @ newline @ newline @ renderNode 0 root"

end
