(* ===== verification/Dt_Node.thy ===== *)
theory Dt_Node
  imports Dts_Print
begin

text \<open>
  Model of \<open>src/tools/socgen/devicetree/devnode.go\<close>: the device-tree node of one memory-mapped device.
  Property values are whatever YAML decodes to; \<open>toUint64\<close> says which of them are numbers. A float is its
  IEEE bit pattern, decoded here; the one value \<open>2 ^ 64\<close>, whose conversion Go leaves open, is taken modulo
  \<open>2 ^ 64\<close>. The result \<open>None\<close> of \<open>devToDT\<close> is the panic of a negative shift count.
\<close>

section \<open>Numbers\<close>

text \<open>The value of a double that is a non-negative integer.\<close>

definition float_nat :: "u64 \<Rightarrow> nat option" where
  "float_nat w =
     (let s = bit w 63; ex = unat (drop_bit 52 w) mod 2048; fr = unat w mod 2 ^ 52;
          m = (if ex = 0 then fr else fr + 2 ^ 52); e = (if ex = 0 then 1 else ex) in
      if ex = 2047 \<or> s \<and> m \<noteq> 0 then None
      else if 1075 \<le> e then Some (m * 2 ^ (e - 1075))
      else if m mod 2 ^ (1075 - e) = 0 then Some (m div 2 ^ (1075 - e)) else None)"

definition is_hex :: "char \<Rightarrow> bool" where
  "is_hex c \<longleftrightarrow> is_digit c \<or> c \<in> set ''abcdefABCDEF''"

definition hex_digit_val :: "char \<Rightarrow> nat" where
  "hex_digit_val c =
     (if is_digit c then char_code c - 48
      else if is_lower c then char_code c - 87 else char_code c - 55)"

definition radix_val :: "nat \<Rightarrow> string \<Rightarrow> nat" where
  "radix_val b s = foldl (\<lambda>n c. b * n + hex_digit_val c) 0 s"

text \<open>
  \<open>fmt.Sscanf\<close> with one verb for an unsigned integer: spaces are skipped but a line feed is an error, the
  longest run of digits is read and what follows it is ignored. A value beyond 64 bits is an error.
\<close>

fun skip_blank :: "string \<Rightarrow> string option" where
  "skip_blank [] = Some []"
| "skip_blank (c # s) =
     (if c = CHR 0x0D \<and> s \<noteq> [] \<and> hd s = CHR 0x0A then skip_blank (tl s)
      else if c = CHR 0x0A then None
      else if is_space c then skip_blank s
      else Some (c # s))"

definition scan_uint :: "nat \<Rightarrow> (char \<Rightarrow> bool) \<Rightarrow> string \<Rightarrow> u64 option" where
  "scan_uint b dig s =
     (case skip_blank s of
        None \<Rightarrow> None
      | Some t \<Rightarrow>
          (let ds = takeWhile dig t in
           if ds = [] \<or> 2 ^ 64 \<le> radix_val b ds then None else Some (of_nat (radix_val b ds))))"

definition string_uint :: "string \<Rightarrow> u64 option" where
  "string_uint s =
     (let t = trim_space s;
          h = (if take 2 t = ''0x'' then scan_uint 16 is_hex (drop 2 t) else None)
      in case h of Some n \<Rightarrow> Some n | None \<Rightarrow> scan_uint 10 is_digit t)"

definition signedToUint64 :: "int \<Rightarrow> u64 option" where
  "signedToUint64 n = (if n < 0 then None else Some (of_int n))"

definition toUint64 :: "go_any \<Rightarrow> u64 option" where
  "toUint64 v =
     (case v of
        AnyInt i \<Rightarrow> signedToUint64 i
      | AnyUint n \<Rightarrow> Some n
      | AnyFloat w \<Rightarrow> (case float_nat w of
                        None \<Rightarrow> None
                      | Some n \<Rightarrow> if n \<le> 2 ^ 64 then Some (of_nat n) else None)
      | AnyStr s \<Rightarrow> string_uint s
      | _ \<Rightarrow> None)"

definition isAllNumbers :: "go_any list \<Rightarrow> bool" where
  "isAllNumbers xs \<longleftrightarrow> list_all (\<lambda>x. toUint64 x \<noteq> None) xs"

section \<open>Values and properties\<close>

definition phandle_ref :: "go_any \<Rightarrow> string option" where
  "phandle_ref x =
     (case x of AnyStr (c # s) \<Rightarrow> if c = CHR ''&'' then Some s else None | _ \<Rightarrow> None)"

definition allPhandleRefs :: "go_any list \<Rightarrow> string list option" where
  "allPhandleRefs xs =
     (if xs = [] \<or> list_ex (\<lambda>x. phandle_ref x = None) xs then None
      else Some (List.map_filter phandle_ref xs))"

definition list_value :: "go_any \<Rightarrow> dts_value option" where
  "list_value e =
     (case e of
        AnyStr s \<Rightarrow> Some (DStr s)
      | _ \<Rightarrow> map_option (\<lambda>n. DCells [n] False []) (toUint64 e))"

definition dtValue :: "go_any \<Rightarrow> dts_value list" where
  "dtValue v =
     (case v of
        AnyStr s \<Rightarrow> [DStr s]
      | AnyList xs \<Rightarrow>
          if xs \<noteq> [] \<and> isAllNumbers xs then [DCells (List.map_filter toUint64 xs) False []]
          else (case allPhandleRefs xs of
                  Some refs \<Rightarrow> [DCells [] False refs]
                | None \<Rightarrow> List.map_filter list_value xs)
      | _ \<Rightarrow> (case toUint64 v of Some n \<Rightarrow> [DCells [n] False []] | None \<Rightarrow> []))"

definition plain_prop :: "string \<Rightarrow> dts_value list \<Rightarrow> dts_prop" where
  "plain_prop k vs = \<lparr>dp_name = k, dp_values = vs, dp_cmt = []\<rparr>"

definition dtProp :: "string \<Rightarrow> go_any \<Rightarrow> dts_prop" where
  "dtProp k v = (if v = AnyBool False then plain_prop k [] else plain_prop k (dtValue v))"

definition relative_cell :: "u64 \<Rightarrow> nat \<times> go_any \<Rightarrow> go_any" where
  "relative_cell base ie =
     (case toUint64 (snd ie) of
        None \<Rightarrow> snd ie
      | Some n \<Rightarrow> AnyUint (if even (fst ie) then n - base else n))"

definition relativizeReg :: "go_any \<Rightarrow> u64 \<Rightarrow> go_any" where
  "relativizeReg v base =
     (case v of
        AnyList xs \<Rightarrow> AnyList (map (relative_cell base) (enumerate 0 xs))
      | _ \<Rightarrow> v)"

definition dtProps :: "dt_props \<Rightarrow> u64 \<Rightarrow> dts_prop list" where
  "dtProps props busBase =
     map (\<lambda>(k, v). dtProp k (if k = ''reg'' then relativizeReg v busBase else v)) (sort_key fst props)"

fun dtChildren :: "dt_child list \<Rightarrow> dts_node list"
  and dtChildNode :: "dt_child \<Rightarrow> dts_node" where
  "dtChildren [] = []"
| "dtChildren (c # cs) = dtChildNode c # dtChildren cs"
| "dtChildNode (DtChild name props children) =
     DNode name (map (\<lambda>(k, v). dtProp k v) props) (dtChildren children)"

text \<open>A device property overrides the first class property of its name in place, or comes at the end.\<close>

fun set_prop :: "string \<times> go_any \<Rightarrow> dt_props \<Rightarrow> dt_props" where
  "set_prop kv [] = [kv]"
| "set_prop kv (p # ps) = (if fst p = fst kv then (fst p, snd kv) # ps else p # set_prop kv ps)"

definition mergeDtProps :: "device_class \<Rightarrow> device \<Rightarrow> dt_props" where
  "mergeDtProps cls dev = fold set_prop (dev_dt_props dev) (dc_dt_props cls)"

section \<open>Device nodes\<close>

text \<open>\<open>uint64(1) << (cls.LeftAddrBit + 1)\<close>: no value when the count is negative, 0 from a count of 64 on.\<close>

definition regWidth :: "device_class \<Rightarrow> u64 option" where
  "regWidth cls =
     (if dc_left_addr_bit cls + 1 < 0 then None else Some (push_bit (nat (dc_left_addr_bit cls + 1)) 1))"

definition range_text :: "u64 \<Rightarrow> u64 \<Rightarrow> string" where
  "range_text lo width = hex_pad8 (unat lo) @ ''-'' @ hex_pad8 (unat (lo + width - 1))"

definition cacheCompat :: string where
  "cacheCompat = ''jcore,cache''"

definition default_reg :: "device \<Rightarrow> u64 \<Rightarrow> u64 \<Rightarrow> u64 \<Rightarrow> dts_prop" where
  "default_reg dev busBase absBase width =
     \<lparr>dp_name = ''reg'', dp_values = [DCells [absBase - busBase, width] True []], dp_cmt = range_text absBase width\<rparr>"

definition devToDT ::
    "device \<Rightarrow> device_class \<Rightarrow> string \<Rightarrow> u64 \<Rightarrow> int \<Rightarrow> bool \<Rightarrow> dts_node option" where
  "devToDT dev cls dtNodeName busBase vector hasIRQ =
     (let merged = mergeDtProps cls dev;
          reg = (case (dt_get merged ''reg'', dev_base_addr dev) of
                   (None, Some absBase) \<Rightarrow> map_option (\<lambda>w. [default_reg dev busBase absBase w]) (regWidth cls)
                 | _ \<Rightarrow> Some []);
          irq = (if hasIRQ \<and> dt_get (dc_dt_props cls) ''compatible'' \<noteq> Some (AnyStr cacheCompat)
                 then [plain_prop ''interrupts'' [DCells [of_int vector] True []]] else [])
      in map_option (\<lambda>r. DNode dtNodeName (dtProps merged busBase @ r @ irq) (dtChildren (dc_dt_children cls))) reg)"

end
