(* ===== verification/Dt_Tree.thy ===== *)
theory Dt_Tree
  imports Dt_Node Elab_Irq
begin

text \<open>
  Model of \<open>src/tools/socgen/devicetree/tree.go\<close>, \<open>cpufreq.go\<close> and \<open>boarddts.go\<close>: the device tree of an
  elaborated board. Sizes and addresses are 64-bit words and wrap as in Go. Errors are values; the result
  \<open>None\<close> is a panic (a negative shift count). \<open>fconv\<close> stands for the conversion of a double to
  \<open>uint64\<close>, which Go leaves to the machine outside the range of the target.
\<close>

section \<open>Errors and boards\<close>

datatype dt_kind = ErrCPUFreq | ErrPitTrap | ErrIPI

record dt_error =
  de_kind :: dt_kind
  de_detail :: string

fun dt_kind_text :: "dt_kind \<Rightarrow> string" where
  "dt_kind_text ErrCPUFreq = ''cannot determine cpu frequency (CFG_CLK_CPU_PERIOD_NS)''"
| "dt_kind_text ErrPitTrap = ''cannot determine unused pit trap''"
| "dt_kind_text ErrIPI = ''cannot determine ipi info''"

definition dt_error_text :: "dt_error \<Rightarrow> string" where
  "dt_error_text e =
     ''device tree: '' @ dt_kind_text (de_kind e) @
     (if de_detail e \<noteq> [] then '': '' @ de_detail e else [])"

definition dt_err :: "dt_kind \<Rightarrow> string \<Rightarrow> dt_error" where
  "dt_err k d = \<lparr>de_kind = k, de_detail = d\<rparr>"

record board =
  brd_name :: string
  brd_design :: design
  brd_library :: "library option"

section \<open>The CPU frequency\<close>

text \<open>
  The first constant of the name whose value is an integer literal that fits; the order of the packages
  is the order of the list.
\<close>

definition const_int_value :: "if_constant \<Rightarrow> int option" where
  "const_int_value c =
     (case co_value c of
        Some (BasicLit k v) \<Rightarrow> if k = K_INT then parse_int64 (filter (\<lambda>ch. ch \<noteq> CHR ''_'') v) else None
      | _ \<Rightarrow> None)"

definition package_consts :: "library \<Rightarrow> if_constant list" where
  "package_consts l = concat (map (\<lambda>(k, p). pk_constants p) (lib_packages l))"

definition constInt :: "library option \<Rightarrow> string \<Rightarrow> int option" where
  "constInt lo name =
     (case lo of
        None \<Rightarrow> None
      | Some l \<Rightarrow>
          (case List.map_filter const_int_value
                  (filter (\<lambda>c. to_lower (co_name c) = to_lower name) (package_consts l)) of
             [] \<Rightarrow> None
           | v # vs \<Rightarrow> Some v))"

text \<open>Integer division truncates toward zero.\<close>

definition cpuFreq :: "library option \<Rightarrow> dt_error + int" where
  "cpuFreq lo =
     (case constInt lo ''cfg_clk_cpu_period_ns'' of
        None \<Rightarrow> Inl (dt_err ErrCPUFreq [])
      | Some p \<Rightarrow>
          if p = 0 then Inl (dt_err ErrCPUFreq [])
          else Inr (sgn p * (1000000000 div \<bar>p\<bar>)))"

section \<open>The selected devices\<close>

record dt_device =
  dd_dev :: device
  dd_cls :: device_class
  dd_name :: string
  dd_base :: u64
  dd_dt_name :: string
  dd_dt_label :: string
  dd_reg_width :: u64

definition nodeName :: "string \<Rightarrow> string \<Rightarrow> string" where
  "nodeName label name = (if label \<noteq> [] then label @ '': '' @ name else name)"

definition wants_node :: "resolved_device \<Rightarrow> device \<Rightarrow> bool" where
  "wants_node rd dev \<longleftrightarrow> rd_data_bus rd \<and> dev_dt_node dev \<noteq> Some False"

text \<open>One device: nothing when it is not selected; the panic of \<open>regWidth\<close> is \<open>None\<close>.\<close>

definition selectDevice :: "board \<Rightarrow> device \<times> resolved_device \<Rightarrow> dt_device list option" where
  "selectDevice b dr =
     (case dr of
        (dev, rd) \<Rightarrow>
          if \<not> wants_node rd dev then Some []
          else (case map_of (d_device_classes (brd_design b)) (dev_class dev) of
                  None \<Rightarrow> Some []
                | Some cls \<Rightarrow>
                    map_option (\<lambda>w.
                      [\<lparr>dd_dev = dev, dd_cls = cls, dd_name = rd_name rd,
                        dd_base = (case dev_base_addr dev of Some a \<Rightarrow> a | None \<Rightarrow> 0),
                        dd_dt_name = (if dc_dt_name cls \<noteq> [] then dc_dt_name cls else dev_class dev),
                        dd_dt_label = dev_dt_label dev,
                        dd_reg_width = w\<rparr>]) (regWidth cls)))"

definition selectDevices :: "board \<Rightarrow> resolution \<Rightarrow> dt_device list option" where
  "selectDevices b res =
     map_option concat (those (map (selectDevice b) (zip (d_devices (brd_design b)) (res_devices res))))"

section \<open>The bus\<close>

definition bus_base :: "dt_device list \<Rightarrow> u64" where
  "bus_base sel = (case sel of [] \<Rightarrow> 0 | s # ss \<Rightarrow> fold (\<lambda>s m. if dd_base s < m then dd_base s else m) sel (dd_base s))"

definition bus_width :: "dt_device list \<Rightarrow> u64" where
  "bus_width sel =
     fold (\<lambda>s w. let e = dd_base s + dd_reg_width s - bus_base sel in if e > w then e else w) sel 0"

definition name_count :: "dt_device list \<Rightarrow> string \<Rightarrow> nat" where
  "name_count sel name = length (filter (\<lambda>s. dd_dt_name s = name) sel)"

text \<open>A device-tree name that several devices share gets the bus offset as its suffix.\<close>

definition unit_name :: "dt_device list \<Rightarrow> dt_device \<Rightarrow> string" where
  "unit_name sel s =
     (if name_count sel (dd_dt_name s) > 1
      then dd_dt_name s @ ''@'' @ uint_hex (dd_base s - bus_base sel) else dd_dt_name s)"

section \<open>Interrupts\<close>

definition aicClass :: string where "aicClass = ''aic''"
definition countdownTrap :: int where "countdownTrap = 0x19"
definition vectorBase :: int where "vectorBase = 0x11"

text \<open>The offsets of all interrupt controllers, those without a node included.\<close>

definition aicOffsets :: "board \<Rightarrow> u64 \<Rightarrow> u64 list" where
  "aicOffsets b busBase =
     List.map_filter (\<lambda>dev. if is_aic dev then map_option (\<lambda>a. a - busBase) (dev_base_addr dev) else None)
       (d_devices (brd_design b))"

definition named_entries :: "irq_entry strmap \<Rightarrow> irq_entry list" where
  "named_entries m = List.map_filter (map_of m) (sorted_keys m)"

definition deviceVector :: "device \<Rightarrow> int option" where
  "deviceVector dev =
     (case dev_irq dev of
        None \<Rightarrow> None
      | Some r \<Rightarrow>
          (case ir_int r of
             Some i \<Rightarrow> Some (vectorBase + i)
           | None \<Rightarrow>
               (case ir_named r of
                  None \<Rightarrow> None
                | Some m \<Rightarrow> map_option (\<lambda>e. vectorBase + ie_irq e)
                               (List.find (\<lambda>e. ie_dt e \<noteq> Some False) (named_entries m)))))"

definition used_vectors :: "device \<Rightarrow> int list" where
  "used_vectors dev =
     (case dev_irq dev of
        None \<Rightarrow> []
      | Some r \<Rightarrow>
          (case ir_int r of
             Some i \<Rightarrow> [vectorBase + i]
           | None \<Rightarrow> (case ir_named r of None \<Rightarrow> [] | Some m \<Rightarrow> map (\<lambda>(k, e). vectorBase + ie_irq e) m)))"

definition traps :: "int list" where "traps = [16..31]"

definition pitTrap :: "board \<Rightarrow> dt_error + int" where
  "pitTrap b =
     (let used = countdownTrap # concat (map used_vectors (d_devices (brd_design b))) in
      case List.find (\<lambda>t. t \<notin> set used) traps of
        Some t \<Rightarrow> Inr t
      | None \<Rightarrow> Inl (dt_err ErrPitTrap []))"

section \<open>Nodes\<close>

definition hex_cells :: "u64 list \<Rightarrow> dts_value list" where "hex_cells ns = [DCells ns True []]"
definition dec_cells :: "u64 list \<Rightarrow> dts_value list" where "dec_cells ns = [DCells ns False []]"

definition timerNode :: "u64 list \<Rightarrow> int \<Rightarrow> dts_node" where
  "timerNode offs trap =
     DNode ''timer''
       [plain_prop ''compatible'' [DStr ''jcore,pit''],
        plain_prop ''reg'' (hex_cells (concat (map (\<lambda>off. [off, 0x30]) offs))),
        plain_prop ''interrupts'' (hex_cells [of_int trap])] []"

text \<open>The first property called \<open>reg\<close> is replaced, or the property comes at the end.\<close>

fun replace_reg :: "dts_prop \<Rightarrow> dts_prop list \<Rightarrow> dts_prop list" where
  "replace_reg r [] = [r]"
| "replace_reg r (p # ps) = (if dp_name p = ''reg'' then r # ps else p # replace_reg r ps)"

definition overrideReg :: "dts_node \<Rightarrow> u64 list \<Rightarrow> string \<Rightarrow> dts_node" where
  "overrideReg n cells cmt =
     DNode (dn_name n) (replace_reg \<lparr>dp_name = ''reg'', dp_values = hex_cells cells, dp_cmt = cmt\<rparr> (dn_props n))
       (dn_children n)"

definition consoleBaud :: "(u64 \<Rightarrow> u64) \<Rightarrow> device \<Rightarrow> u64" where
  "consoleBaud fconv dev =
     (case map_of (dev_generics dev) ''bps'' of
        None \<Rightarrow> 115200
      | Some v \<Rightarrow>
          (case v_kind v of
             KindFloat \<Rightarrow> fconv (v_float v)
           | KindInt \<Rightarrow> of_int (v_int v)
           | _ \<Rightarrow> 115200))"

definition addConsoleUartProps :: "(u64 \<Rightarrow> u64) \<Rightarrow> dts_node \<Rightarrow> device \<Rightarrow> int \<Rightarrow> dts_node" where
  "addConsoleUartProps fconv n dev freq =
     (let before = takeWhile (\<lambda>p. dp_name p \<noteq> ''reg'') (dn_props n);
          extra = [plain_prop ''clock-frequency'' (dec_cells [of_int freq]),
                   plain_prop ''current-speed'' (dec_cells [consoleBaud fconv dev])]
      in DNode (dn_name n) (before @ extra @ drop (length before) (dn_props n)) (dn_children n))"

text \<open>The node of the interrupt controller: one register window per controller.\<close>

definition aicNode :: "board \<Rightarrow> dt_device \<Rightarrow> string \<Rightarrow> u64 \<Rightarrow> dts_node option" where
  "aicNode b s nn busBase =
     (let offs = aicOffsets b busBase in
      map_option (\<lambda>n. overrideReg n (concat (map (\<lambda>off. [off, dd_reg_width s]) offs))
                        (join_strings (map (\<lambda>off. range_text (off + busBase) (dd_reg_width s)) offs) '', ''))
        (devToDT (dd_dev s) (dd_cls s) nn busBase 0 False))"

definition deviceNode :: "(u64 \<Rightarrow> u64) \<Rightarrow> board \<Rightarrow> int \<Rightarrow> dt_device list \<Rightarrow> dt_device \<Rightarrow> (string \<times> dts_node) option" where
  "deviceNode fconv b freq sel s =
     (let nn = nodeName (dd_dt_label s) (unit_name sel s); busBase = bus_base sel in
      if is_aic (dd_dev s) then map_option (Pair nn) (aicNode b s nn busBase)
      else map_option (\<lambda>n. (nn, if dev_dt_stdout (dd_dev s) \<and> dd_dt_label s \<noteq> []
                               then addConsoleUartProps fconv n (dd_dev s) freq else n))
             (case deviceVector (dd_dev s) of
                Some v \<Rightarrow> devToDT (dd_dev s) (dd_cls s) nn busBase v True
              | None \<Rightarrow> devToDT (dd_dev s) (dd_cls s) nn busBase 0 False))"

text \<open>The console: the label of an aliased one, the path, and the arguments of the kernel.\<close>

definition console :: "dt_device list \<Rightarrow> string \<times> string \<times> string" where
  "console sel =
     (case List.find (\<lambda>s. dev_dt_stdout (dd_dev s)) sel of
        None \<Rightarrow> ([], [], [])
      | Some s \<Rightarrow>
          if dd_dt_label s \<noteq> []
          then (dd_dt_label s, ''serial0:115200n8'', ''console=ttyUL0 earlycon'')
          else ([], ''/soc@'' @ uint_hex (bus_base sel) @ ''/'' @ unit_name sel s, []))"

section \<open>The inter-processor interrupt\<close>

definition is_ipi :: "device \<Rightarrow> bool" where
  "is_ipi dev \<longleftrightarrow> lc (dev_class dev) \<in> {''cache_ctrl'', ''cache_ctrl_wsbu'', ''ipi''}"

definition irq_numbers :: "device \<Rightarrow> int list" where
  "irq_numbers dev =
     (case dev_irq dev of
        None \<Rightarrow> []
      | Some r \<Rightarrow>
          remdups ((case ir_int r of Some i \<Rightarrow> [i] | None \<Rightarrow> []) @
                   (case ir_named r of Some m \<Rightarrow> map (\<lambda>(k, e). ie_irq e) m | None \<Rightarrow> [])))"

definition ipiNode2 :: "board \<Rightarrow> dt_error + dts_node option" where
  "ipiNode2 b =
     (case List.find is_ipi (d_devices (brd_design b)) of
        None \<Rightarrow> Inr None
      | Some cache \<Rightarrow>
          let irqs = irq_numbers cache in
          if 1 < length irqs
          then Inl (dt_err ErrIPI (''multiple irqs detected for ipi ('' @ cpu_list_text (sort irqs) @ '')''))
          else (case dev_base_addr cache of
                  None \<Rightarrow> Inl (dt_err ErrIPI ''no memory region for ipi'')
                | Some base \<Rightarrow>
                    Inr (Some (DNode ''ipi''
                      ([plain_prop ''compatible'' [DStr ''jcore,ipi-controller''],
                        plain_prop ''reg'' (hex_cells [base, 8])] @
                       map (\<lambda>i. plain_prop ''interrupts'' (hex_cells [of_int (vectorBase + i)])) irqs) []))))"

section \<open>The root\<close>

definition cpuCompatible :: "string \<Rightarrow> string" where
  "cpuCompatible model =
     (let m = lc model in
      if m = ''j1'' then ''jcore,j1'' else if m = ''j4'' then ''jcore,j4'' else ''jcore,j2'')"

definition cpu_node :: "string \<Rightarrow> int \<Rightarrow> nat \<Rightarrow> dts_prop list \<Rightarrow> dts_node" where
  "cpu_node cpuModel freq i extra =
     DNode (''cpu@'' @ nat_str i)
       ([plain_prop ''device_type'' [DStr ''cpu''],
         plain_prop ''compatible'' [DStr (cpuCompatible cpuModel)],
         plain_prop ''clock-frequency'' (dec_cells [of_int freq]),
         plain_prop ''reg'' (dec_cells [of_nat i])] @ extra) []"

definition cells_props :: "u64 \<Rightarrow> u64 \<Rightarrow> dts_prop list" where
  "cells_props a s =
     [plain_prop ''#address-cells'' (dec_cells [a]), plain_prop ''#size-cells'' (dec_cells [s])]"

text \<open>Without a second CPU a blank line stands where the enable method would.\<close>

definition cpus_node :: "string \<Rightarrow> int \<Rightarrow> bool \<Rightarrow> dts_node" where
  "cpus_node cpuModel freq isSMP =
     DNode ''cpus''
       (cells_props 1 0 @
        [if isSMP then plain_prop ''enable-method'' [DStr ''jcore,spin-table''] else plain_prop [] []])
       (cpu_node cpuModel freq 0 [] #
        (if isSMP then [cpu_node cpuModel freq 1
           [plain_prop ''cpu-release-addr'' (hex_cells [0xabcd0640, 0x8000])]] else []))"

definition opt_prop :: "string \<Rightarrow> string \<Rightarrow> dts_prop list" where
  "opt_prop k v = (if v \<noteq> [] then [plain_prop k [DStr v]] else [])"

definition buildRoot ::
    "string \<Rightarrow> string \<Rightarrow> int \<Rightarrow> u64 \<times> u64 \<Rightarrow> u64 \<Rightarrow> u64 \<Rightarrow> string \<times> string \<times> string \<Rightarrow> dts_node list \<Rightarrow> bool
      \<Rightarrow> dts_node option \<Rightarrow> dts_node" where
  "buildRoot model cpuModel freq dram busBase busWidth con socChildren isSMP ipiNode =
     (case con of
        (consoleLabel, stdoutPath, bootargs) \<Rightarrow>
          DNode ''/''
            ([plain_prop ''model'' [DStr model], plain_prop ''compatible'' [DStr ''jcore,j2-soc'']] @
             cells_props 1 1 @ [plain_prop ''interrupt-parent'' [DCells [] False [aicClass]]])
            ((if consoleLabel \<noteq> [] then [DNode ''aliases'' [plain_prop ''serial0'' [DRef consoleLabel]] []] else []) @
             [DNode ''chosen'' (opt_prop ''stdout-path'' stdoutPath @ opt_prop ''bootargs'' bootargs) [],
              cpus_node cpuModel freq isSMP,
              DNode ''clocks'' []
                [DNode (nodeName ''bus_clock'' ''bus_clock'')
                   [plain_prop ''compatible'' [DStr ''fixed-clock''],
                    plain_prop ''#clock-cells'' (dec_cells [0]),
                    plain_prop ''clock-frequency'' (dec_cells [of_int freq])] []],
              DNode (''memory@'' @ uint_hex (fst dram))
                [plain_prop ''device_type'' [DStr ''memory''],
                 plain_prop ''reg'' (hex_cells [fst dram, snd dram])] [],
              DNode (''soc@'' @ uint_hex busBase)
                ([plain_prop ''compatible'' [DStr ''simple-bus''],
                  plain_prop ''ranges'' (hex_cells [0, busBase, busWidth])] @ cells_props 1 1) socChildren,
              DNode ''cpuid''
                [plain_prop ''compatible'' [DStr ''jcore,cpuid-mmio''],
                 plain_prop ''reg'' (hex_cells [0xabcd0600, 0x4])] []] @
             (case ipiNode of Some n \<Rightarrow> if isSMP then [n] else [] | None \<Rightarrow> [])))"

section \<open>The tree\<close>

definition dram_region :: "design \<Rightarrow> u64 \<times> u64" where
  "dram_region d = (case d_system d of Some s \<Rightarrow> DramOr s | None \<Rightarrow> (0x10000000, 0x8000000))"

text \<open>The children of the bus: the timer first, then the devices sorted by node name.\<close>

definition socNodes ::
    "(u64 \<Rightarrow> u64) \<Rightarrow> board \<Rightarrow> int \<Rightarrow> dt_device list \<Rightarrow> (dt_error + dts_node list) option" where
  "socNodes fconv b freq sel =
     (let haveAic = list_ex (\<lambda>s. is_aic (dd_dev s)) sel in
      case (if haveAic then map_sum id (\<lambda>t. [timerNode (aicOffsets b (bus_base sel)) t]) (pitTrap b) else Inr []) of
        Inl e \<Rightarrow> Some (Inl e)
      | Inr timer \<Rightarrow>
          map_option (\<lambda>cs. Inr (timer @ map snd (sort_key fst cs))) (those (map (deviceNode fconv b freq sel) sel)))"

definition ipi_part :: "board \<Rightarrow> bool \<Rightarrow> dt_error + dts_node option" where
  "ipi_part b isSMP = (if isSMP then ipiNode2 b else Inr None)"

definition DeviceTree :: "(u64 \<Rightarrow> u64) \<Rightarrow> board \<Rightarrow> resolution \<Rightarrow> (dt_error + dts_node) option" where
  "DeviceTree fconv b res =
     (case cpuFreq (brd_library b) of
        Inl e \<Rightarrow> Some (Inl e)
      | Inr freq \<Rightarrow>
          (case selectDevices b res of
             None \<Rightarrow> None
           | Some sel \<Rightarrow>
               (case socNodes fconv b freq sel of
                  None \<Rightarrow> None
                | Some (Inl e) \<Rightarrow> Some (Inl e)
                | Some (Inr soc) \<Rightarrow>
                    (let d = brd_design b; isSMP = (map_of (d_peripheral_buses d) ''cpu1'' = Some True) in
                     case ipi_part b isSMP of
                       Inl e \<Rightarrow> Some (Inl e)
                     | Inr ipi \<Rightarrow>
                         Some (Inr (buildRoot (brd_name b)
                           (case d_cpu d of Some c \<Rightarrow> cpu_model c | None \<Rightarrow> []) freq (dram_region d)
                           (bus_base sel) (bus_width sel) (console sel) soc isSMP ipi))))))"

definition BoardDTS :: "(u64 \<Rightarrow> u64) \<Rightarrow> board \<Rightarrow> resolution \<Rightarrow> (dt_error + string) option" where
  "BoardDTS fconv b res = map_option (map_sum id Print_dts) (DeviceTree fconv b res)"

end
