(* ===== verification/Dt_Props.thy ===== *)
theory Dt_Props
  imports Dt_Tree Elab_Class
begin

text \<open>
  The device tree of a board: every device window lies in the range of the bus, sibling nodes have different
  names, the trap of the timer is free, and the size of a window is that of the address map exactly when
  the description states it.
\<close>

section \<open>The bus range\<close>

lemma fold_min:
  fixes m :: u64
  shows "fold (\<lambda>s m. if f s < m then f s else m) ss m \<le> m \<and>
    (\<forall>s \<in> set ss. fold (\<lambda>s m. if f s < m then f s else m) ss m \<le> f s)"
proof (induction ss arbitrary: m)
  case (Cons s ss)
  from Cons [of "if f s < m then f s else m"] show ?case by (auto split: if_splits)
qed simp

lemma bus_base_le: "s \<in> set sel \<Longrightarrow> bus_base sel \<le> dd_base s"
  using fold_min [of dd_base "tl sel" "dd_base (hd sel)"] by (cases sel) (auto simp: bus_base_def)

lemma fold_max:
  fixes m :: u64
  shows "m \<le> fold (\<lambda>s w. let e = f s in if e > w then e else w) ss m \<and>
    (\<forall>s \<in> set ss. f s \<le> fold (\<lambda>s w. let e = f s in if e > w then e else w) ss m)"
proof (induction ss arbitrary: m)
  case (Cons s ss)
  from Cons [of "let e = f s in if e > m then e else m"] show ?case
    by (auto simp: Let_def split: if_splits)
qed simp

lemma bus_width_ge: "s \<in> set sel \<Longrightarrow> dd_base s + dd_reg_width s - bus_base sel \<le> bus_width sel"
  using fold_max [of 0 "\<lambda>s. dd_base s + dd_reg_width s - bus_base sel" sel] by (simp add: bus_width_def)

text \<open>
  C27: the \<open>ranges\<close> of the bus node cover the window of every device: its offset is not negative and the
  window ends within the width, counted without wrap-around, when no device reaches the end of the
  64-bit address space.
\<close>

theorem device_window_in_bus:
  assumes "s \<in> set sel" "uint (dd_base s) + uint (dd_reg_width s) < 2 ^ 64"
  shows "uint (bus_base sel) \<le> uint (dd_base s) \<and>
    uint (dd_base s - bus_base sel) = uint (dd_base s) - uint (bus_base sel) \<and>
    uint (dd_base s - bus_base sel) + uint (dd_reg_width s) \<le> uint (bus_width sel)"
proof -
  have le: "uint (bus_base sel) \<le> uint (dd_base s)"
    using bus_base_le [OF assms(1)] by (simp add: word_le_def)
  have plus: "uint (dd_base s + dd_reg_width s) = uint (dd_base s) + uint (dd_reg_width s)"
    using assms(2) by (simp add: uint_word_ariths)
  have off: "uint (dd_base s - bus_base sel) = uint (dd_base s) - uint (bus_base sel)"
    using le by (simp add: uint_minus_simple_alt [symmetric] word_le_def)
  have "bus_base sel \<le> dd_base s + dd_reg_width s"
    unfolding word_le_def plus using le uint_ge_0 [of "dd_reg_width s"] by linarith
  then have "uint (dd_base s + dd_reg_width s - bus_base sel) = uint (dd_base s + dd_reg_width s) - uint (bus_base sel)"
    by (simp add: uint_minus_simple_alt [symmetric])
  with bus_width_ge [OF assms(1)] plus off have "uint (dd_base s - bus_base sel) + uint (dd_reg_width s) \<le> uint (bus_width sel)"
    by (simp add: word_le_def)
  with le off show ?thesis by simp
qed

section \<open>Node names\<close>

lemma hex_digit_digit_char: "d < 16 \<Longrightarrow> hex_digit_val (digit_char d) = d \<and> digit_char d \<noteq> CHR ''@''"
proof -
  assume d: "d < 16"
  have "char_code (digit_char d) \<noteq> char_code (CHR ''@'')"
    using d by (simp add: digit_char_def) (simp add: char_code_def)
  then have "digit_char d \<noteq> CHR ''@''" by auto
  moreover have "hex_digit_val (digit_char d) = d"
    using d by (auto simp: hex_digit_val_def digit_char_def is_digit_def is_lower_def)
  ultimately show ?thesis by simp
qed

lemma radix_val_snoc: "radix_val b (s @ [c]) = b * radix_val b s + hex_digit_val c"
  by (simp add: radix_val_def)

lemma radix_str_16: "radix_val 16 (radix_str 16 n) = n \<and> CHR ''@'' \<notin> set (radix_str 16 n)"
proof (induction n rule: less_induct)
  case (less n)
  show ?case
  proof (cases "n < 16")
    case True
    then have "radix_str 16 n = [digit_char n]" by (subst radix_str.simps) simp
    with True hex_digit_digit_char [of n] show ?thesis by (auto simp: radix_val_def)
  next
    case False
    then have IH: "radix_val 16 (radix_str 16 (n div 16)) = n div 16 \<and> CHR ''@'' \<notin> set (radix_str 16 (n div 16))"
      using less by simp
    have "radix_str 16 n = radix_str 16 (n div 16) @ [digit_char (n mod 16)]"
      using False by (subst radix_str.simps) simp
    with IH hex_digit_digit_char [of "n mod 16"] show ?thesis by (auto simp: radix_val_snoc)
  qed
qed

lemma uint_hex_inject: "uint_hex m = uint_hex n \<longleftrightarrow> m = n"
proof
  assume "uint_hex m = uint_hex n"
  then have "radix_val 16 (radix_str 16 (unat m)) = radix_val 16 (radix_str 16 (unat n))"
    by (simp only: uint_hex_def)
  then show "m = n" by (simp add: radix_str_16 word_unat_eq_iff)
qed simp

lemma count_one:
  assumes "name_count sel (dd_dt_name s) \<le> 1" "s \<in> set sel" "t \<in> set sel" "dd_dt_name t = dd_dt_name s"
  shows "s = t"
proof -
  let ?xs = "filter (\<lambda>u. dd_dt_name u = dd_dt_name s) sel"
  have "s \<in> set ?xs" "t \<in> set ?xs" using assms by simp_all
  moreover have "length ?xs \<le> 1" using assms(1) by (simp add: name_count_def)
  ultimately show ?thesis by (cases ?xs) auto
qed

lemma split_at_sign:
  "CHR ''@'' \<notin> set a \<Longrightarrow> CHR ''@'' \<notin> set b \<Longrightarrow> a @ ''@'' @ x = b @ ''@'' @ y \<Longrightarrow> a = b \<and> x = y"
proof (induction a arbitrary: b)
  case Nil
  then show ?case by (cases b) auto
next
  case (Cons c a)
  then show ?case by (cases b) auto
qed

lemma unit_name_inj:
  assumes "list_all (\<lambda>s. CHR ''@'' \<notin> set (dd_dt_name s)) sel" "s \<in> set sel" "t \<in> set sel"
    "unit_name sel s = unit_name sel t"
  shows "dd_base s = dd_base t"
proof -
  have no: "CHR ''@'' \<notin> set (dd_dt_name s)" "CHR ''@'' \<notin> set (dd_dt_name t)"
    using assms(1-3) by (auto simp: list_all_iff)
  show ?thesis
  proof (cases "dd_dt_name s = dd_dt_name t")
    case True
    show ?thesis
    proof (cases "name_count sel (dd_dt_name s) > 1")
      case cnt: True
      then have "dd_base s - bus_base sel = dd_base t - bus_base sel"
        using assms(4) True by (simp add: unit_name_def uint_hex_inject)
      then show ?thesis by simp
    next
      case False
      then have "name_count sel (dd_dt_name s) \<le> 1" by simp
      then have "s = t" by (rule count_one) (use assms True in simp_all)
      then show ?thesis by simp
    qed
  next
    case False
    have one: "a @ ''@'' @ x \<noteq> b" if "CHR ''@'' \<notin> set b" for a x b :: string using that by auto
    have two: "dd_dt_name s @ ''@'' @ x \<noteq> dd_dt_name t @ ''@'' @ y" for x y
      using split_at_sign [OF no] False by blast
    show ?thesis using assms(4) False one [OF no(1)] one [OF no(2)] two
      by (simp add: unit_name_def split: if_splits) (metis append.simps)
  qed
qed

text \<open>
  C28: any two of the selected devices that are at different addresses get different node names, when
  no name configured for a selected device contains the at sign that separates the unit address.
\<close>

theorem unit_names_distinct:
  assumes "list_all (\<lambda>s. CHR ''@'' \<notin> set (dd_dt_name s)) sel"
  shows "\<forall>s \<in> set sel. \<forall>t \<in> set sel. dd_base s \<noteq> dd_base t \<longrightarrow> unit_name sel s \<noteq> unit_name sel t"
  using unit_name_inj [OF assms] by blast

text \<open>
  With an at sign the names of three devices at different addresses collide, and nothing rejects them.
\<close>

lemma at_sign_collides:
  assumes "map dd_dt_name [s, t, u] = [''uart'', ''uart'', ''uart@4'']" "map dd_base [s, t, u] = [0, 4, 8]"
  shows "unit_name [s, t, u] t = unit_name [s, t, u] u"
  using assms by (simp add: unit_name_def name_count_def bus_base_def uint_hex_def) code_simp

section \<open>The timer\<close>

lemma tuple_vector_used:
  "t \<in> set (fst (deviceTuples res i dev)) \<Longrightarrow> it_vector t \<in> set (used_vectors dev)"
proof -
  assume t: "t \<in> set (fst (deviceTuples res i dev))"
  then obtain r where r: "dev_irq dev = Some r" by (auto simp: deviceTuples_def Let_def split: option.splits)
  show ?thesis
  proof (cases "ir_int r")
    case (Some n)
    with t r show ?thesis
      by (auto simp: deviceTuples_def used_vectors_def vectorBase_def Let_def split: if_splits)
  next
    case None
    with t r obtain m where m: "ir_named r = Some m"
      by (auto simp: deviceTuples_def Let_def split: option.splits)
    from t r None m obtain k where "t \<in> set (fst (namedTuple res dev (effName res i dev) m k))"
      by (auto simp: deviceTuples_def Let_def)
    then obtain e where "map_of m k = Some e" "it_vector t = 0x11 + ie_irq e"
      by (auto simp: namedTuple_def split: option.splits if_splits)
    then have "(k, e) \<in> set m" "it_vector t = vectorBase + ie_irq e" by (auto simp: vectorBase_def dest: map_of_SomeD)
    then show ?thesis by (force simp: used_vectors_def r None m)
  qed
qed

lemma set_traps: "set traps = {16..31}"
  by (simp only: traps_def set_upto)

lemma find_traps_least:
  assumes "List.find P traps = Some t" "16 \<le> u" "P u"
  shows "t \<le> u"
proof -
  from assms(1) obtain i where i: "i < length traps" "P (traps ! i)" "t = traps ! i" "\<forall>j<i. \<not> P (traps ! j)"
    by (auto simp: find_Some_iff)
  have len: "length traps = 16" by (simp only: traps_def length_upto)
  have at: "traps ! j = 16 + int j" if "j < 16" for j
    unfolding traps_def by (subst nth_upto) (use that in simp_all)
  show ?thesis
  proof (rule ccontr)
    assume "\<not> t \<le> u"
    then have j: "nat (u - 16) < i" using i at len assms(2) by (simp add: nat_less_iff)
    then have "traps ! nat (u - 16) = u" using i(1) at len assms(2) by simp
    with i(4) j assms(3) show False by auto
  qed
qed

text \<open>
  C29: the trap of the timer is the least of 16 to 31 that is neither the trap of the countdown timer nor the
  vector of a device; so it is the vector of no interrupt that the interrupt model wires. The error means that
  some device has a vector below the first one.
\<close>

theorem pit_trap_free:
  "(case pitTrap b of
      Inr t \<Rightarrow> 16 \<le> t \<and> t \<le> 31 \<and> t \<noteq> countdownTrap \<and>
        t \<notin> it_vector ` set (irqTuples res (brd_design b)) \<and>
        {16..<t} \<subseteq> insert countdownTrap (\<Union>dev \<in> set (d_devices (brd_design b)). set (used_vectors dev))
    | Inl e \<Rightarrow> de_kind e = ErrPitTrap \<and>
        \<not> list_all (\<lambda>dev. list_all (\<lambda>v. vectorBase \<le> v) (used_vectors dev)) (d_devices (brd_design b)))"
proof (cases "pitTrap b")
  case (Inr t)
  then have f: "List.find (\<lambda>t. t \<notin> set (countdownTrap # concat (map used_vectors (d_devices (brd_design b))))) traps = Some t"
    by (auto simp: pitTrap_def Let_def split: option.splits)
  from find_SomeD [OF f]
  have t: "16 \<le> t" "t \<le> 31" "t \<noteq> countdownTrap"
    and free: "\<And>dev. dev \<in> set (d_devices (brd_design b)) \<Longrightarrow> t \<notin> set (used_vectors dev)"
    by (auto simp: set_traps)
  have "u \<in> set (countdownTrap # concat (map used_vectors (d_devices (brd_design b))))" if "16 \<le> u" "u < t" for u
    by (rule ccontr) (use find_traps_least [OF f that(1)] that(2) in simp)
  then have least: "{16..<t} \<subseteq> insert countdownTrap (\<Union>dev \<in> set (d_devices (brd_design b)). set (used_vectors dev))"
    by fastforce
  have "it_vector u \<noteq> t" if "u \<in> set (irqTuples res (brd_design b))" for u
  proof -
    from that obtain i dev where d: "(i, dev) \<in> set (indexed (brd_design b))" "u \<in> set (fst (deviceTuples res i dev))"
      by (auto simp: irqTuples_def)
    then have "dev \<in> set (d_devices (brd_design b))" by (auto simp: indexed_def in_set_enumerate_eq)
    from free [OF this] tuple_vector_used [OF d(2)] show ?thesis by auto
  qed
  with t least Inr show ?thesis by auto
next
  case (Inl e)
  then have none: "List.find (\<lambda>t. t \<notin> set (countdownTrap # concat (map used_vectors (d_devices (brd_design b))))) traps = None"
    and e: "de_kind e = ErrPitTrap"
    by (auto simp: pitTrap_def Let_def dt_err_def split: option.splits)
  have "16 \<in> set traps" by (simp add: set_traps)
  with none obtain dev where "dev \<in> set (d_devices (brd_design b))" "16 \<in> set (used_vectors dev)"
    unfolding find_None_iff_ball by (auto simp: countdownTrap_def)
  with Inl e show ?thesis by (force simp: list_all_iff vectorBase_def)
qed

section \<open>The size of a window\<close>

lemma resolved_bits_cover:
  assumes "resolveRegs lg class cls = (regs, left, rng, errs)" "layout_within (2 ^ 48) cls" "r \<in> set regs"
  shows "rr_addr r + rr_width r \<le> 2 ^ nat (left + 1)"
proof -
  obtain lo hi where "rng = (lo, hi)" by (cases rng)
  with resolveRegs_bounds [of lg "class" cls regs left lo hi errs r] assms show ?thesis by simp
qed

text \<open>
  The size of a window comes from the address bit of the description, not from the one that elaboration
  derives from the registers. When the description leaves it out, elaboration reports nothing and derives an
  address bit whose range holds every register, but the node gets a window of two bytes, which a register that
  reaches beyond the second byte does not fit in.
\<close>

theorem unset_left_bit_window:
  assumes "dc_left_addr_bit cls = 0" "resolveRegs lg class cls = (regs, left, rng, errs)"
    "layout_within (2 ^ 48) cls" "r \<in> set regs" "2 < rr_addr r + rr_width r"
    "dt_get (mergeDtProps cls dev) ''reg'' = None" "dev_base_addr dev = Some a"
  shows "errs = overlap_errs class regs \<and> rr_addr r + rr_width r \<le> 2 ^ nat (left + 1) \<and>
    (\<exists>n. devToDT dev cls name busBase v irq = Some n \<and>
      \<lparr>dp_name = ''reg'', dp_values = [DCells [a - busBase, 2] True []], dp_cmt = range_text a 2\<rparr> \<in> set (dn_props n))"
proof -
  have "regs \<noteq> []" using assms(4) by auto
  then have "errs = overlap_errs class regs"
    using assms(1,2) by (auto simp: resolveRegs_def Let_def left_bit_errs_def split: if_splits prod.splits)
  moreover have "rr_addr r + rr_width r \<le> 2 ^ nat (left + 1)"
    by (rule resolved_bits_cover [OF assms(2-4)])
  moreover have "regWidth cls = Some 2" using assms(1) by (simp add: regWidth_def push_bit_eq_mult)
  ultimately show ?thesis using assms(6,7) by (simp add: devToDT_def Let_def default_reg_def)
qed

definition demo_device :: device where
  "demo_device =
     \<lparr>dev_class = ''uart'', dev_name = [], dev_cpu = None, dev_base_addr = Some 0xabcd0100, dev_irq = None, dev_generics = [],
      dev_ports = [], dev_dt_props = [], dev_dt_stdout = False, dev_dt_label = [], dev_dt_node = None\<rparr>"

theorem unset_left_bit_window_witness:
  "\<exists>n. devToDT demo_device demo_regs ''uart'' 0xabcd0000 0 False = Some n \<and>
    \<lparr>dp_name = ''reg'', dp_values = [DCells [0x100, 2] True []], dp_cmt = range_text 0xabcd0100 2\<rparr> \<in> set (dn_props n)"
  using unset_left_bit_window [OF _ demo_regs_resolved demo_regs_within, of
      "\<lparr>rr_name = ''ctl'', rr_addr = 8, rr_width = 2, rr_byte_range = (8, 9), rr_mode = ''rw'', rr_type = ''fixed''\<rparr>"
      demo_device "0xabcd0100" "''uart''" "0xabcd0000" 0 False]
  by (simp add: demo_regs_def demo_device_def mergeDtProps_def dt_get_def)

section \<open>Witnesses\<close>

definition demo_dt_device :: "string \<Rightarrow> u64 \<Rightarrow> dt_device" where
  "demo_dt_device name base =
     \<lparr>dd_dev = demo_device, dd_cls = demo_regs, dd_name = name, dd_base = base, dd_dt_name = name, dd_dt_label = [],
      dd_reg_width = 16\<rparr>"

definition demo_sel :: "dt_device list" where
  "demo_sel = [demo_dt_device ''uart'' 0xabcd0100, demo_dt_device ''gpio'' 0xabcd0000, demo_dt_device ''uart'' 0xabcd0200]"

theorem device_window_in_bus_witness:
  "uint (dd_base (hd demo_sel) - bus_base demo_sel) + 16 \<le> uint (bus_width demo_sel)"
proof -
  have "hd demo_sel \<in> set demo_sel" by (simp add: demo_sel_def)
  from device_window_in_bus [OF this] show ?thesis by (simp add: demo_sel_def demo_dt_device_def)
qed

theorem unit_names_distinct_witness:
  "unit_name demo_sel (demo_dt_device ''uart'' 0xabcd0100) \<noteq> unit_name demo_sel (demo_dt_device ''uart'' 0xabcd0200)"
proof -
  have "list_all (\<lambda>s. CHR ''@'' \<notin> set (dd_dt_name s)) demo_sel" by (simp add: demo_sel_def demo_dt_device_def)
  note this [THEN unit_names_distinct]
  moreover have "demo_dt_device ''uart'' 0xabcd0100 \<in> set demo_sel" "demo_dt_device ''uart'' 0xabcd0200 \<in> set demo_sel"
    by (simp_all add: demo_sel_def)
  ultimately show ?thesis by (simp add: demo_dt_device_def)
qed

section \<open>Two corners\<close>

text \<open>
  A list of strings that begin with digits becomes a list of numbers: a \<open>compatible\<close> list of part numbers
  loses its text. An over-long hexadecimal text becomes the number 0.
\<close>

lemma part_numbers_coerced:
  "dtValue (AnyList [AnyStr ''8250'', AnyStr ''16550a'']) = [DCells [8250, 16550] False []]"
  "toUint64 (AnyStr ''0x10000000000000000'') = Some 0"
  by (simp_all add: dtValue_def isAllNumbers_def toUint64_def string_uint_def scan_uint_def trim_space_def is_space_def
      is_hex_def is_digit_def is_lower_def char_code_def radix_val_def hex_digit_val_def map_filter_def)

text \<open>
  The offset of an interrupt controller below the selected devices, which the lowest one of them does not
  account for when it has no node of its own, is negative and wraps.
\<close>

lemma aic_offset_wraps:
  assumes "dev \<in> set (d_devices (brd_design b))" "is_aic dev" "dev_base_addr dev = Some a" "a < busBase"
  shows "a - busBase \<in> set (aicOffsets b busBase) \<and> uint (a - busBase) = 2 ^ 64 + uint a - uint busBase"
proof -
  have "a - busBase \<in> set (aicOffsets b busBase)"
    using assms(1-3) by (force simp: aicOffsets_def map_filter_def)
  moreover have "uint a < uint busBase" using assms(4) by (simp add: word_less_def)
  ultimately show ?thesis by (simp add: uint_sub_if_size word_size)
qed

end
