(* ===== verification/C_Header.thy ===== *)
theory C_Header
  imports Elab_Model "HOL-Library.Signed_Division"
begin

text \<open>
  Model of \<open>src/tools/socgen/cheader\<close>: the C header of the boot loader. \<open>structFields\<close> is the computation of
  the struct of a class in \<open>classRegStruct\<close>, before it is written as text; a field stands for the bytes
  \<open>cr_lo\<close> to \<open>cr_hi\<close>. The code sorts with \<open>sort.Slice\<close>, whose order of equal keys is unspecified; the
  model sorts stably. \<open>smod\<close> and \<open>sdiv\<close> are the remainder and division of Go.
\<close>

section \<open>The fields of a register struct\<close>

record c_reg =
  cr_name :: string
  cr_lo :: int
  cr_hi :: int
  cr_width :: int
  cr_mode :: string
  cr_ignore :: bool
  cr_expanded :: bool
  cr_orig_lo :: int
  cr_orig_hi :: int

definition plainReg :: "resolved_reg \<Rightarrow> c_reg" where
  "plainReg rg =
     \<lparr>cr_name = rr_name rg, cr_lo = fst (rr_byte_range rg), cr_hi = snd (rr_byte_range rg), cr_width = rr_width rg,
      cr_mode = rr_mode rg, cr_ignore = False, cr_expanded = False,
      cr_orig_lo = fst (rr_byte_range rg), cr_orig_hi = snd (rr_byte_range rg)\<rparr>"

definition expand_left :: "int \<Rightarrow> c_reg \<Rightarrow> c_reg" where
  "expand_left leftBoundary c =
     (let left = cr_orig_lo c; space = left smod 4 in
      if 0 < space \<and> space \<le> left - leftBoundary - 1
      then c\<lparr>cr_lo := left - space, cr_width := cr_width c + space, cr_expanded := True\<rparr> else c)"

definition expand_right :: "int \<Rightarrow> c_reg \<Rightarrow> c_reg" where
  "expand_right rightBoundary c =
     (let right = cr_orig_hi c; space = 3 - right smod 4 in
      if cr_width c < 4 \<and> 0 < space \<and> space \<le> rightBoundary - right - 1
      then c\<lparr>cr_hi := right + space, cr_width := cr_width c + space, cr_expanded := True\<rparr> else c)"

definition expandReg :: "int \<Rightarrow> int \<Rightarrow> resolved_reg \<Rightarrow> c_reg" where
  "expandReg leftBoundary rightBoundary rg =
     (if rr_width rg < 4 then expand_right rightBoundary (expand_left leftBoundary (plainReg rg)) else plainReg rg)"

text \<open>Each register between the end of the one before it and the start of the one after it.\<close>

fun expandRegs :: "int \<Rightarrow> resolved_reg list \<Rightarrow> c_reg list" where
  "expandRegs lb [] = []"
| "expandRegs lb [rg] = [expandReg lb 0xffffffff rg]"
| "expandRegs lb (rg # rg' # rgs) =
     expandReg lb (fst (rr_byte_range rg')) rg # expandRegs (snd (rr_byte_range rg)) (rg' # rgs)"

definition ignoreReg :: "int \<Rightarrow> int \<Rightarrow> c_reg" where
  "ignoreReg lo hi =
     \<lparr>cr_name = [], cr_lo = lo, cr_hi = hi, cr_width = hi - lo + 1, cr_mode = [], cr_ignore = True,
      cr_expanded = False, cr_orig_lo = 0, cr_orig_hi = 0\<rparr>"

fun gapRegs :: "c_reg list \<Rightarrow> c_reg list" where
  "gapRegs (c # d # cs) =
     (if cr_hi c + 1 \<le> cr_lo d - 1 then [ignoreReg (cr_hi c + 1) (cr_lo d - 1)] else []) @ gapRegs (d # cs)"
| "gapRegs _ = []"

definition structFields :: "resolved_reg list \<Rightarrow> c_reg list option" where
  "structFields regs =
     (case expandRegs (-1) regs of
        [] \<Rightarrow> None
      | c # cs \<Rightarrow>
          (let fields = sort_key cr_lo ((if 0 < cr_lo c then [ignoreReg 0 (cr_lo c - 1)] else []) @
                                        (c # cs) @ gapRegs (c # cs))
           in if list_ex (\<lambda>c. cr_lo c smod 4 \<noteq> 0 \<or> cr_hi c smod 4 \<noteq> 3) fields then None else Some fields))"

section \<open>The text of a struct\<close>

definition regComment :: "c_reg \<Rightarrow> string" where
  "regComment c =
     (if cr_mode c = ''read'' then '' read-only'' else []) @
     (if cr_expanded c
      then (let loOff = cr_orig_lo c - cr_lo c; hiOff = cr_orig_hi c - cr_lo c in
            if loOff = hiOff then '' only byte '' @ itoa loOff
            else '' only bytes '' @ itoa loOff @ ''-'' @ itoa hiOff)
      else [])"

abbreviation eol :: string where "eol \<equiv> [CHR 0x0A]"

text \<open>The number of words of a field.\<close>

definition field_words :: "c_reg \<Rightarrow> int" where
  "field_words c = cr_width c sdiv 4"

definition field_line :: "string \<Rightarrow> c_reg \<Rightarrow> string" where
  "field_line name c =
     ''  uint32_t '' @ name @
     (if 1 < field_words c then ''['' @ itoa (field_words c) @ '']'' else []) @ '';'' @
     (if regComment c \<noteq> [] then '' //'' @ regComment c else []) @ eol"

fun field_lines :: "int \<Rightarrow> c_reg list \<Rightarrow> string" where
  "field_lines ign [] = []"
| "field_lines ign (c # cs) =
     (if cr_ignore c then field_line (''ignore'' @ itoa ign) c @ field_lines (ign + 1) cs
      else field_line (cr_name c) c @ field_lines ign cs)"

definition classRegStruct :: "string \<Rightarrow> resolved_reg list \<Rightarrow> string option" where
  "classRegStruct name regs =
     map_option (\<lambda>fields. ''struct '' @ name @ ''_regs {'' @ eol @ field_lines 0 fields @ ''};'') (structFields regs)"

section \<open>The header\<close>

definition dataBusDevices :: "resolution \<Rightarrow> resolved_device list" where
  "dataBusDevices res =
     sort_key (\<lambda>d. to_upper (rd_name d)) (filter (\<lambda>d. rd_base_addr d \<noteq> None) (res_devices res))"

definition hex_pad8_lower :: "u64 \<Rightarrow> string" where
  "hex_pad8_lower n = (let s = radix_str 16 (unat n) in replicate (8 - length s) (CHR ''0'') @ s)"

definition addr_line :: "nat \<Rightarrow> resolved_device \<Rightarrow> string" where
  "addr_line maxLen d =
     ''#define DEVICE_'' @ to_upper (rd_name d) @ ''_ADDR '' @ replicate (maxLen - length (rd_name d)) (CHR '' '') @
     ''0x'' @ hex_pad8_lower (case rd_base_addr d of Some a \<Rightarrow> a | None \<Rightarrow> 0) @ eol"

definition struct_line :: "resolved_class \<Rightarrow> resolved_device \<Rightarrow> string" where
  "struct_line c d =
     ''#define DEVICE_'' @ to_upper (rd_name d) @ '' ((volatile struct '' @ rc_name c @ ''_regs *) DEVICE_'' @
     to_upper (rd_name d) @ ''_ADDR)'' @ eol"

definition class_section :: "resolved_device list \<Rightarrow> string \<times> resolved_class \<Rightarrow> string" where
  "class_section devs kc =
     (case classRegStruct (rc_name (snd kc)) (rc_regs (snd kc)) of
        None \<Rightarrow> ''// '' @ rc_name (snd kc) @ '' contains unaligned registers'' @ eol @ eol
      | Some s \<Rightarrow>
          s @ eol @ concat (map (struct_line (snd kc)) (filter (\<lambda>d. lc (rd_class d) = fst kc) devs)) @ eol)"

definition header_top :: string where
  "header_top =
     ''// This file is generated by soc_gen and will be overwritten next time'' @ eol @
     ''// the tool is run. See soc_top/README for information on running soc_gen.'' @ eol @ eol @
     ''#ifndef BOARD_H'' @ eol @ ''#define BOARD_H'' @ eol @ ''#include <inttypes.h>'' @ eol @ eol @
     ''#define DRAM_BASE 0x10000000'' @ eol"

definition BoardH :: "resolution option \<Rightarrow> string" where
  "BoardH ro =
     (case ro of
        None \<Rightarrow> []
      | Some res \<Rightarrow>
          (let devs = dataBusDevices res;
               maxLen = fold max (map (\<lambda>d. length (rd_name d)) devs) 0;
               classes = sort_key fst (filter (\<lambda>(k, c). rc_regs c \<noteq> []) (res_classes res))
           in header_top @ eol @ ''// Memory mapped peripherals'' @ eol @
              concat (map (addr_line maxLen) devs) @ eol @
              concat (map (class_section devs) classes) @ eol @ ''#endif'' @ eol))"

end
