(* ===== verification/C_Header_Props.thy ===== *)
theory C_Header_Props
  imports C_Header
begin

text \<open>
  The layout of the register struct that the boot loader overlays on a device: for registers in the order of
  their addresses the C compiler places every field at the address of its register. Registers in
  another order are accepted too, and misplaced.
\<close>

section \<open>The layout a C compiler gives the fields\<close>

text \<open>The offset of each field of a struct of \<open>uint32_t\<close> words and arrays of them.\<close>

fun c_offsets :: "int \<Rightarrow> c_reg list \<Rightarrow> (c_reg \<times> int) list" where
  "c_offsets off [] = []"
| "c_offsets off (c # cs) = (c, off) # c_offsets (off + 4 * (if 1 < field_words c then field_words c else 1)) cs"

section \<open>Expansion\<close>

definition reg_ok :: "resolved_reg \<Rightarrow> bool" where
  "reg_ok rg \<longleftrightarrow> 0 \<le> fst (rr_byte_range rg) \<and> 1 \<le> rr_width rg \<and>
     snd (rr_byte_range rg) = fst (rr_byte_range rg) + rr_width rg - 1"

fun ascending :: "int \<Rightarrow> resolved_reg list \<Rightarrow> bool" where
  "ascending lb [] = True"
| "ascending lb (rg # rgs) \<longleftrightarrow> lb < fst (rr_byte_range rg) \<and> reg_ok rg \<and> ascending (snd (rr_byte_range rg)) rgs"

definition covers :: "c_reg \<Rightarrow> resolved_reg \<Rightarrow> bool" where
  "covers c rg \<longleftrightarrow> cr_name c = rr_name rg \<and> \<not> cr_ignore c \<and>
     cr_lo c \<le> fst (rr_byte_range rg) \<and> snd (rr_byte_range rg) \<le> cr_hi c"

definition field_ok :: "c_reg \<Rightarrow> bool" where
  "field_ok c \<longleftrightarrow> 0 \<le> cr_lo c \<and> cr_lo c \<le> cr_hi c \<and> cr_width c = cr_hi c - cr_lo c + 1"

lemma smod4: "0 \<le> a \<Longrightarrow> a smod 4 = a mod 4" for a :: int
  by (simp add: signed_modulo_int_def signed_divide_int_def sgn_if minus_mult_div_eq_mod)

text \<open>
  An end that moves, moves to the end of its word, and never into a neighbour.
\<close>

lemma expandReg_facts:
  fixes rb :: int
  assumes "reg_ok rg" "lb < fst (rr_byte_range rg)"
  defines "c \<equiv> expandReg lb rb rg" and "lo \<equiv> fst (rr_byte_range rg)" and "hi \<equiv> snd (rr_byte_range rg)"
  shows "field_ok c" "covers c rg" "lb < cr_lo c"
    "cr_hi c = hi \<or> cr_hi c = hi - hi mod 4 + 3 \<and> cr_hi c < rb"
    "cr_lo c = lo \<or> cr_lo c = lo - lo mod 4"
proof -
  have nn: "0 \<le> lo" "0 \<le> hi" using assms(1) by (auto simp: reg_ok_def lo_def hi_def)
  have m: "0 \<le> lo mod 4" "lo mod 4 \<le> lo" "hi mod 4 < 4" using nn by (auto intro: zmod_le_nonneg_dividend)
  note d = c_def expandReg_def expand_left_def expand_right_def plainReg_def Let_def smod4 nn
    lo_def[symmetric] hi_def[symmetric]
  have r: "rr_width rg = hi - lo + 1" "lo \<le> hi" using assms(1) by (auto simp: reg_ok_def lo_def hi_def)
  show "field_ok c" using r m by (simp add: field_ok_def d)
  show "covers c rg" using r m by (simp add: covers_def d)
  show "lb < cr_lo c" using assms(2) by (simp add: d)
  show "cr_hi c = hi \<or> cr_hi c = hi - hi mod 4 + 3 \<and> cr_hi c < rb" by (simp add: d)
  show "cr_lo c = lo \<or> cr_lo c = lo - lo mod 4" by (simp add: d)
qed

lemma neighbours_apart:
  fixes h l :: int
  assumes "h < l" and "h' = h \<or> h' = h - h mod 4 + 3 \<and> h' < l" and "l' = l \<or> l' = l - l mod 4" and "h < l'"
  shows "h' < l'"
  using assms by presburger

fun separate :: "c_reg list \<Rightarrow> bool" where
  "separate (c # d # cs) \<longleftrightarrow> cr_hi c < cr_lo d \<and> separate (d # cs)"
| "separate _ = True"

lemma expandRegs_facts:
  assumes "ascending lb regs"
  shows "list_all field_ok (expandRegs lb regs) \<and> separate (expandRegs lb regs) \<and>
    list_all2 covers (expandRegs lb regs) regs"
  using assms
proof (induction lb regs rule: expandRegs.induct)
  case (2 lb rg)
  then show ?case using expandReg_facts(1,2) [of rg lb] by simp
next
  case (3 lb rg rg' rgs)
  let ?c = "expandReg lb (fst (rr_byte_range rg')) rg"
  have a: "reg_ok rg" "lb < fst (rr_byte_range rg)" "reg_ok rg'" "snd (rr_byte_range rg) < fst (rr_byte_range rg')"
    using "3.prems" by simp_all
  obtain d ds rb where ds: "expandRegs (snd (rr_byte_range rg)) (rg' # rgs) = d # ds"
    "d = expandReg (snd (rr_byte_range rg)) rb rg'"
    by (cases rgs) auto
  have "cr_hi ?c < cr_lo d"
    using neighbours_apart [OF a(4) expandReg_facts(4) [OF a(1,2)] expandReg_facts(5) [OF a(3,4)] expandReg_facts(3) [OF a(3,4)]]
    by (simp add: ds(2))
  with "3.IH" "3.prems" expandReg_facts(1,2) [OF a(1,2)] show ?case by (simp add: ds(1))
qed simp

section \<open>Tiling\<close>

text \<open>The fields in the order of their addresses, the gaps filled.\<close>

fun weave :: "int \<Rightarrow> c_reg list \<Rightarrow> c_reg list" where
  "weave p [] = []"
| "weave p (c # cs) = (if p \<le> cr_lo c - 1 then [ignoreReg p (cr_lo c - 1)] else []) @ c # weave (cr_hi c + 1) cs"

lemma weave_gaps: "mset (weave (cr_hi c + 1) cs) = mset cs + mset (gapRegs (c # cs))"
  by (induction cs arbitrary: c) auto

lemma weave_mset:
  "mset (weave 0 (c # cs)) = mset ((if 0 < cr_lo c then [ignoreReg 0 (cr_lo c - 1)] else []) @ (c # cs) @ gapRegs (c # cs))"
  using weave_gaps [of c cs] by simp

definition starts_after :: "int \<Rightarrow> c_reg list \<Rightarrow> bool" where
  "starts_after p cs \<longleftrightarrow> (case cs of [] \<Rightarrow> True | c # _ \<Rightarrow> p \<le> cr_lo c)"

lemma separate_Cons: "separate (c # cs) \<longleftrightarrow> starts_after (cr_hi c + 1) cs \<and> separate cs"
  by (cases cs) (auto simp: starts_after_def)

lemma weave_bounds:
  "separate cs \<Longrightarrow> list_all field_ok cs \<Longrightarrow> starts_after p cs \<Longrightarrow> x \<in> set (weave p cs) \<Longrightarrow> p \<le> cr_lo x"
proof (induction cs arbitrary: p)
  case (Cons c cs)
  have "cr_hi c + 1 \<le> cr_lo x" if "x \<in> set (weave (cr_hi c + 1) cs)"
    using Cons that by (simp add: separate_Cons)
  with Cons.prems show ?case by (auto simp: ignoreReg_def starts_after_def field_ok_def split: if_splits)
qed simp

lemma weave_sorted:
  "separate cs \<Longrightarrow> list_all field_ok cs \<Longrightarrow> starts_after p cs \<Longrightarrow> sorted_wrt (<) (map cr_lo (weave p cs))"
proof (induction cs arbitrary: p)
  case (Cons c cs)
  have s: "separate cs" "list_all field_ok cs" "starts_after (cr_hi c + 1) cs" "field_ok c" "p \<le> cr_lo c"
    using Cons.prems by (auto simp: separate_Cons starts_after_def)
  have "cr_lo c < cr_lo x" if "x \<in> set (weave (cr_hi c + 1) cs)" for x
    using weave_bounds [OF s(1-3) that] s(4) by (simp add: field_ok_def)
  with s(5) have "p < cr_lo x" if "x \<in> set (weave (cr_hi c + 1) cs)" "p < cr_lo c" for x
    using that by fastforce
  with Cons.IH [OF s(1-3)] s(5) \<open>\<And>x. x \<in> set (weave (cr_hi c + 1) cs) \<Longrightarrow> cr_lo c < cr_lo x\<close>
  show ?case by (auto simp: ignoreReg_def)
qed simp

lemma sort_weave:
  assumes "separate (c # cs)" "list_all field_ok (c # cs)"
  shows "sort_key cr_lo ((if 0 < cr_lo c then [ignoreReg 0 (cr_lo c - 1)] else []) @ (c # cs) @ gapRegs (c # cs)) =
    weave 0 (c # cs)"
proof (rule sort_key_inj_key_eq)
  have "starts_after 0 (c # cs)" using assms(2) by (simp add: starts_after_def field_ok_def)
  from weave_sorted [OF assms this] have w: "sorted_wrt (<) (map cr_lo (weave 0 (c # cs)))" .
  then show "sorted (map cr_lo (weave 0 (c # cs)))" by (rule sorted_wrt_mono_rel [rotated]) simp
  show m: "mset ((if 0 < cr_lo c then [ignoreReg 0 (cr_lo c - 1)] else []) @ (c # cs) @ gapRegs (c # cs)) =
      mset (weave 0 (c # cs))"
    by (rule weave_mset [symmetric])
  have "distinct (map cr_lo (weave 0 (c # cs)))" using w strict_sorted_iff by blast
  with mset_eq_setD [OF m] show "inj_on cr_lo
      (set ((if 0 < cr_lo c then [ignoreReg 0 (cr_lo c - 1)] else []) @ (c # cs) @ gapRegs (c # cs)))"
    by (simp only: distinct_map)
qed

definition word_field :: "c_reg \<Rightarrow> bool" where
  "word_field c \<longleftrightarrow> cr_lo c mod 4 = 0 \<and> cr_hi c mod 4 = 3"

lemma word_field_size:
  assumes "field_ok c" "word_field c"
  shows "4 * (if 1 < field_words c then field_words c else 1) = cr_hi c + 1 - cr_lo c"
proof -
  have "4 dvd cr_hi c - cr_lo c + 1" using assms(2) unfolding word_field_def by presburger
  then obtain k where k: "cr_hi c - cr_lo c + 1 = 4 * k" by (rule dvdE)
  with assms(1) have "1 \<le> k" by (simp add: field_ok_def)
  with k assms(1) show ?thesis
    by (simp add: field_ok_def field_words_def signed_divide_int_def sgn_if)
qed

lemma weave_offsets:
  "separate cs \<Longrightarrow> list_all field_ok cs \<Longrightarrow> starts_after p cs \<Longrightarrow> 0 \<le> p \<Longrightarrow> list_all word_field (weave p cs) \<Longrightarrow>
   list_all (\<lambda>(c, off). off = cr_lo c) (c_offsets p (weave p cs))"
proof (induction cs arbitrary: p)
  case (Cons c cs)
  have s: "separate cs" "list_all field_ok cs" "starts_after (cr_hi c + 1) cs" "field_ok c" "p \<le> cr_lo c"
    using Cons.prems by (auto simp: separate_Cons starts_after_def)
  have "0 \<le> cr_hi c + 1" using s(4) by (simp add: field_ok_def)
  note s = s this
  have "list_all word_field (weave (cr_hi c + 1) cs)" "word_field c" using Cons.prems by simp_all
  note s = s this
  note IH = Cons.IH [OF s(1-3,6,7)]
  have c: "cr_lo c + 4 * (if 1 < field_words c then field_words c else 1) = cr_hi c + 1"
    using word_field_size [OF s(4,8)] by simp
  show ?case
  proof (cases "p < cr_lo c")
    case True
    let ?i = "ignoreReg p (cr_lo c - 1)"
    have "field_ok ?i" "word_field ?i"
      using True Cons.prems by (auto simp: field_ok_def ignoreReg_def)
    from word_field_size [OF this]
    have "p + 4 * (if 1 < field_words ?i then field_words ?i else 1) = cr_lo c" by (simp add: ignoreReg_def)
    moreover have "cr_lo ?i = p" by (simp add: ignoreReg_def)
    ultimately show ?thesis using True IH c by simp
  next
    case False
    with s(5) IH c show ?thesis by simp
  qed
qed simp

lemma weave_keeps: "set cs \<subseteq> set (weave p cs)"
  by (induction cs arbitrary: p) auto

section \<open>Properties\<close>

text \<open>
  C30: for registers in the order of their addresses, whose struct is aligned, the C compiler places every
  field at the address it stands for, and every register lies inside the field of its name.
\<close>

theorem struct_layout:
  assumes "ascending (-1) regs" "structFields regs = Some flds"
  shows "list_all (\<lambda>(c, off). off = cr_lo c) (c_offsets 0 flds) \<and>
    list_all (\<lambda>rg. list_ex (\<lambda>c. covers c rg) flds) regs"
proof -
  obtain c cs where es: "expandRegs (-1) regs = c # cs" using assms(2)
    by (auto simp: structFields_def split: list.splits)
  note F = expandRegs_facts [OF assms(1), unfolded es]
  have sf: "structFields regs = (let fs = weave 0 (c # cs) in
      if list_ex (\<lambda>c. cr_lo c smod 4 \<noteq> 0 \<or> cr_hi c smod 4 \<noteq> 3) fs then None else Some fs)"
    using F sort_weave [of c cs] by (simp only: structFields_def es list.case)
  have w: "flds = weave 0 (c # cs)" and al: "list_all (\<lambda>c. cr_lo c smod 4 = 0 \<and> cr_hi c smod 4 = 3) (weave 0 (c # cs))"
    using assms(2) unfolding sf Let_def by (auto simp del: weave.simps simp: list_ex_iff list_all_iff split: if_splits)
  have st: "starts_after 0 (c # cs)" using F by (simp add: starts_after_def field_ok_def)
  have "word_field x" if "x \<in> set (weave 0 (c # cs))" for x
  proof -
    have "0 \<le> cr_lo x" using weave_bounds that F st by blast
    moreover have "cr_hi x smod 4 = 3" "cr_lo x smod 4 = 0" using al that by (auto simp: list_all_iff)
    moreover have "0 \<le> cr_hi x"
      using calculation(2) by (auto simp: signed_modulo_int_def signed_divide_int_def sgn_if split: if_splits)
    ultimately show ?thesis by (simp add: word_field_def smod4)
  qed
  then have "list_all word_field (weave 0 (c # cs))" by (simp add: list_all_iff)
  with weave_offsets [of "c # cs" 0] F st have "list_all (\<lambda>(c, off). off = cr_lo c) (c_offsets 0 flds)"
    unfolding w by blast
  moreover have "list_ex (\<lambda>c. covers c rg) flds" if "rg \<in> set regs" for rg
    using F that weave_keeps [of "c # cs" 0] unfolding w list_ex_iff list_all2_iff
    by (metis in_set_conv_nth nth_mem subsetD list_all2_conv_all_nth F)
  ultimately show ?thesis by (simp add: list_all_iff)
qed

definition struct_regs :: "resolved_reg list" where
  "struct_regs =
     [\<lparr>rr_name = ''rx'', rr_addr = 3, rr_width = 1, rr_byte_range = (3, 3), rr_mode = ''read'', rr_type = ''fixed''\<rparr>,
      \<lparr>rr_name = ''mem'', rr_addr = 8, rr_width = 8, rr_byte_range = (8, 15), rr_mode = [], rr_type = ''fixed''\<rparr>]"

lemma demo_struct:
  "structFields struct_regs = Some
     [\<lparr>cr_name = ''rx'', cr_lo = 0, cr_hi = 3, cr_width = 4, cr_mode = ''read'', cr_ignore = False, cr_expanded = True,
       cr_orig_lo = 3, cr_orig_hi = 3\<rparr>,
      ignoreReg 4 7,
      \<lparr>cr_name = ''mem'', cr_lo = 8, cr_hi = 15, cr_width = 8, cr_mode = [], cr_ignore = False, cr_expanded = False,
       cr_orig_lo = 8, cr_orig_hi = 15\<rparr>]"
  by code_simp

theorem struct_layout_witness:
  "list_all (\<lambda>(c, off). off = cr_lo c) (c_offsets 0 (the (structFields struct_regs)))"
proof -
  have "ascending (-1) struct_regs" by (simp add: struct_regs_def reg_ok_def)
  from struct_layout [OF this demo_struct] show ?thesis by (simp add: demo_struct)
qed

text \<open>
  Registers that are listed in another order are not rejected, and the struct puts one of them at an
  address that is not its own: here the register at address 0 comes after a filler of one word.
\<close>

theorem struct_unordered_misplaced:
  "\<exists>fs. structFields
       [\<lparr>rr_name = ''b'', rr_addr = 4, rr_width = 4, rr_byte_range = (4, 7), rr_mode = [], rr_type = ''fixed''\<rparr>,
        \<lparr>rr_name = ''a'', rr_addr = 0, rr_width = 4, rr_byte_range = (0, 3), rr_mode = [], rr_type = ''fixed''\<rparr>] = Some fs \<and>
     map (\<lambda>(c, off). (cr_name c, cr_lo c, off)) (c_offsets 0 fs) = [([], 0, 0), (''a'', 0, 4), (''b'', 4, 8)]"
proof -
  have "map_option (\<lambda>fs. map (\<lambda>(c, off). (cr_name c, cr_lo c, off)) (c_offsets 0 fs)) (structFields
       [\<lparr>rr_name = ''b'', rr_addr = 4, rr_width = 4, rr_byte_range = (4, 7), rr_mode = [], rr_type = ''fixed''\<rparr>,
        \<lparr>rr_name = ''a'', rr_addr = 0, rr_width = 4, rr_byte_range = (0, 3), rr_mode = [], rr_type = ''fixed''\<rparr>]) =
     Some [([], 0, 0), (''a'', 0, 4), (''b'', 4, 8)]"
    by code_simp
  then show ?thesis by (auto simp: map_option_eq_Some)
qed

end
