(* ===== verification/Vhdl_Print_File.thy ===== *)
theory Vhdl_Print_File
  imports Vhdl_Printer
begin

text \<open>
  Model of \<open>src/tools/socgen/vhdl/printer.go\<close> beyond expressions: statements, declarations, design units
  and files. The code writes to a \<open>strings.Builder\<close>; the model returns the text. A line that a loop of
  the code writes at an indentation is \<open>line\<close>, the lines of a list are \<open>lines\<close>.
\<close>

section \<open>Pieces\<close>

abbreviation nl :: char where "nl \<equiv> CHR 0x0A"

definition indentUnit :: string where
  "indentUnit = ''    ''"

definition label_text :: "string \<Rightarrow> string" where
  "label_text l = (if l \<noteq> [] then l @ '' : '' else [])"

definition opt_text :: "string \<Rightarrow> expr option \<Rightarrow> string" where
  "opt_text pre e = (case e of None \<Rightarrow> [] | Some x \<Rightarrow> pre @ printExpr x)"

definition printWaveform :: "waveform_elem list \<Rightarrow> string" where
  "printWaveform wave =
     join_strings (map (\<lambda>el. printExpr (we_value el) @ opt_text '' after '' (we_after el)) wave) '', ''"

definition printDelay :: "delay_mechanism option \<Rightarrow> string" where
  "printDelay d =
     (case d of
        None \<Rightarrow> []
      | Some m \<Rightarrow>
          if dm_transport m then ''transport ''
          else (case dm_reject m of
                  Some e \<Rightarrow> ''reject '' @ printExpr e @ '' inertial ''
                | None \<Rightarrow> ''inertial ''))"

definition printChoices :: "expr list \<Rightarrow> string" where
  "printChoices cs = join_strings (map printExpr cs) '' | ''"

definition printInstMap :: "string \<Rightarrow> string \<Rightarrow> assoc_element list \<Rightarrow> string" where
  "printInstMap mapIndent keyword elems =
     mapIndent @ keyword @ '' ('' @ [nl] @
     join_strings (map (\<lambda>e. mapIndent @ indentUnit @ printAssoc e) elems) ('','' @ [nl]) @
     (if elems \<noteq> [] then [nl] else []) @ mapIndent @ '')''"

definition printBindingIndication :: "binding_indication \<Rightarrow> string" where
  "printBindingIndication n =
     ''use '' @
     (if bi_unit_kind n = K_ENTITY then
        ''entity '' @ bi_unit n @ (if bi_arch n \<noteq> [] then ''('' @ bi_arch n @ '')'' else [])
      else if bi_unit_kind n = K_CONFIGURATION then ''configuration '' @ bi_unit n
      else if bi_unit_kind n = K_OPEN then ''open'' else []) @
     (if bi_generic_map n \<noteq> [] then '' generic map ('' @ printAssocList (bi_generic_map n) @ '')'' else []) @
     (if bi_port_map n \<noteq> [] then '' port map ('' @ printAssocList (bi_port_map n) @ '')'' else [])"

section \<open>Interfaces and types\<close>

definition printInterfaceDecl :: "interface_decl \<Rightarrow> string" where
  "printInterfaceDecl d =
     (if id_obj_class d \<noteq> [] then id_obj_class d @ '' '' else []) @
     join_strings (id_names d) '', '' @ '' : '' @
     (if id_mode d \<noteq> [] then id_mode d @ '' '' else []) @
     printSubtypeIndication (id_subtype_mark d) (id_constraint d) @
     opt_text '' := '' (id_default d)"

definition printInterfaceList :: "interface_decl list \<Rightarrow> string \<Rightarrow> string" where
  "printInterfaceList decls indent =
     join_strings (map (\<lambda>d. indent @ printInterfaceDecl d) decls) ('';'' @ [nl]) @
     (if decls \<noteq> [] then [nl] else [])"

text \<open>The generic and port clauses of an entity or component at indentation \<open>indent\<close>.\<close>

definition printClause :: "string \<Rightarrow> string \<Rightarrow> interface_decl list \<Rightarrow> string" where
  "printClause indent word ds =
     (if ds \<noteq> [] then indent @ indentUnit @ word @ '' ('' @ [nl] @
        printInterfaceList ds (indent @ indentUnit @ indentUnit) @ indent @ indentUnit @ '');'' @ [nl]
      else [])"

definition printTypeDecl :: "string \<Rightarrow> type_def option \<Rightarrow> string \<Rightarrow> string" where
  "printTypeDecl name tdef indent =
     ''type '' @ name @ '' is '' @
     (case tdef of
        Some (EnumDef lits) \<Rightarrow> ''('' @ join_strings lits '', '' @ '');''
      | Some (RecordDef rfs) \<Rightarrow>
          ''record'' @ [nl] @
          concat (map (\<lambda>f. indent @ indentUnit @ join_strings (rf_names f) '', '' @ '' : '' @
                         printSubtypeIndication (rf_subtype_mark f) (rf_constraint f) @ '';'' @ [nl]) rfs) @
          indent @ ''end record;''
      | Some (ArrayDef t) \<Rightarrow> t @ '';''
      | Some (FileTypeDef mark) \<Rightarrow> ''file of '' @ mark @ '';''
      | Some (AccessDef mark) \<Rightarrow> ''access '' @ mark @ '';''
      | None \<Rightarrow> [])"

definition printComponentDecl :: "string \<Rightarrow> interface_decl list \<Rightarrow> interface_decl list \<Rightarrow> string \<Rightarrow> string" where
  "printComponentDecl name generics ports indent =
     ''component '' @ name @ '' is'' @ [nl] @
     printClause indent ''generic'' generics @ printClause indent ''port'' ports @
     indent @ ''end component;''"

definition printSubprogramSpec ::
    "bool \<Rightarrow> bool \<Rightarrow> bool \<Rightarrow> string \<Rightarrow> interface_decl list \<Rightarrow> string \<Rightarrow> string" where
  "printSubprogramSpec isProc pure impure desig params ret =
     (if pure then ''pure '' else if impure then ''impure '' else []) @
     (if isProc then ''procedure '' else ''function '') @ desig @
     (if params \<noteq> [] then '' ('' @ join_strings (map printInterfaceDecl params) ''; '' @ '')'' else []) @
     (if isProc then [] else '' return '' @ ret)"

definition writePadded :: "string \<Rightarrow> nat \<Rightarrow> string" where
  "writePadded s width = s @ replicate (width - length s) (CHR '' '')"

definition printAttributeSpecAligned :: "string \<Rightarrow> string list \<Rightarrow> kind \<Rightarrow> expr \<Rightarrow> nat \<Rightarrow> nat \<Rightarrow> string" where
  "printAttributeSpecAligned name ents cls v nameW entW =
     ''attribute '' @ writePadded name nameW @ '' of '' @ writePadded (join_strings ents '', '') entW @
     '' : '' @ kind_string cls @ '' is '' @ printExpr v @ '';''"

fun attrSpecWidths :: "decl list \<Rightarrow> nat \<times> nat" where
  "attrSpecWidths [] = (0, 0)"
| "attrSpecWidths (AttributeSpec name ents cls v # ds) =
     (case attrSpecWidths ds of (n, e) \<Rightarrow> (max (length name) n, max (length (join_strings ents '', '')) e))"
| "attrSpecWidths (d # ds) = attrSpecWidths ds"

definition printSignature :: "signature option \<Rightarrow> string" where
  "printSignature so =
     (case so of
        None \<Rightarrow> []
      | Some s \<Rightarrow> '' ['' @ join_strings (sg_types s) '', '' @
          (if sg_return s \<noteq> [] then (if sg_types s \<noteq> [] then '' '' else []) @ ''return '' @ sg_return s else []) @ '']'')"

definition printFileName :: "string \<Rightarrow> expr option \<Rightarrow> expr option \<Rightarrow> string" where
  "printFileName mode openMode logicalName =
     (case openMode of
        Some e \<Rightarrow> '' open '' @ printExpr e @ '' is '' @ opt_text [] logicalName
      | None \<Rightarrow> (case logicalName of
                  None \<Rightarrow> []
                | Some e \<Rightarrow> '' is '' @ (if mode \<noteq> [] then mode @ '' '' else []) @ printExpr e))"

section \<open>Statements and declarations\<close>

definition line :: "string \<Rightarrow> string \<Rightarrow> string" where
  "line indent t = indent @ indentUnit @ t @ [nl]"

definition printObject :: "string \<Rightarrow> string list \<Rightarrow> string \<Rightarrow> expr option \<Rightarrow> expr option \<Rightarrow> string" where
  "printObject word names mark constraint dflt =
     word @ join_strings names '', '' @ '' : '' @ printSubtypeIndication mark constraint @
     opt_text '' := '' dflt @ '';''"

definition printCondWaveforms :: "cond_waveform list \<Rightarrow> string" where
  "printCondWaveforms cs =
     join_strings (map (\<lambda>c. printWaveform (cw_waveform c) @ opt_text '' when '' (cw_cond c)) cs) '' else ''"

definition printUnitName :: "string \<Rightarrow> string \<Rightarrow> string" where
  "printUnitName unit arch = unit @ (if arch \<noteq> [] then ''('' @ arch @ '')'' else [])"

definition printExprs :: "expr list \<Rightarrow> string" where
  "printExprs es = join_strings (map printExpr es) '', ''"

section \<open>Statements without statements inside\<close>

definition printConcAssign :: "string \<Rightarrow> expr \<Rightarrow> delay_mechanism option \<Rightarrow> waveform_elem list \<Rightarrow> cond_waveform list \<Rightarrow> string" where
  "printConcAssign label target delay wave conds =
     label_text label @ printExpr target @ '' <= '' @ printDelay delay @
     (if wave \<noteq> [] then printWaveform wave else printCondWaveforms conds) @ '';''"

definition printInstantiation :: "string \<Rightarrow> kind \<Rightarrow> string \<Rightarrow> string \<Rightarrow> assoc_element list \<Rightarrow> assoc_element list \<Rightarrow> string \<Rightarrow> string" where
  "printInstantiation label kd unit arch gmap pmap indent =
     label_text label @
     (if kd = K_ENTITY then ''entity '' else if kd = K_COMPONENT then ''component ''
      else if kd = K_CONFIGURATION then ''configuration '' else []) @
     printUnitName unit arch @
     (if gmap \<noteq> [] then [nl] @ printInstMap (indent @ indentUnit) ''generic map'' gmap else []) @
     (if pmap \<noteq> [] then [nl] @ printInstMap (indent @ indentUnit) ''port map'' pmap else []) @ '';''"

definition printJump :: "string \<Rightarrow> string \<Rightarrow> string \<Rightarrow> expr option \<Rightarrow> string" where
  "printJump word label lp wh =
     label_text label @ word @ (if lp \<noteq> [] then '' '' @ lp else []) @ opt_text '' when '' wh @ '';''"

definition printAssert :: "string \<Rightarrow> expr \<Rightarrow> expr option \<Rightarrow> expr option \<Rightarrow> string" where
  "printAssert label cond report severity =
     label_text label @ ''assert '' @ printExpr cond @ opt_text '' report '' report @
     opt_text '' severity '' severity @ '';''"

definition printReport :: "string \<Rightarrow> expr \<Rightarrow> expr option \<Rightarrow> string" where
  "printReport label report severity =
     label_text label @ ''report '' @ printExpr report @ opt_text '' severity '' severity @ '';''"

definition printWait :: "string \<Rightarrow> expr list \<Rightarrow> expr option \<Rightarrow> expr option \<Rightarrow> string" where
  "printWait label on until for_time =
     label_text label @ ''wait'' @ (if on \<noteq> [] then '' on '' @ printExprs on else []) @
     opt_text '' until '' until @ opt_text '' for '' for_time @ '';''"

definition printSelected :: "string \<Rightarrow> expr \<Rightarrow> expr \<Rightarrow> delay_mechanism option \<Rightarrow> selected_waveform list \<Rightarrow> string" where
  "printSelected label e target delay alts =
     label_text label @ ''with '' @ printExpr e @ '' select '' @ printExpr target @ '' <= '' @ printDelay delay @
     join_strings (map (\<lambda>a. printWaveform (sw_waveform a) @ '' when '' @ printChoices (sw_choices a)) alts) '', '' @ '';''"

section \<open>Statements and declarations, recursively\<close>

fun printStmt :: "stmt \<Rightarrow> string \<Rightarrow> string"
  and printElsif :: "elsif_clause \<Rightarrow> string \<Rightarrow> string"
  and printCaseAlt :: "case_alt \<Rightarrow> string \<Rightarrow> string"
  and printDecl :: "decl \<Rightarrow> string \<Rightarrow> string" where
  "printStmt (Comment t) indent = ''-- '' @ t"
| "printStmt (ConcurrentSignalAssign label target delay wave conds) indent =
     printConcAssign label target delay wave conds"
| "printStmt (InstantiationStmt label kd unit arch gmap pmap keep) indent =
     printInstantiation label kd unit arch gmap pmap indent"
| "printStmt (GenerateStmt label kd param rng cond decls stmts) indent =
     label_text label @
     (if kd = K_FOR then ''for '' @ param @ '' in '' @ opt_text [] rng else ''if '' @ opt_text [] cond) @
     '' generate'' @ [nl] @
     concat (map (\<lambda>d. line indent (printDecl d (indent @ indentUnit))) decls) @
     (if decls \<noteq> [] then indent @ ''begin'' @ [nl] else []) @
     concat (map (\<lambda>s. line indent (printStmt s (indent @ indentUnit))) stmts) @
     indent @ ''end generate;''"
| "printStmt (ProcessStmt label postponed sens decls stmts) indent =
     label_text label @ (if postponed then ''postponed '' else []) @ ''process'' @
     (if sens \<noteq> [] then '' ('' @ printExprs sens @ '')'' else []) @ [nl] @
     concat (map (\<lambda>d. line indent (printDecl d (indent @ indentUnit))) decls) @
     indent @ ''begin'' @ [nl] @
     concat (map (\<lambda>s. line indent (printStmt s (indent @ indentUnit))) stmts) @
     indent @ ''end process;''"
| "printStmt (SignalAssignStmt label target delay wave) indent =
     label_text label @ printExpr target @ '' <= '' @ printDelay delay @ printWaveform wave @ '';''"
| "printStmt (VariableAssignStmt label target v) indent =
     label_text label @ printExpr target @ '' := '' @ printExpr v @ '';''"
| "printStmt (NullStmt label) indent = label_text label @ ''null;''"
| "printStmt (IfStmt label cond thn elsifs els) indent =
     label_text label @ ''if '' @ printExpr cond @ '' then'' @ [nl] @
     concat (map (\<lambda>s. line indent (printStmt s (indent @ indentUnit))) thn) @
     concat (map (\<lambda>ei. printElsif ei indent) elsifs) @
     (if els \<noteq> [] then indent @ ''else'' @ [nl] @
        concat (map (\<lambda>s. line indent (printStmt s (indent @ indentUnit))) els) else []) @
     indent @ ''end if;''"
| "printStmt (CaseStmt label e alts) indent =
     label_text label @ ''case '' @ printExpr e @ '' is'' @ [nl] @
     concat (map (\<lambda>a. printCaseAlt a indent) alts) @ indent @ ''end case;''"
| "printStmt (LoopStmt label scheme param rng cond stmts) indent =
     label_text label @
     (if scheme = K_FOR then ''for '' @ param @ '' in '' @ opt_text [] rng @ '' ''
      else if scheme = K_WHILE then ''while '' @ opt_text [] cond @ '' '' else []) @
     ''loop'' @ [nl] @
     concat (map (\<lambda>s. line indent (printStmt s (indent @ indentUnit))) stmts) @
     indent @ ''end loop;''"
| "printStmt (NextStmt label lp wh) indent = printJump ''next'' label lp wh"
| "printStmt (ExitStmt label lp wh) indent = printJump ''exit'' label lp wh"
| "printStmt (ReturnStmt label v) indent = label_text label @ ''return'' @ opt_text '' '' v @ '';''"
| "printStmt (AssertStmt label cond report severity) indent = printAssert label cond report severity"
| "printStmt (ReportStmt label report severity) indent = printReport label report severity"
| "printStmt (WaitStmt label on until for_time) indent = printWait label on until for_time"
| "printStmt (ProcedureCallStmt label name args) indent =
     label_text label @ name @ (if args \<noteq> [] then ''('' @ printAssocList args @ '')'' else []) @ '';''"
| "printStmt (SelectedSignalAssign label e target delay alts) indent = printSelected label e target delay alts"
| "printElsif (ElsifClause cond stmts) indent =
     indent @ ''elsif '' @ printExpr cond @ '' then'' @ [nl] @
     concat (map (\<lambda>s. line indent (printStmt s (indent @ indentUnit))) stmts)"
| "printCaseAlt (CaseAlt choices stmts) indent =
     indent @ indentUnit @ ''when '' @ printChoices choices @ '' =>'' @ [nl] @
     concat (map (\<lambda>s. line (indent @ indentUnit) (printStmt s (indent @ indentUnit @ indentUnit))) stmts)"
| "printDecl (DComment t) indent = ''-- '' @ t"
| "printDecl (ConstantDecl names mark constraint dflt) indent = printObject ''constant '' names mark constraint dflt"
| "printDecl (SignalDecl names mark constraint dflt) indent = printObject ''signal '' names mark constraint dflt"
| "printDecl (VariableDecl shared names mark constraint dflt) indent =
     (if shared then ''shared '' else []) @ printObject ''variable '' names mark constraint dflt"
| "printDecl (SubtypeDecl name mark constraint) indent =
     ''subtype '' @ name @ '' is '' @ printSubtypeIndication mark constraint @ '';''"
| "printDecl (TypeDecl name tdef) indent = printTypeDecl name tdef indent"
| "printDecl (ComponentDecl name generics ports) indent = printComponentDecl name generics ports indent"
| "printDecl (AttributeDecl name mark) indent = ''attribute '' @ name @ '' : '' @ mark @ '';''"
| "printDecl (AttributeSpec name ents cls v) indent = printAttributeSpecAligned name ents cls v 0 0"
| "printDecl (AliasDecl name mark constraint target sg) indent =
     ''alias '' @ name @ (if mark \<noteq> [] then '' : '' @ printSubtypeIndication mark constraint else []) @
     '' is '' @ printExpr target @ printSignature sg @ '';''"
| "printDecl (GroupTemplateDecl name classes) indent =
     ''group '' @ name @ '' is ('' @ join_strings classes '', '' @ '');''"
| "printDecl (GroupDecl name tmpl cs) indent =
     ''group '' @ name @ '' : '' @ tmpl @ ''('' @ join_strings cs '', '' @ '');''"
| "printDecl (ConfigSpec insts cname binding) indent =
     ''for '' @ join_strings insts '', '' @ '' : '' @ cname @ '' '' @
     (case binding of None \<Rightarrow> [] | Some b \<Rightarrow> printBindingIndication b) @ '';''"
| "printDecl (FileDecl names mark mode openMode logicalName) indent =
     ''file '' @ join_strings names '', '' @ '' : '' @ mark @ printFileName mode openMode logicalName @ '';''"
| "printDecl (UseDecl names) indent = ''use '' @ join_strings names '', '' @ '';''"
| "printDecl (SubprogramDecl isProc pure impure desig params ret) indent =
     printSubprogramSpec isProc pure impure desig params ret @ '';''"
| "printDecl (SubprogramBody isProc pure impure desig params ret decls stmts) indent =
     printSubprogramSpec isProc pure impure desig params ret @ '' is'' @ [nl] @
     concat (map (\<lambda>d. line indent (printDecl d (indent @ indentUnit))) decls) @
     indent @ ''begin'' @ [nl] @
     concat (map (\<lambda>s. line indent (printStmt s (indent @ indentUnit))) stmts) @
     indent @ (if isProc then ''end procedure;'' else ''end;'')"

definition printStmts :: "stmt list \<Rightarrow> string" where
  "printStmts stmts = concat (map (\<lambda>s. line [] (printStmt s indentUnit)) stmts)"

definition printDecls :: "decl list \<Rightarrow> string" where
  "printDecls decls = concat (map (\<lambda>d. line [] (printDecl d indentUnit)) decls)"

section \<open>Design units and files\<close>

definition printUse :: "string list \<Rightarrow> string" where
  "printUse names = ''use '' @ join_strings names '', '' @ '';'' @ [nl]"

fun printBlockConfig :: "block_config \<Rightarrow> string \<Rightarrow> string"
  and printConfigItem :: "config_item \<Rightarrow> string \<Rightarrow> string" where
  "printBlockConfig (BlockConfig spec uses items) indent =
     indent @ ''for '' @ spec @ [nl] @
     concat (map (\<lambda>u. indent @ indentUnit @ printUse u) uses) @
     concat (map (\<lambda>i. printConfigItem i (indent @ indentUnit)) items) @
     indent @ ''end for;'' @ [nl]"
| "printConfigItem (CfgBlock b) indent = printBlockConfig b indent"
| "printConfigItem (CfgComponent insts cname binding block) indent =
     indent @ ''for '' @ join_strings insts '', '' @ '' : '' @ cname @ [nl] @
     (case binding of
        None \<Rightarrow> []
      | Some n \<Rightarrow> indent @ indentUnit @ printBindingIndication n @ '';'' @ [nl]) @
     (case block of None \<Rightarrow> [] | Some b \<Rightarrow> printBlockConfig b (indent @ indentUnit)) @
     indent @ ''end for;'' @ [nl]"

text \<open>The declarations of an architecture: the attribute specifications are aligned.\<close>

definition printArchDecl :: "nat \<Rightarrow> nat \<Rightarrow> decl \<Rightarrow> string" where
  "printArchDecl nameW entW d =
     (case d of
        AttributeSpec name ents cls v \<Rightarrow> printAttributeSpecAligned name ents cls v nameW entW
      | _ \<Rightarrow> printDecl d indentUnit)"

definition printArchDecls :: "decl list \<Rightarrow> string" where
  "printArchDecls decls =
     (case attrSpecWidths decls of
        (nameW, entW) \<Rightarrow> concat (map (\<lambda>d. line [] (printArchDecl nameW entW d)) decls))"

fun printUnit :: "design_unit \<Rightarrow> string" where
  "printUnit (PackageDecl name decls) =
     ''package '' @ name @ '' is'' @ [nl] @ printDecls decls @ ''end package;'' @ [nl]"
| "printUnit (PackageBody name decls) =
     ''package body '' @ name @ '' is'' @ [nl] @ printDecls decls @ ''end package body;'' @ [nl]"
| "printUnit (EntityDecl name generics ports decls stmts) =
     ''entity '' @ name @ '' is'' @ [nl] @
     printClause [] ''generic'' generics @ printClause [] ''port'' ports @ printDecls decls @
     (if stmts \<noteq> [] then ''begin'' @ [nl] @ printStmts stmts else []) @ ''end;'' @ [nl]"
| "printUnit (ArchitectureBody name ent decls stmts) =
     ''architecture '' @ name @ '' of '' @ ent @ '' is'' @ [nl] @
     printArchDecls decls @ ''begin'' @ [nl] @ printStmts stmts @ ''end;'' @ [nl]"
| "printUnit (ConfigurationDecl name ent uses block) =
     ''configuration '' @ name @ '' of '' @ ent @ '' is'' @ [nl] @
     concat (map (\<lambda>u. indentUnit @ printUse u) uses) @
     (case block of None \<Rightarrow> [] | Some b \<Rightarrow> printBlockConfig b indentUnit) @
     ''end configuration;'' @ [nl]"

fun printContextItem :: "context_item \<Rightarrow> string" where
  "printContextItem (LibraryClause names) = ''library '' @ join_strings names '', '' @ '';'' @ [nl]"
| "printContextItem (UseClause names) = printUse names"

definition Print :: "design_file \<Rightarrow> string" where
  "Print f = concat (map printContextItem (df_context f)) @ concat (map printUnit (df_units f))"

end
