(* ===== verification/Go_Float.thy ===== *)
theory Go_Float
  imports Design_Model
begin

text \<open>
  \<open>strconv.FormatFloat(f, 'g', -1, 64)\<close> on the IEEE bit pattern of a double: the decimal with the fewest
  digits that reads back as the same double and, of these, the nearest one. A decimal
  exponent below -4 or from 6 on is written in the exponential form.
\<close>

section \<open>The shortest digits\<close>

text \<open>
  A finite non-zero magnitude is \<open>m * 2 ^ e\<close>. In quarters of the last place the doubles that read back as it
  lie between \<open>4 * m - lo\<close> and \<open>4 * m + 2\<close>, the ends included when \<open>m\<close> is even.
\<close>

definition float_mant :: "u64 \<Rightarrow> nat" where
  "float_mant w = (let fr = unat w mod 2 ^ 52 in if unat (drop_bit 52 w) mod 2048 = 0 then fr else fr + 2 ^ 52)"

definition float_exp :: "u64 \<Rightarrow> int" where
  "float_exp w = (let ex = unat (drop_bit 52 w) mod 2048 in (if ex = 0 then 1 else int ex) - 1075)"

definition float_low :: "u64 \<Rightarrow> nat" where
  "float_low w = (if unat w mod 2 ^ 52 = 0 \<and> 1 < unat (drop_bit 52 w) mod 2048 then 1 else 2)"

text \<open>\<open>a * 2 ^ x * 10 ^ y\<close> against \<open>b\<close>, without fractions.\<close>

definition pow_pos :: "nat \<Rightarrow> int \<Rightarrow> nat" where
  "pow_pos b x = b ^ nat x"

definition num_part :: "nat \<Rightarrow> int \<Rightarrow> int \<Rightarrow> nat" where
  "num_part q x y = q * pow_pos 2 x * pow_pos 10 (- y)"

definition den_part :: "int \<Rightarrow> int \<Rightarrow> nat" where
  "den_part x y = pow_pos 2 (- x) * pow_pos 10 y"

text \<open>The decimal exponent: the least \<open>p\<close> with \<open>q * 2 ^ x < 10 ^ p\<close>, searched upwards.\<close>

fun dec_exp :: "nat \<Rightarrow> nat \<Rightarrow> int \<Rightarrow> int \<Rightarrow> int" where
  "dec_exp 0 q x p = p"
| "dec_exp (Suc n) q x p = (if num_part q x p < den_part x p then p else dec_exp n q x (p + 1))"

text \<open>
  With unit \<open>10 ^ y\<close>: the multiple below and the one above, when they read back, and the nearer of both.
\<close>

definition round_at :: "nat \<Rightarrow> nat \<Rightarrow> int \<Rightarrow> int \<Rightarrow> nat option" where
  "round_at m lo x y =
     (let q = 4 * m; d = num_part q x y div den_part x y; den = den_part x y;
          inside = (\<lambda>k. let v = k * den; l = num_part (q - lo) x y; u = num_part (q + 2) x y in
                      if even m then l \<le> v \<and> v \<le> u else l < v \<and> v < u);
          rest = num_part q x y mod den
      in if inside d \<and> inside (d + 1)
         then Some (if 2 * rest < den \<or> 2 * rest = den \<and> even d then d else d + 1)
         else if inside d then Some d else if inside (d + 1) then Some (d + 1) else None)"

fun shortest_at :: "nat \<Rightarrow> nat \<Rightarrow> nat \<Rightarrow> int \<Rightarrow> int \<Rightarrow> nat \<times> int" where
  "shortest_at 0 m lo x y = (0, y)"
| "shortest_at (Suc n) m lo x y =
     (case round_at m lo x y of Some d \<Rightarrow> (d, y) | None \<Rightarrow> shortest_at n m lo x (y - 1))"

text \<open>The digits and the position of the decimal point before which they stand.\<close>

definition shortest_digits :: "u64 \<Rightarrow> string \<times> int" where
  "shortest_digits w =
     (let m = float_mant w; x = float_exp w - 2 in
      if m = 0 then ([], 0)
      else let p = dec_exp 700 (4 * m) x (-330); (d, y) = shortest_at 18 m (float_low w) x (p - 1);
               s = nat_str d
           in (rev (dropWhile (\<lambda>c. c = CHR ''0'') (rev s)), int (length s) + y))"

section \<open>The formats\<close>

text \<open>\<open>%e\<close> with the digits given, and \<open>%f\<close>.\<close>

definition fmt_e :: "string \<Rightarrow> int \<Rightarrow> string" where
  "fmt_e ds dp =
     (let e = dp - 1; es = nat_str (nat \<bar>e\<bar>) in
      take 1 ds @ (if 1 < length ds then ''.'' @ drop 1 ds else []) @ ''e'' @
      (if e < 0 then ''-'' else ''+'') @ (if length es < 2 then ''0'' @ es else es))"

definition fmt_f :: "string \<Rightarrow> int \<Rightarrow> string" where
  "fmt_f ds dp =
     (let n = nat dp; zero = CHR ''0'' in
      (if 0 < dp then take n ds @ replicate (n - length ds) zero else [zero]) @
      (if dp < int (length ds) then ''.'' @ replicate (nat (- dp)) zero @ drop n ds else []))"

definition format_float_g :: "u64 \<Rightarrow> string" where
  "format_float_g w =
     (let neg = bit w 63; sign = (if neg then ''-'' else []) in
      if unat (drop_bit 52 w) mod 2048 = 2047
      then (if unat w mod 2 ^ 52 \<noteq> 0 then ''NaN'' else (if neg then ''-'' else ''+'') @ ''Inf'')
      else (case shortest_digits w of
              (ds, dp) \<Rightarrow>
                if ds = [] then sign @ ''0''
                else if dp - 1 < -4 \<or> 6 \<le> dp - 1 then sign @ fmt_e ds dp else sign @ fmt_f ds dp))"

end
