(* ===== verification/Emit_Base.thy ===== *)
theory Emit_Base
  imports Emit_Decoder Elab_Top Vhdl_Print_File Go_Float
begin

text \<open>
  Model of the shared parts of \<open>src/tools/socgen/emit\<close>: \<open>value.go\<close>, \<open>zeroval.go\<close>, \<open>context.go\<close>, \<open>sort.go\<close>,
  \<open>banner.go\<close>, \<open>target.go\<close> and \<open>errors.go\<close>. The elaborated design of the code, one struct, is the record
  \<open>elaborated\<close> with the resolution inside. Go ranges over maps in no fixed order; the order of the list
  stands for it.
\<close>

section \<open>Errors, targets and the banner\<close>

datatype emit_kind = ErrUnboundEntity | ErrDiffPair

record emit_error =
  em_kind :: emit_kind
  em_inst :: string
  em_detail :: string

fun emit_kind_text :: "emit_kind \<Rightarrow> string" where
  "emit_kind_text ErrUnboundEntity = ''entity not bound''"
| "emit_kind_text ErrDiffPair = ''emit: incomplete differential pin pair''"

definition emit_error_text :: "emit_error \<Rightarrow> string" where
  "emit_error_text e =
     ''emit '' @ go_quote (em_inst e) @ '': '' @ emit_kind_text (em_kind e) @
     (if em_detail e \<noteq> [] then '': '' @ em_detail e else [])"

definition emit_err :: "emit_kind \<Rightarrow> string \<Rightarrow> emit_error" where
  "emit_err k inst = \<lparr>em_kind = k, em_inst = inst, em_detail = []\<rparr>"

definition externalConstraints :: "string \<Rightarrow> bool" where
  "externalConstraints target \<longleftrightarrow> target = ''ecp5'' \<or> target = ''ice40''"

definition star_line :: string where
  "star_line = ''-- '' @ replicate 66 (CHR ''*'') @ [nl]"

definition fileBanner :: string where
  "fileBanner =
     star_line @ star_line @ star_line @
     ''-- This file is generated by soc_gen and will be overwritten next time'' @ [nl] @
     ''-- the tool is run. See soc_top/README for information on running soc_gen.'' @ [nl] @
     star_line @ star_line @ star_line"

definition withBanner :: "string \<Rightarrow> string" where
  "withBanner s = fileBanner @ s"

section \<open>Values\<close>

definition stdLogicMark :: string where
  "stdLogicMark = ''std_logic''"

definition vhdlEscape :: "string \<Rightarrow> string" where
  "vhdlEscape s = concat (map (\<lambda>c. if c = CHR 0x22 then [c, c] else [c]) s)"

text \<open>The mantissa of a real literal gets a decimal point when the shortest form has none.\<close>

definition vhdlReal :: "u64 \<Rightarrow> string" where
  "vhdlReal w =
     (let s = format_float_g w;
          mantissa = takeWhile (\<lambda>c. c \<notin> set ''eE'') s
      in (if CHR ''.'' \<in> set mantissa then mantissa else mantissa @ ''.0'') @ drop (length mantissa) s)"

definition emitValue :: "go_value \<Rightarrow> expr" where
  "emitValue v =
     (case v_kind v of
        KindInt \<Rightarrow> BasicLit K_INT (itoa (v_int v))
      | KindFloat \<Rightarrow> BasicLit K_REAL (vhdlReal (v_float v))
      | KindBool \<Rightarrow> Ident (if v_bool v then ''TRUE'' else ''FALSE'')
      | KindStr \<Rightarrow> BasicLit K_STRINGLIT (quote_str (vhdlEscape (v_text v)))
      | KindMap \<Rightarrow> Ident ''open''
      | KindExpr \<Rightarrow> Ident (v_text v))"

text \<open>\<open>strconv.FormatInt\<close>.\<close>

definition format_int :: "nat \<Rightarrow> int \<Rightarrow> string" where
  "format_int b i = (if i < 0 then CHR ''-'' # radix_str b (nat (- i)) else radix_str b (nat i))"

definition zeroPad :: "string \<Rightarrow> nat \<Rightarrow> string" where
  "zeroPad s width =
     (if width \<le> length s then drop (length s - width) s else replicate (width - length s) (CHR ''0'') @ s)"

definition numLiteral :: "nat \<Rightarrow> int \<Rightarrow> expr" where
  "numLiteral width val =
     BasicLit K_STRINGLIT
       (if width mod 4 = 0 then ''x'' @ quote_str (zeroPad (format_int 16 val) (width div 4))
        else quote_str (zeroPad (format_int 2 val) width))"

definition vectorMark :: "string \<Rightarrow> bool" where
  "vectorMark mark \<longleftrightarrow>
     lc mark \<in> {''std_logic_vector'', ''std_ulogic_vector'', ''unsigned'', ''signed'', ''bit_vector''}"

definition zero_lit :: expr where
  "zero_lit = BasicLit K_CHARLIT (quote_char ''0'')"

definition numVal :: "resolved_type option \<Rightarrow> go_value \<Rightarrow> expr" where
  "numVal ty v =
     (case ty of
        None \<Rightarrow> emitValue v
      | Some t \<Rightarrow>
          if v_kind v = KindInt \<and> rt_mark t = stdLogicMark \<and> (v_int v = 0 \<or> v_int v = 1)
          then BasicLit K_CHARLIT (quote_char (if v_int v = 1 then ''1'' else ''0''))
          else (case (rt_left t, rt_right t) of
                  (Some l, Some r) \<Rightarrow>
                    if v_kind v = KindInt \<and> vectorMark (rt_mark t)
                    then numLiteral (nat (\<bar>l - r\<bar> + 1)) (v_int v) else emitValue v
                | _ \<Rightarrow> emitValue v))"

section \<open>Zero values\<close>

definition maxZeroValDepth :: nat where
  "maxZeroValDepth = 32"

definition othersZero :: expr where
  "othersZero = Aggregate [ElementAssoc [Ident ''others''] zero_lit]"

definition scalarZero :: "string \<Rightarrow> expr" where
  "scalarZero mark = (if lc mark \<in> {''std_logic'', ''std_ulogic'', ''bit''} then zero_lit else othersZero)"

text \<open>The first argument is the depth that is left: 32 less the depth of the code.\<close>

fun zeroValAt :: "nat \<Rightarrow> string \<Rightarrow> library option \<Rightarrow> expr" where
  "zeroValAt 0 mark lo = scalarZero mark"
| "zeroValAt (Suc n) mark lo =
     (case Option.bind lo (\<lambda>l. ResolveType l mark) of
        None \<Rightarrow> scalarZero mark
      | Some te \<Rightarrow>
          (case ty_node te of
             TypeDecl _ (Some (RecordDef fs)) \<Rightarrow>
               Aggregate (concat (map (\<lambda>f. map (\<lambda>fn. ElementAssoc [Ident fn] (zeroValAt n (rf_subtype_mark f) lo))
                                             (rf_names f)) fs))
           | TypeDecl _ (Some (EnumDef lits)) \<Rightarrow> (case lits of [] \<Rightarrow> scalarZero mark | l # ls \<Rightarrow> Ident l)
           | TypeDecl _ (Some (ArrayDef _)) \<Rightarrow> othersZero
           | SubtypeDecl _ base _ \<Rightarrow> zeroValAt n base lo
           | _ \<Rightarrow> scalarZero mark))"

definition zeroVal :: "string \<Rightarrow> library option \<Rightarrow> expr" where
  "zeroVal mark lo = zeroValAt maxZeroValDepth mark lo"

section \<open>Sorted association lists\<close>

text \<open>Maps of named instantiations are sorted by formal, those with a positional element are left alone.\<close>

definition sortAssoc :: "assoc_element list \<Rightarrow> assoc_element list" where
  "sortAssoc es = (if list_ex (\<lambda>e. ae_formal e = []) es then es else sort_key ae_formal es)"

text \<open>\<open>sortInstMaps\<close> writes to the instantiations that \<open>Inspect\<close> visits; here the tree is rebuilt.\<close>

fun sort_stmt :: "stmt \<Rightarrow> stmt"
  and sort_elsif :: "elsif_clause \<Rightarrow> elsif_clause"
  and sort_case :: "case_alt \<Rightarrow> case_alt"
  and sort_decl :: "decl \<Rightarrow> decl" where
  "sort_stmt (InstantiationStmt l k u a gm pm keep) =
     (if k \<noteq> Kind 0 \<and> \<not> keep then InstantiationStmt l k u a (sortAssoc gm) (sortAssoc pm) keep
      else InstantiationStmt l k u a gm pm keep)"
| "sort_stmt (GenerateStmt l k v r c ds ss) = GenerateStmt l k v r c (map sort_decl ds) (map sort_stmt ss)"
| "sort_stmt (ProcessStmt l p sens ds ss) = ProcessStmt l p sens (map sort_decl ds) (map sort_stmt ss)"
| "sort_stmt (IfStmt l c th els el) = IfStmt l c (map sort_stmt th) (map sort_elsif els) (map sort_stmt el)"
| "sort_stmt (CaseStmt l e alts) = CaseStmt l e (map sort_case alts)"
| "sort_stmt (LoopStmt l k v r c ss) = LoopStmt l k v r c (map sort_stmt ss)"
| "sort_stmt s = s"
| "sort_elsif (ElsifClause c ss) = ElsifClause c (map sort_stmt ss)"
| "sort_case (CaseAlt cs ss) = CaseAlt cs (map sort_stmt ss)"
| "sort_decl (SubprogramBody p i f n ps r ds ss) = SubprogramBody p i f n ps r (map sort_decl ds) (map sort_stmt ss)"
| "sort_decl d = d"

fun sort_unit :: "design_unit \<Rightarrow> design_unit" where
  "sort_unit (PackageDecl n ds) = PackageDecl n (map sort_decl ds)"
| "sort_unit (PackageBody n ds) = PackageBody n (map sort_decl ds)"
| "sort_unit (EntityDecl n gs ps ds ss) = EntityDecl n gs ps (map sort_decl ds) (map sort_stmt ss)"
| "sort_unit (ArchitectureBody n e ds ss) = ArchitectureBody n e (map sort_decl ds) (map sort_stmt ss)"
| "sort_unit (ConfigurationDecl n e us b) = ConfigurationDecl n e us b"

definition sortInstMaps :: "design_file \<Rightarrow> design_file" where
  "sortInstMaps df = df\<lparr>df_units := map sort_unit (df_units df)\<rparr>"

section \<open>Context clauses\<close>

definition stdContext :: "context_item list" where
  "stdContext =
     LibraryClause [''ieee''] #
     map (\<lambda>u. UseClause [u])
       [''ieee.std_logic_1164.all'', ''ieee.numeric_std.all'', ''work.config.all'', ''work.clk_config.all'']"

definition entityHasPortType :: "entity \<Rightarrow> string \<Rightarrow> bool" where
  "entityHasPortType e mark \<longleftrightarrow> list_ex (\<lambda>p. lc (tr_mark (ip_type p)) = lc mark) (en_ports e)"

text \<open>The first candidate that the use clauses of the first suitable owner name.\<close>

definition owner_package :: "string list \<Rightarrow> string \<Rightarrow> entity \<Rightarrow> string option" where
  "owner_package cands mark e =
     (if entityHasPortType e mark then List.find (\<lambda>c. lc c \<in> lc ` set (en_uses e)) cands else None)"

definition pkgForMark :: "library \<Rightarrow> string \<Rightarrow> entity list \<Rightarrow> string option" where
  "pkgForMark l mark owners =
     (case TypePackages l mark of
        [] \<Rightarrow> None
      | [c] \<Rightarrow> Some c
      | cands \<Rightarrow>
          (case List.map_filter (owner_package cands mark) owners of
             c # cs \<Rightarrow> Some c
           | [] \<Rightarrow> TypePackage l mark))"

definition packagesScoped :: "library option \<Rightarrow> string list \<Rightarrow> entity list \<Rightarrow> string list" where
  "packagesScoped lo marks owners =
     (case lo of
        None \<Rightarrow> []
      | Some l \<Rightarrow> sort (remdups (List.map_filter (\<lambda>m. pkgForMark l m owners) marks)))"

definition boundEntities :: "resolved_entity strmap \<Rightarrow> entity list" where
  "boundEntities ents = List.map_filter (\<lambda>(k, re). re_entity re) ents"

definition mergeSortedPkg :: "string list \<Rightarrow> string \<Rightarrow> string list" where
  "mergeSortedPkg pkgs extra = (if extra \<in> set pkgs then pkgs else sort (pkgs @ [extra]))"

definition workUses :: "string list \<Rightarrow> context_item list" where
  "workUses pkgs = map (\<lambda>p. UseClause [''work.'' @ p @ ''.all'']) pkgs"

definition type_marks :: "resolved_type option list \<Rightarrow> string list" where
  "type_marks ts = List.map_filter (map_option rt_mark) ts"

definition signalMarks :: "resolution \<Rightarrow> string list" where
  "signalMarks res = type_marks (map (\<lambda>(k, s). sig_type s) (res_signals res))"

definition device_packages :: "elaborated \<Rightarrow> resolved_device \<Rightarrow> string list" where
  "device_packages el d =
     packagesScoped (el_library el) (type_marks (map rp_type (rd_ports d)))
       (case class_of (el_res el) d of
          None \<Rightarrow> []
        | Some rc \<Rightarrow> (case rc_entity rc of None \<Rightarrow> [] | Some e \<Rightarrow> [e]))"

definition deviceContext :: "elaborated \<Rightarrow> context_item list" where
  "deviceContext el =
     stdContext @ workUses (mergeSortedPkg
       (sort (remdups (concat (map (device_packages el) (res_devices (el_res el)))))) ''data_bus_pack'')"

definition constant_packages :: "library option \<Rightarrow> resolved_entity strmap \<Rightarrow> string list" where
  "constant_packages lo ents =
     filter (\<lambda>p. p \<noteq> [])
       (concat (map (\<lambda>(k, re).
          List.map_filter (\<lambda>p. if rp_kind p = KindValue
                               then map_option (\<lambda>v. ConstantPackage lo (v_text v)) (rp_value p) else None)
            (re_ports re)) ents))"

definition constantActualPackages :: "elaborated \<Rightarrow> string list" where
  "constantActualPackages el =
     (if el_library el = None then []
      else sort (remdups (constant_packages (el_library el) (res_top_entities (el_res el)) @
                          constant_packages (el_library el) (res_padring_entities (el_res el)))))"

definition topContext :: "elaborated \<Rightarrow> context_item list" where
  "topContext el =
     (let res = el_res el;
          owners = boundEntities (res_top_entities res) @ boundEntities (res_padring_entities res);
          pkgs = packagesScoped (el_library el) (signalMarks res) owners
      in stdContext @ workUses (foldl mergeSortedPkg pkgs (constantActualPackages el)))"

definition padringContext :: "elaborated \<Rightarrow> context_item list" where
  "padringContext el =
     topContext el @
     (if externalConstraints (el_target el) then []
      else [LibraryClause [''unisim''], UseClause [''unisim.vcomponents.all'']])"

end
