(* ===== verification/Emit_Devices.thy ===== *)
theory Emit_Devices
  imports Emit_Base
begin

text \<open>
  Model of \<open>devices.go\<close>, \<open>irq.go\<close>, \<open>pio.go\<close> and \<open>wordack.go\<close> of \<open>src/tools/socgen/emit\<close>: the architecture of
  the devices and the byte-bus post-processing. A result \<open>None\<close> means that the decode function does not
  return (see \<open>buildIfs\<close>).
\<close>

section \<open>Interrupts and parallel I/O\<close>

definition std_vector :: "int \<Rightarrow> expr option" where
  "std_vector left = Some (ParenExpr (RangeE (intLit left) K_DOWNTO (intLit 0)))"

definition irqDecls :: "irq_model option \<Rightarrow> decl list" where
  "irqDecls mo =
     (case mo of
        None \<Rightarrow> []
      | Some m \<Rightarrow>
          map (\<lambda>s. if is_width s = 8
                   then SignalDecl [is_name s] ''std_logic_vector'' (std_vector 7) (Some othersZero)
                   else SignalDecl [is_name s] stdLogicMark None None) (im_signals m))"

text \<open>An OR folded from the left; no source at all is the constant 0.\<close>

definition orExpr :: "string list \<Rightarrow> expr" where
  "orExpr sources =
     (case sources of
        [] \<Rightarrow> Ident (quote_char ''0'')
      | s # ss \<Rightarrow> foldl (\<lambda>e s. BinaryExpr e K_OR (Ident s)) (Ident s) ss)"

definition irqAssigns :: "irq_model option \<Rightarrow> stmt list" where
  "irqAssigns mo =
     (case mo of
        None \<Rightarrow> []
      | Some m \<Rightarrow> map (\<lambda>a. concAssign (Ident (io_target a)) (orExpr (io_sources a))) (im_or_assigns m))"

definition hex8 :: "int \<Rightarrow> string" where
  "hex8 v =
     ''x'' @ quote_str [to_upper_char (digit_char (nat (v div 16 mod 16))), to_upper_char (digit_char (nat (v mod 16)))]"

definition vectorNumbersAgg :: "int list \<Rightarrow> expr" where
  "vectorNumbersAgg vn = Aggregate (map (\<lambda>v. ElementAssoc [] (BasicLit K_BITSTRINGLIT (hex8 v))) vn)"

definition pioStatement :: "pio_bit \<Rightarrow> stmt list" where
  "pioStatement b =
     (let idx = itoa (pb_idx b) in
      (if pb_bit_name b \<noteq> [] then [Comment (pb_bit_name b)] else []) @
      [concAssign (Ident (''pi('' @ idx @ '')''))
         (case pb_const b of
            Some c \<Rightarrow> BasicLit K_CHARLIT (quote_char (itoa c))
          | None \<Rightarrow> Ident (''po('' @ idx @ '')''))])"

definition pioStatements :: "elaborated \<Rightarrow> stmt list" where
  "pioStatements el = concat (map pioStatement (el_pio el))"

section \<open>Ports and types\<close>

definition open_expr :: expr where
  "open_expr = Ident ''open''"

definition portActual :: "resolved_port \<Rightarrow> string \<Rightarrow> string strmap \<Rightarrow> string strmap \<Rightarrow> expr" where
  "portActual p busLit subst portOv =
     (case map_of portOv (rp_name p) of
        Some ov \<Rightarrow> if ov = [] \<or> ov = ''open'' then open_expr else Ident ov
      | None \<Rightarrow>
          (case rp_kind p of
             KindSignal \<Rightarrow>
               (let gs = (case map_of subst (rp_global_signal p) of Some a \<Rightarrow> a | None \<Rightarrow> rp_global_signal p)
                in if gs = [] then open_expr else Ident gs)
           | KindValue \<Rightarrow> (case rp_value p of None \<Rightarrow> open_expr | Some v \<Rightarrow> numVal (rp_type p) v)
           | KindDataBus \<Rightarrow>
               if busLit = [] then open_expr
               else call1 (if rp_dir p = dirOut then ''devs_bus_i'' else ''devs_bus_o'') (Ident busLit)
           | _ \<Rightarrow> open_expr))"

definition typeToSubtype :: "resolved_type option \<Rightarrow> string \<times> expr option" where
  "typeToSubtype ty =
     (case ty of
        None \<Rightarrow> (stdLogicMark, None)
      | Some t \<Rightarrow>
          (case (rt_left t, rt_right t) of
             (Some l, Some r) \<Rightarrow>
               (rt_mark t, Some (ParenExpr (RangeE (intLit l) (if rt_dir t = dirDownto then K_DOWNTO else K_TO) (intLit r))))
           | _ \<Rightarrow> (rt_mark t, rt_constraint t)))"

definition signal_type :: "resolution \<Rightarrow> string \<Rightarrow> resolved_type option" where
  "signal_type res n = Option.bind (map_of (res_signals res) n) sig_type"

text \<open>The alias of an output signal has the type of the signal.\<close>

definition typeForDecl :: "resolution \<Rightarrow> string \<Rightarrow> string strmap \<Rightarrow> resolved_type option" where
  "typeForDecl res declName subst =
     (case List.find (\<lambda>(name, alias). alias = declName) subst of
        Some (name, alias) \<Rightarrow> signal_type res name
      | None \<Rightarrow> signal_type res declName)"

definition signal_decl :: "string \<Rightarrow> resolved_type option \<Rightarrow> decl" where
  "signal_decl n ty = (case typeToSubtype ty of (mark, con) \<Rightarrow> SignalDecl [n] mark con None)"

text \<open>One port of the devices or soc entity.\<close>

definition location_port :: "resolution \<Rightarrow> port_loc \<Rightarrow> interface_decl" where
  "location_port res pl =
     (case typeToSubtype (signal_type res (pl_name pl)) of (mark, con) \<Rightarrow>
        \<lparr>id_obj_class = [], id_names = [pl_name pl], id_mode = pl_dir pl, id_subtype_mark = mark,
         id_constraint = con, id_default = None\<rparr>)"

definition devicesEntityPorts :: "elaborated \<Rightarrow> interface_decl list" where
  "devicesEntityPorts el =
     (case el_locations el of None \<Rightarrow> [] | Some sl \<Rightarrow> map (location_port (el_res el)) (sl_top_devices sl))"

section \<open>Device instances\<close>

text \<open>The generic map: the generics by their lower-case names, and the vector numbers unless they are given.\<close>

definition genericAssocs :: "go_value strmap \<Rightarrow> resolved_type strmap \<Rightarrow> expr option \<Rightarrow> assoc_element list" where
  "genericAssocs generics genTypes vecAgg =
     sort_key ae_formal
       (List.map_filter (\<lambda>g. map_option (\<lambda>v. AssocElement (lc g) (numVal (map_of genTypes (lc g)) v)) (map_of generics g))
          (sorted_keys generics) @
        (case vecAgg of
           Some a \<Rightarrow> if ''vector_numbers'' \<in> lc ` set (map fst generics) then [] else [AssocElement ''vector_numbers'' a]
         | None \<Rightarrow> []))"

definition instStmt ::
    "string \<Rightarrow> string \<Rightarrow> string \<Rightarrow> configuration option \<Rightarrow> go_value strmap \<Rightarrow> resolved_type strmap \<Rightarrow> resolved_port list
      \<Rightarrow> string \<Rightarrow> string strmap \<Rightarrow> string strmap \<Rightarrow> expr option \<Rightarrow> stmt" where
  "instStmt label ent arch cfg generics genTypes ports busLit subst portOv vecAgg =
     (let gm = genericAssocs generics genTypes vecAgg;
          pm = map (\<lambda>p. AssocElement (lc (rp_name p)) (portActual p busLit subst portOv)) ports
      in case cfg of
           Some c \<Rightarrow> InstantiationStmt label K_CONFIGURATION (''work.'' @ lc (cf_name c)) [] gm pm False
         | None \<Rightarrow> InstantiationStmt label K_ENTITY (''work.'' @ lc ent) arch gm pm False)"

text \<open>The instance of a device, or its error when no entity is bound.\<close>

definition device_inst :: "elaborated \<Rightarrow> string strmap \<Rightarrow> resolved_device \<Rightarrow> emit_error + stmt" where
  "device_inst el subst dev =
     (let rco = class_of (el_res el) dev;
          ov = (case el_irq el of None \<Rightarrow> [] | Some m \<Rightarrow>
                  (case map_of (im_port_overrides m) (rd_name dev) of Some o1 \<Rightarrow> o1 | None \<Rightarrow> []));
          vec = (case el_irq el of None \<Rightarrow> None | Some m \<Rightarrow> map_option vectorNumbersAgg (map_of (im_vector_numbers m) (rd_name dev)))
      in case Option.bind rco (\<lambda>rc. map_option (Pair rc) (rc_entity rc)) of
           None \<Rightarrow> Inl (emit_err ErrUnboundEntity (rd_name dev))
         | Some (rc, e) \<Rightarrow>
             if en_name e = [] then Inl (emit_err ErrUnboundEntity (rd_name dev))
             else Inr (instStmt (lc (rd_name dev)) (en_name e) (rc_arch_name rc) (rc_config rc) (rd_generics dev)
                         (rd_generic_types dev) (rd_ports dev)
                         (if rd_data_bus dev then devLit (rd_name dev) else []) subst ov vec))"

definition lefts :: "('a + 'b) list \<Rightarrow> 'a list" where
  "lefts xs = List.map_filter (\<lambda>x. case x of Inl a \<Rightarrow> Some a | Inr b \<Rightarrow> None) xs"

definition rights :: "('a + 'b) list \<Rightarrow> 'b list" where
  "rights xs = List.map_filter (\<lambda>x. case x of Inl a \<Rightarrow> None | Inr b \<Rightarrow> Some b) xs"

section \<open>The byte bus\<close>

text \<open>\<open>strings.Replace(s, old, new, 1)\<close> and \<open>strings.Cut\<close> for a non-empty separator.\<close>

fun replace_first :: "string \<Rightarrow> string \<Rightarrow> string \<Rightarrow> string" where
  "replace_first old new [] = []"
| "replace_first old new (c # s) =
     (if prefix old (c # s) then new @ drop (length old) (c # s) else c # replace_first old new s)"

fun cut :: "string \<Rightarrow> string \<Rightarrow> (string \<times> string) option" where
  "cut sep [] = None"
| "cut sep (c # s) =
     (if prefix sep (c # s) then Some ([], drop (length sep) (c # s))
      else map_option (\<lambda>(a, b). (c # a, b)) (cut sep s))"

definition pad_right :: "nat \<Rightarrow> string \<Rightarrow> string" where
  "pad_right n s = s @ replicate (n - length s) (CHR '' '')"

definition renderArchDecls :: "decl list \<Rightarrow> string" where
  "renderArchDecls ds =
     (case cut (''architecture impl of x is'' @ [nl])
             (Print \<lparr>df_context = [], df_units = [ArchitectureBody ''impl'' ''x'' ds []]\<rparr>) of
        None \<Rightarrow> []
      | Some (pre, rest) \<Rightarrow>
          (case cut ([nl] @ ''begin'' @ [nl]) rest of None \<Rightarrow> [] | Some (d, post) \<Rightarrow> d))"

text \<open>The sensitivity list, three names in a line.\<close>

definition sens_item :: "nat \<Rightarrow> nat \<times> string \<Rightarrow> string" where
  "sens_item n = (\<lambda>(i, name).
     (if i mod 3 = 0 then ''      '' else []) @ ''ack_thru_in_'' @ name @
     (if i = n - 1 \<or> i mod 3 = 2 then '','' @ [nl] else '', ''))"

definition word_ack_text :: "string list \<Rightarrow> string \<Rightarrow> string \<Rightarrow> string" where
  "word_ack_text names deviceT body =
     (let ln = (\<lambda>s. s @ [nl]) in
      fileBanner @ ln ''library ieee;'' @ ln ''use ieee.std_logic_1164.all;'' @ [nl] @
      ln ''entity word_ack_gen is'' @ ln ''  port ('' @ ln ''    adr : in std_logic_vector( 31 downto 0);'' @
      ln ''    word_bus_en : in std_logic ;'' @
      concat (map (\<lambda>n. ln (''    '' @ pad_right 20 (''ack_thru_in_'' @ n) @ '' : in std_logic ;'')) names) @
      ln ''    word_ack : out std_logic'' @ ln ''  );'' @ ln ''end entity;'' @ [nl] @
      ln ''architecture impl of word_ack_gen is'' @ ln deviceT @
      ln ''    function decode_address_wag (addr : '' @ ln ''      std_logic_vector(31 downto 0)) return device_t is'' @
      ln body @ ln ''begin'' @ ln ''    ack_gen : process ('' @
      concat (map (sens_item (length names)) (enumerate 0 names)) @
      ln ''      word_bus_en, adr'' @ ln ''      )'' @ ln ''      variable active_dev : device_t;'' @ ln ''    begin'' @
      ln ''      active_dev := decode_address_wag ( adr );'' @ ln ''      case active_dev is'' @
      concat (map (\<lambda>n. ln (''        when '' @ pad_right 12 (devLit n) @ '' => word_ack <= ack_thru_in_'' @ n @ '';'')) names) @
      ln ''        when others       => word_ack <= word_bus_en;'' @ ln ''      end case;'' @ ln ''    end process;'' @
      ln ''end impl;'')"

definition WordAckGen :: "elaborated \<Rightarrow> string option" where
  "WordAckGen el =
     (case res_data_bus (el_res el) of
        None \<Rightarrow> Some []
      | Some db \<Rightarrow>
          if el_bus_word el = [] then Some []
          else
            let devs = busDevicesOf (el_res el);
                begin_line = ''    begin'' @ [nl];
                deviceT = renderArchDecls [TypeDecl ''device_t'' (Some (EnumDef (''NONE'' # map (\<lambda>d. devLit (bd_name d)) devs)))]
            in map_option (\<lambda>fn.
                 case cut begin_line (renderArchDecls [fn]) of
                   None \<Rightarrow> []
                 | Some (pre, body) \<Rightarrow> word_ack_text (el_bus_word el) deviceT (begin_line @ body))
               (decodeFunction devs (busLits (el_res el)) (pbm_decode_mode db = ''simple'')))"

definition word_ack_splice :: "string \<Rightarrow> string list \<Rightarrow> string" where
  "word_ack_splice master names =
     (let ln = (\<lambda>s. s @ [nl]) in
      ln (''    '' @ master @ ''_periph_dbus_i.d <= devs_bus_i(active_dev).d;'') @ [nl] @
      ln ''    word_ack_gen : entity work.word_ack_gen ( impl )'' @ ln ''      port map ('' @
      ln (''        '' @ pad_right 20 ''adr'' @ '' => '' @ master @ ''_periph_dbus_o.a,'') @
      ln (''        '' @ pad_right 20 ''word_bus_en'' @ '' => '' @ master @ ''_periph_dbus_o.en,'') @
      concat (map (\<lambda>n. ln (''        '' @ pad_right 20 (''ack_thru_in_'' @ n) @ '' => devs_bus_i('' @ devLit n @ '').ack,'')) names) @
      ln (''        '' @ pad_right 20 ''word_ack'' @ '' => '' @ master @ ''_periph_dbus_i.ack'') @ ln ''    );'')"

definition phase2Devices :: "string \<Rightarrow> elaborated \<Rightarrow> string" where
  "phase2Devices s el =
     (case res_data_bus (el_res el) of
        None \<Rightarrow> s
      | Some db \<Rightarrow>
          let master = pbm_master_bus db;
              soc_line = ''-- the tool is run. See soc_top/README for information on running soc_gen.'' @ [nl];
              s1 = replace_first soc_line
                     (soc_line @ star_line @ ''-- byte bus post-processing script (script Apr/2017) --'' @ [nl]) s;
              s2 = replace_first (''work.multi_master_bus_mux'' @ [nl]) (''work.multi_master_bus_muxff(a)'' @ [nl]) s1
          in replace_first (''    '' @ master @ ''_periph_dbus_i <= devs_bus_i(active_dev);'' @ [nl])
               (word_ack_splice master (el_bus_word el)) s2)"

section \<open>The devices file\<close>

definition extra_aliases :: "(signal_locations \<Rightarrow> string strmap) \<Rightarrow> elaborated \<Rightarrow> string strmap" where
  "extra_aliases f el = (case el_locations el of None \<Rightarrow> [] | Some sl \<Rightarrow> f sl)"

definition devicesDeclNames :: "elaborated \<Rightarrow> string list" where
  "devicesDeclNames el =
     sort (case el_locations el of
             Some sl \<Rightarrow> sl_devices sl @ map snd (sl_devices_extra sl)
           | None \<Rightarrow> map fst (res_signals (el_res el)))"

text \<open>An aliased output is driven from its alias.\<close>

definition alias_assigns :: "string strmap \<Rightarrow> stmt list" where
  "alias_assigns subst =
     map (\<lambda>n. concAssign (Ident n) (Ident (case map_of subst n of Some a \<Rightarrow> a | None \<Rightarrow> []))) (sorted_keys subst)"

definition deviceInsts :: "elaborated \<Rightarrow> string strmap \<Rightarrow> (emit_error + stmt) list" where
  "deviceInsts el subst = map (device_inst el subst) (sort_key (\<lambda>d. lc (rd_name d)) (res_devices (el_res el)))"

definition devicesFile :: "elaborated \<Rightarrow> (design_file \<times> emit_error list) option" where
  "devicesFile el =
     (let res = el_res el;
          subst = extra_aliases sl_devices_extra el;
          insts = deviceInsts el subst;
          decls = map (\<lambda>n. signal_decl n (typeForDecl res n subst)) (devicesDeclNames el);
          stmts = (if rights insts \<noteq> [] then Comment ''Instantiate devices'' # rights insts else []) @
                  alias_assigns subst @ irqAssigns (el_irq el)
      in map_option (\<lambda>bus_decls.
           (sortInstMaps \<lparr>df_context = deviceContext el,
              df_units =
                [EntityDecl ''devices'' [] (devicesEntityPorts el) [] [],
                 ArchitectureBody ''impl'' ''devices''
                   (decls @ muxBusDecls res @ bus_decls @ irqDecls (el_irq el)) (databusStmts res @ stmts)]\<rparr>,
            lefts insts))
         (databusDecls res))"

definition EmitDevices :: "elaborated \<Rightarrow> (string \<times> emit_error list) option" where
  "EmitDevices el =
     map_option (\<lambda>(df, errs).
       (let out = withBanner (Print df) in
        (if el_bus_word el \<noteq> [] then phase2Devices out el else out, errs))) (devicesFile el)"

end
