(* ===== verification/Emit_Soc.thy ===== *)
theory Emit_Soc
  imports Emit_Devices
begin

text \<open>
  Model of \<open>soc.go\<close>, \<open>padring.go\<close>, \<open>iobufs.go\<close>, \<open>constraints.go\<close> and \<open>pcf.go\<close> of \<open>src/tools/socgen/emit\<close>:
  the soc entity, the pad ring with its buffers, and the constraint files.
\<close>

section \<open>Entity instances\<close>

text \<open>The bits of a pad that an entity owns, ascending.\<close>

definition trim_prefix :: "string \<Rightarrow> string \<Rightarrow> string" where
  "trim_prefix pre s = (if prefix pre s then drop (length pre) s else s)"

definition entityPadBits :: "elaborated \<Rightarrow> string \<Rightarrow> (string \<times> string) list" where
  "entityPadBits el base =
     map snd (sort_key fst
       (List.map_filter (\<lambda>pin.
          if rpin_buffer_kind pin \<noteq> BufEntity \<or> rpin_signal pin \<noteq> base then None
          else let suffix = trim_prefix base (rpin_net pin)
               in map_option (\<lambda>n. (n, (suffix, rpin_net pin))) (parse_int64 suffix))
          (res_pins (el_res el))))"

definition pad_name :: "string \<Rightarrow> string" where
  "pad_name net = ''pin_'' @ net"

definition top_port_assocs :: "elaborated \<Rightarrow> resolved_port \<Rightarrow> assoc_element list" where
  "top_port_assocs el p =
     (if rp_kind p = KindSignal \<and> rp_global_signal p \<in> set (res_entity_bound_pads (el_res el))
      then (case entityPadBits el (rp_global_signal p) of
              [] \<Rightarrow> [AssocElement (lc (rp_name p)) (Ident (pad_name (rp_global_signal p)))]
            | bits \<Rightarrow> map (\<lambda>(idx, net). AssocElement (lc (rp_name p) @ ''('' @ idx @ '')'') (Ident (pad_name net))) bits)
      else [AssocElement (lc (rp_name p)) (portActual p [] [] [])])"

text \<open>\<open>None\<close> when neither an entity nor a configuration is bound: the callers report that first.\<close>

definition topInstStmt :: "elaborated \<Rightarrow> resolved_entity \<Rightarrow> stmt option" where
  "topInstStmt el re =
     (let gm = map (\<lambda>(name, v). AssocElement (lc name) (emitValue v)) (re_generics re);
          pm = concat (map (top_port_assocs el) (re_ports re))
      in case re_config re of
           Some c \<Rightarrow> Some (InstantiationStmt (lc (re_name re)) K_CONFIGURATION (''work.'' @ lc (cf_name c)) [] gm pm False)
         | None \<Rightarrow>
             map_option (\<lambda>e. InstantiationStmt (lc (re_name re)) K_ENTITY (''work.'' @ lc (en_name e)) (re_arch_name re) gm pm False)
               (re_entity re))"

definition entity_insts :: "elaborated \<Rightarrow> resolved_entity strmap \<Rightarrow> (emit_error + stmt) list" where
  "entity_insts el ents =
     List.map_filter (\<lambda>name. map_option (\<lambda>re.
        (case topInstStmt el re of None \<Rightarrow> Inl (emit_err ErrUnboundEntity (re_name re)) | Some s \<Rightarrow> Inr s)) (map_of ents name))
       (sorted_keys ents)"

section \<open>The soc entity\<close>

definition is_zero_signal :: "signal \<Rightarrow> bool" where
  "is_zero_signal s \<longleftrightarrow> list_ex (\<lambda>p. ctx_kind (spr_context p) = ''zero'') (sig_ports s)"

definition zeroOutSignals :: "resolution \<Rightarrow> string list" where
  "zeroOutSignals res = sort (map fst (filter (\<lambda>(n, s). is_zero_signal s) (res_signals res)))"

definition socEntityPorts :: "elaborated \<Rightarrow> interface_decl list" where
  "socEntityPorts el =
     (case el_locations el of None \<Rightarrow> [] | Some sl \<Rightarrow> map (location_port (el_res el)) (sl_padring_top sl))"

definition name_assocs :: "port_loc list \<Rightarrow> assoc_element list" where
  "name_assocs pls = map (\<lambda>pl. AssocElement (pl_name pl) (Ident (pl_name pl))) pls"

definition devicesInstStmt :: "elaborated \<Rightarrow> stmt" where
  "devicesInstStmt el =
     InstantiationStmt ''devices'' K_ENTITY ''work.devices'' ''impl'' []
       (case el_locations el of None \<Rightarrow> [] | Some sl \<Rightarrow> name_assocs (sl_top_devices sl)) False"

definition socDeclNames :: "elaborated \<Rightarrow> string list" where
  "socDeclNames el =
     sort ((case el_locations el of None \<Rightarrow> [] | Some sl \<Rightarrow> sl_top sl @ map snd (sl_top_extra sl)) @
           zeroOutSignals (el_res el))"

definition zero_assign :: "elaborated \<Rightarrow> string \<Rightarrow> stmt" where
  "zero_assign el n =
     concAssign (Ident n)
       (zeroVal (case signal_type (el_res el) n of Some t \<Rightarrow> rt_mark t | None \<Rightarrow> []) (el_library el))"

definition socFile :: "elaborated \<Rightarrow> design_file \<times> emit_error list" where
  "socFile el =
     (let res = el_res el;
          subst = extra_aliases sl_top_extra el;
          zeros = zeroOutSignals res;
          insts = entity_insts el (res_top_entities res);
          decls = map (\<lambda>n. signal_decl n (typeForDecl res n subst)) (socDeclNames el);
          stmts = alias_assigns subst @ rights insts @ [devicesInstStmt el] @
                  (if zeros \<noteq> [] then [Comment ''Zero out unused signals''] else []) @ map (zero_assign el) zeros
      in (sortInstMaps \<lparr>df_context = topContext el,
            df_units = [EntityDecl ''soc'' [] (socEntityPorts el) [] [], ArchitectureBody ''impl'' ''soc'' decls stmts]\<rparr>,
          lefts insts))"

definition SoC :: "elaborated \<Rightarrow> string \<times> emit_error list" where
  "SoC el = (case socFile el of (df, errs) \<Rightarrow> (withBanner (Print df), errs))"

section \<open>The order of the pins\<close>

text \<open>The leading text, the first number and whether there is one. An over-long number is the largest one.\<close>

definition clamp_int64 :: "nat \<Rightarrow> int" where
  "clamp_int64 n = (if n < 2 ^ 63 then int n else 2 ^ 63 - 1)"

definition pinSortKey :: "string \<Rightarrow> string \<times> int \<times> string \<times> bool" where
  "pinSortKey s =
     (let firstWord = takeWhile (\<lambda>c. \<not> is_digit c) s;
          ds = takeWhile is_digit (drop (length firstWord) s)
      in if ds = [] then (firstWord, 0, s, False) else (firstWord, clamp_int64 (dec_val ds), s, True))"

definition natLess :: "string \<Rightarrow> string \<Rightarrow> bool" where
  "natLess a b =
     (case pinSortKey a of (fa, na, ia, hasA) \<Rightarrow>
      case pinSortKey b of (fb, nb, ib, hasB) \<Rightarrow>
        if fa \<noteq> fb then fa < fb
        else if hasA \<noteq> hasB then \<not> hasA
        else if \<not> hasA then False
        else if na \<noteq> nb then na < nb
        else ia < ib)"

text \<open>\<open>sort.Slice\<close> with a comparison; equal elements keep their order.\<close>

fun insert_less :: "('a \<Rightarrow> 'a \<Rightarrow> bool) \<Rightarrow> 'a \<Rightarrow> 'a list \<Rightarrow> 'a list" where
  "insert_less lt x [] = [x]"
| "insert_less lt x (y # ys) = (if lt y x then y # insert_less lt x ys else x # y # ys)"

definition sort_less :: "('a \<Rightarrow> 'a \<Rightarrow> bool) \<Rightarrow> 'a list \<Rightarrow> 'a list" where
  "sort_less lt xs = foldr (insert_less lt) xs []"

definition sortedPins :: "elaborated \<Rightarrow> resolved_pin list" where
  "sortedPins el = sort_less (\<lambda>p q. natLess (rpin_net p) (rpin_net q)) (res_pins (el_res el))"

section \<open>Pad ports and attributes\<close>

definition bufferGenericAttrs :: "string list" where
  "bufferGenericAttrs = [''iostandard'', ''drive'', ''slew'', ''diff_term'']"

definition attrText :: "go_value \<Rightarrow> string" where
  "attrText v =
     (case v_kind v of
        KindBool \<Rightarrow> if v_bool v then ''true'' else ''false''
      | KindInt \<Rightarrow> itoa (v_int v)
      | _ \<Rightarrow> v_text v)"

definition pad_port :: "resolved_pin \<Rightarrow> interface_decl" where
  "pad_port p =
     \<lparr>id_obj_class = [], id_names = [pad_name (rpin_net p)],
      id_mode = (if rpin_pad_dir p = [] then dirIn else rpin_pad_dir p), id_subtype_mark = stdLogicMark,
      id_constraint = None, id_default = None\<rparr>"

definition padRingPorts :: "elaborated \<Rightarrow> interface_decl list" where
  "padRingPorts el = map pad_port (sortedPins el)"

text \<open>The attributes of a pin, other than its pad and those of its buffer, by name.\<close>

definition other_attrs :: "resolved_pin \<Rightarrow> (string \<times> string \<times> string) list" where
  "other_attrs p =
     List.map_filter (\<lambda>k. map_option (\<lambda>v. (lc k, pad_name (rpin_net p), vhdlEscape (attrText v))) (map_of (rpin_attrs p) k))
       (filter (\<lambda>k. lc k \<noteq> ''loc'' \<and> lc k \<notin> set bufferGenericAttrs) (sorted_keys (rpin_attrs p)))"

definition pin_specs :: "resolved_pin \<Rightarrow> (string \<times> string \<times> string) list" where
  "pin_specs p =
     (if rpin_pad p \<noteq> [] then [(''loc'', pad_name (rpin_net p), vhdlEscape (rpin_pad p))] else []) @ other_attrs p"

text \<open>The distinct attribute names in the order in which they appear first.\<close>

fun nub :: "'a list \<Rightarrow> 'a list" where
  "nub [] = []"
| "nub (x # xs) = x # filter (\<lambda>y. y \<noteq> x) (nub xs)"

definition pinAttrs :: "elaborated \<Rightarrow> decl list" where
  "pinAttrs el =
     (if externalConstraints (el_target el) then []
      else
        let pins = sortedPins el;
            specs = concat (map pin_specs pins);
            names = (if list_ex (\<lambda>p. rpin_pad p \<noteq> []) pins then [''loc''] else []) @
                    nub (map fst (concat (map other_attrs pins)))
        in map (\<lambda>n. AttributeDecl n ''string'') names @
           (if specs \<noteq> [] then [DComment ''Pin attributes''] else []) @
           map (\<lambda>(n, port, v). AttributeSpec n [port] K_SIGNAL (BasicLit K_STRINGLIT (quote_str v))) specs)"

section \<open>Inverted outputs\<close>

definition flatten_char :: "char \<Rightarrow> string" where
  "flatten_char c = (if c = CHR ''.'' \<or> c = CHR ''('' then ''_'' else if c = CHR '')'' then [] else [c])"

definition invertSignalName :: "string \<Rightarrow> string" where
  "invertSignalName ref =
     ''pad_'' @
     (if CHR ''.'' \<in> set ref \<or> CHR ''('' \<in> set ref then concat (map flatten_char ref) else ref) @ ''_n''"

text \<open>One intermediate signal per name, with the source of the first pin that needs it.\<close>

definition invertIntermediates :: "elaborated \<Rightarrow> (string \<times> string) list" where
  "invertIntermediates el =
     (let refs = map rpin_out (filter (\<lambda>p. rpin_out_invert p \<and> rpin_out p \<noteq> []) (sortedPins el));
          named = map (\<lambda>r. (invertSignalName r, r)) refs
      in List.map_filter (\<lambda>n. map_option (Pair n) (map_of named n)) (nub (map fst named)))"

definition invertAssigns :: "elaborated \<Rightarrow> stmt list" where
  "invertAssigns el = map (\<lambda>(n, src). concAssign (Ident n) (UnaryExpr K_NOT (Ident src))) (invertIntermediates el)"

section \<open>Buffers\<close>

definition bufferGenericOrder :: "string list" where
  "bufferGenericOrder = [''diff_term'', ''drive'', ''iostandard'', ''slew'']"

definition driveText :: "go_value \<Rightarrow> string" where
  "driveText v = (if v_kind v = KindInt then itoa (v_int v) else v_text v)"

definition bufferGenericVal :: "string \<Rightarrow> go_value \<Rightarrow> expr" where
  "bufferGenericVal name v =
     (if name = ''drive'' then BasicLit K_INT (driveText v)
      else BasicLit K_STRINGLIT (quote_str (vhdlEscape (v_text v))))"

definition bufferGenerics :: "go_value strmap \<Rightarrow> buffer_kind \<Rightarrow> assoc_element list" where
  "bufferGenerics attrs kind =
     List.map_filter (\<lambda>name.
        if kind \<in> {BufIBUF, BufIBUFDS} \<and> (name = ''drive'' \<or> name = ''slew'') then None
        else map_option (\<lambda>v. AssocElement (to_upper name) (bufferGenericVal name v)) (map_of attrs name))
       bufferGenericOrder"

definition outExpr :: "resolved_pin \<Rightarrow> expr" where
  "outExpr rp =
     (if rpin_out_const rp \<noteq> [] then BasicLit K_CHARLIT (rpin_out_const rp)
      else if rpin_out_invert rp then Ident (invertSignalName (rpin_out rp))
      else if rpin_out rp \<noteq> [] then Ident (rpin_out rp)
      else Ident (rpin_signal rp))"

definition inExpr :: "resolved_pin \<Rightarrow> expr" where
  "inExpr rp = Ident (if rpin_in rp \<noteq> [] then rpin_in rp else rpin_signal rp)"

text \<open>A bare component instance: no unit kind, so its maps keep the order of the primitive.\<close>

definition instBuf :: "string \<Rightarrow> string \<Rightarrow> assoc_element list \<Rightarrow> assoc_element list \<Rightarrow> stmt" where
  "instBuf label unit ports generics = InstantiationStmt label (Kind 0) unit [] generics ports False"

definition pad_expr :: "resolved_pin \<Rightarrow> expr" where
  "pad_expr rp = Ident (pad_name (rpin_net rp))"

definition pinStmt :: "resolved_pin \<Rightarrow> stmt option" where
  "pinStmt rp =
     (let pin = pad_expr rp; net = rpin_net rp; gens = bufferGenerics (rpin_attrs rp) (rpin_buffer_kind rp) in
      case rpin_buffer_kind rp of
        BufDirect \<Rightarrow>
          if rpin_pad_dir rp = dirIn
          then (if rpin_in rp = [] \<and> rpin_signal rp = [] then None else Some (concAssign (inExpr rp) pin))
          else if rpin_out rp = [] \<and> rpin_signal rp = [] then None
          else Some (concAssign pin (outExpr rp))
      | BufIBUF \<Rightarrow> Some (instBuf (''ibuf_'' @ net) ''IBUF'' [AssocElement ''I'' pin, AssocElement ''O'' (inExpr rp)] gens)
      | BufOBUF \<Rightarrow> Some (instBuf (''obuf_'' @ net) ''OBUF'' [AssocElement ''I'' (outExpr rp), AssocElement ''O'' pin] gens)
      | BufOBUFT \<Rightarrow>
          Some (instBuf (''obuft_'' @ net) ''OBUFT''
            [AssocElement ''I'' (outExpr rp), AssocElement ''T'' (Ident (rpin_out_en rp)), AssocElement ''O'' pin] gens)
      | BufIOBUF \<Rightarrow>
          Some (instBuf (''iobuf_'' @ net) ''IOBUF''
            [AssocElement ''I'' (outExpr rp), AssocElement ''T'' (Ident (rpin_out_en rp)),
             AssocElement ''O'' (inExpr rp), AssocElement ''IO'' pin] gens)
      | _ \<Rightarrow> None)"

section \<open>Differential pairs\<close>

definition signalBase :: "string \<Rightarrow> string" where
  "signalBase ref = takeWhile (\<lambda>c. c \<noteq> CHR ''.'' \<and> c \<noteq> CHR ''('') ref"

text \<open>The last pin of a group with the given polarity.\<close>

definition diff_leg :: "string \<Rightarrow> resolved_pin list \<Rightarrow> resolved_pin option" where
  "diff_leg pol ps = List.find (\<lambda>p. rpin_diff p = pol) (rev ps)"

definition diff_group :: "string \<Rightarrow> resolved_pin list \<Rightarrow> emit_error + stmt" where
  "diff_group b ps =
     (case (diff_leg ''pos'' ps, diff_leg ''neg'' ps) of
        (Some pos, Some neg) \<Rightarrow>
          (let gens = bufferGenerics (rpin_attrs pos) (rpin_buffer_kind pos);
               nets = rpin_net pos @ ''_'' @ rpin_net neg
           in Inr (if rpin_buffer_kind pos = BufIBUFDS
                then instBuf (''ibufds_'' @ nets) ''IBUFDS''
                       [AssocElement ''I'' (pad_expr pos), AssocElement ''IB'' (pad_expr neg), AssocElement ''O'' (inExpr pos)] gens
                else instBuf (''obufds_'' @ nets) ''OBUFDS''
                       [AssocElement ''I'' (outExpr pos), AssocElement ''O'' (pad_expr pos), AssocElement ''OB'' (pad_expr neg)] gens))
      | (Some pos, None) \<Rightarrow> Inl (emit_err ErrDiffPair (rpin_net pos))
      | (None, Some neg) \<Rightarrow> Inl (emit_err ErrDiffPair (rpin_net neg))
      | (None, None) \<Rightarrow> Inl (emit_err ErrDiffPair b))"

definition diffPairs :: "resolved_pin list \<Rightarrow> (emit_error + stmt) list" where
  "diffPairs diffs =
     map (\<lambda>b. diff_group b (filter (\<lambda>p. signalBase (rpin_signal p) = b) diffs))
       (sort (remdups (map (\<lambda>p. signalBase (rpin_signal p)) diffs)))"

section \<open>Pads without buffers\<close>

datatype pin_error = EEmit emit_error | EPin string string

definition ecp5PinStmt :: "resolved_pin \<Rightarrow> pin_error + stmt list" where
  "ecp5PinStmt rp =
     (if rpin_buffer_kind rp = BufEntity then Inr []
      else if rpin_diff rp \<noteq> [] then Inl (EPin (rpin_net rp) ''differential pads are deferred to Phase 2'')
      else if rpin_out_en rp \<noteq> [] then Inl (EPin (rpin_net rp) ''inout/tristate pads are deferred to Phase 2'')
      else if rpin_in rp \<noteq> [] \<and> rpin_out rp \<noteq> []
      then Inl (EPin (rpin_net rp) ''bidirectional pads are deferred to Phase 2'')
      else if rpin_out rp \<noteq> [] \<and> rpin_signal rp \<noteq> []
      then Inl (EPin (rpin_net rp) ''output pad with Signal would create two drivers on the pad'')
      else
        let pin = pad_expr rp;
            device = (if rpin_out_invert rp \<and> rpin_out rp \<noteq> []
                      then [concAssign pin (UnaryExpr K_NOT (Ident (rpin_out rp)))]
                      else if rpin_in rp \<noteq> [] then [concAssign (inExpr rp) pin]
                      else if rpin_out rp \<noteq> [] \<or> rpin_out_const rp \<noteq> [] then [concAssign pin (outExpr rp)]
                      else []);
            sig = (if rpin_signal rp = [] then []
                   else if rpin_pad_dir rp = dirIn then [concAssign (Ident (rpin_signal rp)) pin]
                   else [concAssign pin (Ident (rpin_signal rp))])
        in if device @ sig = [] then Inl (EPin (rpin_net rp) ''unsupported pin shape (no leg or signal)'')
           else Inr (device @ sig))"

definition ecp5PinStatements :: "elaborated \<Rightarrow> stmt list \<times> pin_error list" where
  "ecp5PinStatements el =
     (let rs = map ecp5PinStmt (sortedPins el) in (concat (rights rs), lefts rs))"

definition pinStatements :: "elaborated \<Rightarrow> stmt list \<times> pin_error list" where
  "pinStatements el =
     (if externalConstraints (el_target el) then ecp5PinStatements el
      else
        let is_diff = (\<lambda>p. rpin_buffer_kind p \<in> {BufIBUFDS, BufOBUFDS});
            ds = diffPairs (filter is_diff (sortedPins el))
        in (List.map_filter pinStmt (filter (\<lambda>p. \<not> is_diff p) (sortedPins el)) @ rights ds, map EEmit (lefts ds)))"

section \<open>The pad ring\<close>

definition socInstStmt :: "elaborated \<Rightarrow> stmt" where
  "socInstStmt el =
     InstantiationStmt ''soc'' K_ENTITY ''work.soc'' ''impl'' []
       (case el_locations el of None \<Rightarrow> [] | Some sl \<Rightarrow> name_assocs (sl_padring_top sl)) False"

definition padringDecls :: "elaborated \<Rightarrow> decl list" where
  "padringDecls el =
     pinAttrs el @
     (case el_locations el of
        None \<Rightarrow> []
      | Some sl \<Rightarrow>
          map (\<lambda>n. signal_decl n (signal_type (el_res el) n))
            (filter (\<lambda>n. n \<notin> set (res_entity_bound_pads (el_res el))) (sort (sl_padring sl)))) @
     (if externalConstraints (el_target el) then []
      else map (\<lambda>(n, src). SignalDecl [n] stdLogicMark None None) (invertIntermediates el))"

definition padringFile :: "elaborated \<Rightarrow> design_file \<times> pin_error list" where
  "padringFile el =
     (let insts = entity_insts el (res_padring_entities (el_res el));
          (pin_stmts, pin_errs) = pinStatements el;
          stmts = socInstStmt el # rights insts @ pioStatements el @
                  (if externalConstraints (el_target el) then [] else invertAssigns el) @ pin_stmts
      in (sortInstMaps \<lparr>df_context = padringContext el,
            df_units = [EntityDecl ''pad_ring'' [] (padRingPorts el) [] [],
                        ArchitectureBody ''impl'' ''pad_ring'' (padringDecls el) stmts]\<rparr>,
          map EEmit (lefts insts) @ pin_errs))"

definition PadRing :: "elaborated \<Rightarrow> string \<times> pin_error list" where
  "PadRing el = (case padringFile el of (df, errs) \<Rightarrow> (withBanner (Print df), errs))"

section \<open>Constraint files\<close>

definition text_attr :: "go_value strmap \<Rightarrow> string \<Rightarrow> string" where
  "text_attr attrs k = (case map_of attrs k of Some v \<Rightarrow> v_text v | None \<Rightarrow> [])"

definition num_attr :: "go_value strmap \<Rightarrow> string \<Rightarrow> string" where
  "num_attr attrs k =
     (case map_of attrs k of Some v \<Rightarrow> if v_kind v = KindInt then itoa (v_int v) else v_text v | None \<Rightarrow> [])"

definition lpfAttrs :: "go_value strmap \<Rightarrow> string" where
  "lpfAttrs attrs =
     ''IO_TYPE='' @ (if text_attr attrs ''iostandard'' \<noteq> [] then to_upper (text_attr attrs ''iostandard'') else ''LVCMOS33'') @
     (if num_attr attrs ''drive'' \<noteq> [] then '' DRIVE='' @ num_attr attrs ''drive'' else []) @
     (if text_attr attrs ''slewrate'' \<noteq> [] then '' SLEWRATE='' @ to_upper (text_attr attrs ''slewrate'') else []) @
     (if text_attr attrs ''pullmode'' \<noteq> [] then '' PULLMODE='' @ to_upper (text_attr attrs ''pullmode'') else [])"

definition lpf_pin :: "resolved_pin \<Rightarrow> string" where
  "lpf_pin p =
     (let port = go_quote (pad_name (rpin_net p)); freq = num_attr (rpin_attrs p) ''frequency'' in
      ''LOCATE COMP '' @ port @ '' SITE '' @ go_quote (to_upper (rpin_pad p)) @ '';'' @ [nl] @
      ''IOBUF PORT '' @ port @ '' '' @ lpfAttrs (rpin_attrs p) @ '';'' @ [nl] @
      (if freq \<noteq> [] then ''FREQUENCY PORT '' @ port @ '' '' @ freq @ '' MHZ;'' @ [nl] else []))"

definition padded_pins :: "elaborated \<Rightarrow> resolved_pin list" where
  "padded_pins el = filter (\<lambda>p. rpin_pad p \<noteq> []) (sortedPins el)"

definition LPF :: "elaborated \<Rightarrow> string" where
  "LPF el = concat (map lpf_pin (padded_pins el))"

definition PCF :: "elaborated \<Rightarrow> string" where
  "PCF el =
     concat (map (\<lambda>p. ''set_io pin_'' @ rpin_net p @ '' '' @ rpin_pad p @ [nl]) (padded_pins el))"

end
