(* ===== verification/Emit_Decl_Props.thy ===== *)
theory Emit_Decl_Props
  imports Emit_Soc Elab_Sound
begin

text \<open>
  The three generated files together: every signal of the net-list is declared, as a port or as a signal, in
  each architecture that has an instance connected to it, and the instances of the devices and of the soc are
  connected to declared signals of the same names as their ports.
\<close>

section \<open>The signals a file declares\<close>

fun decl_signals :: "decl \<Rightarrow> string list" where
  "decl_signals (SignalDecl ns m c v) = ns"
| "decl_signals _ = []"

definition unit_signals :: "design_unit \<Rightarrow> string set" where
  "unit_signals u =
     (case u of
        EntityDecl n gs ps ds ss \<Rightarrow> (\<Union>p \<in> set ps. set (id_names p))
      | ArchitectureBody n e ds ss \<Rightarrow> (\<Union>d \<in> set ds. set (decl_signals d))
      | _ \<Rightarrow> {})"

definition file_signals :: "design_file \<Rightarrow> string set" where
  "file_signals df = (\<Union>u \<in> set (df_units df). unit_signals u)"

lemma decl_signals_sort [simp]: "decl_signals (sort_decl d) = decl_signals d"
  by (cases d) simp_all

lemma file_signals_sort [simp]: "file_signals (sortInstMaps df) = file_signals df"
proof -
  have "unit_signals (sort_unit u) = unit_signals u" for u by (cases u) (simp_all add: unit_signals_def)
  then show ?thesis by (simp add: file_signals_def sortInstMaps_def)
qed

lemma decl_signals_signal_decl [simp]: "decl_signals (signal_decl n ty) = [n]"
  by (simp add: signal_decl_def split: prod.split)

lemma id_names_location_port [simp]: "id_names (location_port res pl) = [pl_name pl]"
  by (simp add: location_port_def split: prod.split)

lemma two_unit_signals:
  "file_signals \<lparr>df_context = c, df_units = [EntityDecl n [] ps [] [], ArchitectureBody m e ds ss]\<rparr> =
     (\<Union>p \<in> set ps. set (id_names p)) \<union> (\<Union>d \<in> set ds. set (decl_signals d))"
  by (simp add: file_signals_def unit_signals_def)

lemma devicesFile_signals:
  assumes "devicesFile el = Some (df, errs)"
  shows "set (devicesDeclNames el) \<union> (\<Union>p \<in> set (devicesEntityPorts el). set (id_names p)) \<subseteq> file_signals df"
  using assms by (auto simp: devicesFile_def Let_def two_unit_signals)

lemma socFile_signals:
  "set (socDeclNames el) \<union> (\<Union>p \<in> set (socEntityPorts el). set (id_names p)) \<subseteq> file_signals (fst (socFile el))"
  by (auto simp: socFile_def Let_def two_unit_signals)

lemma padringFile_signals:
  assumes "el_locations el = Some sl" "n \<in> set (sl_padring sl)" "n \<notin> set (res_entity_bound_pads (el_res el))"
  shows "n \<in> file_signals (fst (padringFile el))"
  using assms by (auto simp: padringFile_def padringDecls_def Let_def two_unit_signals split: prod.splits)

section \<open>Where signals are placed\<close>

text \<open>The elaborated design as \<open>Elaborate\<close> builds it: located by \<open>categorize\<close>, which found no error.\<close>

definition located :: "elaborated \<Rightarrow> bool" where
  "located el \<longleftrightarrow>
     el_locations el = Some (fst (categorize (el_res el))) \<and> snd (categorize (el_res el)) = [] \<and>
     distinct (map fst (res_signals (el_res el))) \<and> plain_kinds (res_signals (el_res el)) \<and>
     list_all (\<lambda>(n, s). sig_name s = n) (res_signals (el_res el))"

definition ordinary :: "signal \<Rightarrow> bool" where
  "ordinary s \<longleftrightarrow> kinds_of s \<noteq> {} \<and> kinds_of s \<subseteq> known_kinds"

lemma placed_lists:
  assumes "distinct (map fst sigs)" "plain_kinds sigs"
  shows "s \<in> set (padringTopSigs sigs) \<longleftrightarrow> s \<in> snd ` set sigs \<and> ordinary s \<and>
      kinds_of s \<inter> pad_kinds \<noteq> {} \<and> \<not> kinds_of s \<subseteq> pad_kinds"
    and "s \<in> set (topDevicesSigs sigs) \<longleftrightarrow> s \<in> snd ` set sigs \<and> ordinary s \<and> ''device'' \<in> kinds_of s \<and> kinds_of s \<noteq> {''device''}"
    and "s \<in> set (padringSigs sigs) \<longleftrightarrow> s \<in> snd ` set sigs \<and> ordinary s \<and> kinds_of s \<inter> pad_kinds \<noteq> {}"
    and "s \<in> set (topSigs sigs) \<longleftrightarrow> s \<in> snd ` set sigs \<and> ordinary s \<and> kinds_of s \<inter> pad_kinds = {} \<and> ''top'' \<in> kinds_of s"
    and "s \<in> set (devicesSigs sigs) \<longleftrightarrow> s \<in> snd ` set sigs \<and> ordinary s \<and> kinds_of s = {''device''}"
proof -
  have f: "s \<in> set (filterByContext (contextSets sigs) ps) \<longleftrightarrow> s \<in> snd ` set sigs \<and> kinds_of s \<in> picks ps"
    if "good_positions ps" for ps
    using filterByContext_iff [OF assms that] by (simp add: kinds_of_def signal_kinds_set)
  have kk: "known_kinds = pad_kinds \<union> {''top'', ''device''}" "''top'' \<notin> pad_kinds" "''device'' \<notin> pad_kinds"
    by (auto simp: known_kinds_def pad_kinds_def)
  have small: "X = {''top''} \<or> X = {''top'', ''device''} \<longleftrightarrow>
      X \<subseteq> known_kinds \<and> X \<inter> pad_kinds = {} \<and> ''top'' \<in> X" for X
  proof
    assume "X \<subseteq> known_kinds \<and> X \<inter> pad_kinds = {} \<and> ''top'' \<in> X"
    then have "X \<subseteq> {''top'', ''device''}" "''top'' \<in> X" using kk(1) by auto
    then show "X = {''top''} \<or> X = {''top'', ''device''}" by blast
  qed (use kk in auto)
  have known: "''device'' \<in> known_kinds" by (simp add: known_kinds_def)
  show "s \<in> set (padringTopSigs sigs) \<longleftrightarrow> s \<in> snd ` set sigs \<and> ordinary s \<and>
      kinds_of s \<inter> pad_kinds \<noteq> {} \<and> \<not> kinds_of s \<subseteq> pad_kinds"
    unfolding padringTopSigs_def f [OF cat_good(1)] cat_positions ordinary_def using kk by blast
  show "s \<in> set (topDevicesSigs sigs) \<longleftrightarrow> s \<in> snd ` set sigs \<and> ordinary s \<and> ''device'' \<in> kinds_of s \<and> kinds_of s \<noteq> {''device''}"
    unfolding topDevicesSigs_def f [OF cat_good(2)] cat_positions ordinary_def by blast
  show "s \<in> set (padringSigs sigs) \<longleftrightarrow> s \<in> snd ` set sigs \<and> ordinary s \<and> kinds_of s \<inter> pad_kinds \<noteq> {}"
    unfolding padringSigs_def f [OF cat_good(3)] cat_positions ordinary_def by blast
  show "s \<in> set (topSigs sigs) \<longleftrightarrow> s \<in> snd ` set sigs \<and> ordinary s \<and> kinds_of s \<inter> pad_kinds = {} \<and> ''top'' \<in> kinds_of s"
    unfolding topSigs_def f [OF cat_good(4)] cat_positions small ordinary_def by blast
  show "s \<in> set (devicesSigs sigs) \<longleftrightarrow> s \<in> snd ` set sigs \<and> ordinary s \<and> kinds_of s = {''device''}"
    unfolding devicesSigs_def f [OF cat_good(5)] cat_positions ordinary_def
    by (cases "kinds_of s = {''device''}") (simp_all add: known)
qed

text \<open>Without an error every signal of a boundary is a port of it.\<close>

lemma boundary_names:
  assumes "snd (boundary_ports sigs dirs) = []"
  shows "pl_name ` set (fst (boundary_ports sigs dirs)) = sig_name ` set sigs"
proof -
  have ok: "\<exists>src. srcContext s = Inr src" if "s \<in> set sigs" for s
    using assms that by (cases "srcContext s") (auto simp: boundary_ports_def map_filter_def filter_empty_conv)
  have "sig_name s \<in> pl_name ` set (fst (boundary_ports sigs dirs))" if s: "s \<in> set sigs" for s
  proof -
    from ok [OF s] obtain src where "srcContext s = Inr src" by auto
    with s have "\<lparr>pl_name = sig_name s, pl_dir = dir_of dirs src\<rparr> \<in> set (fst (boundary_ports sigs dirs))"
      by (force simp: boundary_ports_def map_filter_def)
    then show ?thesis by force
  qed
  moreover have "pl_name p \<in> sig_name ` set sigs" if "p \<in> set (fst (boundary_ports sigs dirs))" for p
    using that by (auto simp: boundary_ports_def map_filter_def split: sum.splits)
  ultimately show ?thesis by auto
qed

lemma located_ports:
  assumes "located el"
  shows "(\<Union>p \<in> set (devicesEntityPorts el). set (id_names p)) = sig_name ` set (topDevicesSigs (res_signals (el_res el)))"
    and "(\<Union>p \<in> set (socEntityPorts el). set (id_names p)) = sig_name ` set (padringTopSigs (res_signals (el_res el)))"
proof -
  let ?res = "el_res el"
  obtain pt e1 td e2 where b: "boundary_ports (padringTopSigs (res_signals ?res)) padringTopDir = (pt, e1)"
    "boundary_ports (topDevicesSigs (res_signals ?res)) topDevicesDir = (td, e2)" by (metis surj_pair)
  have "e1 = []" "e2 = []" "sl_padring_top (fst (categorize ?res)) = pt" "sl_top_devices (fst (categorize ?res)) = td"
    using assms b by (auto simp: located_def categorize_def Let_def)
  then show "(\<Union>p \<in> set (devicesEntityPorts el). set (id_names p)) = sig_name ` set (topDevicesSigs (res_signals ?res))"
    "(\<Union>p \<in> set (socEntityPorts el). set (id_names p)) = sig_name ` set (padringTopSigs (res_signals ?res))"
    using assms boundary_names [of "padringTopSigs (res_signals ?res)" padringTopDir]
      boundary_names [of "topDevicesSigs (res_signals ?res)" topDevicesDir] b
    by (auto simp: located_def devicesEntityPorts_def socEntityPorts_def)
qed

lemma located_decls:
  assumes "located el"
  shows "sig_name ` set (devicesSigs (res_signals (el_res el))) \<subseteq> set (devicesDeclNames el)"
    and "sig_name ` set (topSigs (res_signals (el_res el))) \<subseteq> set (socDeclNames el)"
    and "set (sl_padring (the (el_locations el))) = sig_name ` set (padringSigs (res_signals (el_res el)))"
  using assms by (auto simp: located_def devicesDeclNames_def socDeclNames_def categorize_def name_list_def split_beta Let_def)

lemma soc_declares:
  assumes "located el" "s \<in> snd ` set (res_signals (el_res el))" "ordinary s" "''top'' \<in> kinds_of s \<or> ''device'' \<in> kinds_of s \<and> kinds_of s \<noteq> {''device''}"
  shows "sig_name s \<in> file_signals (fst (socFile el))"
proof -
  have nets: "distinct (map fst (res_signals (el_res el)))" "plain_kinds (res_signals (el_res el))"
    using assms(1) by (auto simp: located_def)
  note pl = placed_lists [OF nets]
  have kk: "''top'' \<notin> pad_kinds" "''device'' \<notin> pad_kinds" "known_kinds = pad_kinds \<union> {''top'', ''device''}"
    by (auto simp: pad_kinds_def known_kinds_def)
  consider "kinds_of s \<inter> pad_kinds \<noteq> {}" | "kinds_of s \<inter> pad_kinds = {}" "''top'' \<in> kinds_of s"
    using assms(3,4) kk(3) unfolding ordinary_def by blast
  then show ?thesis
  proof cases
    case 1
    then have "s \<in> set (padringTopSigs (res_signals (el_res el)))"
      unfolding pl(1) using assms(2-4) kk(1,2) by blast
    then show ?thesis using located_ports(2) [OF assms(1)] socFile_signals [of el] by auto
  next
    case 2
    then have "s \<in> set (topSigs (res_signals (el_res el)))" unfolding pl(4) using assms(2,3) by blast
    then show ?thesis using located_decls(2) [OF assms(1)] socFile_signals [of el] by auto
  qed
qed

section \<open>Properties\<close>

text \<open>The statements of the architectures of a file.\<close>

definition file_stmts :: "design_file \<Rightarrow> stmt list" where
  "file_stmts df = concat (map (\<lambda>u. case u of ArchitectureBody n e ds ss \<Rightarrow> ss | _ \<Rightarrow> []) (df_units df))"

text \<open>
  A file has an instance whose port map names each of the ports once and connects it to the signal of its
  name, one of the given signals.
\<close>

definition connects :: "design_file \<Rightarrow> string \<Rightarrow> string \<Rightarrow> interface_decl list \<Rightarrow> string set \<Rightarrow> bool" where
  "connects df label unit ports sigs \<longleftrightarrow>
     (\<exists>pm. InstantiationStmt label K_ENTITY unit ''impl'' [] pm False \<in> set (file_stmts df) \<and>
       mset (map ae_formal pm) = mset (concat (map id_names ports)) \<and>
       list_all (\<lambda>e. ae_actual e = Ident (ae_formal e) \<and> ae_formal e \<in> sigs) pm)"

lemma connects_name_assocs:
  assumes "sort_stmt (InstantiationStmt label K_ENTITY unit ''impl'' [] (name_assocs pls) False) \<in> set (file_stmts df)"
    "map pl_name pls = concat (map id_names ports)" "(\<Union>p \<in> set ports. set (id_names p)) \<subseteq> sigs"
  shows "connects df label unit ports sigs"
proof -
  let ?pm = "sortAssoc (name_assocs pls)"
  have "InstantiationStmt label K_ENTITY unit ''impl'' [] ?pm False \<in> set (file_stmts df)"
    using assms(1) by (simp add: sortAssoc_def [of "[]"])
  moreover have m: "mset ?pm = mset (name_assocs pls)" by (simp add: sortAssoc_def)
  then have "mset (map ae_formal ?pm) = mset (map ae_formal (name_assocs pls))" by simp
  then have "mset (map ae_formal ?pm) = mset (concat (map id_names ports))"
    using assms(2) by (simp add: name_assocs_def comp_def)
  moreover have "set ?pm = set (name_assocs pls)" using m by (rule mset_eq_setD)
  moreover have "set (map pl_name pls) = (\<Union>p \<in> set ports. set (id_names p))" unfolding assms(2) by simp
  then have "pl_name ` set pls \<subseteq> sigs" using assms(3) by simp
  ultimately show ?thesis unfolding connects_def by (intro exI [of _ ?pm]) (auto simp: list_all_iff name_assocs_def)
qed

lemma inner_instances:
  assumes "located el" "(\<Union>p \<in> set (devicesEntityPorts el). set (id_names p)) \<subseteq> A"
    "(\<Union>p \<in> set (socEntityPorts el). set (id_names p)) \<subseteq> B"
  shows "connects (fst (socFile el)) ''devices'' ''work.devices'' (devicesEntityPorts el) A"
    and "connects (fst (padringFile el)) ''soc'' ''work.soc'' (socEntityPorts el) B"
proof -
  obtain sl where sl: "el_locations el = Some sl" using assms(1) by (auto simp: located_def)
  have ports: "map pl_name (sl_top_devices sl) = concat (map id_names (devicesEntityPorts el))"
    "map pl_name (sl_padring_top sl) = concat (map id_names (socEntityPorts el))"
    by (simp_all add: devicesEntityPorts_def socEntityPorts_def sl comp_def)
  have "sort_stmt (devicesInstStmt el) \<in> set (file_stmts (fst (socFile el)))"
    by (simp add: socFile_def Let_def file_stmts_def sortInstMaps_def)
  then show "connects (fst (socFile el)) ''devices'' ''work.devices'' (devicesEntityPorts el) A"
    using ports(1) assms(2) by (intro connects_name_assocs) (simp_all add: devicesInstStmt_def sl)
  have "sort_stmt (socInstStmt el) \<in> set (file_stmts (fst (padringFile el)))"
    by (simp add: padringFile_def Let_def file_stmts_def sortInstMaps_def split: prod.split)
  then show "connects (fst (padringFile el)) ''soc'' ''work.soc'' (socEntityPorts el) B"
    using ports(2) assms(3) by (intro connects_name_assocs) (simp_all add: socInstStmt_def sl)
qed

text \<open>
  C31: in a design whose signals have been located without an error, a signal whose ports are all of known
  kinds (so no zero signal, see below) is declared in the devices file when it has a device port, in the soc
  file when it has a port of a top entity, and in the pad ring when it has a port on the pad side and is not a
  pad that an entity owns. The soc file has the instance of the devices: its port map names each port of the
  devices once and connects it to the signal of that name, which the soc file declares. The pad ring has the
  instance of the soc in the same way, where a port may also be connected to a pad that an entity owns, which
  is not declared as a signal there.
\<close>

theorem signals_declared:
  assumes "located el" "(n, s) \<in> set (res_signals (el_res el))" "ordinary s"
  shows "(if ''device'' \<in> kinds_of s then case_option True (\<lambda>(df, errs). n \<in> file_signals df) (devicesFile el) else True) \<and>
    (if ''top'' \<in> kinds_of s then n \<in> file_signals (fst (socFile el)) else True) \<and>
    (if kinds_of s \<inter> pad_kinds \<noteq> {} \<and> n \<notin> set (res_entity_bound_pads (el_res el))
     then n \<in> file_signals (fst (padringFile el)) else True) \<and>
    connects (fst (socFile el)) ''devices'' ''work.devices'' (devicesEntityPorts el) (file_signals (fst (socFile el))) \<and>
    connects (fst (padringFile el)) ''soc'' ''work.soc'' (socEntityPorts el)
      (file_signals (fst (padringFile el)) \<union> set (res_entity_bound_pads (el_res el)))"
proof -
  let ?sigs = "res_signals (el_res el)"
  have nets: "distinct (map fst ?sigs)" "plain_kinds ?sigs" and names: "sig_name s = n" and s: "s \<in> snd ` set ?sigs"
    using assms(1,2) by (force simp: located_def list_all_iff)+
  note pl = placed_lists [OF nets]
  have dev: "n \<in> file_signals df" if "''device'' \<in> kinds_of s" "devicesFile el = Some (df, errs)" for df errs
  proof (cases "kinds_of s = {''device''}")
    case True
    with s assms(3) have "s \<in> set (devicesSigs ?sigs)" by (simp add: pl(5))
    then show ?thesis using located_decls(1) [OF assms(1)] devicesFile_signals [OF that(2)] names by auto
  next
    case False
    with s assms(3) that(1) have "s \<in> set (topDevicesSigs ?sigs)" by (simp add: pl(2))
    then show ?thesis using located_ports(1) [OF assms(1)] devicesFile_signals [OF that(2)] names by auto
  qed
  have pad: "m \<in> file_signals (fst (padringFile el))"
    if "m \<in> sig_name ` set (padringSigs ?sigs)" "m \<notin> set (res_entity_bound_pads (el_res el))" for m
    using that located_decls(3) [OF assms(1)] padringFile_signals [of el _ m] assms(1) by (auto simp: located_def)
  have padn: "n \<in> file_signals (fst (padringFile el))"
    if "kinds_of s \<inter> pad_kinds \<noteq> {}" "n \<notin> set (res_entity_bound_pads (el_res el))"
    using pad [of n] that s assms(3) names pl(3) by auto
  have top: "n \<in> file_signals (fst (socFile el))" if "''top'' \<in> kinds_of s"
    using soc_declares [OF assms(1) s assms(3)] that names by simp
  have inner: "sig_name ` set (topDevicesSigs ?sigs) \<subseteq> file_signals (fst (socFile el))"
    using soc_declares [OF assms(1)] by (auto simp: pl(2))
  have outer: "sig_name ` set (padringTopSigs ?sigs) \<subseteq> file_signals (fst (padringFile el)) \<union> set (res_entity_bound_pads (el_res el))"
    using pad pl(1,3) by blast
  note inst = inner_instances [OF assms(1), unfolded located_ports [OF assms(1)], OF inner outer]
  show ?thesis using dev padn top inst by (auto split: option.split)
qed

lemma categorize_no_error:
  assumes "distinct (map fst (res_signals res))" "plain_kinds (res_signals res)"
    "\<forall>s \<in> snd ` set (res_signals res). \<exists>k. srcContext s = Inr k"
  shows "snd (categorize res) = []"
proof -
  note pl = placed_lists [OF assms(1,2)]
  have "snd (boundary_ports sigs dirs) = []" if "set sigs \<subseteq> snd ` set (res_signals res)" for sigs dirs
    using assms(3) that by (force simp: boundary_ports_def map_filter_def filter_empty_conv)
  then have "snd (boundary_ports (padringTopSigs (res_signals res)) padringTopDir) = []"
    "snd (boundary_ports (topDevicesSigs (res_signals res)) topDevicesDir) = []"
    using pl(1,2) by (simp_all add: subset_iff)
  then show ?thesis by (simp add: categorize_def Let_def split_beta)
qed

definition elaborated_of :: "resolution \<Rightarrow> elaborated" where
  "elaborated_of res = \<lparr>el_res = res, el_target = [], el_locations = Some (fst (categorize res)), el_library = None,
     el_pio = [], el_bus_word = [], el_irq = None\<rparr>"

theorem signals_declared_witness:
  "''a'' \<in> file_signals (fst (socFile (elaborated_of cat_resolution)))"
proof -
  have "distinct (map fst (res_signals cat_resolution))" "plain_kinds (res_signals cat_resolution)"
    by (simp_all add: cat_resolution_def plain_kinds_def plain_kind_def mk_signal_def demo_ref_def mk_ctx_def)
  then have "snd (categorize cat_resolution) = []"
    by (rule categorize_no_error)
      (simp add: cat_resolution_def srcContext_def driver_kinds_def mk_signal_def demo_ref_def mk_ctx_def)
  then have "located (elaborated_of cat_resolution)"
    by (simp add: located_def elaborated_of_def cat_resolution_def plain_kinds_def plain_kind_def mk_signal_def demo_ref_def mk_ctx_def)
  moreover have "(''a'', mk_signal ''a'' None [demo_ref ''device'' ''u0'' ''out'', demo_ref ''top'' ''cpus'' ''in'']) \<in>
      set (res_signals (el_res (elaborated_of cat_resolution)))"
    by (simp add: elaborated_of_def cat_resolution_def)
  moreover have "kinds_of (mk_signal ''a'' None [demo_ref ''device'' ''u0'' ''out'', demo_ref ''top'' ''cpus'' ''in'']) = {''device'', ''top''}"
    by (simp add: kinds_of_def mk_signal_def demo_ref_def mk_ctx_def)
  ultimately show ?thesis
    using signals_declared [of "elaborated_of cat_resolution" "''a''"] by (simp add: ordinary_def known_kinds_def)
qed

section \<open>Zero signals\<close>

text \<open>
  A signal that is set to zero has a port of the kind \<open>zero\<close>, which no category of \<open>categorize\<close> knows. When a
  device reads it, nothing is reported, and the devices file connects the device to a signal that is neither a
  port nor declared.
\<close>

definition zero_resolution :: resolution where
  "zero_resolution = \<lparr>
     res_classes = [(''uart'', \<lparr>rc_name = ''uart'',
       rc_entity = Some \<lparr>en_name = ''uart'', en_generics = [], en_ports = [], en_peripheral_buses = [], en_uses = []\<rparr>,
       rc_arch_name = ''rtl'', rc_config = None, rc_regs = [], rc_left_addr_bit = 0, rc_reg_range = (0, 0), rc_generics = []\<rparr>)],
     res_devices = [\<lparr>rd_name = ''u0'', rd_class = ''uart'', rd_generics = [], rd_base_addr = None,
       rd_ports = [\<lparr>rp_name = ''p'', rp_dir = ''in'', rp_type = Some (symbolic_type ''std_logic'' None), rp_kind = KindSignal, rp_global_signal = ''z'', rp_value = None\<rparr>],
       rd_data_bus = False, rd_generic_types = []\<rparr>],
     res_top_entities = [], res_padring_entities = [],
     res_signals = applyZeroSignals [(''z'', mk_signal ''z'' (Some (symbolic_type ''std_logic'' None))
       [demo_ref ''device'' ''u0'' ''in''])] [''z''],
     res_pins = [], res_entity_bound_pads = [], res_data_bus = None\<rparr>"

definition no_locations :: signal_locations where
  "no_locations = \<lparr>sl_padring_top = [], sl_top_devices = [], sl_padring = [], sl_top = [], sl_devices = [],
     sl_top_extra = [], sl_devices_extra = []\<rparr>"

lemma categorize_none:
  assumes "distinct (map fst (res_signals res))" "plain_kinds (res_signals res)"
    "\<forall>s \<in> snd ` set (res_signals res). \<not> ordinary s"
  shows "categorize res = (no_locations, [])"
proof -
  note pl = placed_lists [OF assms(1,2)]
  have e: "xs = []" if "\<And>s. s \<notin> set xs" for xs :: "signal list" using that by (cases xs) auto
  have none: "\<not> (s \<in> snd ` set (res_signals res) \<and> ordinary s \<and> Q)" for s Q using assms(3) by blast
  have "padringTopSigs (res_signals res) = []" by (rule e) (simp only: pl(1) none not_False_eq_True)
  moreover have "topDevicesSigs (res_signals res) = []" by (rule e) (simp only: pl(2) none not_False_eq_True)
  moreover have "padringSigs (res_signals res) = []" by (rule e) (simp only: pl(3) none not_False_eq_True)
  moreover have "topSigs (res_signals res) = []" by (rule e) (simp only: pl(4) none not_False_eq_True)
  moreover have "devicesSigs (res_signals res) = []" by (rule e) (simp only: pl(5) none not_False_eq_True)
  ultimately show ?thesis
    by (simp add: categorize_def no_locations_def boundary_ports_def name_list_def alias_map_def inOutSignals_def map_filter_def)
qed

lemma zero_signal_undeclared:
  "validateSignals (res_signals zero_resolution) = [] \<and> snd (categorize zero_resolution) = [] \<and>
   map_option (\<lambda>(df, errs). (df_units df, errs)) (devicesFile (elaborated_of zero_resolution)) =
     Some ([EntityDecl ''devices'' [] [] [] [],
            ArchitectureBody ''impl'' ''devices'' []
              [Comment ''Instantiate devices'',
               InstantiationStmt ''u0'' K_ENTITY ''work.uart'' ''rtl'' [] [AssocElement ''p'' (Ident ''z'')] False]], [])"
proof (intro conjI)
  show "validateSignals (res_signals zero_resolution) = []" by code_simp
  have sigs: "res_signals zero_resolution =
      [(''z'', mk_signal ''z'' (Some (symbolic_type ''std_logic'' None)) [demo_ref ''device'' ''u0'' ''in'', zero_ref ''z'' (Some (symbolic_type ''std_logic'' None))])]"
    by code_simp
  have c: "categorize zero_resolution = (no_locations, [])"
    by (rule categorize_none)
      (simp_all add: sigs plain_kinds_def plain_kind_def mk_signal_def demo_ref_def zero_ref_def mk_ctx_def ordinary_def kinds_of_def known_kinds_def)
  then show "snd (categorize zero_resolution) = []" by simp
  have "map_option (\<lambda>(df, errs). (df_units df, errs)) (devicesFile \<lparr>el_res = zero_resolution, el_target = [],
      el_locations = Some no_locations, el_library = None, el_pio = [], el_bus_word = [], el_irq = None\<rparr>) =
     Some ([EntityDecl ''devices'' [] [] [] [],
            ArchitectureBody ''impl'' ''devices'' []
              [Comment ''Instantiate devices'',
               InstantiationStmt ''u0'' K_ENTITY ''work.uart'' ''rtl'' [] [AssocElement ''p'' (Ident ''z'')] False]], [])"
    by code_simp
  then show "map_option (\<lambda>(df, errs). (df_units df, errs)) (devicesFile (elaborated_of zero_resolution)) =
     Some ([EntityDecl ''devices'' [] [] [] [],
            ArchitectureBody ''impl'' ''devices'' []
              [Comment ''Instantiate devices'',
               InstantiationStmt ''u0'' K_ENTITY ''work.uart'' ''rtl'' [] [AssocElement ''p'' (Ident ''z'')] False]], [])"
    by (simp add: elaborated_of_def c)
qed

end
