(* ===== verification/Vhdl_Walk.thy ===== *)
theory Vhdl_Walk
  imports Vhdl_Ast
begin

text \<open>
  Model of \<open>src/tools/socgen/vhdl/walk.go\<close>: the depth-first traversal of syntax trees. \<open>node\<close> is the Go
  interface \<open>Node\<close>; \<open>children\<close> lists the nodes that \<open>Walk\<close> descends into, in its order, one function per
  group of cases. A visit is an event: \<open>Some\<close> node before its children, \<open>None\<close> after them. The model has no
  node type without a case, so the panic of the code for one does not arise.
\<close>

section \<open>Nodes and their children\<close>

datatype node =
    NFile design_file
  | NContext context_item
  | NUnit design_unit
  | NUse "string list"
  | NConfig config_item
  | NBinding binding_indication
  | NStmt stmt
  | NDecl decl
  | NIface interface_decl
  | NTypeDef type_def
  | NExpr expr
  | NAssoc assoc_element
  | NElement element_assoc

definition opt_expr :: "expr option \<Rightarrow> node list" where
  "opt_expr e = (case e of None \<Rightarrow> [] | Some x \<Rightarrow> [NExpr x])"

definition wave_nodes :: "waveform_elem list \<Rightarrow> node list" where
  "wave_nodes w = concat (map (\<lambda>el. NExpr (we_value el) # opt_expr (we_after el)) w)"

definition delay_nodes :: "delay_mechanism option \<Rightarrow> node list" where
  "delay_nodes d = (case d of None \<Rightarrow> [] | Some m \<Rightarrow> opt_expr (dm_reject m))"

definition expr_children :: "expr \<Rightarrow> node list" where
  "expr_children e =
     (case e of
        RangeE l k r \<Rightarrow> [NExpr l, NExpr r]
      | CallExpr f args \<Rightarrow> NExpr f # map NAssoc args
      | SelectorExpr x s \<Rightarrow> [NExpr x]
      | AttributeName x s \<Rightarrow> [NExpr x]
      | BinaryExpr x k y \<Rightarrow> [NExpr x, NExpr y]
      | UnaryExpr k x \<Rightarrow> [NExpr x]
      | ParenExpr x \<Rightarrow> [NExpr x]
      | Aggregate es \<Rightarrow> map NElement es
      | QualifiedExpr m x \<Rightarrow> [NExpr m, NExpr x]
      | RangeConstraint m r \<Rightarrow> [NExpr m, NExpr r]
      | AllocatorExpr x \<Rightarrow> [NExpr x]
      | _ \<Rightarrow> [])"

definition type_children :: "type_def \<Rightarrow> node list" where
  "type_children t =
     (case t of RecordDef fs \<Rightarrow> concat (map (\<lambda>f. opt_expr (rf_constraint f)) fs) | _ \<Rightarrow> [])"

definition binding_children :: "binding_indication \<Rightarrow> node list" where
  "binding_children b = map NAssoc (bi_generic_map b) @ map NAssoc (bi_port_map b)"

definition opt_binding :: "binding_indication option \<Rightarrow> node list" where
  "opt_binding b = (case b of None \<Rightarrow> [] | Some x \<Rightarrow> [NBinding x])"

definition iface_children :: "interface_decl \<Rightarrow> node list" where
  "iface_children d = opt_expr (id_constraint d) @ opt_expr (id_default d)"

definition decl_children :: "decl \<Rightarrow> node list" where
  "decl_children d =
     (case d of
        ConstantDecl ns m c v \<Rightarrow> opt_expr c @ opt_expr v
      | SignalDecl ns m c v \<Rightarrow> opt_expr c @ opt_expr v
      | VariableDecl sh ns m c v \<Rightarrow> opt_expr c @ opt_expr v
      | SubtypeDecl n m c \<Rightarrow> opt_expr c
      | TypeDecl n t \<Rightarrow> (case t of None \<Rightarrow> [] | Some x \<Rightarrow> [NTypeDef x])
      | ComponentDecl n gs ps \<Rightarrow> map NIface gs @ map NIface ps
      | SubprogramDecl p i f n ps r \<Rightarrow> map NIface ps
      | SubprogramBody p i f n ps r ds ss \<Rightarrow> map NIface ps @ map NDecl ds @ map NStmt ss
      | AliasDecl n m c t s \<Rightarrow> opt_expr c @ [NExpr t]
      | ConfigSpec ns c b \<Rightarrow> opt_binding b
      | AttributeSpec n es k v \<Rightarrow> [NExpr v]
      | FileDecl ns m s om ln \<Rightarrow> opt_expr om @ opt_expr ln
      | _ \<Rightarrow> [])"

definition conc_children :: "stmt \<Rightarrow> node list" where
  "conc_children s =
     (case s of
        ConcurrentSignalAssign l t d w cs \<Rightarrow>
          NExpr t # delay_nodes d @ wave_nodes w @
          concat (map (\<lambda>c. wave_nodes (cw_waveform c) @ opt_expr (cw_cond c)) cs)
      | InstantiationStmt l k u a gm pm kp \<Rightarrow> map NAssoc gm @ map NAssoc pm
      | GenerateStmt l k v r c ds ss \<Rightarrow> opt_expr r @ opt_expr c @ map NDecl ds @ map NStmt ss
      | ProcessStmt l p sens ds ss \<Rightarrow> map NExpr sens @ map NDecl ds @ map NStmt ss
      | _ \<Rightarrow> [])"

definition seq_children :: "stmt \<Rightarrow> node list" where
  "seq_children s =
     (case s of
        SignalAssignStmt l t d w \<Rightarrow> NExpr t # delay_nodes d @ wave_nodes w
      | VariableAssignStmt l t v \<Rightarrow> [NExpr t, NExpr v]
      | ReturnStmt l v \<Rightarrow> opt_expr v
      | CaseStmt l e alts \<Rightarrow>
          NExpr e # concat (map (\<lambda>a. map NExpr (ca_choices a) @ map NStmt (ca_stmts a)) alts)
      | IfStmt l c th els el \<Rightarrow>
          NExpr c # map NStmt th @
          concat (map (\<lambda>e. NExpr (ec_cond e) # map NStmt (ec_stmts e)) els) @ map NStmt el
      | LoopStmt l k v r c ss \<Rightarrow> opt_expr r @ opt_expr c @ map NStmt ss
      | NextStmt l lp w \<Rightarrow> opt_expr w
      | ExitStmt l lp w \<Rightarrow> opt_expr w
      | AssertStmt l c r sv \<Rightarrow> NExpr c # opt_expr r @ opt_expr sv
      | ReportStmt l r sv \<Rightarrow> NExpr r # opt_expr sv
      | WaitStmt l on u f \<Rightarrow> map NExpr on @ opt_expr u @ opt_expr f
      | ProcedureCallStmt l n args \<Rightarrow> map NAssoc args
      | SelectedSignalAssign l e t d alts \<Rightarrow>
          NExpr e # NExpr t # delay_nodes d @
          concat (map (\<lambda>a. wave_nodes (sw_waveform a) @ map NExpr (sw_choices a)) alts)
      | _ \<Rightarrow> [])"

definition config_children :: "config_item \<Rightarrow> node list" where
  "config_children c =
     (case c of
        CfgBlock (BlockConfig n us items) \<Rightarrow> map NUse us @ map NConfig items
      | CfgComponent ns cn b blk \<Rightarrow>
          opt_binding b @ (case blk of None \<Rightarrow> [] | Some x \<Rightarrow> [NConfig (CfgBlock x)]))"

definition unit_children :: "design_unit \<Rightarrow> node list" where
  "unit_children u =
     (case u of
        PackageDecl n ds \<Rightarrow> map NDecl ds
      | PackageBody n ds \<Rightarrow> map NDecl ds
      | EntityDecl n gs ps ds ss \<Rightarrow> map NIface gs @ map NIface ps @ map NDecl ds @ map NStmt ss
      | ArchitectureBody n e ds ss \<Rightarrow> map NDecl ds @ map NStmt ss
      | ConfigurationDecl n e us blk \<Rightarrow>
          map NUse us @ (case blk of None \<Rightarrow> [] | Some x \<Rightarrow> [NConfig (CfgBlock x)]))"

definition children :: "node \<Rightarrow> node list" where
  "children n =
     (case n of
        NFile f \<Rightarrow> map NContext (df_context f) @ map NUnit (df_units f)
      | NContext c \<Rightarrow> []
      | NUnit u \<Rightarrow> unit_children u
      | NUse ns \<Rightarrow> []
      | NConfig c \<Rightarrow> config_children c
      | NBinding b \<Rightarrow> binding_children b
      | NStmt s \<Rightarrow> conc_children s @ seq_children s
      | NDecl d \<Rightarrow> decl_children d
      | NIface d \<Rightarrow> iface_children d
      | NTypeDef t \<Rightarrow> type_children t
      | NExpr e \<Rightarrow> expr_children e
      | NAssoc a \<Rightarrow> [NExpr (ae_actual a)]
      | NElement e \<Rightarrow> map NExpr (ea_choices e) @ [NExpr (ea_x e)])"

section \<open>The traversal ends\<close>

text \<open>
  A child is of a lower kind than its parent, or of the same kind and smaller.
\<close>

fun node_rank :: "node \<Rightarrow> nat" where
  "node_rank (NFile f) = 6" | "node_rank (NUnit u) = 5" | "node_rank (NConfig c) = 4"
| "node_rank (NStmt s) = 3" | "node_rank (NDecl d) = 3"
| "node_rank (NBinding b) = 2" | "node_rank (NIface d) = 2" | "node_rank (NTypeDef t) = 2"
| "node_rank (NContext c) = 0" | "node_rank (NUse u) = 0"
| "node_rank (NExpr e) = 1" | "node_rank (NAssoc a) = 1" | "node_rank (NElement e) = 1"

fun node_size :: "node \<Rightarrow> nat" where
  "node_size (NConfig c) = size c" | "node_size (NStmt s) = size s" | "node_size (NDecl d) = size d"
| "node_size (NExpr e) = size e" | "node_size (NAssoc a) = size a" | "node_size (NElement e) = size e"
| "node_size _ = 0"

definition below :: "node \<Rightarrow> node \<Rightarrow> bool" where
  "below c n \<longleftrightarrow> node_rank c < node_rank n \<or> node_rank c = node_rank n \<and> node_size c < node_size n"

lemma in_size_list: "x \<in> set xs \<Longrightarrow> f x < size_list f xs"
  by (induction xs) auto

lemma opt_expr_nodes: "c \<in> set (opt_expr e) \<Longrightarrow> node_rank c = 1"
  by (auto simp: opt_expr_def split: option.splits)

lemma wave_nodes_rank: "c \<in> set (wave_nodes w) \<Longrightarrow> node_rank c = 1"
  by (auto simp: wave_nodes_def dest: opt_expr_nodes)

lemma delay_nodes_rank: "c \<in> set (delay_nodes d) \<Longrightarrow> node_rank c = 1"
  by (auto simp: delay_nodes_def dest: opt_expr_nodes split: option.splits)

lemma opt_binding_rank: "c \<in> set (opt_binding b) \<Longrightarrow> node_rank c = 2"
  by (auto simp: opt_binding_def split: option.splits)

lemmas node_ranks = opt_expr_nodes wave_nodes_rank delay_nodes_rank opt_binding_rank

lemma expr_children_below: "c \<in> set (expr_children e) \<Longrightarrow> below c (NExpr e)"
  by (auto simp: expr_children_def below_def dest: in_size_list [where f = size] split: expr.splits)

lemma decl_children_below: "c \<in> set (decl_children d) \<Longrightarrow> below c (NDecl d)"
  by (auto simp: decl_children_def below_def dest: in_size_list [where f = size] node_ranks
      split: decl.splits option.splits)

lemma conc_children_below: "c \<in> set (conc_children s) \<Longrightarrow> below c (NStmt s)"
  by (auto simp: conc_children_def below_def dest: in_size_list [where f = size] node_ranks split: stmt.splits)

lemma case_alt_size: "a \<in> set alts \<Longrightarrow> s \<in> set (ca_stmts a) \<Longrightarrow> size s < size_list size alts"
  using in_size_list [of a alts size] in_size_list [of s "ca_stmts a" size] by (cases a) auto

lemma elsif_size: "a \<in> set els \<Longrightarrow> s \<in> set (ec_stmts a) \<Longrightarrow> size s < size_list size els"
  using in_size_list [of a els size] in_size_list [of s "ec_stmts a" size] by (cases a) auto

lemma seq_children_below: "c \<in> set (seq_children s) \<Longrightarrow> below c (NStmt s)"
  by (auto simp: seq_children_def below_def
      dest: in_size_list [where f = size] case_alt_size elsif_size node_ranks split: stmt.splits)

lemma config_children_below: "c \<in> set (config_children i) \<Longrightarrow> below c (NConfig i)"
  by (auto simp: config_children_def below_def dest: in_size_list [where f = size] node_ranks
      split: config_item.splits block_config.splits option.splits)

lemma children_below: "c \<in> set (children n) \<Longrightarrow> below c n"
proof (cases n)
  case (NUnit u)
  assume "c \<in> set (children n)"
  with NUnit have "node_rank c \<in> {0, 2, 3, 4}"
    by (auto simp: children_def unit_children_def split: design_unit.splits option.splits)
  with NUnit show ?thesis by (auto simp: below_def)
next
  case (NAssoc a)
  assume "c \<in> set (children n)"
  with NAssoc show ?thesis by (cases a) (auto simp: children_def below_def)
next
  case (NElement a)
  assume "c \<in> set (children n)"
  with NElement show ?thesis
    by (cases a) (auto simp: children_def below_def dest: in_size_list [where f = size])
qed (auto simp: children_def below_def binding_children_def iface_children_def type_children_def
    dest: node_ranks expr_children_below decl_children_below conc_children_below seq_children_below
      config_children_below split: type_def.splits)

section \<open>Walk\<close>

text \<open>The visits of a traversal that descends where the test allows it.\<close>

function Walk :: "(node \<Rightarrow> bool) \<Rightarrow> node \<Rightarrow> node option list" where
  "Walk f n = Some n # (if f n then concat (map (Walk f) (children n)) @ [None] else [])"
  by pat_completeness auto
termination
  by (relation "measures [node_rank \<circ> snd, node_size \<circ> snd]") (auto dest!: children_below simp: below_def)

declare Walk.simps [simp del]

definition Inspect :: "node \<Rightarrow> (node \<Rightarrow> bool) \<Rightarrow> node option list" where
  "Inspect n f = Walk f n"

definition visited :: "node \<Rightarrow> node set" where
  "visited n = {m. Some m \<in> set (Inspect n (\<lambda>_. True))}"

lemma visited_rec: "visited n = insert n (\<Union>c \<in> set (children n). visited c)"
  by (auto simp: visited_def Inspect_def Walk.simps [of _ n])

lemma node_induct [case_names child]:
  assumes "\<And>n. (\<And>c. c \<in> set (children n) \<Longrightarrow> P c) \<Longrightarrow> P n"
  shows "P n"
proof (induction "\<lambda>_ :: node. True" n rule: Walk.induct)
  case (1 n)
  then show ?case by (auto intro: assms)
qed

end
