(* ===== verification/Emit_Sort_Props.thy ===== *)
theory Emit_Sort_Props
  imports Emit_Base Vhdl_Walk
begin

text \<open>
  \<open>sortInstMaps\<close> of \<open>sort.go\<close> against the traversal that the code uses: on the instantiations that \<open>Inspect\<close>
  visits it is \<open>sort_stmt\<close>, it reaches every one of them, and it keeps their number and their order.
\<close>

section \<open>Sorting commutes with descending\<close>

fun sort_node :: "node \<Rightarrow> node" where
  "sort_node (NFile f) = NFile (sortInstMaps f)"
| "sort_node (NUnit u) = NUnit (sort_unit u)"
| "sort_node (NStmt s) = NStmt (sort_stmt s)"
| "sort_node (NDecl d) = NDecl (sort_decl d)"
| "sort_node n = n"

definition is_inst :: "node \<Rightarrow> bool" where
  "is_inst n \<longleftrightarrow> (case n of NStmt (InstantiationStmt _ _ _ _ _ _ _) \<Rightarrow> True | _ \<Rightarrow> False)"

lemma map_sort_opt [simp]: "map sort_node (opt_expr e) = opt_expr e"
  by (simp add: opt_expr_def split: option.split)

lemma map_sort_wave [simp]: "map sort_node (wave_nodes w) = wave_nodes w"
  by (induction w) (simp_all add: wave_nodes_def)

lemma map_sort_delay [simp]: "map sort_node (delay_nodes d) = delay_nodes d"
  by (simp add: delay_nodes_def split: option.split)

lemma map_sort_binding [simp]: "map sort_node (opt_binding b) = opt_binding b"
  by (simp add: opt_binding_def split: option.split)

lemma map_sort_fixed [simp]:
  "map sort_node (map NExpr es) = map NExpr es" "map sort_node (map NAssoc as) = map NAssoc as"
  "map sort_node (map NIface ds) = map NIface ds" "map sort_node (map NUse us) = map NUse us"
  "map sort_node (map NConfig cs) = map NConfig cs" "map sort_node (map NContext xs) = map NContext xs"
  "map sort_node (map NStmt ss) = map NStmt (map sort_stmt ss)"
  "map sort_node (map NDecl qs) = map NDecl (map sort_decl qs)"
  "map sort_node (map NUnit ts) = map NUnit (map sort_unit ts)"
  by (simp_all del: map_map add: map_map comp_def)

lemma map_sort_concat: "map sort_node (concat xss) = concat (map (map sort_node) xss)"
  by (simp add: map_concat)

lemma sort_elsif_parts [simp]: "ec_cond (sort_elsif e) = ec_cond e" "ec_stmts (sort_elsif e) = map sort_stmt (ec_stmts e)"
  by (cases e; simp)+

lemma sort_case_parts [simp]: "ca_choices (sort_case a) = ca_choices a" "ca_stmts (sort_case a) = map sort_stmt (ca_stmts a)"
  by (cases a; simp)+

lemma decl_children_sort: "decl_children (sort_decl d) = map sort_node (decl_children d)"
  by (cases d) (simp_all add: decl_children_def comp_def split: option.split)

lemma stmt_children_sort:
  assumes "\<not> is_inst (NStmt s)"
  shows "conc_children (sort_stmt s) @ seq_children (sort_stmt s) = map sort_node (conc_children s @ seq_children s)"
  using assms
  by (cases s) (simp_all add: is_inst_def conc_children_def seq_children_def map_sort_concat comp_def)

lemma unit_children_sort: "unit_children (sort_unit u) = map sort_node (unit_children u)"
  by (cases u) (simp_all add: unit_children_def comp_def split: option.split)

lemma sort_node_low: "node_rank n \<le> 2 \<or> node_rank n = 4 \<Longrightarrow> sort_node n = n"
  by (cases n) auto

lemma config_children_low: "c \<in> set (config_children i) \<Longrightarrow> node_rank c \<le> 2 \<or> node_rank c = 4"
  by (auto simp: config_children_def opt_binding_def split: config_item.splits block_config.splits option.splits)

lemma low_children_sort:
  assumes "node_rank n \<le> 2 \<or> node_rank n = 4"
  shows "map sort_node (children n) = children n"
proof (rule map_idI)
  fix c assume c: "c \<in> set (children n)"
  show "sort_node c = c"
  proof (cases n)
    case (NConfig i)
    with c have "c \<in> set (config_children i)" by (simp add: children_def)
    from config_children_low [OF this] show ?thesis by (rule sort_node_low)
  qed (use assms children_below [OF c] in \<open>auto simp: below_def intro!: sort_node_low\<close>)
qed

lemma children_sort:
  assumes "\<not> is_inst n"
  shows "children (sort_node n) = map sort_node (children n)"
proof (cases n)
  case (NFile f)
  then show ?thesis by (simp add: children_def sortInstMaps_def)
next
  case (NUnit u)
  then show ?thesis by (simp add: children_def unit_children_sort)
next
  case (NStmt s)
  with assms stmt_children_sort [of s] show ?thesis by (simp add: children_def)
next
  case (NDecl d)
  then show ?thesis by (simp add: children_def decl_children_sort)
qed (use low_children_sort [of n] in simp_all)

section \<open>Instantiations\<close>

text \<open>The instantiations that the traversal calls its function with, in its order.\<close>

definition inst_of :: "node option \<Rightarrow> stmt list" where
  "inst_of x = (case x of Some (NStmt s) \<Rightarrow> if is_inst (NStmt s) then [s] else [] | _ \<Rightarrow> [])"

definition instances :: "node \<Rightarrow> stmt list" where
  "instances n = concat (map inst_of (Inspect n (\<lambda>_. True)))"

lemma instances_rec: "instances n = inst_of (Some n) @ concat (map instances (children n))"
proof -
  have "concat (map inst_of (concat (map (Walk (\<lambda>_. True)) ns))) = concat (map instances ns)" for ns
    by (induction ns) (simp_all add: instances_def Inspect_def)
  then show ?thesis by (simp add: instances_def Inspect_def Walk.simps [of _ n] inst_of_def)
qed

lemma instances_low: "node_rank n \<le> 2 \<Longrightarrow> instances n = []"
proof (induction n rule: node_induct)
  case (child n)
  have "instances c = []" if "c \<in> set (children n)" for c
    using child that children_below [OF that] by (auto simp: below_def)
  with child.prems show ?case by (subst instances_rec) (auto simp: inst_of_def split: node.split)
qed

lemma is_inst_sort: "is_inst (sort_node n) = is_inst n"
  by (cases n) (auto simp: is_inst_def elim: sort_stmt.elims split: stmt.splits)

lemma inst_children_low: "is_inst n \<Longrightarrow> c \<in> set (children n) \<Longrightarrow> node_rank c \<le> 2"
  by (auto simp: is_inst_def children_def conc_children_def seq_children_def split: node.splits stmt.splits)

lemma instances_inst: "is_inst (NStmt s) \<Longrightarrow> instances (NStmt s) = [s]"
  using inst_children_low [of "NStmt s"] by (subst instances_rec) (auto simp: inst_of_def instances_low)

lemma instances_other: "\<not> is_inst n \<Longrightarrow> instances n = concat (map instances (children n))"
  by (subst instances_rec) (auto simp: inst_of_def split: node.split)

lemma instances_sort: "instances (sort_node n) = map sort_stmt (instances n)"
proof (induction n rule: node_induct)
  case (child n)
  show ?case
  proof (cases "is_inst n")
    case True
    then obtain s where s: "n = NStmt s" by (auto simp: is_inst_def split: node.splits)
    with True is_inst_sort [of n] show ?thesis by (simp add: instances_inst)
  next
    case False
    then have "instances (sort_node n) = concat (map (\<lambda>c. instances (sort_node c)) (children n))"
      using is_inst_sort [of n] by (simp add: instances_other children_sort comp_def)
    also have "\<dots> = concat (map (\<lambda>c. map sort_stmt (instances c)) (children n))"
      using child by (intro arg_cong [where f = concat] map_cong) simp_all
    also have "\<dots> = map sort_stmt (instances n)"
      using False by (simp add: instances_other map_concat comp_def)
    finally show ?thesis .
  qed
qed

section \<open>Properties\<close>

text \<open>
  How a map is reordered: not at all when it has a positional element; else it is sorted by the formals,
  with the elements of each formal in their order.
\<close>

definition reordered :: "assoc_element list \<Rightarrow> assoc_element list \<Rightarrow> bool" where
  "reordered es es' \<longleftrightarrow>
     (if [] \<in> set (map ae_formal es) then es' = es
      else sorted (map ae_formal es') \<and> (\<forall>f. filter (\<lambda>e. ae_formal e = f) es' = filter (\<lambda>e. ae_formal e = f) es))"

text \<open>How an instantiation is changed: both maps, if it has a unit kind and does not keep its port order.\<close>

definition inst_reordered :: "stmt \<Rightarrow> stmt \<Rightarrow> bool" where
  "inst_reordered s s' \<longleftrightarrow>
     (case s of
        InstantiationStmt l k u a gm pm keep \<Rightarrow>
          if k = Kind 0 \<or> keep then s' = s
          else \<exists>gm' pm'. s' = InstantiationStmt l k u a gm' pm' keep \<and> reordered gm gm' \<and> reordered pm pm'
      | _ \<Rightarrow> False)"

lemma sortAssoc_reordered: "reordered es (sortAssoc es)"
  by (auto simp: reordered_def sortAssoc_def list_ex_iff image_iff sort_key_stable)

lemma sort_stmt_reordered: "is_inst (NStmt s) \<Longrightarrow> inst_reordered s (sort_stmt s)"
  by (cases s) (auto simp: is_inst_def inst_reordered_def sortAssoc_reordered)

lemma instances_are: "s \<in> set (instances n) \<Longrightarrow> is_inst (NStmt s)"
  by (auto simp: instances_def inst_of_def split: option.splits node.splits if_splits)

text \<open>
  C35: the instantiations that the traversal visits in the sorted file are those of the file itself, one for
  one and in the same order. One without a unit kind, or that keeps its port order, is as it was; in any other
  one each of the two maps is as it was when it has a positional element, and else is sorted by the formals,
  the elements of one formal keeping their order.
\<close>

theorem sortInstMaps_instances:
  "list_all2 inst_reordered (instances (NFile df)) (instances (NFile (sortInstMaps df)))"
proof -
  have "instances (NFile (sortInstMaps df)) = map sort_stmt (instances (NFile df))"
    using instances_sort [of "NFile df"] by simp
  then show ?thesis
    by (simp add: list_all2_map2 list.rel_refl_strong sort_stmt_reordered instances_are)
qed

text \<open>Sorting twice is sorting once.\<close>

lemma sortAssoc_idem: "sortAssoc (sortAssoc es) = sortAssoc es"
  by (auto simp: sortAssoc_def sort_key_id_if_sorted list_ex_iff)

end
