(* ===== verification/Emit_Pins_Props.thy ===== *)
theory Emit_Pins_Props
  imports Emit_Soc Elab_Sound "HOL-Library.Product_Lexorder" "HOL-Library.Multiset"
begin

text \<open>
  The pins from the rules to the pad ring: the order in which \<open>sortedPins\<close> puts them, and what \<open>ecp5PinStmt\<close>
  and \<open>pinStmt\<close> emit for a pin against the legs that \<open>resolvePin\<close> joined to the net-list for it.
\<close>

section \<open>The natural order of the nets\<close>

text \<open>What \<open>natLess\<close> compares, as one key: names without a number come first among those of a prefix.\<close>

definition nat_key :: "string \<Rightarrow> string \<times> bool \<times> int \<times> string" where
  "nat_key s = (case pinSortKey s of (f, n, i, has) \<Rightarrow> (f, has, if has then (n, i) else (0, [])))"

lemma natLess_nat_key: "natLess a b \<longleftrightarrow> nat_key a < nat_key b"
  by (auto simp: natLess_def nat_key_def less_prod_def split: prod.splits)

lemma insert_less_insort: "insert_less (\<lambda>p q. f p < f q) x xs = insort_key f x xs" for f :: "'a \<Rightarrow> 'b::linorder"
  by (induction xs) (auto simp: not_le)

lemma sort_less_sort_key: "sort_less (\<lambda>p q. f p < f q) xs = sort_key f xs" for f :: "'a \<Rightarrow> 'b::linorder"
  unfolding sort_less_def sort_key_def by (rule foldr_cong) (simp_all add: insert_less_insort fun_eq_iff)

lemma sortedPins_sort_key: "sortedPins el = sort_key (nat_key \<circ> rpin_net) (res_pins (el_res el))"
  unfolding sortedPins_def natLess_nat_key
  using sort_less_sort_key [of "nat_key \<circ> rpin_net" "res_pins (el_res el)"] by (simp add: comp_def)

lemma takeWhile_word: "list_all (\<lambda>c. \<not> is_digit c) w \<Longrightarrow> is_digit c \<Longrightarrow> takeWhile (\<lambda>c. \<not> is_digit c) (w @ c # s) = w"
  by (simp add: list_all_iff)

lemma takeWhile_nat_str: "takeWhile is_digit (nat_str n) = nat_str n"
  using nat_str_digits [of n] by (simp add: list_all_iff)

lemma takeWhile_numbered:
  assumes "list_all (\<lambda>c. \<not> is_digit c) w"
  shows "takeWhile (\<lambda>c. \<not> is_digit c) (w @ nat_str n) = w"
proof -
  obtain c cs where cs: "nat_str n = c # cs" by (meson nat_str_nonempty neq_Nil_conv)
  have "is_digit c" using nat_str_digits [of n] cs by simp
  then show ?thesis unfolding cs by (rule takeWhile_word [OF assms])
qed

lemma pinSortKey_numbered:
  "list_all (\<lambda>c. \<not> is_digit c) w \<Longrightarrow> pinSortKey (w @ nat_str n) = (w, clamp_int64 n, w @ nat_str n, True)"
  by (simp add: pinSortKey_def Let_def takeWhile_nat_str takeWhile_numbered)

text \<open>
  The pad ring lists the pins of the resolution, each as often as it occurs there, in natural order: no
  pin stands before one with a smaller net. Pins whose net has the same word in front are ordered by their number, so
  \<open>led2\<close> stands before \<open>led10\<close>.
\<close>

theorem sortedPins_natural:
  assumes "list_all (\<lambda>c. \<not> is_digit c) w" "m < 2 ^ 63" "n < 2 ^ 63"
  shows "mset (sortedPins el) = mset (res_pins (el_res el)) \<and>
    sorted_wrt (\<lambda>p q. \<not> natLess (rpin_net q) (rpin_net p)) (sortedPins el) \<and>
    (natLess (w @ nat_str m) (w @ nat_str n) \<longleftrightarrow> m < n)"
proof (intro conjI)
  show "mset (sortedPins el) = mset (res_pins (el_res el))" by (simp add: sortedPins_sort_key)
  have "sorted (map (nat_key \<circ> rpin_net) (sortedPins el))" unfolding sortedPins_sort_key by (rule sorted_sort_key)
  then show "sorted_wrt (\<lambda>p q. \<not> natLess (rpin_net q) (rpin_net p)) (sortedPins el)"
    by (simp add: natLess_nat_key not_less sorted_map comp_def)
  show "natLess (w @ nat_str m) (w @ nat_str n) \<longleftrightarrow> m < n"
    using assms by (simp add: natLess_def pinSortKey_numbered clamp_int64_def)
qed

theorem sortedPins_natural_witness: "natLess (''led'' @ nat_str 2) (''led'' @ nat_str 10)"
proof -
  have "list_all (\<lambda>c. \<not> is_digit c) ''led''" by code_simp
  from sortedPins_natural [OF this, of 2 10] show ?thesis by simp
qed

section \<open>Pads without buffers\<close>

text \<open>What the net-list says of a leg: the pad drives its target, or its target drives the pad.\<close>

definition leg_stmt :: "resolved_pin \<Rightarrow> pin_leg \<Rightarrow> stmt" where
  "leg_stmt rp = (\<lambda>(leg, ref, dir, diff).
     if dir = dirOut then concAssign (Ident ref) (pad_expr rp)
     else concAssign (pad_expr rp)
       (if leg = ''out'' \<and> rpin_out_invert rp then UnaryExpr K_NOT (Ident ref) else Ident ref))"

lemma bareSignalDir_cases: "bareSignalDir sigs b = dirOut \<or> bareSignalDir sigs b = dirIn"
  by (simp add: bareSignalDir_def split: option.split)

lemma kept_pin:
  assumes "resolvePin rx d rules sigs pn = (Some rp, pads, legs)" "rpin_buffer_kind rp \<noteq> BufEntity" "rpin_out_const rp = []"
  obtains f where "f_out_const f = None" "legs = pin_legs f (bare_dir sigs f)" "pin_refs f \<noteq> []"
    "rpin_signal rp = f_signal_ref f" "rpin_in rp = f_in_ref f" "rpin_out rp = f_out_ref f" "rpin_out_en rp = f_out_en_ref f"
    "rpin_diff rp = f_signal_diff f" "rpin_out_invert rp \<longleftrightarrow> f_out_ref f \<noteq> [] \<and> f_out_invert f"
    "rpin_buffer_kind rp = bufferKind f (bare_dir sigs f)" "rpin_pad_dir rp = padDir (bufferKind f (bare_dir sigs f)) (bare_dir sigs f)"
proof -
  let ?f = "foldRules rx rules pn"
  show ?thesis
    using assms by (intro that [of ?f]) (auto simp: resolvePin_def Let_def blank_pin_def split: option.splits if_splits)
qed

text \<open>
  A pin that is an input, because of its \<open>in:\<close> leg, although another leg of it reads its signal to drive the pad.
\<close>

definition contended :: "resolved_pin \<Rightarrow> pin_leg list \<Rightarrow> bool" where
  "contended rp legs \<longleftrightarrow>
     rpin_in rp \<noteq> [] \<and> rpin_pad_dir rp = dirIn \<and> list_ex (\<lambda>(leg, ref, dir, diff). dir \<noteq> dirOut) legs"

lemma ecp5_legs:
  assumes "resolvePin rx d rules sigs pn = (Some rp, pads, legs)" "rpin_buffer_kind rp \<noteq> BufEntity"
    and "ecp5PinStmt rp = Inr stmts"
    and "rpin_out_const rp = []"
  shows "mset stmts = (if contended rp legs
      then mset (map (\<lambda>(leg, ref, dir, diff). concAssign (Ident ref) (pad_expr rp)) legs)
      else mset (map (leg_stmt rp) legs))"
proof -
  from kept_pin [OF assms(1,2,4)] obtain f where f: "f_out_const f = None" "legs = pin_legs f (bare_dir sigs f)" "pin_refs f \<noteq> []"
    "rpin_signal rp = f_signal_ref f" "rpin_in rp = f_in_ref f" "rpin_out rp = f_out_ref f" "rpin_out_en rp = f_out_en_ref f"
    "rpin_diff rp = f_signal_diff f" "rpin_out_invert rp \<longleftrightarrow> f_out_ref f \<noteq> [] \<and> f_out_invert f"
    "rpin_buffer_kind rp = bufferKind f (bare_dir sigs f)" "rpin_pad_dir rp = padDir (bufferKind f (bare_dir sigs f)) (bare_dir sigs f)" .
  let ?bd = "bare_dir sigs f"
  have ok: "f_signal_diff f = []" "f_out_en_ref f = []" "f_in_ref f = [] \<or> f_out_ref f = []"
    "f_out_ref f = [] \<or> f_signal_ref f = []"
    using assms(2,3) f(4-8) by (auto simp: ecp5PinStmt_def split: if_splits)
  have bd: "?bd = dirOut \<or> ?bd = dirIn" if "f_signal_ref f \<noteq> []"
    using that bareSignalDir_cases by (simp add: bare_dir_def)
  have not_entity: "f_entity_pad f \<noteq> Some True" using assms(2) f(10) by (auto simp: bufferKind_def)
  consider (sig) "f_signal_ref f \<noteq> []" "f_in_ref f = []" "f_out_ref f = []"
    | (inp) "f_in_ref f \<noteq> []" "f_signal_ref f = []" "f_out_ref f = []"
    | (both) "f_in_ref f \<noteq> []" "f_signal_ref f \<noteq> []" "f_out_ref f = []"
    | (out) "f_out_ref f \<noteq> []" "f_signal_ref f = []" "f_in_ref f = []"
    using ok f(3) by (auto simp: pin_refs_def split: if_splits)
  then show ?thesis
  proof cases
    case sig
    have "rpin_pad_dir rp = dirIn \<longleftrightarrow> ?bd = dirOut"
      using bd [OF sig(1)] sig ok not_entity unfolding f(11) by (auto simp: bufferKind_def padDir_def)
    then show ?thesis using assms(2,3) f sig ok assms(4) bd [OF sig(1)]
      by (auto simp: ecp5PinStmt_def pin_legs_def leg_stmt_def contended_def)
  next
    case inp
    then show ?thesis using assms(2,3) f ok assms(4)
      by (auto simp: ecp5PinStmt_def pin_legs_def leg_stmt_def inExpr_def contended_def)
  next
    case both
    have c: "contended rp legs \<longleftrightarrow> rpin_pad_dir rp = dirIn \<and> ?bd = dirIn"
      using both f(2,5) bd [OF both(2)] ok(2) by (auto simp: contended_def pin_legs_def)
    have "?bd = dirOut \<Longrightarrow> rpin_pad_dir rp = dirIn"
      using both ok not_entity unfolding f(11) by (auto simp: bufferKind_def padDir_def)
    then show ?thesis unfolding c using assms(2,3) f both ok assms(4) bd [OF both(2)]
      by (auto simp: ecp5PinStmt_def pin_legs_def leg_stmt_def inExpr_def Let_def)
  next
    case out
    then show ?thesis using assms(2,3) f ok assms(4)
      by (cases "f_out_invert f") (auto simp: ecp5PinStmt_def pin_legs_def leg_stmt_def outExpr_def Let_def contended_def)
  qed
qed


definition wire_rule :: "string option \<Rightarrow> string \<Rightarrow> bool option \<Rightarrow> pin_rule" where
  "wire_rule sig i buff = (let name = (\<lambda>n. \<lparr>ss_kind = SigName, ss_name = n, ss_int = 0, ss_parts = [], ss_diff = [], ss_invert = False\<rparr>) in
     \<lparr>pr_match = Some \<lparr>pm_regex = [], pm_parts = [\<lparr>sp_lit = ''a1'', sp_sym = []\<rparr>]\<rparr>,
      pr_signal = map_option name sig, pr_in = Some (name i), pr_out = None, pr_out_en = None, pr_attrs = [],
      pr_buff = buff, pr_entity_pad = None\<rparr>)"

definition wire_pin :: pin where "wire_pin = \<lparr>pin_net = ''a1'', pin_pad = ''P1''\<rparr>"

definition wire_sigs :: netlist where
  "wire_sigs = [(''po'', mk_signal ''po'' None [demo_ref ''device'' ''gpio'' ''out'']),
     (''pi'', mk_signal ''pi'' None [demo_ref ''device'' ''gpio'' ''in''])]"

definition resolve_wire :: "pin_rule \<Rightarrow> resolved_pin option \<times> string list \<times> pin_leg list" where
  "resolve_wire r = resolvePin no_regex bare_design [r] wire_sigs wire_pin"


text \<open>
  With both legs the pin's second statement drives the signal, which the gpio drives as well, whereas the
  net-list has the pin reading it and finds nothing wrong.
\<close>

lemma ecp5_second_driver:
  "case resolve_wire (wire_rule (Some ''po'') ''pi'' None) of
     (Some rp, _, legs) \<Rightarrow>
       legs = [(''signal'', ''po'', ''in'', []), (''in'', ''pi'', ''out'', [])] \<and>
       ecp5PinStmt rp = Inr [concAssign (Ident ''pi'') (Ident ''pin_a1''), concAssign (Ident ''po'') (Ident ''pin_a1'')]
   | _ \<Rightarrow> False"
  by code_simp

section \<open>Direct input pads\<close>

text \<open>
  An unbuffered pin that only has an \<open>in:\<close> leg is not wired: the net-list has the pin driving its signal, but
  its pad becomes an output and no statement is emitted for it, so that the signal is undriven in the pad ring.
\<close>

theorem direct_input_dropped:
  assumes "resolvePin rx d rules sigs pn = (Some rp, pads, legs)" "rpin_buffer_kind rp = BufDirect"
    and "rpin_in rp \<noteq> []" "rpin_signal rp = []" "rpin_out rp = []"
  shows "(''in'', rpin_in rp, dirOut, []) \<in> set legs \<and> id_mode (pad_port rp) = dirOut \<and> pinStmt rp = None"
proof -
  have c: "rpin_out_const rp = []"
    using assms(1,2) by (auto simp: resolvePin_def Let_def blank_pin_def split: option.splits if_splits)
  from kept_pin [OF assms(1) _ c] assms(2) obtain f where f: "legs = pin_legs f (bare_dir sigs f)"
    "rpin_signal rp = f_signal_ref f" "rpin_in rp = f_in_ref f"
    "rpin_pad_dir rp = padDir (bufferKind f (bare_dir sigs f)) (bare_dir sigs f)"
    "rpin_buffer_kind rp = bufferKind f (bare_dir sigs f)" by auto
  have "rpin_pad_dir rp = dirOut" unfolding f(4) f(5) [symmetric] assms(2) using assms(4) f(2) by (simp add: padDir_def bare_dir_def)
  then show ?thesis using assms f by (simp add: pin_legs_def pad_port_def pinStmt_def)
qed

theorem direct_input_dropped_witness:
  "case resolve_wire (wire_rule None ''pi'' (Some False)) of (Some rp, _, _) \<Rightarrow> pinStmt rp = None | _ \<Rightarrow> False"
proof -
  define rp where "rp = the (fst (resolve_wire (wire_rule None ''pi'' (Some False))))"
  have c: "resolvePin no_regex bare_design [wire_rule None ''pi'' (Some False)] wire_sigs wire_pin =
      (Some rp, [], [(''in'', ''pi'', ''out'', [])])" unfolding rp_def by code_simp
  have "rpin_buffer_kind rp = BufDirect" "rpin_in rp \<noteq> []" "rpin_signal rp = []" "rpin_out rp = []"
    unfolding rp_def by code_simp+
  from direct_input_dropped [OF c this] show ?thesis using c by (simp add: resolve_wire_def)
qed

section \<open>Inverted outputs\<close>

text \<open>
  The name of the intermediate signal of an inverted output drops the punctuation of the source, so that two
  sources may share one: the second pin is then driven by the inverse of the first source.
\<close>

lemma invert_names_collide: "invertSignalName ''po(1)'' = invertSignalName ''po_1''"
  by code_simp

end
