(* ===== verification/Go_Path.thy ===== *)
theory Go_Path
  imports Go_Prelude "HOL-Library.Sublist"
begin

text \<open>\<open>path/filepath\<close> of the standard library on Unix: \<open>Clean\<close>, \<open>Join\<close> and \<open>Dir\<close>, which are purely lexical.\<close>

definition slash :: char where
  "slash = CHR ''/''"

fun path_parts :: "string \<Rightarrow> string list" where
  "path_parts [] = [[]]"
| "path_parts (c # s) =
     (if c = slash then [] # path_parts s
      else case path_parts s of p # ps \<Rightarrow> (c # p) # ps | [] \<Rightarrow> [[c]])"

definition parent :: string where
  "parent = ''..''"

text \<open>The elements kept so far stand in reverse.\<close>

fun clean_parts :: "bool \<Rightarrow> string list \<Rightarrow> string list \<Rightarrow> string list" where
  "clean_parts rooted acc [] = rev acc"
| "clean_parts rooted acc (p # ps) =
     clean_parts rooted
       (if p = [] \<or> p = ''.'' then acc
        else if p = parent
        then (case acc of
                [] \<Rightarrow> if rooted then [] else [parent]
              | a # as \<Rightarrow> if a = parent then parent # acc else as)
        else p # acc) ps"

definition path_clean :: "string \<Rightarrow> string" where
  "path_clean p =
     (if p = [] then ''.''
      else
        let rooted = hd p = slash;
            body = join_strings (clean_parts rooted [] (path_parts p)) [slash]
        in if rooted then slash # body else if body = [] then ''.'' else body)"

definition path_join :: "string list \<Rightarrow> string" where
  "path_join es =
     (case dropWhile (\<lambda>e. e = []) es of
        [] \<Rightarrow> []
      | e # rest \<Rightarrow> path_clean (join_strings (e # rest) [slash]))"

definition path_dir :: "string \<Rightarrow> string" where
  "path_dir p = path_clean (rev (dropWhile (\<lambda>c. c \<noteq> slash) (rev p)))"

end
