(* ===== verification/Iface_Extract.thy ===== *)
theory Iface_Extract
  imports Iface_Model
begin

text \<open>
  Model of \<open>src/tools/socgen/iface/extract.go\<close>: the interface library of a set of parsed design files. Every
  step returns the updated library and the errors it found; a duplicate replaces what was there before.
\<close>

section \<open>Errors\<close>

datatype dup_error =
    DuplicateDecl string string
  | DuplicateSymbol string string string

section \<open>Interfaces\<close>

definition toPorts :: "interface_decl list \<Rightarrow> if_port list" where
  "toPorts ids =
     concat (map (\<lambda>d. map (\<lambda>n.
        \<lparr>ip_name = n, ip_dir = id_mode d,
         ip_type = \<lparr>tr_mark = id_subtype_mark d, tr_constraint = id_constraint d\<rparr>,
         ip_global_name = [], ip_local_name = [], ip_irq = False\<rparr>) (id_names d)) ids)"

definition toGenerics :: "interface_decl list \<Rightarrow> if_generic list" where
  "toGenerics ids =
     concat (map (\<lambda>d. map (\<lambda>n.
        \<lparr>ig_name = n, ig_type = \<lparr>tr_mark = id_subtype_mark d, tr_constraint = id_constraint d\<rparr>,
         ig_default = id_default d\<rparr>) (id_names d)) ids)"

definition peripheral_group :: "decl \<Rightarrow> peripheral_bus list" where
  "peripheral_group d =
     (case d of
        GroupDecl name tmpl cs \<Rightarrow>
          if to_lower tmpl = ''peripheral_bus'' then [\<lparr>pb_name = name, pb_ports = cs\<rparr>] else []
      | _ \<Rightarrow> [])"

definition toPeripheralBuses :: "decl list \<Rightarrow> peripheral_bus list" where
  "toPeripheralBuses ds = concat (map peripheral_group ds)"

section \<open>Names given to ports\<close>

definition socPortString :: "expr \<Rightarrow> string option" where
  "socPortString e =
     (case e of
        BasicLit k v \<Rightarrow>
          if k \<noteq> K_STRINGLIT then None
          else Some (to_lower (if 2 \<le> length v \<and> hd v = CHR 0x22 \<and> last v = CHR 0x22
                               then butlast (tl v) else v))
      | _ \<Rightarrow> None)"

definition socPortBool :: "expr \<Rightarrow> bool" where
  "socPortBool e \<longleftrightarrow>
     (case e of Ident n \<Rightarrow> to_lower n = ''true'' | BasicLit k v \<Rightarrow> to_lower v = ''true'' | _ \<Rightarrow> False)"

text \<open>
  The code updates the ports through a map from lower-case names, which holds the last port of a name.
\<close>

definition update_port :: "string \<Rightarrow> (if_port \<Rightarrow> if_port) \<Rightarrow> if_port list \<Rightarrow> if_port list" where
  "update_port name f ps =
     (let same = (\<lambda>p. to_lower (ip_name p) = to_lower name);
          after = takeWhile (\<lambda>p. \<not> same p) (rev ps)
      in case drop (length after) (rev ps) of
           [] \<Rightarrow> ps
         | p # before \<Rightarrow> rev before @ f p # rev after)"

definition group_member :: "string \<Rightarrow> string \<Rightarrow> if_port list \<Rightarrow> if_port list" where
  "group_member tmpl c ps =
     (if to_lower tmpl = ''global_ports'' then update_port c (\<lambda>p. p\<lparr>ip_global_name := to_lower c\<rparr>) ps
      else if to_lower tmpl = ''local_ports'' then update_port c (\<lambda>p. p\<lparr>ip_local_name := to_lower c\<rparr>) ps
      else ps)"

definition apply_group :: "decl \<Rightarrow> if_port list \<Rightarrow> if_port list" where
  "apply_group d ps = (case d of GroupDecl n tmpl cs \<Rightarrow> fold (group_member tmpl) cs ps | _ \<Rightarrow> ps)"

definition attr_member :: "string \<Rightarrow> string \<Rightarrow> string \<Rightarrow> if_port list \<Rightarrow> if_port list" where
  "attr_member attr v e ps =
     (if to_lower attr = ''soc_port_global_name'' then update_port e (\<lambda>p. p\<lparr>ip_global_name := v\<rparr>) ps
      else if to_lower attr = ''soc_port_local_name'' then update_port e (\<lambda>p. p\<lparr>ip_local_name := v\<rparr>) ps
      else ps)"

definition apply_attr :: "decl \<Rightarrow> if_port list \<Rightarrow> if_port list" where
  "apply_attr d ps =
     (case d of
        AttributeSpec attr ents cls v \<Rightarrow>
          if cls \<noteq> K_SIGNAL then ps
          else if to_lower attr = ''soc_port_irq''
          then (if socPortBool v then fold (\<lambda>e. update_port e (\<lambda>p. p\<lparr>ip_irq := True\<rparr>)) ents ps else ps)
          else (case socPortString v of None \<Rightarrow> ps | Some s \<Rightarrow> fold (attr_member attr s) ents ps)
      | _ \<Rightarrow> ps)"

text \<open>Groups first; attributes override them.\<close>

definition applySocPortNames :: "if_port list \<Rightarrow> decl list \<Rightarrow> if_port list" where
  "applySocPortNames ps ds = fold apply_attr ds (fold apply_group ds ps)"

section \<open>Use clauses\<close>

fun split_dots :: "string \<Rightarrow> string list" where
  "split_dots [] = [[]]"
| "split_dots (c # s) =
     (if c = CHR ''.'' then [] # split_dots s
      else case split_dots s of p # ps \<Rightarrow> (c # p) # ps | [] \<Rightarrow> [[c]])"

definition work_use :: "string \<Rightarrow> string option" where
  "work_use n =
     (case split_dots n of
        a # b # c # ps \<Rightarrow> if to_lower a = ''work'' then Some (to_lower b) else None
      | _ \<Rightarrow> None)"

fun add_new :: "string list \<Rightarrow> string list \<Rightarrow> string list" where
  "add_new acc [] = acc"
| "add_new acc (u # us) = add_new (if u \<in> set acc then acc else acc @ [u]) us"

definition fileWorkUses :: "design_file \<Rightarrow> string list" where
  "fileWorkUses df =
     add_new [] (List.map_filter work_use
       (concat (map (\<lambda>c. case c of UseClause ns \<Rightarrow> ns | LibraryClause _ \<Rightarrow> []) (df_context df))))"

section \<open>Adding design units\<close>

definition duplicate :: "string \<Rightarrow> string \<Rightarrow> 'v strmap \<Rightarrow> dup_error list" where
  "duplicate what name m = (if map_of m (to_lower name) \<noteq> None then [DuplicateDecl what name] else [])"

definition addEntity ::
    "string \<Rightarrow> interface_decl list \<Rightarrow> interface_decl list \<Rightarrow> decl list \<Rightarrow> string list \<Rightarrow> library
      \<Rightarrow> library \<times> dup_error list" where
  "addEntity name gs ps ds uses l =
     (l\<lparr>lib_entities := AList.update (to_lower name)
          \<lparr>en_name = name, en_generics = toGenerics gs, en_ports = applySocPortNames (toPorts ps) ds,
           en_peripheral_buses = toPeripheralBuses ds, en_uses = uses\<rparr> (lib_entities l)\<rparr>,
      duplicate ''entity'' name (lib_entities l))"

definition addArchitecture :: "string \<Rightarrow> string \<Rightarrow> library \<Rightarrow> library" where
  "addArchitecture name ent l =
     l\<lparr>lib_architectures := AList.update (to_lower ent)
         ((case map_of (lib_architectures l) (to_lower ent) of Some as \<Rightarrow> as | None \<Rightarrow> []) @
          [\<lparr>ar_name = name, ar_entity = ent\<rparr>]) (lib_architectures l)\<rparr>"

definition addSymbol :: "string \<Rightarrow> string \<Rightarrow> string \<Rightarrow> library \<Rightarrow> library \<times> dup_error list" where
  "addSymbol name pkg sk l =
     (l\<lparr>lib_index := AList.update (to_lower name) \<lparr>sy_package = pkg, sy_kind = sk\<rparr> (lib_index l)\<rparr>,
      case map_of (lib_index l) (to_lower name) of
        Some prev \<Rightarrow> [DuplicateSymbol name pkg (sy_package prev)]
      | None \<Rightarrow> [])"

text \<open>The symbols of one declaration of a package, with their kind.\<close>

definition decl_symbols :: "decl \<Rightarrow> (string \<times> string) list" where
  "decl_symbols d =
     (case d of
        ConstantDecl ns m c v \<Rightarrow> map (\<lambda>n. (n, ''constant'')) ns
      | TypeDecl n t \<Rightarrow> [(n, ''type'')]
      | SubtypeDecl n m c \<Rightarrow> [(n, ''subtype'')]
      | ComponentDecl n gs ps \<Rightarrow> [(n, ''component'')]
      | _ \<Rightarrow> [])"

definition pack_decl :: "decl \<Rightarrow> package \<Rightarrow> package" where
  "pack_decl d p =
     (case d of
        ConstantDecl ns m c v \<Rightarrow>
          p\<lparr>pk_constants := pk_constants p @
              map (\<lambda>n. \<lparr>co_name = n, co_type = \<lparr>tr_mark = m, tr_constraint = c\<rparr>, co_value = v\<rparr>) ns\<rparr>
      | TypeDecl n t \<Rightarrow> p\<lparr>pk_types := pk_types p @ [\<lparr>ty_name = n, ty_node = d\<rparr>]\<rparr>
      | SubtypeDecl n m c \<Rightarrow> p\<lparr>pk_types := pk_types p @ [\<lparr>ty_name = n, ty_node = d\<rparr>]\<rparr>
      | ComponentDecl n gs ps \<Rightarrow>
          p\<lparr>pk_components := pk_components p @
              [\<lparr>cm_name = n, cm_generics = toGenerics gs, cm_ports = toPorts ps\<rparr>]\<rparr>
      | _ \<Rightarrow> p)"

text \<open>Steps one after the other, their errors joined.\<close>

fun steps :: "('a \<Rightarrow> library \<Rightarrow> library \<times> dup_error list) \<Rightarrow> 'a list \<Rightarrow> library \<Rightarrow> library \<times> dup_error list" where
  "steps f [] l = (l, [])"
| "steps f (x # xs) l = (case f x l of (l1, e1) \<Rightarrow> case steps f xs l1 of (l2, e2) \<Rightarrow> (l2, e1 @ e2))"

definition addPackage :: "string \<Rightarrow> decl list \<Rightarrow> library \<Rightarrow> library \<times> dup_error list" where
  "addPackage name ds l =
     (case steps (\<lambda>(n, sk). addSymbol n name sk) (concat (map decl_symbols ds)) l of
        (l1, errs) \<Rightarrow>
          (l1\<lparr>lib_packages := AList.update (to_lower name)
                (fold pack_decl ds \<lparr>pk_name = name, pk_constants = [], pk_types = [], pk_components = []\<rparr>)
                (lib_packages l1)\<rparr>,
           duplicate ''package'' name (lib_packages l) @ errs))"

definition block_spec :: "block_config \<Rightarrow> string" where
  "block_spec b = (case b of BlockConfig spec us items \<Rightarrow> spec)"

definition addConfiguration :: "string \<Rightarrow> string \<Rightarrow> block_config option \<Rightarrow> library \<Rightarrow> library \<times> dup_error list" where
  "addConfiguration name ent blk l =
     (l\<lparr>lib_configurations := AList.update (to_lower name)
          \<lparr>cf_name = name, cf_entity = ent, cf_arch = (case blk of Some b \<Rightarrow> block_spec b | None \<Rightarrow> [])\<rparr>
          (lib_configurations l)\<rparr>,
      duplicate ''configuration'' name (lib_configurations l))"

definition addUnit :: "string list \<Rightarrow> design_unit \<Rightarrow> library \<Rightarrow> library \<times> dup_error list" where
  "addUnit uses u l =
     (case u of
        EntityDecl n gs ps ds ss \<Rightarrow> addEntity n gs ps ds uses l
      | ArchitectureBody n e ds ss \<Rightarrow> (addArchitecture n e l, [])
      | PackageDecl n ds \<Rightarrow> addPackage n ds l
      | ConfigurationDecl n e us blk \<Rightarrow> addConfiguration n e blk l
      | PackageBody n ds \<Rightarrow> (l, []))"

definition empty_library :: library where
  "empty_library = \<lparr>lib_entities = [], lib_packages = [], lib_architectures = [], lib_configurations = [], lib_index = []\<rparr>"

definition file_units :: "design_file \<Rightarrow> (string list \<times> design_unit) list" where
  "file_units df = map (Pair (fileWorkUses df)) (df_units df)"

definition Extract :: "design_file list \<Rightarrow> library \<times> dup_error list" where
  "Extract files = steps (\<lambda>(uses, u). addUnit uses u) (concat (map file_units files)) empty_library"

end
