(* ===== verification/Design_Validate.thy ===== *)
theory Design_Validate
  imports Design_Model Iface_Model
begin

text \<open>
  Model of \<open>src/tools/socgen/design/validate.go\<close>: the check of a board description against the interface
  library, one error per unresolved reference. The code appends to a list that two closures share; here each
  returns its errors and they are joined in the order of the calls.
\<close>

section \<open>Errors\<close>

datatype val_kind =
    VEntityNotFound | VConfigNotFound | VArchNotFound | VGenericNotOnEntity | VPortNotOnEntity | VUnknownClass

record val_error =
  ve_kind :: val_kind
  ve_ctx :: string
  ve_name :: string
  ve_entity :: string
  ve_arch :: string

definition val_err :: "val_kind \<Rightarrow> string \<Rightarrow> string \<Rightarrow> string \<Rightarrow> string \<Rightarrow> val_error" where
  "val_err k c n e a = \<lparr>ve_kind = k, ve_ctx = c, ve_name = n, ve_entity = e, ve_arch = a\<rparr>"

definition val_error_text :: "val_error \<Rightarrow> string" where
  "val_error_text e =
     ve_ctx e @ '': '' @
     (case ve_kind e of
        VEntityNotFound \<Rightarrow> ''entity '' @ go_quote (ve_name e) @ '' not found''
      | VConfigNotFound \<Rightarrow> ''configuration '' @ go_quote (ve_name e) @ '' not found''
      | VArchNotFound \<Rightarrow>
          ''configuration '' @ go_quote (ve_name e) @ '' architecture '' @ go_quote (ve_arch e) @
          '' not found for entity '' @ go_quote (ve_entity e)
      | VGenericNotOnEntity \<Rightarrow> ''generic '' @ go_quote (ve_name e) @ '' not on entity '' @ go_quote (ve_entity e)
      | VPortNotOnEntity \<Rightarrow> ''port '' @ go_quote (ve_name e) @ '' not on entity '' @ go_quote (ve_entity e)
      | VUnknownClass \<Rightarrow> ''unknown class '' @ go_quote (ve_name e))"

section \<open>The checks\<close>

text \<open>An architecture is looked for only when the entity of the configuration has one at all.\<close>

definition arch_errs :: "library \<Rightarrow> configuration \<Rightarrow> string \<Rightarrow> string \<Rightarrow> val_error list" where
  "arch_errs l cfg configName ctx =
     (let archs = ArchitecturesOf l (cf_entity cfg) in
      if cf_arch cfg \<noteq> [] \<and> archs \<noteq> [] \<and> \<not> list_ex (\<lambda>a. to_lower (ar_name a) = to_lower (cf_arch cfg)) archs
      then [val_err VArchNotFound ctx configName (cf_entity cfg) (cf_arch cfg)] else [])"

definition entity_named :: "library \<Rightarrow> string \<Rightarrow> string \<Rightarrow> entity option \<times> val_error list" where
  "entity_named l name ctx =
     (if name = [] then (None, [])
      else case Entity l name of
             None \<Rightarrow> (None, [val_err VEntityNotFound ctx name [] []])
           | Some e \<Rightarrow> (Some e, []))"

definition val_resolveEntity :: "library \<Rightarrow> string \<Rightarrow> string \<Rightarrow> string \<Rightarrow> entity option \<times> val_error list" where
  "val_resolveEntity l entityName configName ctx =
     (if configName = [] then entity_named l entityName ctx
      else case Configuration l configName of
             None \<Rightarrow> (None, [val_err VConfigNotFound ctx configName [] []])
           | Some cfg \<Rightarrow>
               (case entity_named l (cf_entity cfg) ctx of
                  (eo, errs) \<Rightarrow> (eo, arch_errs l cfg configName ctx @ errs)))"

definition unknown_names :: "string list \<Rightarrow> string list \<Rightarrow> string list" where
  "unknown_names known ks = filter (\<lambda>k. to_lower k \<notin> to_lower ` set known) ks"

definition checkIface :: "entity option \<Rightarrow> go_value strmap \<Rightarrow> go_value strmap \<Rightarrow> string \<Rightarrow> val_error list" where
  "checkIface eo generics ports ctx =
     (case eo of
        None \<Rightarrow> []
      | Some e \<Rightarrow>
          map (\<lambda>k. val_err VGenericNotOnEntity ctx k (en_name e) [])
            (unknown_names (map ig_name (en_generics e)) (sorted_keys generics)) @
          map (\<lambda>k. val_err VPortNotOnEntity ctx k (en_name e) [])
            (unknown_names (map ip_name (en_ports e)) (sorted_keys ports)))"

definition validate_ref ::
    "library \<Rightarrow> string \<Rightarrow> string \<Rightarrow> go_value strmap \<Rightarrow> go_value strmap \<Rightarrow> string \<Rightarrow> val_error list" where
  "validate_ref l ent cfg generics ports ctx =
     (case val_resolveEntity l ent cfg ctx of (eo, errs) \<Rightarrow> errs @ checkIface eo generics ports ctx)"

definition devID :: "device \<Rightarrow> string" where
  "devID d = (if dev_name d \<noteq> [] then dev_name d else dev_class d)"

definition validate_device :: "design \<Rightarrow> library \<Rightarrow> device \<Rightarrow> val_error list" where
  "validate_device d l dev =
     (case map_of (d_device_classes d) (dev_class dev) of
        None \<Rightarrow> [val_err VUnknownClass (''device '' @ go_quote (devID dev)) (dev_class dev) [] []]
      | Some cls \<Rightarrow>
          validate_ref l (dc_entity cls) (dc_configuration cls) (dev_generics dev) (dev_ports dev) (''device '' @ devID dev))"

definition validate_entities :: "string \<Rightarrow> library \<Rightarrow> top_entity strmap \<Rightarrow> val_error list" where
  "validate_entities what l ents =
     concat (map (\<lambda>name. case map_of ents name of
         None \<Rightarrow> []
       | Some te \<Rightarrow> validate_ref l (te_entity te) (te_configuration te) (te_generics te) (te_ports te) (what @ name))
       (sorted_keys ents))"

definition Validate :: "design \<Rightarrow> library \<Rightarrow> val_error list" where
  "Validate d l =
     concat (map (validate_device d l) (d_devices d)) @
     validate_entities ''top-entity '' l (d_top_entities d) @
     validate_entities ''padring-entity '' l (d_padring_entities d)"

section \<open>What a valid description is\<close>

text \<open>
  The reference, without regard to the code. A reference is the name of an entity, or of a configuration that
  stands for the entity it configures; a configuration that names an architecture names one of that entity.
\<close>

definition config_ok :: "library \<Rightarrow> configuration \<Rightarrow> bool" where
  "config_ok l c \<longleftrightarrow>
     cf_arch c = [] \<or> list_ex (\<lambda>a. to_lower (ar_name a) = to_lower (cf_arch c)) (ArchitecturesOf l (cf_entity c))"

definition refers :: "library \<Rightarrow> string \<Rightarrow> string \<Rightarrow> entity option" where
  "refers l name cfg =
     (if cfg = [] then Entity l name
      else case Configuration l cfg of None \<Rightarrow> None | Some c \<Rightarrow> if config_ok l c then Entity l (cf_entity c) else None)"

text \<open>Every generic and port that is set is one of the entity, in any case of letters.\<close>

definition names_ok :: "entity \<Rightarrow> go_value strmap \<Rightarrow> go_value strmap \<Rightarrow> bool" where
  "names_ok e generics ports \<longleftrightarrow>
     to_lower ` fst ` set generics \<subseteq> to_lower ` ig_name ` set (en_generics e) \<and>
     to_lower ` fst ` set ports \<subseteq> to_lower ` ip_name ` set (en_ports e)"

definition ref_ok :: "library \<Rightarrow> string \<Rightarrow> string \<Rightarrow> go_value strmap \<Rightarrow> go_value strmap \<Rightarrow> bool" where
  "ref_ok l ent cfg generics ports \<longleftrightarrow>
     (case refers l ent cfg of None \<Rightarrow> False | Some e \<Rightarrow> names_ok e generics ports)"

definition entities_ok :: "library \<Rightarrow> top_entity strmap \<Rightarrow> bool" where
  "entities_ok l ents \<longleftrightarrow>
     (\<forall>te \<in> ran (map_of ents). ref_ok l (te_entity te) (te_configuration te) (te_generics te) (te_ports te))"

definition device_ok :: "design \<Rightarrow> library \<Rightarrow> device \<Rightarrow> bool" where
  "device_ok d l dev \<longleftrightarrow>
     (case map_of (d_device_classes d) (dev_class dev) of
        None \<Rightarrow> False
      | Some cls \<Rightarrow> ref_ok l (dc_entity cls) (dc_configuration cls) (dev_generics dev) (dev_ports dev))"

text \<open>
  What the check takes for granted: that no reference is left blank, and that the library has an entity name
  for each configuration, and an architecture of its entity at all when it names one.
\<close>

definition refs_given :: "design \<Rightarrow> bool" where
  "refs_given d \<longleftrightarrow>
     list_all (\<lambda>(n, cls). dc_entity cls \<noteq> [] \<or> dc_configuration cls \<noteq> []) (d_device_classes d) \<and>
     list_all (\<lambda>(n, te). te_entity te \<noteq> [] \<or> te_configuration te \<noteq> []) (d_top_entities d @ d_padring_entities d)"

definition configs_complete :: "library \<Rightarrow> bool" where
  "configs_complete l \<longleftrightarrow>
     list_all (\<lambda>(n, c). cf_entity c \<noteq> [] \<and> (cf_arch c = [] \<or> ArchitecturesOf l (cf_entity c) \<noteq> [])) (lib_configurations l)"

lemma unknown_names_empty: "unknown_names known ks = [] \<longleftrightarrow> to_lower ` set ks \<subseteq> to_lower ` set known"
  by (auto simp: unknown_names_def filter_empty_conv)

lemma checkIface_empty: "checkIface (Some e) generics ports ctx = [] \<longleftrightarrow> names_ok e generics ports"
  by (simp add: checkIface_def names_ok_def unknown_names_empty image_image)

lemma configs_completeD:
  "configs_complete l \<Longrightarrow> Configuration l cfg = Some c \<Longrightarrow>
     cf_entity c \<noteq> [] \<and> (cf_arch c = [] \<or> ArchitecturesOf l (cf_entity c) \<noteq> [])"
  by (auto simp: configs_complete_def Configuration_def list_all_iff dest!: map_of_SomeD)

lemma resolve_refers:
  assumes "configs_complete l" "name \<noteq> [] \<or> cfg \<noteq> []"
  shows "val_resolveEntity l name cfg ctx = (eo, []) \<longleftrightarrow> eo \<noteq> None \<and> refers l name cfg = eo"
proof (cases "cfg = []")
  case True
  then show ?thesis using assms(2) by (auto simp: val_resolveEntity_def entity_named_def refers_def split: option.split)
next
  case False
  show ?thesis
  proof (cases "Configuration l cfg")
    case None
    then show ?thesis using False by (auto simp: val_resolveEntity_def refers_def)
  next
    case (Some c)
    note c = configs_completeD [OF assms(1) Some]
    have "arch_errs l c cfg ctx = [] \<longleftrightarrow> config_ok l c"
      using c by (auto simp: arch_errs_def config_ok_def Let_def)
    then show ?thesis using Some False c
      by (auto simp: val_resolveEntity_def entity_named_def refers_def split: option.splits)
  qed
qed

lemma validate_ref_empty:
  assumes "configs_complete l" "ent \<noteq> [] \<or> cfg \<noteq> []"
  shows "validate_ref l ent cfg g p ctx = [] \<longleftrightarrow> ref_ok l ent cfg g p"
proof -
  obtain eo errs where r: "val_resolveEntity l ent cfg ctx = (eo, errs)" by (cases "val_resolveEntity l ent cfg ctx")
  note ref = resolve_refers [OF assms, of ctx]
  show ?thesis
  proof
    assume v: "validate_ref l ent cfg g p ctx = []"
    with r have "errs = []" by (simp add: validate_ref_def)
    with r ref obtain e where "eo = Some e" "refers l ent cfg = Some e" by auto
    with v r show "ref_ok l ent cfg g p" by (simp add: ref_ok_def validate_ref_def checkIface_empty)
  next
    assume o: "ref_ok l ent cfg g p"
    then obtain e where e: "refers l ent cfg = Some e" "names_ok e g p" by (auto simp: ref_ok_def split: option.splits)
    with ref [of "Some e"] show "validate_ref l ent cfg g p ctx = []" by (simp add: validate_ref_def checkIface_empty)
  qed
qed

lemma validate_entities_empty:
  assumes "configs_complete l" "list_all (\<lambda>(n, te). te_entity te \<noteq> [] \<or> te_configuration te \<noteq> []) ents"
  shows "validate_entities what l ents = [] \<longleftrightarrow> entities_ok l ents"
proof -
  have ref: "validate_ref l (te_entity te) (te_configuration te) (te_generics te) (te_ports te) ctx = [] \<longleftrightarrow>
      ref_ok l (te_entity te) (te_configuration te) (te_generics te) (te_ports te)"
    if "map_of ents k = Some te" for k te ctx
    using assms(2) that by (intro validate_ref_empty [OF assms(1)]) (auto simp: list_all_iff dest!: map_of_SomeD)
  have "(\<forall>k \<in> set (sorted_keys ents). (case map_of ents k of None \<Rightarrow> [] | Some te \<Rightarrow>
      validate_ref l (te_entity te) (te_configuration te) (te_generics te) (te_ports te) (what @ k)) = []) \<longleftrightarrow>
    (\<forall>k te. map_of ents k = Some te \<longrightarrow> ref_ok l (te_entity te) (te_configuration te) (te_generics te) (te_ports te))"
    by (auto simp: ref split: option.splits dest: map_of_SomeD) (metis ref fst_conv image_eqI map_of_SomeD option.distinct(1))
  then show ?thesis by (auto simp: validate_entities_def entities_ok_def ran_def)
qed

lemma validate_device_empty:
  assumes "configs_complete l" "list_all (\<lambda>(n, cls). dc_entity cls \<noteq> [] \<or> dc_configuration cls \<noteq> []) (d_device_classes d)"
  shows "validate_device d l dev = [] \<longleftrightarrow> device_ok d l dev"
proof (cases "map_of (d_device_classes d) (dev_class dev)")
  case (Some cls)
  then have "dc_entity cls \<noteq> [] \<or> dc_configuration cls \<noteq> []" using assms(2) by (auto simp: list_all_iff dest!: map_of_SomeD)
  with Some show ?thesis by (simp add: validate_device_def device_ok_def validate_ref_empty [OF assms(1)])
qed (simp add: validate_device_def device_ok_def)

text \<open>
  C37: which descriptions are accepted. When no class, top entity or pad-ring entity leaves its reference blank, and the
  library has an entity name for every configuration and some architecture of that entity when the configuration
  names one, a description is accepted exactly when the class of every device is defined, every device, top and pad-ring
  reference stands for an entity of the library, by its name or through an existing configuration whose
  architecture exists, and every generic and port that is set is one of that entity, in any case of letters.
\<close>

theorem Validate_accepts:
  assumes "refs_given d" "configs_complete l"
  shows "Validate d l = [] \<longleftrightarrow>
     list_all (device_ok d l) (d_devices d) \<and> entities_ok l (d_top_entities d) \<and> entities_ok l (d_padring_entities d)"
  using assms
  by (simp add: Validate_def refs_given_def validate_device_empty validate_entities_empty list_all_iff)

definition valid_entity :: entity where
  "valid_entity = \<lparr>en_name = ''uart'', en_generics = [], en_ports = [], en_peripheral_buses = [], en_uses = []\<rparr>"

definition valid_library :: "string \<Rightarrow> library" where
  "valid_library arch = \<lparr>lib_entities = [(''uart'', valid_entity)], lib_packages = [],
     lib_architectures = [(''uart'', [\<lparr>ar_name = ''RTL'', ar_entity = ''uart''\<rparr>])],
     lib_configurations = [(''uart_cfg'', \<lparr>cf_name = ''uart_cfg'', cf_entity = ''uart'', cf_arch = arch\<rparr>)], lib_index = []\<rparr>"

definition top_design :: "string \<Rightarrow> string \<Rightarrow> design" where
  "top_design ent cfg = \<lparr>d_target = [], d_device_classes = [], d_devices = [],
     d_top_entities = [(''u'', \<lparr>te_entity = ent, te_configuration = cfg, te_architecture = [], te_generics = [], te_ports = []\<rparr>)],
     d_padring_entities = [], d_merge_signals = [], d_zero_signals = [], d_bus_word = [], d_bus_word_loopback_ack = [], d_irq = [],
     d_pins = None, d_peripheral_buses = [], d_system = None, d_cpu = None, d_plugins = []\<rparr>"

theorem Validate_accepts_witness:
  "Validate (top_design [] ''uart_cfg'') (valid_library ''rtl'') = [] \<and>
   Validate (top_design [] ''uart_cfg'') (valid_library ''sim'') \<noteq> []"
proof -
  have hyp: "refs_given (top_design [] ''uart_cfg'')" "configs_complete (valid_library a)" for a
    by (simp add: refs_given_def top_design_def)
      (simp add: configs_complete_def valid_library_def ArchitecturesOf_def to_lower_def to_lower_char_def is_upper_def char_code_def)
  have "entities_ok (valid_library a) (d_top_entities (top_design [] ''uart_cfg'')) \<longleftrightarrow>
      refers (valid_library a) [] ''uart_cfg'' = Some valid_entity" for a
    by (auto simp: entities_ok_def top_design_def ref_ok_def names_ok_def refers_def valid_library_def Entity_def split: option.splits if_splits)
  moreover have "refers (valid_library ''rtl'') [] ''uart_cfg'' = Some valid_entity" "refers (valid_library ''sim'') [] ''uart_cfg'' = None"
    by code_simp+
  ultimately show ?thesis
    using Validate_accepts [OF hyp] by (simp add: top_design_def entities_ok_def)
qed

text \<open>
  The description of the format says that the entity of a top entity defaults to its key. The check does not
  apply the default: a blank one is accepted without looking for the entity, and so are any generics and ports.
\<close>

lemma blank_entity_accepted: "validate_ref l [] [] generics ports ctx = []"
  by (simp add: validate_ref_def val_resolveEntity_def entity_named_def checkIface_def)

text \<open>
  The architecture of a configuration is not looked for when the library has none for its entity, so a
  configuration that names a missing architecture of such an entity is accepted.
\<close>

lemma config_without_architectures:
  assumes "ArchitecturesOf l (cf_entity c) = []" "Configuration l cfg = Some c" "cfg \<noteq> []"
    "Entity l (cf_entity c) = Some e" "cf_entity c \<noteq> []"
  shows "val_resolveEntity l name cfg ctx = (Some e, [])"
  using assms by (simp add: val_resolveEntity_def arch_errs_def entity_named_def)

end
