(* ===== verification/Design_Yaml.thy ===== *)
theory Design_Yaml
  imports Design_Model
begin

text \<open>
  Model of \<open>src/tools/socgen/design/include.go\<close>: inclusion of files and merge keys on the node trees of the
  YAML parser, which is a library; its node kinds are the constructors of \<open>ynode\<close>, without positions and with
  the flat content \<open>[k1, v1, k2, v2, ...]\<close> of a mapping. The code rewrites nodes in place. The model works on
  values: an alias holds a copy of its anchored node, so a later change of a node that is shared through an
  anchor is not modelled. The file system, which joins, resolves and reads paths, is the parameter \<open>loader\<close>.
\<close>

section \<open>Nodes\<close>

datatype ynode =
    YScalar nat string string
  | YSeq "ynode list"
  | YMap "ynode list"
  | YAlias string ynode

definition y_value :: "ynode \<Rightarrow> string" where
  "y_value n = (case n of YScalar st tag v \<Rightarrow> v | YAlias a t \<Rightarrow> a | _ \<Rightarrow> [])"

definition is_tagged :: "string \<Rightarrow> ynode \<Rightarrow> bool" where
  "is_tagged tag n \<longleftrightarrow> (case n of YScalar st t v \<Rightarrow> t = tag | _ \<Rightarrow> False)"

abbreviation is_remove :: "ynode \<Rightarrow> bool" where
  "is_remove \<equiv> is_tagged ''!remove''"

datatype yaml_error =
    IncludeDepth string
  | IncludeRead string string
  | IncludeCycle string
  | MultipleMerge
  | MergeNotMapping

record loader =
  ld_join :: "string \<Rightarrow> string \<Rightarrow> string"
  ld_abs :: "string \<Rightarrow> string + string"
  ld_dir :: "string \<Rightarrow> string"
  ld_read :: "string \<Rightarrow> string + ynode"

definition maxIncludeDepth :: nat where
  "maxIncludeDepth = 16"

section \<open>Merging\<close>

text \<open>The first entry with the key of \<open>bk\<close> decides; without one the pair is appended.\<close>

function (sequential) deepMerge :: "ynode list \<Rightarrow> ynode list \<Rightarrow> ynode list"
  and mergeKey :: "ynode list \<Rightarrow> ynode \<Rightarrow> ynode \<Rightarrow> ynode list"
  and mergeValue :: "ynode \<Rightarrow> ynode \<Rightarrow> ynode" where
  "deepMerge dst (bk # bv # base) = deepMerge (mergeKey dst bk bv) base"
| "deepMerge dst _ = dst"
| "mergeKey (k # v # dst) bk bv =
     (if y_value k = y_value bk then (if is_remove v then dst else k # mergeValue v bv # dst)
      else k # v # mergeKey dst bk bv)"
| "mergeKey dst bk bv = dst @ [bk, bv]"
| "mergeValue (YMap d) (YMap b) = YMap (deepMerge d b)"
| "mergeValue (YSeq d) (YSeq b) = YSeq (d @ b)"
| "mergeValue v b = v"
  by pat_completeness auto
termination
  by (relation "measures
      [\<lambda>x. case x of Inl (dst, base) \<Rightarrow> 3 * size_list size base | Inr (Inl (dst, bk, bv)) \<Rightarrow> 3 * size bv + 2
                   | Inr (Inr (v, bv)) \<Rightarrow> 3 * size bv + 1,
       \<lambda>x. case x of Inl (dst, base) \<Rightarrow> 0 | Inr (Inl (dst, bk, bv)) \<Rightarrow> length dst | Inr (Inr (v, bv)) \<Rightarrow> 0]") auto

fun split_merge :: "ynode list \<Rightarrow> ynode list \<times> ynode list" where
  "split_merge (k # v # xs) =
     (case split_merge xs of (out, merges) \<Rightarrow> if y_value k = ''<<'' then (out, v # merges) else (k # v # out, merges))"
| "split_merge _ = ([], [])"

definition deref :: "ynode \<Rightarrow> ynode" where
  "deref n = (case n of YAlias a t \<Rightarrow> t | _ \<Rightarrow> n)"

definition mergeMapping :: "ynode list \<Rightarrow> yaml_error + ynode" where
  "mergeMapping content =
     (case split_merge content of
        (out, []) \<Rightarrow> Inr (YMap out)
      | (out, [m]) \<Rightarrow> (case deref m of YMap b \<Rightarrow> Inr (YMap (deepMerge out b)) | _ \<Rightarrow> Inl MergeNotMapping)
      | _ \<Rightarrow> Inl MultipleMerge)"

section \<open>Removal\<close>

fun strip_pairs :: "ynode list \<Rightarrow> ynode list" where
  "strip_pairs (k # v # xs) = (if is_remove v then strip_pairs xs else k # v # strip_pairs xs)"
| "strip_pairs _ = []"

lemma set_strip_pairs: "set (strip_pairs xs) \<subseteq> set xs"
  by (induction xs rule: strip_pairs.induct) auto

lemma ynode_in_size: "x \<in> set xs \<Longrightarrow> size x < Suc (size_list size xs)"
  by (induction xs) auto

function stripRemove :: "ynode \<Rightarrow> ynode" where
  "stripRemove (YMap xs) = YMap (map stripRemove (strip_pairs xs))"
| "stripRemove (YSeq xs) = YSeq (map stripRemove xs)"
| "stripRemove (YAlias a t) = YAlias a (stripRemove t)"
| "stripRemove (YScalar st tag v) = YScalar st tag v"
  by pat_completeness auto
termination
  by (relation "measure size") (auto dest: set_mp [OF set_strip_pairs] intro!: ynode_in_size)

section \<open>Inclusion\<close>

text \<open>
  The stack of open files bounds the depth; \<open>resolveList\<close> is the loop over the content. An included file is
  resolved relative to its own directory and stripped before it is spliced in.
\<close>

function resolveIncludes :: "loader \<Rightarrow> ynode \<Rightarrow> string \<Rightarrow> string list \<Rightarrow> yaml_error + ynode"
  and resolveList :: "loader \<Rightarrow> ynode list \<Rightarrow> string \<Rightarrow> string list \<Rightarrow> yaml_error + ynode list"
  and spliceInclude :: "loader \<Rightarrow> string \<Rightarrow> string \<Rightarrow> string list \<Rightarrow> yaml_error + ynode" where
  "resolveIncludes ld n dir stack =
     (case n of
        YScalar st tag v \<Rightarrow> if tag = ''!include'' then spliceInclude ld v dir stack else Inr n
      | YSeq xs \<Rightarrow> map_sum id YSeq (resolveList ld xs dir stack)
      | YMap xs \<Rightarrow> (case resolveList ld xs dir stack of Inl e \<Rightarrow> Inl e | Inr ys \<Rightarrow> mergeMapping ys)
      | YAlias a t \<Rightarrow> map_sum id (YAlias a) (resolveIncludes ld t dir stack))"
| "resolveList ld xs dir stack =
     (case xs of
        [] \<Rightarrow> Inr []
      | y # ys \<Rightarrow>
          (case resolveIncludes ld y dir stack of
             Inl e \<Rightarrow> Inl e
           | Inr z \<Rightarrow> map_sum id ((#) z) (resolveList ld ys dir stack)))"
| "spliceInclude ld v dir stack =
     (if maxIncludeDepth \<le> length stack then Inl (IncludeDepth v)
      else let p = ld_join ld dir v in
        (case ld_abs ld p of
           Inl e \<Rightarrow> Inl (IncludeRead p e)
         | Inr path \<Rightarrow>
             if path \<in> set stack then Inl (IncludeCycle path)
             else (case ld_read ld p of
                     Inl e \<Rightarrow> Inl (IncludeRead p e)
                   | Inr root \<Rightarrow> map_sum id stripRemove (resolveIncludes ld root (ld_dir ld p) (stack @ [path])))))"
  by pat_completeness auto
termination
  by (relation "measures
      [\<lambda>x. case x of Inl (ld, n, dir, stack) \<Rightarrow> maxIncludeDepth - length stack
                   | Inr (Inl (ld, xs, dir, stack)) \<Rightarrow> maxIncludeDepth - length stack
                   | Inr (Inr (ld, v, dir, stack)) \<Rightarrow> maxIncludeDepth - length stack,
       \<lambda>x. case x of Inl (ld, n, dir, stack) \<Rightarrow> 2 * size n + 1
                   | Inr (Inl (ld, xs, dir, stack)) \<Rightarrow> 2 * size_list size xs
                   | Inr (Inr (ld, v, dir, stack)) \<Rightarrow> 0]") auto

declare resolveIncludes.simps [simp del] resolveList.simps [simp del] spliceInclude.simps [simp del]

definition resolveTree :: "loader \<Rightarrow> ynode \<Rightarrow> string \<Rightarrow> yaml_error + ynode" where
  "resolveTree ld n dir = map_sum id stripRemove (resolveIncludes ld n dir [])"

section \<open>What is left in a resolved tree\<close>

fun pair_all :: "(ynode \<Rightarrow> ynode \<Rightarrow> bool) \<Rightarrow> ynode list \<Rightarrow> bool" where
  "pair_all P (k # v # xs) \<longleftrightarrow> P k v \<and> pair_all P xs"
| "pair_all P [] \<longleftrightarrow> True"
| "pair_all P [x] \<longleftrightarrow> False"

text \<open>No inclusion anywhere, and no mapping with a merge key.\<close>

primrec merged :: "ynode \<Rightarrow> bool" where
  "merged (YScalar st tag v) \<longleftrightarrow> tag \<noteq> ''!include''"
| "merged (YSeq xs) \<longleftrightarrow> list_all id (map merged xs)"
| "merged (YMap xs) \<longleftrightarrow> list_all id (map merged xs) \<and> pair_all (\<lambda>k v. y_value k \<noteq> ''<<'') xs"
| "merged (YAlias a t) \<longleftrightarrow> merged t"

text \<open>No mapping with an entry that is to be removed.\<close>

primrec stripped :: "ynode \<Rightarrow> bool" where
  "stripped (YScalar st tag v) \<longleftrightarrow> True"
| "stripped (YSeq xs) \<longleftrightarrow> list_all id (map stripped xs)"
| "stripped (YMap xs) \<longleftrightarrow> list_all id (map stripped xs) \<and> pair_all (\<lambda>k v. \<not> is_remove v) xs"
| "stripped (YAlias a t) \<longleftrightarrow> stripped t"

lemma list_all_id_map: "list_all id (map P xs) \<longleftrightarrow> (\<forall>x \<in> set xs. P x)"
  by (simp add: list_all_iff)

definition map_ok :: "ynode list \<Rightarrow> bool" where
  "map_ok xs \<longleftrightarrow> (\<forall>x \<in> set xs. merged x) \<and> pair_all (\<lambda>k v. y_value k \<noteq> ''<<'') xs"

lemma merged_map: "merged (YMap xs) \<longleftrightarrow> map_ok xs"
  by (simp add: map_ok_def list_all_iff)

lemma map_ok_simps [simp]:
  "map_ok []" "\<not> map_ok [x]"
  "map_ok (k # v # xs) \<longleftrightarrow> merged k \<and> merged v \<and> y_value k \<noteq> ''<<'' \<and> map_ok xs"
  by (auto simp: map_ok_def)

lemma merge_ok:
  shows "map_ok dst \<Longrightarrow> map_ok base \<Longrightarrow> map_ok (deepMerge dst base)"
    and "map_ok dst \<Longrightarrow> merged bk \<Longrightarrow> y_value bk \<noteq> ''<<'' \<Longrightarrow> merged bv \<Longrightarrow> map_ok (mergeKey dst bk bv)"
    and "merged v \<Longrightarrow> merged bv \<Longrightarrow> merged (mergeValue v bv)"
  by (induction dst base and dst bk bv and v bv rule: deepMerge_mergeKey_mergeValue.induct)
    (auto simp: list_all_iff merged_map simp del: merged.simps(3))

lemma split_merge_ok:
  assumes "\<forall>x \<in> set xs. merged x" "split_merge xs = (out, ms)"
  shows "map_ok out \<and> (\<forall>m \<in> set ms. merged m)"
  using assms by (induction xs arbitrary: out ms rule: split_merge.induct) (auto split: prod.splits if_splits)

lemma mergeMapping_ok:
  assumes "\<forall>x \<in> set xs. merged x" "mergeMapping xs = Inr n"
  shows "merged n"
proof -
  obtain out ms where sp: "split_merge xs = (out, ms)" by (cases "split_merge xs")
  note ok = split_merge_ok [OF assms(1) sp]
  from assms(2) sp consider "ms = []" "n = YMap out"
    | m b where "ms = [m]" "deref m = YMap b" "n = YMap (deepMerge out b)"
    by (auto simp: mergeMapping_def split: list.splits ynode.splits)
  then show ?thesis
  proof cases
    case 1
    with ok show ?thesis by (simp only: merged_map)
  next
    case 2
    with ok have "merged (YMap b)" by (cases m) (auto simp: deref_def)
    with ok merge_ok(1) [of out b] 2(3) show ?thesis by (simp only: merged_map)
  qed
qed

lemma strip_pairs_keys: "pair_all (\<lambda>k v. P k) xs \<Longrightarrow> pair_all (\<lambda>k v. P k) (strip_pairs xs)"
  by (induction xs rule: strip_pairs.induct) auto

lemma strip_pairs_values: "pair_all (\<lambda>k v. \<not> is_remove v) (strip_pairs xs)"
  by (induction xs rule: strip_pairs.induct) auto

lemma pair_all_map:
  "(\<And>k v. P k v \<Longrightarrow> Q (f k) (f v)) \<Longrightarrow> pair_all P xs \<Longrightarrow> pair_all Q (map f xs)"
  by (induction P xs rule: pair_all.induct) auto

lemma y_value_strip [simp]: "y_value (stripRemove n) = y_value n"
  by (cases n) (auto simp: y_value_def)

lemma is_tagged_strip [simp]: "is_tagged t (stripRemove n) = is_tagged t n"
  by (cases n) (auto simp: is_tagged_def)

lemma stripped_strip: "stripped (stripRemove n)"
proof (induction n rule: stripRemove.induct)
  case (1 xs)
  have "pair_all (\<lambda>k v. \<not> is_remove v) (map stripRemove (strip_pairs xs))"
    by (rule pair_all_map [OF _ strip_pairs_values]) simp
  with 1 show ?case by (simp add: list_all_iff)
qed (simp_all add: list_all_iff)

lemma merged_strip: "merged n \<Longrightarrow> merged (stripRemove n)"
proof (induction n rule: stripRemove.induct)
  case (1 xs)
  then have m: "\<forall>x \<in> set xs. merged x" and p: "pair_all (\<lambda>k v. y_value k \<noteq> ''<<'') xs"
    by (auto simp: list_all_iff)
  have "pair_all (\<lambda>k v. y_value k \<noteq> ''<<'') (map stripRemove (strip_pairs xs))"
    by (rule pair_all_map [OF _ strip_pairs_keys [OF p]]) simp
  with 1 m set_strip_pairs [of xs] show ?case by (auto simp: list_all_iff)
qed (simp_all add: list_all_iff)

lemma resolve_merged:
  shows "\<And>m. resolveIncludes ld n dir stack = Inr m \<Longrightarrow> merged m"
    and "\<And>ms. resolveList ld xs dir stack = Inr ms \<Longrightarrow> \<forall>m \<in> set ms. merged m"
    and "\<And>m. spliceInclude ld v dir stack = Inr m \<Longrightarrow> merged m"
proof (induction ld n dir stack and ld xs dir stack and ld v dir stack
    rule: resolveIncludes_resolveList_spliceInclude.induct)
  case (1 ld n dir stack)
  show ?case
  proof (cases n)
    case (YMap xs)
    with 1(5) obtain ys where "resolveList ld xs dir stack = Inr ys" "mergeMapping ys = Inr m"
      by (auto simp: resolveIncludes.simps split: sum.splits)
    with 1(3) [OF YMap] show ?thesis by (intro mergeMapping_ok)
  next
    case (YSeq xs)
    with 1(5) obtain ys where "resolveList ld xs dir stack = Inr ys" "m = YSeq ys"
      by (cases "resolveList ld xs dir stack") (auto simp: resolveIncludes.simps)
    with 1(2) [OF YSeq] show ?thesis by (simp add: list_all_iff)
  next
    case (YAlias a t)
    with 1(5) have "map_sum id (YAlias a) (resolveIncludes ld t dir stack) = Inr m"
      by (subst (asm) resolveIncludes.simps) simp
    then obtain u where "resolveIncludes ld t dir stack = Inr u" "m = YAlias a u"
      by (cases "resolveIncludes ld t dir stack") auto
    with 1(4) [OF YAlias] show ?thesis by simp
  next
    case (YScalar st tag v)
    with 1(1) [OF YScalar] 1(5) show ?thesis by (auto simp: resolveIncludes.simps split: if_splits)
  qed
next
  case (2 ld xs dir stack)
  show ?case
  proof (cases xs)
    case Nil
    with 2(3) show ?thesis by (simp add: resolveList.simps)
  next
    case (Cons y ys)
    with 2(3) have r: "(case resolveIncludes ld y dir stack of Inl e \<Rightarrow> Inl e
        | Inr z \<Rightarrow> map_sum id ((#) z) (resolveList ld ys dir stack)) = Inr ms"
      by (subst (asm) resolveList.simps) simp
    then obtain z where z: "resolveIncludes ld y dir stack = Inr z" by (auto split: sum.splits)
    with r obtain zs where "resolveList ld ys dir stack = Inr zs" "ms = z # zs"
      by (cases "resolveList ld ys dir stack") auto
    with 2(1) [OF Cons z] 2(2) [OF Cons z] show ?thesis by simp
  qed
next
  case (3 ld v dir stack)
  let ?p = "ld_join ld dir v"
  have small: "\<not> maxIncludeDepth \<le> length stack" using 3(2) by (auto simp: spliceInclude.simps)
  then obtain path where path: "ld_abs ld ?p = Inr path" "path \<notin> set stack"
    using 3(2) by (auto simp: spliceInclude.simps Let_def split: sum.splits if_splits)
  with small obtain root where root: "ld_read ld ?p = Inr root"
    using 3(2) by (auto simp: spliceInclude.simps Let_def split: sum.splits if_splits)
  with small path obtain u where "resolveIncludes ld root (ld_dir ld ?p) (stack @ [path]) = Inr u" "m = stripRemove u"
    using 3(2) by (cases "resolveIncludes ld root (ld_dir ld ?p) (stack @ [path])") (auto simp: spliceInclude.simps Let_def)
  with 3(1) [OF small refl path root] show ?case by (simp add: merged_strip)
qed

text \<open>
  C38: a description that is resolved without an error has no inclusion left, no mapping with a merge key and
  no mapping entry that is to be removed, whatever files it includes.
\<close>

theorem resolveTree_clean:
  assumes "resolveTree ld n dir = Inr m"
  shows "merged m \<and> stripped m"
proof -
  from assms obtain u where "resolveIncludes ld n dir [] = Inr u" "m = stripRemove u"
    by (cases "resolveIncludes ld n dir []") (auto simp: resolveTree_def)
  with resolve_merged(1) [of ld n dir "[]" u] show ?thesis by (simp add: stripped_strip merged_strip)
qed

text \<open>An item of a sequence is not removed: the tag stays.\<close>

lemma removal_in_sequence_kept:
  "resolveTree ld (YSeq [YScalar 0 ''!remove'' []]) dir = Inr (YSeq [YScalar 0 ''!remove'' []])"
  by (simp add: resolveTree_def resolveIncludes.simps resolveList.simps)

section \<open>The result of a merge\<close>

fun y_lookup :: "string \<Rightarrow> ynode list \<Rightarrow> ynode option" where
  "y_lookup key (k # v # xs) = (if y_value k = key then Some v else y_lookup key xs)"
| "y_lookup key _ = None"

fun y_keys :: "ynode list \<Rightarrow> string list" where
  "y_keys (k # v # xs) = y_value k # y_keys xs"
| "y_keys _ = []"

lemma y_lookup_None: "pair_all P xs \<Longrightarrow> y_lookup key xs = None \<longleftrightarrow> key \<notin> set (y_keys xs)"
  by (induction P xs rule: pair_all.induct) auto

lemma mergeKey_keys:
  "pair_all (\<lambda>k v. True) dst \<Longrightarrow> distinct (y_keys dst) \<Longrightarrow>
     pair_all (\<lambda>k v. True) (mergeKey dst bk bv) \<and> distinct (y_keys (mergeKey dst bk bv)) \<and>
     set (y_keys (mergeKey dst bk bv)) \<subseteq> insert (y_value bk) (set (y_keys dst))"
  by (induction "\<lambda>(k :: ynode) (v :: ynode). True" dst rule: pair_all.induct) auto

lemma mergeKey_lookup:
  "pair_all (\<lambda>k v. True) dst \<Longrightarrow> distinct (y_keys dst) \<Longrightarrow>
     y_lookup key (mergeKey dst bk bv) =
       (if key = y_value bk
        then (case y_lookup key dst of
                None \<Rightarrow> Some bv
              | Some v \<Rightarrow> if is_remove v then None else Some (mergeValue v bv))
        else y_lookup key dst)"
  by (induction "\<lambda>(k :: ynode) (v :: ynode). True" dst rule: pair_all.induct)
    (auto simp: y_lookup_None [where P = "\<lambda>k v. True"])

text \<open>
  Per key: an entry of the inner mapping stays, a removed one takes the inherited one away, and two entries of
  the same key are merged.
\<close>

lemma deepMerge_lookup:
  assumes "pair_all (\<lambda>k v. True) base" "distinct (y_keys base)" "pair_all (\<lambda>k v. True) dst" "distinct (y_keys dst)"
  shows "y_lookup key (deepMerge dst base) =
    (case (y_lookup key dst, y_lookup key base) of
       (None, b) \<Rightarrow> b
     | (Some v, None) \<Rightarrow> Some v
     | (Some v, Some bv) \<Rightarrow> if is_remove v then None else Some (mergeValue v bv))"
  using assms
proof (induction "\<lambda>(k :: ynode) (v :: ynode). True" base arbitrary: dst rule: pair_all.induct)
  case (1 bk bv base)
  let ?d = "mergeKey dst bk bv"
  have d: "pair_all (\<lambda>k v. True) ?d" "distinct (y_keys ?d)" using mergeKey_keys [of dst bk bv] 1 by auto
  have base: "pair_all (\<lambda>k v. True) base" "distinct (y_keys base)" "y_value bk \<notin> set (y_keys base)" using 1 by auto
  then have "y_lookup (y_value bk) base = None" by (simp add: y_lookup_None [where P = "\<lambda>k v. True"])
  moreover have "y_lookup key (deepMerge dst (bk # bv # base)) =
      (case (y_lookup key ?d, y_lookup key base) of
         (None, b) \<Rightarrow> b
       | (Some v, None) \<Rightarrow> Some v
       | (Some v, Some bv) \<Rightarrow> if is_remove v then None else Some (mergeValue v bv))"
    using 1(1) [OF base(1,2) d] by simp
  ultimately show ?case
    using 1(4,5) by (auto simp: mergeKey_lookup split: option.split)
qed (auto split: option.split)

definition demo_loader :: loader where
  "demo_loader = \<lparr>ld_join = (\<lambda>d v. d @ ''/'' @ v), ld_abs = Inr, ld_dir = id,
     ld_read = (\<lambda>p. Inr (YMap [YScalar 0 ''!!str'' ''b'', YScalar 0 ''!remove'' [],
                               YScalar 0 ''!!str'' ''a'', YScalar 0 ''!!int'' ''1'']))\<rparr>"

theorem resolveTree_clean_witness:
  "merged (YMap [YScalar 0 ''!!str'' ''c'', YScalar 0 ''!!int'' ''2'',
                 YScalar 0 ''!!str'' ''a'', YScalar 0 ''!!int'' ''1''])"
proof -
  have "resolveTree demo_loader
      (YMap [YScalar 0 ''!!merge'' ''<<'', YScalar 0 ''!include'' ''base'',
             YScalar 0 ''!!str'' ''c'', YScalar 0 ''!!int'' ''2'']) ''d'' =
    Inr (YMap [YScalar 0 ''!!str'' ''c'', YScalar 0 ''!!int'' ''2'', YScalar 0 ''!!str'' ''a'', YScalar 0 ''!!int'' ''1''])"
    by (simp add: resolveTree_def resolveIncludes.simps resolveList.simps spliceInclude.simps demo_loader_def
        maxIncludeDepth_def mergeMapping_def deref_def y_value_def is_tagged_def)
  from conjunct1 [OF resolveTree_clean [OF this]] show ?thesis .
qed

end
