(* ===== verification/Design_Pins_File.thy ===== *)
theory Design_Pins_File
  imports Design_Yaml
begin

text \<open>
  Model of the pin-list part of \<open>src/tools/socgen/design/pins.go\<close>: the two formats of pin files and the parts
  of a parametric match. \<open>load.go\<close> chooses the format and joins the errors.
\<close>

section \<open>Lines and fields\<close>

fun split_on :: "(char \<Rightarrow> bool) \<Rightarrow> string \<Rightarrow> string list" where
  "split_on P [] = [[]]"
| "split_on P (c # s) =
     (if P c then [] # split_on P s else case split_on P s of p # ps \<Rightarrow> (c # p) # ps | [] \<Rightarrow> [[c]])"

definition split_lines :: "string \<Rightarrow> string list" where
  "split_lines s = split_on (\<lambda>c. c = CHR 0x0A) s"

definition str_fields :: "string \<Rightarrow> string list" where
  "str_fields s = filter (\<lambda>f. f \<noteq> []) (split_on is_space s)"

lemma split_on_no_sep: "\<forall>p \<in> set (split_on P s). \<forall>c \<in> set p. \<not> P c"
  by (induction s) (auto split: list.splits)

lemma str_fields_words: "f \<in> set (str_fields s) \<Longrightarrow> f \<noteq> [] \<and> (\<forall>c \<in> set f. \<not> is_space c)"
  using split_on_no_sep [of is_space s] by (auto simp: str_fields_def)

section \<open>Pin names\<close>

definition pin_name_line :: "string \<Rightarrow> pin option" where
  "pin_name_line l =
     (let t = trim_space l in
      if t = [] \<or> hd t = CHR ''#'' then None
      else (case str_fields t of
              [] \<Rightarrow> None
            | [n] \<Rightarrow> Some \<lparr>pin_net = to_lower n, pin_pad = []\<rparr>
            | n # p # fs \<Rightarrow> Some \<lparr>pin_net = to_lower n, pin_pad = to_lower p\<rparr>))"

definition parsePinNames :: "string \<Rightarrow> pin list" where
  "parsePinNames data = List.map_filter pin_name_line (split_lines data)"

section \<open>Pin lists\<close>

definition unconnected :: string where
  "unconnected = ''*** unconnected ***''"

definition normalize_net :: "string \<Rightarrow> string" where
  "normalize_net s = filter (\<lambda>c. c \<noteq> CHR ''!'') (map (\<lambda>c. if c = CHR ''-'' then CHR ''_'' else c) (to_lower s))"

definition pin_row :: "string \<Rightarrow> pin option" where
  "pin_row raw =
     (if hd (trim_space raw) = CHR ''#'' \<or> sublist unconnected raw then None
      else (case str_fields raw of
              a # b # c # d # fs \<Rightarrow> Some \<lparr>pin_net = normalize_net d, pin_pad = a\<rparr>
            | _ \<Rightarrow> None))"

text \<open>From the line that begins with the part to the next blank one; \<open>None\<close> when no line does.\<close>

definition parsePinList :: "string \<Rightarrow> string \<Rightarrow> pin list option" where
  "parsePinList data part =
     (case dropWhile (\<lambda>l. \<not> prefix part l) (split_lines data) of
        [] \<Rightarrow> None
      | l # ls \<Rightarrow>
          Some (List.map_filter pin_row (takeWhile (\<lambda>r. trim_space r \<noteq> []) (drop (length part) l # ls))))"

datatype pin_file_error = PinFileRead string string | PinPartNotFound string string

text \<open>The pin file of a description: the format is the columnar one unless the names are asked for.\<close>

definition loadPins :: "(string + string) \<Rightarrow> string \<Rightarrow> pins_spec \<Rightarrow> pins_spec \<times> pin_file_error list" where
  "loadPins content path ps =
     (case content of
        Inl e \<Rightarrow> (ps, [PinFileRead path e])
      | Inr data \<Rightarrow>
          if ps_type ps = ''pin-names'' then (ps\<lparr>ps_pins := parsePinNames data\<rparr>, [])
          else (case parsePinList data (ps_part ps) of
                  None \<Rightarrow> (ps\<lparr>ps_pins := []\<rparr>, [PinPartNotFound path (ps_part ps)])
                | Some pins \<Rightarrow> (ps\<lparr>ps_pins := pins\<rparr>, [])))"

definition pin_file_error_text :: "pin_file_error \<Rightarrow> string" where
  "pin_file_error_text e =
     (case e of
        PinPartNotFound path part \<Rightarrow>
          if part \<noteq> [] then ''pin-list '' @ path @ '': part '' @ go_quote part @ '' not found''
          else ''read pins '' @ path @ '': <nil>''
      | PinFileRead path err \<Rightarrow> ''read pins '' @ path @ '': '' @ err)"

section \<open>Parametric matches\<close>

definition isSymbolNode :: "ynode \<Rightarrow> bool" where
  "isSymbolNode n \<longleftrightarrow>
     (case n of
        YScalar st tag [c] \<Rightarrow> st = 0 \<and> (is_lower c \<or> is_upper c)
      | _ \<Rightarrow> False)"

definition seqParts :: "ynode list \<Rightarrow> seq_part list" where
  "seqParts xs =
     map (\<lambda>e. if isSymbolNode e then \<lparr>sp_lit = [], sp_sym = y_value e\<rparr> else \<lparr>sp_lit = y_value e, sp_sym = []\<rparr>) xs"

definition unmarshalMatch :: "ynode \<Rightarrow> pin_match option" where
  "unmarshalMatch n =
     (case n of
        YScalar st tag v \<Rightarrow> Some \<lparr>pm_regex = v, pm_parts = []\<rparr>
      | YSeq xs \<Rightarrow> Some \<lparr>pm_regex = [], pm_parts = seqParts xs\<rparr>
      | _ \<Rightarrow> None)"

section \<open>Facts\<close>

text \<open>
  A net of the simple format is a lower-case word. A net of the columnar format is lower-case without hyphens
  and exclamation marks, and may be empty.
\<close>

lemma parsePinNames_nets:
  assumes "p \<in> set (parsePinNames data)"
  shows "pin_net p \<noteq> [] \<and> list_all (\<lambda>c. \<not> is_upper c \<and> \<not> is_space c) (pin_net p)"
proof -
  from assms obtain l where "pin_name_line l = Some p" by (auto simp: parsePinNames_def map_filter_def)
  then have "str_fields (trim_space l) \<noteq> [] \<and> pin_net p = to_lower (hd (str_fields (trim_space l)))"
    by (auto simp: pin_name_line_def Let_def split: if_splits list.splits)
  then obtain f where f: "f \<in> set (str_fields (trim_space l))" "pin_net p = to_lower f" by (meson hd_in_set)
  then show ?thesis using str_fields_words [OF f(1)] by (auto simp: list_all_iff to_lower_def)
qed

lemma normalize_net_chars: "CHR ''!'' \<notin> set (normalize_net s) \<and> CHR ''-'' \<notin> set (normalize_net s)"
  by (auto simp: normalize_net_def)

end
