(* ===== verification/Board_Load.thy ===== *)
theory Board_Load
  imports Go_Path Vhdl_Parse_File Iface_Extract Design_Validate Design_Yaml Design_Pins_File Dt_Tree
begin

text \<open>
  Model of \<open>src/tools/socgen/board\<close> and of \<open>design.Load\<close>: the description of a board with its pins, the library
  of its VHDL files, and the cross-check. Reading files, running make, and the YAML library, which parses a text
  and decodes a tree into the description, are parameters.
\<close>

section \<open>Parameters\<close>

record host =
  h_read :: "string \<Rightarrow> string + string"
  h_abs :: "string \<Rightarrow> string + string"
  h_yaml :: "string \<Rightarrow> string + ynode"
  h_decode :: "ynode \<Rightarrow> string + design"
  h_make :: "string \<Rightarrow> string \<Rightarrow> (string \<times> string) option"

definition h_tree :: "host \<Rightarrow> string \<Rightarrow> string + ynode" where
  "h_tree h path = (case h_read h path of Inl e \<Rightarrow> Inl e | Inr text \<Rightarrow> h_yaml h text)"

definition host_loader :: "host \<Rightarrow> loader" where
  "host_loader h = \<lparr>ld_join = (\<lambda>d p. path_join [d, p]), ld_abs = h_abs h, ld_dir = path_dir, ld_read = h_tree h\<rparr>"

section \<open>The description\<close>

datatype load_error =
    LoadRead string string
  | LoadTree string yaml_error
  | LoadDecode string string
  | LoadPins pin_file_error

definition socGenRelPath :: string where
  "socGenRelPath = ''../../soc_gen''"

text \<open>The pins of a description that names a pin file; the description is kept whatever the file holds.\<close>

definition load_pins :: "host \<Rightarrow> string \<Rightarrow> design \<Rightarrow> design \<times> load_error list" where
  "load_pins h path d =
     (case d_pins d of
        None \<Rightarrow> (d, [])
      | Some ps \<Rightarrow>
          if ps_file ps = [] then (d, [])
          else
            let pinPath = path_join [path_dir path, socGenRelPath, ps_file ps] in
            case loadPins (h_read h pinPath) pinPath ps of
              (ps', errs) \<Rightarrow> (d\<lparr>d_pins := Some ps'\<rparr>, map LoadPins errs))"

definition Load_design :: "host \<Rightarrow> string \<Rightarrow> design option \<times> load_error list" where
  "Load_design h path =
     (case h_tree h path of
        Inl e \<Rightarrow> (None, [LoadRead path e])
      | Inr root \<Rightarrow>
          (case resolveTree (host_loader h) root (path_dir path) of
             Inl e \<Rightarrow> (None, [LoadTree path e])
           | Inr t \<Rightarrow>
               (case h_decode h t of
                  Inl e \<Rightarrow> (None, [LoadDecode path e])
                | Inr d \<Rightarrow> (case load_pins h path d of (d', errs) \<Rightarrow> (Some d', errs)))))"

section \<open>The file list\<close>

datatype list_kind = ErrMake | ErrReadList | ErrEmptyList | ErrReadFile

record file_list_error =
  fl_kind :: list_kind
  fl_target :: string
  fl_err :: "string option"

definition list_err :: "list_kind \<Rightarrow> string \<Rightarrow> string option \<Rightarrow> file_list_error" where
  "list_err k t e = \<lparr>fl_kind = k, fl_target = t, fl_err = e\<rparr>"

fun list_kind_text :: "list_kind \<Rightarrow> string" where
  "list_kind_text ErrMake = ''make vhdl_list failed''"
| "list_kind_text ErrReadList = ''read file list failed''"
| "list_kind_text ErrEmptyList = ''empty file list''"
| "list_kind_text ErrReadFile = ''read source failed''"

definition file_list_error_text :: "file_list_error \<Rightarrow> string" where
  "file_list_error_text e =
     list_kind_text (fl_kind e) @ '' ('' @ fl_target e @ '')'' @
     (case fl_err e of None \<Rightarrow> [] | Some t \<Rightarrow> '': '' @ t)"

definition is_vhdl_name :: "string \<Rightarrow> bool" where
  "is_vhdl_name l \<longleftrightarrow> suffix ''.vhh'' l \<or> suffix ''.vhd'' l"

definition readFileList :: "host \<Rightarrow> string \<Rightarrow> file_list_error + string list" where
  "readFileList h path =
     (case h_read h path of
        Inl e \<Rightarrow> Inl (list_err ErrReadList path (Some e))
      | Inr data \<Rightarrow>
          (let out = filter is_vhdl_name (map trim_space (split_lines data)) in
           if out = [] then Inl (list_err ErrEmptyList path None) else Inr out))"

definition tailStr :: "string \<Rightarrow> string" where
  "tailStr s = (let t = trim_space s in if 600 < length t then ''...'' @ drop (length t - 600) t else t)"

text \<open>The make of the file list answers with its failure and the text of its error output.\<close>

definition Files :: "host \<Rightarrow> string \<Rightarrow> string \<Rightarrow> file_list_error + string list" where
  "Files h root name =
     (case h_make h root name of
        Some (err, stderr) \<Rightarrow> Inl (list_err ErrMake name (Some (err @ '': '' @ tailStr stderr)))
      | None \<Rightarrow> readFileList h (path_join [root, ''output'', name, ''vhdl_list.txt'']))"

section \<open>The library\<close>

datatype library_error = LFile file_list_error | LParse string "parse_error list"

definition parse_source :: "string \<Rightarrow> string \<Rightarrow> design_file \<times> parse_error list" where
  "parse_source name src =
     (case run_state parseFile (newParser src (Some (fst (AddFile NewFileSet name (length src))))) of
        (df, st) \<Rightarrow> (df, ps_errs st))"

definition read_source :: "host \<Rightarrow> string \<Rightarrow> library_error + design_file" where
  "read_source h f =
     (case h_read h f of
        Inl e \<Rightarrow> Inl (LFile (list_err ErrReadFile f (Some e)))
      | Inr src \<Rightarrow> (case parse_source f src of (df, errs) \<Rightarrow> if errs \<noteq> [] then Inl (LParse f errs) else Inr df))"

text \<open>The reports of duplicate names are dropped here.\<close>

definition Library :: "host \<Rightarrow> string list \<Rightarrow> library \<times> library_error list" where
  "Library h files =
     (let rs = map (read_source h) files in
      (fst (Extract (List.map_filter (\<lambda>r. case r of Inr df \<Rightarrow> Some df | Inl e \<Rightarrow> None) rs)),
       List.map_filter (\<lambda>r. case r of Inl e \<Rightarrow> Some e | Inr df \<Rightarrow> None) rs))"

section \<open>The board\<close>

datatype board_error = BList file_list_error | BLibrary library_error | BDesign load_error | BValid val_error

text \<open>A loaded board; there may be no description, and no library when the file list failed.\<close>

record loaded_board =
  lb_name :: string
  lb_design :: "design option"
  lb_library :: "library option"

definition designFileName :: "string \<Rightarrow> string" where
  "designFileName variant = (if variant = [] then ''design.yaml'' else ''design.'' @ variant @ ''.yaml'')"

definition design_path :: "string \<Rightarrow> string \<Rightarrow> string \<Rightarrow> string" where
  "design_path root name variant = path_join [root, ''targets'', ''boards'', name, designFileName variant]"

definition loadFrom :: "host \<Rightarrow> string \<Rightarrow> string \<Rightarrow> string \<Rightarrow> string list \<Rightarrow> loaded_board \<times> board_error list" where
  "loadFrom h root name variant files =
     (let (d, derrs) = Load_design h (design_path root name variant);
          (lib, lerrs) = Library h files
      in (\<lparr>lb_name = name, lb_design = d, lb_library = Some lib\<rparr>,
          map BLibrary lerrs @ map BDesign derrs @
          (case d of None \<Rightarrow> [] | Some x \<Rightarrow> map BValid (Validate x lib))))"

definition Load_board :: "host \<Rightarrow> string \<Rightarrow> string \<Rightarrow> string \<Rightarrow> loaded_board \<times> board_error list" where
  "Load_board h root name variant =
     (case Files h root name of
        Inl e \<Rightarrow>
          (let (d, derrs) = Load_design h (design_path root name variant) in
           (\<lparr>lb_name = name, lb_design = d, lb_library = None\<rparr>, BList e # map BDesign derrs))
      | Inr files \<Rightarrow> loadFrom h root name variant files)"

end
