(* ===== verification/Emit_Cpus.thy ===== *)
theory Emit_Cpus
  imports Emit_Base
begin

text \<open>
  Model of \<open>src/tools/socgen/emit/cpus_config.go\<close>: the VHDL configuration that binds the CPU cores, and the
  source files the binding needs. The variant table comes from the TOML decoder, a parameter.
\<close>

datatype cpus_error =
    NilCpu
  | NoArchitecture
  | CoresNotTwo int
  | CpuError cpu_error

definition cline :: "string \<Rightarrow> string" where
  "cline s = s @ [nl]"

definition withCoreID :: "string strmap \<Rightarrow> int \<Rightarrow> string strmap" where
  "withCoreID generics i = AList.update ''CORE_ID'' (itoa i) generics"

text \<open>The generic map of a binding, sorted by name, without a comma after the last entry.\<close>

definition generic_lines :: "string strmap \<Rightarrow> string" where
  "generic_lines generics =
     join_strings (map (\<lambda>k. ''              '' @ k @ '' => '' @
                          (case map_of generics k of Some v \<Rightarrow> v | None \<Rightarrow> [])) (sorted_keys generics)) ('','' @ [nl]) @ [nl]"

definition writeCoreBinding :: "string \<Rightarrow> string \<Rightarrow> string strmap \<Rightarrow> string" where
  "writeCoreBinding label synth generics =
     cline (''    for '' @ label @ '' : cpu_core'') @
     cline ''      use entity work.cpu_core(arch);'' @
     cline ''      for arch'' @
     cline ''        for u_cpu : cpu'' @
     (if generics = [] then cline (''          use configuration work.'' @ synth @ '';'')
      else cline (''          use configuration work.'' @ synth) @ cline ''            generic map ('' @
           generic_lines generics @ cline ''            );'') @
     cline ''        end for;'' @ cline ''      end for;'' @ cline ''    end for;''"

definition cpus_text :: "string \<Rightarrow> string \<Rightarrow> string" where
  "cpus_text arch bindings =
     cline (''configuration '' @ CPUsConfigName @ '' of cpus is'') @ cline (''  for '' @ arch) @ bindings @
     cline ''  end for;'' @ cline ''end configuration;''"

definition CPUsConfig :: "toml_table \<Rightarrow> cpu_spec option \<Rightarrow> cpus_error + (string \<times> string \<times> string list)" where
  "CPUsConfig tt co =
     (case co of
        None \<Rightarrow> Inl NilCpu
      | Some cpu \<Rightarrow>
          if cpu_architecture cpu = [] then Inl NoArchitecture
          else
            (case CPUSynthConfig tt (cpu_model cpu) (cpu_decode cpu) (cpu_mult cpu) of
               Inl e \<Rightarrow> Inl (CpuError e)
             | Inr (synth, generics, fs) \<Rightarrow>
                 if \<not> cpu_fpga_opt_core0 cpu
                 then Inr (CPUsConfigName, cpus_text (cpu_architecture cpu) (writeCoreBinding ''all'' synth generics), fs)
                 else if cpu_cores cpu \<noteq> 2 then Inl (CoresNotTwo (cpu_cores cpu))
                 else
                   (case CPUSynthConfigFPGAOpt tt (cpu_model cpu) (cpu_decode cpu) (cpu_mult cpu) of
                      Inl e \<Rightarrow> Inl (CpuError e)
                    | Inr (optSynth, optGenerics, optFiles) \<Rightarrow>
                        Inr (CPUsConfigName,
                             cpus_text (cpu_architecture cpu)
                               (writeCoreBinding ''core0'' optSynth (withCoreID optGenerics 0) @
                                writeCoreBinding ''core1'' synth (withCoreID generics 1)),
                             fs @ optFiles))))"

text \<open>
  With an FPGA-optimised core the extra files of the variant are listed once by each of the two
  configurations, so twice in all.
\<close>

lemma fpga_opt_repeats_files:
  assumes "CPUsConfig tt (Some cpu) = Inr (name, src, fs)" "cpu_fpga_opt_core0 cpu"
    "variantFor tt (cpu_model cpu) = Inr v" "f \<in> set (cpuVariantExtraFiles v)"
  shows "\<not> distinct fs"
proof -
  obtain own1 own2 where "fs = (cpuVariantExtraFiles v @ decodeGenFiles (cpu_model cpu) @
      decodeTableFile (cpu_model cpu) (cpu_decode cpu) # own1) @ (cpuVariantExtraFiles v @ own2)"
    using assms(1-3) by (auto simp: CPUsConfig_def CPUSynthConfig_def CPUSynthConfigFPGAOpt_def
        split: if_splits sum.splits option.splits)
  with assms(4) show ?thesis by auto
qed

end
