(* ===== verification/Gen_Build.thy ===== *)
theory Gen_Build
  imports Emit_Soc Emit_Cpus C_Header Dt_Tree Go_Path
begin

text \<open>
  Model of \<open>src/tools/socgen/generate\<close>: the file set of a board from its elaborated design, and the writing of the
  files. The file system is a parameter. A detail of an error keeps the errors whose text the code joins.
\<close>

section \<open>Errors and files\<close>

datatype gen_kind = ErrUnknownPlugin | ErrDuplicatePlugin | ErrEmit | ErrEmptyContent | ErrWrite

datatype gen_detail =
    NoDetail
  | DetailText string
  | DetailEmit "emit_error list"
  | DetailPins "pin_error list"
  | DetailTree dt_error
  | DetailCpus cpus_error

record gen_error =
  ge_kind :: gen_kind
  ge_name :: string
  ge_detail :: gen_detail

definition gen_err :: "gen_kind \<Rightarrow> string \<Rightarrow> gen_detail \<Rightarrow> gen_error" where
  "gen_err k name d = \<lparr>ge_kind = k, ge_name = name, ge_detail = d\<rparr>"

record gen_file =
  gf_name :: string
  gf_content :: string
  gf_in_build_mk :: bool

definition gen_file :: "string \<Rightarrow> string \<Rightarrow> bool \<Rightarrow> gen_file" where
  "gen_file name content mk = \<lparr>gf_name = name, gf_content = content, gf_in_build_mk = mk\<rparr>"

section \<open>The plugins\<close>

definition knownPlugins :: "string list" where
  "knownPlugins = [''device_tree'', ''board.h'', ''aic1'']"

definition plugin_errs :: "string list \<Rightarrow> string \<Rightarrow> gen_error list" where
  "plugin_errs plugins p =
     (if p \<notin> set knownPlugins then [gen_err ErrUnknownPlugin p NoDetail] else []) @
     (if 1 < count_list plugins p then [gen_err ErrDuplicatePlugin p NoDetail] else [])"

definition validatePlugins :: "string list \<Rightarrow> gen_error list" where
  "validatePlugins plugins = concat (map (plugin_errs plugins) (nub plugins))"

section \<open>The makefile fragment\<close>

definition mk_header :: string where
  "mk_header =
     ''# This file is generated by soc_gen and will be overwritten next time'' @ [nl] @
     ''# the tool is run. See soc_top/README for information on running soc_gen.'' @ [nl]"

definition buildMK :: "gen_file list \<Rightarrow> string \<Rightarrow> string" where
  "buildMK files cpuVariant =
     mk_header @
     concat (map (\<lambda>f. ''$(VHDLS) += '' @ gf_name f @ [nl]) (filter gf_in_build_mk files)) @
     (if cpuVariant \<noteq> [] then ''CPU_VARIANT := '' @ cpuVariant @ [nl] else [])"

section \<open>The file set\<close>

type_synonym gen_part = "gen_file list \<times> gen_error list"

text \<open>A core file is emitted in any case; an emitter error or an empty text is reported.\<close>

definition core_part :: "string \<Rightarrow> bool \<Rightarrow> string \<Rightarrow> gen_detail option \<Rightarrow> gen_part" where
  "core_part name mk content err =
     ([gen_file name content mk],
      case err of
        Some d \<Rightarrow> [gen_err ErrEmit name d]
      | None \<Rightarrow> if content = [] then [gen_err ErrEmptyContent name NoDetail] else [])"

definition some_errs :: "('a list \<Rightarrow> gen_detail) \<Rightarrow> 'a list \<Rightarrow> gen_detail option" where
  "some_errs c errs = (if errs = [] then None else Some (c errs))"

definition word_ack_part :: "elaborated \<Rightarrow> gen_part option" where
  "word_ack_part el =
     (if el_bus_word el = [] then Some ([], [])
      else map_option (\<lambda>content. core_part ''word_ack_gen.vhd'' False content None) (WordAckGen el))"

text \<open>One entry of the plugin list; \<open>aic1\<close> selects no file.\<close>

definition plugin_part :: "(u64 \<Rightarrow> u64) \<Rightarrow> board \<Rightarrow> elaborated \<Rightarrow> string \<Rightarrow> gen_part option" where
  "plugin_part fconv b el p =
     (if p = ''device_tree'' then
        map_option (\<lambda>r. case r of
            Inl e \<Rightarrow> ([gen_file ''board.dts'' [] False], [gen_err ErrEmit ''board.dts'' (DetailTree e)])
          | Inr content \<Rightarrow> ([gen_file ''board.dts'' content False], []))
          (BoardDTS fconv b (el_res el))
      else if p = ''board.h'' then Some ([gen_file ''board.h'' (BoardH (Some (el_res el))) False], [])
      else Some ([], []))"

definition cpu_part :: "toml_table \<Rightarrow> cpu_spec option \<Rightarrow> gen_part" where
  "cpu_part tt co =
     (if co = None then ([], [])
      else case CPUsConfig tt co of
        Inl e \<Rightarrow> ([], [gen_err ErrEmit ''cpus_config.vhd'' (DetailCpus e)])
      | Inr (name, src, synthFiles) \<Rightarrow>
          ([gen_file ''cpus_config.vhd'' src True,
            gen_file ''cpu_synth_files.list'' (concat (map (\<lambda>f. f @ [nl]) synthFiles)) False], []))"

definition constraint_part :: "string \<Rightarrow> elaborated \<Rightarrow> gen_part" where
  "constraint_part name el =
     ((if el_target el = ''ecp5'' then [gen_file (name @ ''.lpf'') (LPF el) False] else []) @
      (if el_target el = ''ice40'' then [gen_file (name @ ''.pcf'') (PCF el) False] else []), [])"

definition join_parts :: "gen_part list \<Rightarrow> gen_part" where
  "join_parts ps = (concat (map fst ps), concat (map snd ps))"

text \<open>
  \<open>Build\<close>: the outer \<open>None\<close> is a panic of an emitter. A bad plugin list gives no files.
\<close>

definition Build :: "(u64 \<Rightarrow> u64) \<Rightarrow> toml_table \<Rightarrow> board \<Rightarrow> elaborated \<Rightarrow> gen_part option" where
  "Build fconv tt b el =
     (let d = brd_design b; bad = validatePlugins (d_plugins d) in
      if bad \<noteq> [] then Some ([], bad)
      else
        (case EmitDevices el of
           None \<Rightarrow> None
         | Some (devs, devs_errs) \<Rightarrow>
        (case word_ack_part el of
           None \<Rightarrow> None
         | Some wag \<Rightarrow>
        (case those (map (plugin_part fconv b el) (d_plugins d)) of
           None \<Rightarrow> None
         | Some plugs \<Rightarrow>
             (let (soc, soc_errs) = SoC el;
                  (ring, ring_errs) = PadRing el;
                  (files, errs) = join_parts
                    ([core_part ''devices.vhd'' True devs (some_errs DetailEmit devs_errs),
                      core_part ''soc.vhd'' True soc (some_errs DetailEmit soc_errs),
                      core_part ''pad_ring.vhd'' True ring (some_errs DetailPins ring_errs), wag] @
                     plugs @ [cpu_part tt (d_cpu d), constraint_part (brd_name b) el]);
                  variant = (case d_cpu d of Some c \<Rightarrow> cpu_model c | None \<Rightarrow> [])
              in Some (files @ [gen_file ''build.mk'' (buildMK files variant) False], errs))))))"

section \<open>Writing\<close>

datatype dir_stat = IsDirectory | NotDirectory | NotThere | StatError string

text \<open>What the operating system answers: the kind of a path, creating a directory and writing.\<close>

record file_system =
  fs_stat :: "string \<Rightarrow> dir_stat"
  fs_mkdir :: "string \<Rightarrow> string option"
  fs_write :: "string \<Rightarrow> string \<Rightarrow> string option"

text \<open>The files written, in order, and the error that stopped the writing.\<close>

fun write_files :: "file_system \<Rightarrow> string \<Rightarrow> gen_file list \<Rightarrow> (string \<times> string) list \<times> gen_error option" where
  "write_files sys dir [] = ([], None)"
| "write_files sys dir (f # fs) =
     (let path = path_join [dir, gf_name f] in
      case fs_write sys path (gf_content f) of
        Some e \<Rightarrow> ([], Some (gen_err ErrWrite (gf_name f) (DetailText e)))
      | None \<Rightarrow> (case write_files sys dir fs of (done_fs, e) \<Rightarrow> ((path, gf_content f) # done_fs, e)))"

definition Write :: "file_system \<Rightarrow> gen_file list \<Rightarrow> string \<Rightarrow> (string \<times> string) list \<times> gen_error option" where
  "Write sys files dir =
     (let fail = (\<lambda>msg. ([], Some (gen_err ErrWrite dir (DetailText msg)))) in
      case fs_stat sys dir of
        NotDirectory \<Rightarrow> fail ''output path exists and is not a directory''
      | StatError msg \<Rightarrow> fail msg
      | NotThere \<Rightarrow> (case fs_mkdir sys dir of Some msg \<Rightarrow> fail msg | None \<Rightarrow> write_files sys dir files)
      | IsDirectory \<Rightarrow> write_files sys dir files)"

end
