(* ===== verification/Soc_Gen.thy ===== *)
theory Soc_Gen
  imports Board_Load Gen_Build
begin

text \<open>
  Model of \<open>src/tools/socgen/cmd/socgen\<close>: generating a board from end to end, and the loop that generates again
  when an input changes. The parsing of the arguments is left to the flag library.
\<close>

section \<open>Generating a board\<close>

text \<open>
  What the run depends on outside of the program: the machine, the file system it writes to, Go's regular
  expressions, the rounding of the binary logarithm of a number above \<open>2 ^ 48\<close>, the variant table and the conversion of an over-large float.
\<close>

record world =
  w_host :: host
  w_files :: file_system
  w_regex :: regex_engine
  w_log2 :: "int \<Rightarrow> int"
  w_variants :: toml_table
  w_float :: "u64 \<Rightarrow> u64"

datatype run_result =
    LoadFailed string "board_error list"
  | PluginErrors "gen_error list"
  | WriteFailed gen_error
  | Generated

definition is_plugin_error :: "gen_error \<Rightarrow> bool" where
  "is_plugin_error e \<longleftrightarrow> ge_kind e = ErrUnknownPlugin \<or> ge_kind e = ErrDuplicatePlugin"

definition output_dir :: "string \<Rightarrow> string \<Rightarrow> string \<Rightarrow> string" where
  "output_dir root name outDir = (if outDir = [] then path_join [root, ''targets/boards'', name] else outDir)"

text \<open>The notes of loading, elaborating and emitting are printed and do not stop the run.\<close>

definition generateBoard :: "world \<Rightarrow> string \<Rightarrow> string \<Rightarrow> string \<Rightarrow> string \<Rightarrow> ((string \<times> string) list \<times> run_result) option" where
  "generateBoard w root name outDir variant =
     (let (lb, lerrs) = Load_board (w_host w) root name variant in
      case lb_design lb of
        None \<Rightarrow> Some ([], LoadFailed name lerrs)
      | Some d \<Rightarrow>
          (let el = fst (Elaborate (w_log2 w) (w_regex w) (Some d) (lb_library lb));
               b = \<lparr>brd_name = lb_name lb, brd_design = d, brd_library = lb_library lb\<rparr>
           in map_option (\<lambda>(files, errs).
                if list_ex is_plugin_error errs then ([], PluginErrors errs)
                else case Write (w_files w) files (output_dir root name outDir) of
                  (written, None) \<Rightarrow> (written, Generated)
                | (written, Some e) \<Rightarrow> (written, WriteFailed e))
              (Build (w_float w) (w_variants w) b el)))"

section \<open>Watching\<close>

text \<open>The shared descriptions come from a directory listing.\<close>

definition watchedFiles :: "(string \<Rightarrow> string list) \<Rightarrow> string \<Rightarrow> string \<Rightarrow> string list" where
  "watchedFiles glob root name =
     sort (remdups (path_join [root, ''targets/boards'', name, ''design.yaml''] #
       glob (path_join [root, ''targets/boards'', ''*.yaml''])))"

text \<open>A missing file has no time; the zero time of the code.\<close>

definition snapshot :: "(string \<Rightarrow> nat option) \<Rightarrow> string list \<Rightarrow> nat option strmap" where
  "snapshot mtime paths = map (\<lambda>p. (p, mtime p)) (remdups paths)"

definition changed :: "nat option strmap \<Rightarrow> nat option strmap \<Rightarrow> bool" where
  "changed old new \<longleftrightarrow>
     length old \<noteq> length new \<or>
     list_ex (\<lambda>(p, t). (case map_of old p of Some u \<Rightarrow> u | None \<Rightarrow> None) \<noteq> t) new"

text \<open>
  The loop over the ticks, each with the times of the files then: the ticks at which the board is generated
  again.
\<close>

fun watch_ticks :: "string list \<Rightarrow> nat option strmap \<Rightarrow> (string \<Rightarrow> nat option) list \<Rightarrow> bool list" where
  "watch_ticks paths prev [] = []"
| "watch_ticks paths prev (t # ts) =
     (let now = snapshot t paths in
      if changed prev now then True # watch_ticks paths now ts else False # watch_ticks paths prev ts)"

end
