(* ===== verification/Gen_Props.thy ===== *)
theory Gen_Props
  imports Soc_Gen Elab_Sound
begin

text \<open>
  The file set of a board and the run of the program from end to end: which files \<open>Build\<close> makes, when it makes
  them, what is written, and what the watching loop sees.
\<close>

section \<open>The plugin list\<close>

lemma set_nub [simp]: "set (nub xs) = set xs"
  by (induction xs) auto

lemma distinct_count_list: "distinct xs \<longleftrightarrow> (\<forall>x \<in> set xs. count_list xs x \<le> 1)"
proof (induction xs)
  case Nil
  then show ?case by simp
next
  case (Cons a xs)
  have "count_list xs a = 0 \<longleftrightarrow> a \<notin> set xs" by (rule count_list_0_iff)
  moreover have "count_list (a # xs) x = count_list xs x" if "x \<noteq> a" for x using that by simp
  ultimately show ?case using Cons
    by (metis (no_types, lifting) Suc_eq_plus1 count_list.simps(2) count_notin distinct.simps(2) list.set_intros
        not_less_eq_eq le0 le_SucI le_zero_eq set_ConsD One_nat_def)
qed

lemma validatePlugins_Nil: "validatePlugins ps = [] \<longleftrightarrow> distinct ps \<and> set ps \<subseteq> set knownPlugins"
  unfolding distinct_count_list by (auto simp: validatePlugins_def plugin_errs_def split: if_splits)

lemma validatePlugins_plugin: "e \<in> set (validatePlugins ps) \<Longrightarrow> is_plugin_error e"
  by (auto simp: validatePlugins_def plugin_errs_def gen_err_def is_plugin_error_def split: if_splits)

section \<open>The names\<close>

definition core_names :: "string list" where
  "core_names = [''devices.vhd'', ''soc.vhd'', ''pad_ring.vhd'']"

definition plugin_names :: "string \<Rightarrow> string list" where
  "plugin_names p =
     (if p = ''device_tree'' then [''board.dts''] else if p = ''board.h'' then [''board.h''] else [])"

definition cpu_names :: "toml_table \<Rightarrow> cpu_spec option \<Rightarrow> string list" where
  "cpu_names tt co =
     (if co \<noteq> None \<and> \<not> isl (CPUsConfig tt co) then [''cpus_config.vhd'', ''cpu_synth_files.list''] else [])"

definition constraint_names :: "string \<Rightarrow> string \<Rightarrow> string list" where
  "constraint_names name tgt =
     (if tgt = ''ecp5'' then [name @ ''.lpf''] else if tgt = ''ice40'' then [name @ ''.pcf''] else [])"

definition build_names :: "toml_table \<Rightarrow> board \<Rightarrow> elaborated \<Rightarrow> string list" where
  "build_names tt b el =
     core_names @ (if el_bus_word el = [] then [] else [''word_ack_gen.vhd'']) @
     concat (map plugin_names (d_plugins (brd_design b))) @ cpu_names tt (d_cpu (brd_design b)) @
     constraint_names (brd_name b) (el_target el) @ [''build.mk'']"

lemma gen_file_name [simp]: "gf_name (gen_file n c m) = n" "gf_content (gen_file n c m) = c" "gf_in_build_mk (gen_file n c m) = m"
  by (simp_all add: gen_file_def)

lemma core_part_name [simp]: "map gf_name (fst (core_part n m c e)) = [n]" "filter gf_in_build_mk (fst (core_part n m c e)) =
    (if m then [gen_file n c m] else [])"
  by (simp_all add: core_part_def)

lemma word_ack_part_name:
  "word_ack_part el = Some p \<Longrightarrow>
     map gf_name (fst p) = (if el_bus_word el = [] then [] else [''word_ack_gen.vhd'']) \<and> filter gf_in_build_mk (fst p) = []"
  by (auto simp: word_ack_part_def split: if_splits)

lemma plugin_part_cases:
  assumes "plugin_part fconv b el q = Some p"
  obtains (tree) c es where "q = ''device_tree''" "p = ([gen_file ''board.dts'' c False], es)" "list_all (\<lambda>e. ge_kind e = ErrEmit) es"
    | (header) "q = ''board.h''" "p = ([gen_file ''board.h'' (BoardH (Some (el_res el))) False], [])"
    | (other) "q \<noteq> ''device_tree''" "q \<noteq> ''board.h''" "p = ([], [])"
proof (cases "q = ''device_tree''")
  case True
  then obtain r where "BoardDTS fconv b (el_res el) = Some r" using assms by (auto simp: plugin_part_def)
  with True assms show thesis by (cases r) (auto simp: plugin_part_def gen_err_def intro!: tree)
next
  case False
  with assms show thesis by (auto simp: plugin_part_def intro: header other split: if_splits)
qed

lemma plugin_part_name:
  "plugin_part fconv b el q = Some p \<Longrightarrow> map gf_name (fst p) = plugin_names q \<and> filter gf_in_build_mk (fst p) = []"
  by (erule plugin_part_cases) (simp_all add: plugin_names_def)

lemma those_map_all:
  "those (map f xs) = Some ys \<Longrightarrow> (\<And>x y. f x = Some y \<Longrightarrow> g y = h x) \<Longrightarrow> map g ys = map h xs"
  by (induction xs arbitrary: ys) (auto split: option.splits)

lemma plugin_parts_name:
  assumes "those (map (plugin_part fconv b el) ps) = Some qs"
  shows "map gf_name (concat (map fst qs)) = concat (map plugin_names ps) \<and> filter gf_in_build_mk (concat (map fst qs)) = []"
proof -
  have "map (\<lambda>q. map gf_name (fst q)) qs = map plugin_names ps"
    by (rule those_map_all [OF assms]) (use plugin_part_name in blast)
  moreover have "map (\<lambda>q. filter gf_in_build_mk (fst q)) qs = map (\<lambda>p. []) ps"
    by (rule those_map_all [OF assms]) (use plugin_part_name in blast)
  ultimately show ?thesis by (simp add: map_concat filter_concat comp_def)
qed

lemma cpu_part_name:
  "map gf_name (fst (cpu_part tt co)) = cpu_names tt co"
  "map gf_name (filter gf_in_build_mk (fst (cpu_part tt co))) = take 1 (cpu_names tt co)"
  by (auto simp: cpu_part_def cpu_names_def split: sum.split)

lemma constraint_part_name:
  "map gf_name (fst (constraint_part n el)) = constraint_names n (el_target el)"
  "filter gf_in_build_mk (fst (constraint_part n el)) = []"
  by (auto simp: constraint_part_def constraint_names_def)

lemma plugin_names_distinct:
  assumes "distinct ps" "set ps \<subseteq> set knownPlugins"
  shows "distinct (concat (map plugin_names ps))"
proof (rule distinct_concat)
  have "inj_on plugin_names (set knownPlugins)" by (auto simp: inj_on_def plugin_names_def knownPlugins_def)
  then show "distinct (map plugin_names ps)" using assms by (metis distinct_map inj_on_subset)
qed (auto simp: plugin_names_def split: if_splits)

text \<open>A constraint file ends in another letter than all the others.\<close>

lemma build_names_distinct:
  assumes "distinct (d_plugins (brd_design b))" "set (d_plugins (brd_design b)) \<subseteq> set knownPlugins"
  shows "distinct (build_names tt b el)"
proof -
  let ?ps = "concat (map plugin_names (d_plugins (brd_design b)))"
  have ps: "distinct ?ps" "set ?ps \<subseteq> {''board.dts'', ''board.h''}"
    using plugin_names_distinct [OF assms] by (auto simp: plugin_names_def split: if_splits)
  have cn: "set (constraint_names (brd_name b) (el_target el)) \<inter>
      {''devices.vhd'', ''soc.vhd'', ''pad_ring.vhd'', ''word_ack_gen.vhd'', ''board.dts'', ''board.h'', ''cpus_config.vhd'',
       ''cpu_synth_files.list'', ''build.mk''} = {}"
  proof -
    have "last s = CHR ''f''" if "s \<in> set (constraint_names (brd_name b) (el_target el))" for s
      using that by (auto simp: constraint_names_def split: if_splits)
    then show ?thesis by force
  qed
  have "set (cpu_names tt (d_cpu (brd_design b))) \<subseteq> {''cpus_config.vhd'', ''cpu_synth_files.list''}"
    "distinct (cpu_names tt (d_cpu (brd_design b)))" "distinct (constraint_names (brd_name b) (el_target el))"
    by (auto simp: cpu_names_def constraint_names_def)
  then show ?thesis using ps cn
    by (auto simp: build_names_def core_names_def)
qed

section \<open>The file set\<close>

text \<open>A core file that went wrong is reported as an emitter error: its text has the banner at least.\<close>

lemma core_errors:
  assumes "SoC el = (s, es)" "PadRing el = (r, er)" "EmitDevices el = Some (v, ev)"
  shows "s \<noteq> [] \<and> r \<noteq> [] \<and> (el_bus_word el = [] \<longrightarrow> v \<noteq> [])"
  using assms by (auto simp: SoC_def PadRing_def EmitDevices_def withBanner_def fileBanner_def star_line_def Let_def
      split: prod.splits if_splits)

lemma part_kinds:
  "e \<in> set (snd (core_part n m c o')) \<Longrightarrow> ge_kind e \<in> {ErrEmit, ErrEmptyContent} \<and> ge_name e = n"
  "word_ack_part el = Some p \<Longrightarrow> e \<in> set (snd p) \<Longrightarrow> ge_kind e \<in> {ErrEmit, ErrEmptyContent}"
  "e \<in> set (snd (cpu_part tt co)) \<Longrightarrow> ge_kind e = ErrEmit"
  "e \<notin> set (snd (constraint_part nm el))"
  by (auto simp: core_part_def gen_err_def word_ack_part_def cpu_part_def constraint_part_def
      split: option.splits if_splits sum.splits prod.splits)

lemma plugin_kinds: "plugin_part fconv b el q = Some p \<Longrightarrow> e \<in> set (snd p) \<Longrightarrow> ge_kind e = ErrEmit"
  by (erule plugin_part_cases) (auto simp: list_all_iff)

lemma those_map_mem: "those (map f xs) = Some ys \<Longrightarrow> y \<in> set ys \<Longrightarrow> \<exists>x \<in> set xs. f x = Some y"
  by (induction xs arbitrary: ys) (auto split: option.splits)

definition build_outcome :: "toml_table \<Rightarrow> board \<Rightarrow> elaborated \<Rightarrow> gen_part \<Rightarrow> bool" where
  "build_outcome tt b el p \<longleftrightarrow>
     (let ps = d_plugins (brd_design b) in
      if distinct ps \<and> set ps \<subseteq> set knownPlugins
      then map gf_name (fst p) = build_names tt b el \<and> distinct (build_names tt b el) \<and>
        map gf_name (filter gf_in_build_mk (fst p)) = core_names @ take 1 (cpu_names tt (d_cpu (brd_design b))) \<and>
        gf_content (last (fst p)) = buildMK (butlast (fst p)) (case d_cpu (brd_design b) of Some c \<Rightarrow> cpu_model c | None \<Rightarrow> []) \<and>
        list_all (\<lambda>e. \<not> is_plugin_error e) (snd p)
      else fst p = [] \<and> snd p \<noteq> [] \<and> list_all is_plugin_error (snd p))"

lemma build_outcome_Build:
  assumes "Build fconv tt b el = Some p"
  shows "build_outcome tt b el p"
proof (cases "validatePlugins (d_plugins (brd_design b)) = []")
  case False
  then have "p = ([], validatePlugins (d_plugins (brd_design b)))" using assms by (simp add: Build_def Let_def)
  moreover have "\<not> (distinct (d_plugins (brd_design b)) \<and> set (d_plugins (brd_design b)) \<subseteq> set knownPlugins)" using False validatePlugins_Nil by blast
  ultimately show ?thesis using False validatePlugins_plugin [of _ "d_plugins (brd_design b)"]
    by (simp add: build_outcome_def Let_def list_all_iff)
next
  case True
  then have ok: "distinct (d_plugins (brd_design b))" "set (d_plugins (brd_design b)) \<subseteq> set knownPlugins" using validatePlugins_Nil by blast+
  obtain v ev wag plugs s es r er where parts: "EmitDevices el = Some (v, ev)" "word_ack_part el = Some wag"
    "those (map (plugin_part fconv b el) (d_plugins (brd_design b))) = Some plugs" "SoC el = (s, es)" "PadRing el = (r, er)"
    and p: "p = (let (files, errs) = join_parts
                  ([core_part ''devices.vhd'' True v (some_errs DetailEmit ev),
                    core_part ''soc.vhd'' True s (some_errs DetailEmit es),
                    core_part ''pad_ring.vhd'' True r (some_errs DetailPins er), wag] @
                   plugs @ [cpu_part tt (d_cpu (brd_design b)), constraint_part (brd_name b) el]) in
              (files @ [gen_file ''build.mk''
                 (buildMK files (case d_cpu (brd_design b) of Some c \<Rightarrow> cpu_model c | None \<Rightarrow> [])) False], errs))"
    using assms True by (auto simp: Build_def Let_def split: option.splits prod.splits)
  note names = word_ack_part_name [OF parts(2)] plugin_parts_name [OF parts(3)] cpu_part_name constraint_part_name
  define pl where "pl = [core_part ''devices.vhd'' True v (some_errs DetailEmit ev),
     core_part ''soc.vhd'' True s (some_errs DetailEmit es), core_part ''pad_ring.vhd'' True r (some_errs DetailPins er), wag] @
     plugs @ [cpu_part tt (d_cpu (brd_design b)), constraint_part (brd_name b) el]"
  define fs where "fs = concat (map fst pl)"
  have p': "p = (fs @ [gen_file ''build.mk''
      (buildMK fs (case d_cpu (brd_design b) of Some c \<Rightarrow> cpu_model c | None \<Rightarrow> [])) False], concat (map snd pl))"
    unfolding p fs_def pl_def join_parts_def by (simp add: Let_def)
  have "map gf_name fs @ [''build.mk''] = build_names tt b el"
    "map gf_name (filter gf_in_build_mk fs) = core_names @ take 1 (cpu_names tt (d_cpu (brd_design b)))"
    using names by (simp_all add: fs_def pl_def build_names_def core_names_def)
  moreover have "list_all (\<lambda>e. \<not> is_plugin_error e) (concat (map snd pl))"
    using part_kinds(1) part_kinds(2) [OF parts(2)] part_kinds(3,4) plugin_kinds those_map_mem [OF parts(3)]
    unfolding pl_def list_all_iff is_plugin_error_def by fastforce
  ultimately show ?thesis using ok build_names_distinct [OF ok, of tt el]
    by (simp add: p' build_outcome_def Let_def)
qed


section \<open>From the description to the decoder in the file\<close>

text \<open>The \<open>decode_address\<close> function of the architectures of a file, run on an address.\<close>

definition file_decode :: "design_file \<Rightarrow> 32 word \<Rightarrow> outcome option" where
  "file_decode df a =
     (case List.find (\<lambda>d. case d of SubprogramBody p i f n ps r ds ss \<Rightarrow> n = ''decode_address'' | _ \<Rightarrow> False)
        (concat (map (\<lambda>u. case u of ArchitectureBody n e ds ss \<Rightarrow> ds | _ \<Rightarrow> []) (df_units df))) of
        Some (SubprogramBody p i f n ps r ds ss) \<Rightarrow> Some (exec_stmts (addr_word a) ss)
      | _ \<Rightarrow> None)"

lemma exec_sort:
  "exec_stmts w (map sort_stmt ss) = exec_stmts w ss"
  "exec_elsifs w (map sort_elsif els) (map sort_stmt el) = exec_elsifs w els el"
  by (induction w ss and w els el rule: exec_stmts_exec_elsifs.induct) (auto split: option.split outcome.split)

lemma find_skip: "list_all (\<lambda>d. \<not> P d) xs \<Longrightarrow> List.find P (xs @ ys) = List.find P ys"
  by (induction xs) auto

lemma devicesFile_decode:
  assumes "res_data_bus (el_res el) = Some db"
    and "decodeBody (busDevicesOf (el_res el)) (busLits (el_res el)) (pbm_decode_mode db = ''simple'') = Some body"
  shows "\<exists>df errs. devicesFile el = Some (df, errs) \<and> file_decode df a = Some (exec_stmts (addr_word a) body)"
proof -
  let ?P = "\<lambda>d. case d of SubprogramBody p i f n ps r ds ss \<Rightarrow> n = ''decode_address'' | _ \<Rightarrow> False"
  let ?fn = "SubprogramBody False False False ''decode_address'' [decodeParam] ''device_t'' [] body"
  obtain ds where ds: "databusDecls (el_res el) = Some (ds @ [?fn])" and other: "list_all (\<lambda>d. \<not> ?P d) (map sort_decl ds)"
    using assms by (auto simp: databusDecls_def decodeFunction_def Let_def)
  have mux: "list_all (\<lambda>d. \<not> ?P d) (map sort_decl (muxBusDecls (el_res el)))"
    by (auto simp: muxBusDecls_def list_all_iff split: option.split)
  have sigs: "list_all (\<lambda>d. \<not> ?P d) (map (sort_decl \<circ> (\<lambda>n. signal_decl n (f n))) ns)" for f and ns :: "string list"
    by (auto simp: signal_decl_def list_all_iff split: prod.split)
  show ?thesis
    using ds other mux sigs
    by (simp add: devicesFile_def Let_def sortInstMaps_def file_decode_def find_skip exec_sort comp_def)
qed

lemma Elaborate_bus_model:
  assumes "dev \<in> set (res_devices (el_res (fst (Elaborate lg rx (Some d) lo))))" "rd_data_bus dev"
  shows "res_data_bus (el_res (fst (Elaborate lg rx (Some d) lo))) \<noteq> None"
proof -
  let ?r1 = "fst (elaborateStructure d lo (fst (Devices lg (Some d) lo)))"
  have m: "map rd_data_bus (res_devices (fst (elaborateSignals rx d r))) = map rd_data_bus (res_devices r)"
    "res_data_bus (fst (elaborateSignals rx d r)) = res_data_bus r" for r
    by (simp_all add: elaborateSignals_def Let_def split_beta removeWriteOnlySignals_def injectInternalBusPorts_def comp_def
        split: option.split)
  have keep: "map rd_data_bus (res_devices (el_res (fst (Elaborate lg rx (Some d) lo)))) = map rd_data_bus (res_devices ?r1)"
    unfolding Elaborate_res by (rule m(1))
  have "True \<in> set (map rd_data_bus (res_devices (el_res (fst (Elaborate lg rx (Some d) lo)))))" using assms by force
  then have "list_ex rd_data_bus (res_devices ?r1)" unfolding keep by (auto simp: list_ex_iff)
  then show ?thesis unfolding Elaborate_res m(2)
    by (simp add: elaborateStructure_def dataBusModel_def Let_def split_beta)
qed

text \<open>
  C2: a board that elaborates without an error, whose devices all have base addresses below \<open>2 ^ 32\<close> and none of
  which is named \<open>none\<close>, gets its devices file. For an address of the device region in the address space of a
  device on the bus, the \<open>decode_address\<close> function of that file returns the literal of the device. The file set is
  built, unless the device tree that a plugin asks for panics.
\<close>

theorem Elaborate_generates:
  assumes "Elaborate lg rx (Some d) (Some l) = (el, [])"
    and "\<forall>dev \<in> set (d_devices d). \<forall>b. dev_base_addr dev = Some b \<longrightarrow> uint b < 2 ^ 32"
    and "\<forall>dev \<in> set (res_devices (el_res el)). rd_name dev \<noteq> ''none''"
    and "on_bus (el_res el) dev b lab" "in_device_region (ucast a)" "uint a \<in> addr_space b lab"
  shows "(\<exists>df errs. devicesFile el = Some (df, errs) \<and> file_decode df a = Some (Returned (devLit (rd_name dev)))) \<and>
    (Build fconv tt brd el = None \<longleftrightarrow>
       validatePlugins (d_plugins (brd_design brd)) = [] \<and> ''device_tree'' \<in> set (d_plugins (brd_design brd)) \<and>
       BoardDTS fconv brd (el_res el) = None)"
proof -
  have E: "snd (Elaborate lg rx (Some d) (Some l)) = []" "fst (Elaborate lg rx (Some d) (Some l)) = el" using assms(1) by simp_all
  note D = Elaborate_decodable [OF E(1) assms(2), unfolded E(2), OF assms(3)]
  note total = decode_total [OF iffD1 [OF validateAddresses_Nil D(2)] D(1)]
  have dev: "dev \<in> set (res_devices (el_res el))" "rd_data_bus dev" using assms(4) by (auto simp: on_bus_def mapped_def)
  then obtain db where db: "res_data_bus (el_res el) = Some db"
    using Elaborate_bus_model [of dev lg rx d "Some l", unfolded E(2)] by auto
  obtain body where body: "decodeBody (busDevicesOf (el_res el)) (busLits (el_res el)) (pbm_decode_mode db = ''simple'') = Some body"
    "exec_stmts (addr_word a) body = Returned (devLit (rd_name dev))"
    using total [of "pbm_decode_mode db = ''simple''"] assms(4-6) by blast
  from devicesFile_decode [OF db body(1), of a] obtain df errs where
    df: "devicesFile el = Some (df, errs)" "file_decode df a = Some (Returned (devLit (rd_name dev)))" using body(2) by auto
  have emit: "EmitDevices el \<noteq> None" using df(1) by (simp add: EmitDevices_def split: prod.split)
  have wag: "word_ack_part el \<noteq> None" using body(1) db by (simp add: word_ack_part_def WordAckGen_def decodeFunction_def Let_def)
  have plug: "those (map (plugin_part fconv brd el) ps) = None \<longleftrightarrow> ''device_tree'' \<in> set ps \<and> BoardDTS fconv brd (el_res el) = None" for ps
    by (induction ps) (auto simp: plugin_part_def split: option.splits)
  have "Build fconv tt brd el = None \<longleftrightarrow>
      validatePlugins (d_plugins (brd_design brd)) = [] \<and>
      those (map (plugin_part fconv brd el) (d_plugins (brd_design brd))) = None"
    using emit wag by (auto simp: Build_def Let_def split: option.split prod.split)
  then show ?thesis using df plug by blast
qed

theorem Elaborate_generates_witness:
  "case devicesFile uart_elaborated of
     Some (df, errs) \<Rightarrow> file_decode df 0xABCD0208 = Some (Returned ''DEV_UART1'') | None \<Rightarrow> False"
proof -
  let ?r = "uart_rd ''uart1'' 0xABCD0200"
  have cls: "class_of uart_resolved ?r = Some uart_class" by code_simp
  have "\<forall>dev \<in> set (d_devices uart_design). \<forall>b. dev_base_addr dev = Some b \<longrightarrow> uint b < 2 ^ 32"
    by (simp add: uart_design_def demo_design_def)
  moreover have "\<forall>dev \<in> set (res_devices (el_res uart_elaborated)). rd_name dev \<noteq> ''none''"
    by (simp add: uart_elaborated_res uart_resolved_def uart_rd_def)
  moreover have "on_bus (el_res uart_elaborated) ?r 0xABCD0200 3"
    by (simp add: uart_elaborated_res on_bus_def mapped_def cls)
      (simp add: uart_resolved_def uart_rd_def uart_class_def)
  moreover have "in_device_region (ucast (0xABCD0208 :: 32 word))" "uint (0xABCD0208 :: 32 word) \<in> addr_space 0xABCD0200 3"
    by (simp_all add: in_device_region_def addr_space_def)
  ultimately obtain df errs where "devicesFile uart_elaborated = Some (df, errs)"
    "file_decode df 0xABCD0208 = Some (Returned (devLit (rd_name ?r)))"
    using Elaborate_generates [OF uart_board_ok, of ?r "0xABCD0200" 3 "0xABCD0208"] by blast
  moreover have "devLit ''uart1'' = ''DEV_UART1''" by code_simp
  ultimately show ?thesis by (simp add: uart_rd_def)
qed

section \<open>What a run writes\<close>

text \<open>The file set of a board with its paths: none when there is no description or an emitter fails for good.\<close>

definition board_files :: "world \<Rightarrow> string \<Rightarrow> string \<Rightarrow> string \<Rightarrow> string \<Rightarrow> (string \<times> string) list" where
  "board_files w root name outDir variant =
     (let lb = fst (Load_board (w_host w) root name variant) in
      case lb_design lb of
        None \<Rightarrow> []
      | Some d \<Rightarrow>
          (case Build (w_float w) (w_variants w) \<lparr>brd_name = lb_name lb, brd_design = d, brd_library = lb_library lb\<rparr>
                  (fst (Elaborate (w_log2 w) (w_regex w) (Some d) (lb_library lb))) of
             None \<Rightarrow> []
           | Some (files, errs) \<Rightarrow>
               map (\<lambda>f. (path_join [output_dir root name outDir, gf_name f], gf_content f)) files))"

lemma write_files_prefix:
  "case write_files sys dir fs of (done_fs, e) \<Rightarrow>
     (case e of None \<Rightarrow> done_fs = map (\<lambda>f. (path_join [dir, gf_name f], gf_content f)) fs
      | Some x \<Rightarrow> strict_prefix done_fs (map (\<lambda>f. (path_join [dir, gf_name f], gf_content f)) fs))"
  by (induction fs) (auto simp: Let_def split: option.splits prod.splits)

lemma Write_prefix:
  "case Write sys fs dir of (done_fs, e) \<Rightarrow>
     (case e of None \<Rightarrow> done_fs = map (\<lambda>f. (path_join [dir, gf_name f], gf_content f)) fs
      | Some x \<Rightarrow> prefix done_fs (map (\<lambda>f. (path_join [dir, gf_name f], gf_content f)) fs))"
  using write_files_prefix [where sys = sys and dir = dir and fs = fs]
  by (auto simp: Write_def Let_def split: dir_stat.splits option.splits prod.splits)

text \<open>
  C33: a run that reports success has written the whole file set of the board, in order. One that fails to write
  has written a beginning of it, and one that fails before has written nothing: no description could be loaded, or
  the plugin list names an unknown plugin or one twice.
\<close>

theorem generateBoard_writes:
  "case generateBoard w root name outDir variant of
     None \<Rightarrow> True
   | Some (written, r) \<Rightarrow>
       (case r of
          Generated \<Rightarrow> written = board_files w root name outDir variant \<and> written \<noteq> []
        | WriteFailed e \<Rightarrow> prefix written (board_files w root name outDir variant)
        | PluginErrors es \<Rightarrow> written = [] \<and> board_files w root name outDir variant = [] \<and> list_all is_plugin_error es
        | LoadFailed n es \<Rightarrow> written = [] \<and> lb_design (fst (Load_board (w_host w) root name variant)) = None)"
proof -
  obtain lb lerrs where lb: "Load_board (w_host w) root name variant = (lb, lerrs)" by (meson surj_pair)
  show ?thesis
  proof (cases "lb_design lb")
    case None
    then show ?thesis by (simp add: generateBoard_def lb)
  next
    case (Some d)
    let ?b = "\<lparr>brd_name = lb_name lb, brd_design = d, brd_library = lb_library lb\<rparr>"
    let ?el = "fst (Elaborate (w_log2 w) (w_regex w) (Some d) (lb_library lb))"
    show ?thesis
    proof (cases "Build (w_float w) (w_variants w) ?b ?el")
      case None
      then show ?thesis by (simp add: generateBoard_def lb Some Let_def)
    next
      case (Some p)
      obtain fs errs where p: "p = (fs, errs)" by (cases p)
      have out: "build_outcome (w_variants w) ?b ?el p"
        using build_outcome_Build [OF Some] .
      have bf: "board_files w root name outDir variant =
          map (\<lambda>f. (path_join [output_dir root name outDir, gf_name f], gf_content f)) fs"
        using Some p \<open>lb_design lb = Some d\<close> by (simp add: board_files_def lb)
      show ?thesis
      proof (cases "list_ex is_plugin_error errs")
        case True
        then have "fs = []" "list_all is_plugin_error errs"
          using out p by (auto simp: build_outcome_def Let_def list_ex_iff list_all_iff split: if_splits)
        then show ?thesis using True Some p bf \<open>lb_design lb = Some d\<close> by (simp add: generateBoard_def lb Let_def)
      next
        case False
        then have "errs = [] \<or> \<not> list_all is_plugin_error errs" by (cases errs) auto
        then have "map gf_name fs = build_names (w_variants w) ?b ?el"
          using out p by (auto simp: build_outcome_def Let_def split: if_splits)
        then have "fs \<noteq> []" by (auto simp: build_names_def)
        then show ?thesis using False Some p bf \<open>lb_design lb = Some d\<close>
            Write_prefix [where sys = "w_files w" and fs = fs and dir = "output_dir root name outDir"]
          by (auto simp: generateBoard_def lb Let_def split: prod.split option.split)
      qed
    qed
  qed
qed

section \<open>Watching\<close>

text \<open>The board is generated again at a tick exactly when a watched file has another time than at the last one.\<close>

lemma map_of_snapshot: "p \<in> set paths \<Longrightarrow> map_of (snapshot t paths) p = Some (t p)"
  by (simp add: snapshot_def map_of_map_restrict)

lemma changed_snapshot: "changed (snapshot t paths) (snapshot u paths) \<longleftrightarrow> (\<exists>p \<in> set paths. t p \<noteq> u p)"
proof -
  have "list_ex (\<lambda>(p, v). (case map_of (snapshot t paths) p of Some x \<Rightarrow> x | None \<Rightarrow> None) \<noteq> v) (snapshot u paths) \<longleftrightarrow>
      (\<exists>p \<in> set paths. t p \<noteq> u p)"
    by (auto simp: list_ex_iff map_of_snapshot snapshot_def [of u])
  then show ?thesis by (simp add: changed_def snapshot_def)
qed

text \<open>
  The description of a variant is not watched: an edit of it is not noticed, although the board was generated
  from it.
\<close>

lemma variant_not_watched:
  "let glob = (\<lambda>p. [''targets/boards/common.yaml'']); paths = watchedFiles glob ''.'' ''ulx3s''; f = design_path ''.'' ''ulx3s'' ''j4-rom'' in
   f = ''targets/boards/ulx3s/design.j4-rom.yaml'' \<and> f \<notin> set paths \<and>
   watch_ticks paths (snapshot (\<lambda>p. Some 1) paths) [\<lambda>p. Some (if p = f then 2 else 1)] = [False]"
  by code_simp

end
