(* ===== verification/Go_Uint.thy ===== *)
theory Go_Uint
  imports Emit_Devices
begin

text \<open>
  \<open>strconv.ParseUint\<close> of the standard library: a base of zero is read off the prefix of the text and allows
  underscores between digits.
\<close>

datatype uint_error = UintSyntax | UintRange

definition uint_digit :: "char \<Rightarrow> nat option" where
  "uint_digit c =
     (let l = to_lower_char c in
      if is_digit c then Some (char_code c - 48)
      else if is_lower l then Some (char_code l - 87)
      else None)"

text \<open>The digits from left to right with the value so far. The first fault decides.\<close>

fun uint_digits :: "nat \<Rightarrow> nat \<Rightarrow> bool \<Rightarrow> nat \<Rightarrow> string \<Rightarrow> uint_error + nat" where
  "uint_digits base bits us n [] = Inr n"
| "uint_digits base bits us n (c # s) =
     (if c = CHR ''_'' \<and> us then uint_digits base bits us n s
      else case uint_digit c of
        None \<Rightarrow> Inl UintSyntax
      | Some d \<Rightarrow>
          if base \<le> d then Inl UintSyntax
          else if 2 ^ bits \<le> base * n + d then Inl UintRange
          else uint_digits base bits us (base * n + d) s)"

text \<open>\<open>underscoreOK\<close> after the prefix; \<open>saw\<close> is the last thing seen: a digit, an underscore or something else.\<close>

fun underscores_ok :: "bool \<Rightarrow> char \<Rightarrow> string \<Rightarrow> bool" where
  "underscores_ok hex saw [] \<longleftrightarrow> saw \<noteq> CHR ''_''"
| "underscores_ok hex saw (c # s) \<longleftrightarrow>
     (if is_digit c \<or> hex \<and> to_lower_char c \<in> set ''abcdef'' then underscores_ok hex (CHR ''0'') s
      else if c = CHR ''_'' then saw = CHR ''0'' \<and> underscores_ok hex (CHR ''_'') s
      else saw \<noteq> CHR ''_'' \<and> underscores_ok hex (CHR ''!'') s)"

definition underscoreOK :: "string \<Rightarrow> bool" where
  "underscoreOK s =
     (let t = (if s \<noteq> [] \<and> hd s \<in> {CHR ''-'', CHR ''+''} then tl s else s) in
      case t of
        a # b # r \<Rightarrow>
          if a = CHR ''0'' \<and> to_lower_char b \<in> set ''box'' then underscores_ok (to_lower_char b = CHR ''x'') (CHR ''0'') r
          else underscores_ok False (CHR ''^'') t
      | _ \<Rightarrow> underscores_ok False (CHR ''^'') t)"

definition base_prefix :: "string \<Rightarrow> nat \<times> string" where
  "base_prefix s =
     (if s \<noteq> [] \<and> hd s = CHR ''0'' then
        (if 3 \<le> length s \<and> to_lower_char (s ! 1) = CHR ''b'' then (2, drop 2 s)
         else if 3 \<le> length s \<and> to_lower_char (s ! 1) = CHR ''o'' then (8, drop 2 s)
         else if 3 \<le> length s \<and> to_lower_char (s ! 1) = CHR ''x'' then (16, drop 2 s)
         else (8, drop 1 s))
      else (10, s))"

text \<open>For the bases 0 and 10.\<close>

definition ParseUint :: "string \<Rightarrow> nat \<Rightarrow> nat \<Rightarrow> uint_error + nat" where
  "ParseUint s base bits =
     (if s = [] then Inl UintSyntax
      else
        let (b, r) = (if base = 0 then base_prefix s else (base, s)) in
        case uint_digits b bits (base = 0) 0 r of
          Inl e \<Rightarrow> Inl e
        | Inr n \<Rightarrow> if base = 0 \<and> CHR ''_'' \<in> set r \<and> \<not> underscoreOK s then Inl UintSyntax else Inr n)"

lemma uint_digit_digit: "is_digit c \<Longrightarrow> uint_digit c = Some (char_code c - 48)"
  by (simp add: uint_digit_def)

lemma uint_digits_bound: "uint_digits b bits u n s = Inr m \<Longrightarrow> n < 2 ^ bits \<Longrightarrow> m < 2 ^ bits"
  by (induction b bits u n s rule: uint_digits.induct) (auto split: if_splits option.splits)

lemma ParseUint_bound: "ParseUint s base bits = Inr n \<Longrightarrow> n < 2 ^ bits"
  by (auto simp: ParseUint_def split: prod.splits sum.splits if_splits dest: uint_digits_bound)

end
