(* ===== verification/Coremark.thy ===== *)
theory Coremark
  imports Go_Uint
begin

text \<open>
  Model of \<open>src/tools/coremark-collector\<close>, without the terminal settings and the printing of a result, and of
  the image builder \<open>src/tools/mkflash\<close>. The collector reads a serial line in pieces, splits them into lines and
  gathers the fields of one record; the reads, each with what the device had to say, are its input.
\<close>

section \<open>Records\<close>

record result =
  r_magic :: "32 word"
  r_git_rev :: "32 word"
  r_crc :: "16 word"
  r_iterations :: "32 word"
  r_cycles :: "32 word"
  r_clk_hz :: "32 word"

datatype record_error =
    MissingField string
  | BadField string string uint_error
  | ZeroCycles
  | MagicMismatch "32 word"
  | CrcMismatch "16 word" "16 word"

definition Magic :: "32 word" where
  "Magic = 0x4B4D434A"

definition ExpectedCRC :: "16 word" where
  "ExpectedCRC = 0x988c"

definition cmk :: string where
  "cmk = ''CMK ''"

text \<open>The field of one line: its key and value.\<close>

definition line_field :: "string \<Rightarrow> (string \<times> string) option" where
  "line_field l =
     (let t = trim_space l in if prefix cmk t then cut ''='' (drop (length cmk) t) else None)"

definition record_fields :: "string list \<Rightarrow> string strmap" where
  "record_fields ls =
     fold (\<lambda>l m. case line_field l of None \<Rightarrow> m | Some (k, v) \<Rightarrow> AList.update k v m) ls []"

definition parse_field :: "nat \<Rightarrow> string strmap \<Rightarrow> string \<Rightarrow> record_error + 32 word" where
  "parse_field base fs key =
     (case map_of fs key of
        None \<Rightarrow> Inl (MissingField key)
      | Some v \<Rightarrow> (case ParseUint v base 32 of Inl e \<Rightarrow> Inl (BadField key v e) | Inr n \<Rightarrow> Inr (of_nat n)))"

definition parseHex32 :: "string strmap \<Rightarrow> string \<Rightarrow> record_error + 32 word" where
  "parseHex32 = parse_field 0"

definition parseDecimal :: "string strmap \<Rightarrow> string \<Rightarrow> record_error + 32 word" where
  "parseDecimal = parse_field 10"

definition ParseRecord :: "string list \<Rightarrow> record_error + result" where
  "ParseRecord ls =
     (let fs = record_fields ls in
      case parseHex32 fs ''MAGIC'' of Inl e \<Rightarrow> Inl e | Inr magic \<Rightarrow>
     (case parseHex32 fs ''GITREV'' of Inl e \<Rightarrow> Inl e | Inr gitrev \<Rightarrow>
     (case parseHex32 fs ''CRC'' of Inl e \<Rightarrow> Inl e | Inr crc \<Rightarrow>
     (case parseDecimal fs ''ITERATIONS'' of Inl e \<Rightarrow> Inl e | Inr iterations \<Rightarrow>
     (case parseDecimal fs ''CYCLES'' of Inl e \<Rightarrow> Inl e | Inr cycles \<Rightarrow>
     (case parseDecimal fs ''CLKHZ'' of Inl e \<Rightarrow> Inl e | Inr clkhz \<Rightarrow>
        if cycles = 0 then Inl ZeroCycles
        else Inr \<lparr>r_magic = magic, r_git_rev = gitrev, r_crc = ucast crc, r_iterations = iterations,
                  r_cycles = cycles, r_clk_hz = clkhz\<rparr>))))))"

definition validate :: "result \<Rightarrow> 16 word \<Rightarrow> record_error option" where
  "validate r expected =
     (if r_magic r \<noteq> Magic then Some (MagicMismatch (r_magic r))
      else if r_crc r \<noteq> expected then Some (CrcMismatch (r_crc r) expected)
      else None)"

section \<open>Lines\<close>

text \<open>One read of the line: what arrived, nothing for an idle line, or a failure.\<close>

datatype serial_read = Chunk string | ReadFails string

definition take_line :: "string \<Rightarrow> (string \<times> string) option" where
  "take_line buf = map_option (\<lambda>(l, r). (rev (dropWhile (\<lambda>c. c = CHR 0x0D) (rev l)), r)) (cut [nl] buf)"

text \<open>
  \<open>next\<close>: the line, empty when none is complete, with the buffer and the reads that are left. When the reads are
  used up the device is idle.
\<close>

definition next_line :: "string \<Rightarrow> serial_read list \<Rightarrow> string + (string \<times> string \<times> serial_read list)" where
  "next_line buf reads =
     (case take_line buf of
        Some (l, r) \<Rightarrow> Inr (l, r, reads)
      | None \<Rightarrow>
          (case reads of
             ReadFails e # rs \<Rightarrow> Inl e
           | _ \<Rightarrow>
               (let buf' = buf @ (case reads of Chunk s # rs \<Rightarrow> s | _ \<Rightarrow> []) in
                case take_line buf' of
                  Some (l, r) \<Rightarrow> Inr (l, r, tl reads)
                | None \<Rightarrow> Inr ([], buf', tl reads))))"

section \<open>The collector\<close>

record collector =
  co_buf :: string
  co_reads :: "serial_read list"
  co_armed :: bool
  co_saw_ready :: bool
  co_record :: "string list"
  co_triggers :: nat
  co_write :: "string option"

datatype outcome =
    Collected result
  | ReadFailed string
  | TriggerFailed string
  | Malformed record_error
  | Rejected record_error
  | TimeoutPartial
  | TimeoutNoRecord
  | TimeoutSilent

definition timed_out :: "collector \<Rightarrow> outcome" where
  "timed_out co =
     (if co_record co \<noteq> [] then TimeoutPartial else if co_saw_ready co then TimeoutNoRecord else TimeoutSilent)"

text \<open>What a line does; an outcome ends the program. The write of the trigger byte may fail: \<open>co_write\<close>.\<close>

definition take_in :: "16 word \<Rightarrow> string \<Rightarrow> collector \<Rightarrow> outcome + collector" where
  "take_in expected txt co =
     (if txt = [] then Inr co
      else if sublist ''CMK READY'' txt then
        (case (if co_armed co then None else co_write co) of
           Some e \<Rightarrow> Inl (TriggerFailed e)
         | None \<Rightarrow> Inr (co\<lparr>co_saw_ready := True, co_record := [], co_armed := True,
                       co_triggers := co_triggers co + (if co_armed co then 0 else 1)\<rparr>))
      else if \<not> prefix cmk txt then Inr co
      else if sublist ''CMK DONE'' txt then
        (case ParseRecord (co_record co) of
           Inl e \<Rightarrow> Inl (Malformed e)
         | Inr r \<Rightarrow> (case validate r expected of Some e \<Rightarrow> Inl (Rejected e) | None \<Rightarrow> Inl (Collected r)))
      else Inr (co\<lparr>co_record := co_record co @ [txt]\<rparr>))"

text \<open>
  The loop of \<open>main\<close>: the deadline passes after a number of turns. The result has the state before the line that
  ended the program.
\<close>

fun collect :: "16 word \<Rightarrow> nat \<Rightarrow> collector \<Rightarrow> outcome \<times> collector" where
  "collect expected 0 co = (timed_out co, co)"
| "collect expected (Suc n) co =
     (case next_line (co_buf co) (co_reads co) of
        Inl e \<Rightarrow> (ReadFailed e, co)
      | Inr (txt, buf, reads) \<Rightarrow>
          (let co' = co\<lparr>co_buf := buf, co_reads := reads\<rparr> in
           case take_in expected txt co' of
             Inl out \<Rightarrow> (out, co')
           | Inr co'' \<Rightarrow> collect expected n co''))"

definition collector0 :: "serial_read list \<Rightarrow> string option \<Rightarrow> collector" where
  "collector0 reads w = \<lparr>co_buf = [], co_reads = reads, co_armed = False, co_saw_ready = False, co_record = [],
     co_triggers = 0, co_write = w\<rparr>"

definition exit_code :: "outcome \<Rightarrow> nat" where
  "exit_code out =
     (case out of
        Collected r \<Rightarrow> 0
      | ReadFailed e \<Rightarrow> 1
      | TriggerFailed e \<Rightarrow> 1
      | Malformed e \<Rightarrow> 1
      | Rejected e \<Rightarrow> 3
      | _ \<Rightarrow> 2)"

section \<open>The flash image\<close>

definition flashBase :: nat where
  "flashBase = 0x00100000"

text \<open>\<open>None\<close> when the bitstream overruns the payload's place.\<close>

definition assemble :: "8 word list \<Rightarrow> 8 word list \<Rightarrow> 8 word list option" where
  "assemble bitstream payload =
     (if flashBase < length bitstream then None
      else Some (bitstream @ replicate (flashBase - length bitstream) 0xFF @ payload))"

section \<open>Lines of the stream\<close>

lemma cut_nl_append: "cut [nl] a = Some (x, y) \<Longrightarrow> cut [nl] (a @ b) = Some (x, y @ b)"
  by (induction a arbitrary: x) (auto split: if_splits)

lemma cut_shorter: "cut [nl] a = Some (x, y) \<Longrightarrow> length y < length a"
  by (induction a arbitrary: x) (auto split: if_splits)

lemma take_line_append: "take_line a = Some (l, r) \<Longrightarrow> take_line (a @ b) = Some (l, r @ b)"
  by (auto simp: take_line_def cut_nl_append)

lemma take_line_shorter: "take_line a = Some (l, r) \<Longrightarrow> length r < length a"
  by (auto simp: take_line_def dest: cut_shorter)

text \<open>The complete lines of a text.\<close>

function complete_lines :: "string \<Rightarrow> string list" where
  "complete_lines s = (case take_line s of None \<Rightarrow> [] | Some (l, r) \<Rightarrow> l # complete_lines r)"
  by pat_completeness auto
termination by (relation "measure length") (auto dest: take_line_shorter)

declare complete_lines.simps [simp del]

lemma complete_lines_cases:
  "take_line s = None \<Longrightarrow> complete_lines s = []"
  "take_line s = Some (l, r) \<Longrightarrow> complete_lines s = l # complete_lines r"
  by (simp_all add: complete_lines.simps [of s])

text \<open>A text of lines with their ends.\<close>

definition plain_line :: "string \<Rightarrow> bool" where
  "plain_line l \<longleftrightarrow> CHR 0x0A \<notin> set l \<and> CHR 0x0D \<notin> set l"

definition crlf :: "string \<Rightarrow> string" where
  "crlf l = l @ [CHR 0x0D, CHR 0x0A]"

lemma cut_nl: "CHR 0x0A \<notin> set a \<Longrightarrow> cut [CHR 0x0A] (a @ CHR 0x0A # b) = Some (a, b)"
  by (induction a) auto

lemma take_line_crlf:
  assumes "plain_line l"
  shows "take_line (crlf l @ s) = Some (l, s)"
proof -
  have "cut [CHR 0x0A] ((l @ [CHR 0x0D]) @ CHR 0x0A # s) = Some (l @ [CHR 0x0D], s)"
    using assms by (intro cut_nl) (simp add: plain_line_def)
  moreover have "dropWhile (\<lambda>c. c = CHR 0x0D) (rev l) = rev l"
    using assms by (cases "rev l") (auto simp: plain_line_def dropWhile_eq_self_iff)
  ultimately show ?thesis by (simp add: take_line_def crlf_def)
qed

lemma complete_lines_crlf: "list_all plain_line ls \<Longrightarrow> complete_lines (concat (map crlf ls)) = ls"
proof (induction ls)
  case Nil
  then show ?case by (simp add: complete_lines_cases(1) take_line_def)
next
  case (Cons l ls)
  then show ?case by (simp add: complete_lines_cases(2) [OF take_line_crlf])
qed

text \<open>The program on the lines themselves.\<close>

fun process :: "16 word \<Rightarrow> string list \<Rightarrow> collector \<Rightarrow> outcome" where
  "process expected [] co = timed_out co"
| "process expected (l # ls) co =
     (case take_in expected l co of Inl out \<Rightarrow> out | Inr co' \<Rightarrow> process expected ls co')"

abbreviation at_input :: "string \<Rightarrow> serial_read list \<Rightarrow> collector \<Rightarrow> collector" where
  "at_input buf reads co \<equiv> co\<lparr>co_buf := buf, co_reads := reads\<rparr>"

lemma take_in_input:
  "take_in expected l (at_input buf reads co) = map_sum id (at_input buf reads) (take_in expected l co)"
  by (simp add: take_in_def split: sum.split option.split)

lemma process_input: "process expected ls (at_input buf reads co) = process expected ls co"
proof (induction ls arbitrary: co)
  case Nil
  then show ?case by (simp add: timed_out_def)
next
  case (Cons l ls)
  then show ?case by (cases "take_in expected l co") (simp_all add: take_in_input)
qed

lemma take_in_empty [simp]: "take_in expected [] co = Inr co"
  by (simp add: take_in_def)

definition chunk_text :: "serial_read \<Rightarrow> string" where
  "chunk_text r = (case r of Chunk s \<Rightarrow> s | ReadFails e \<Rightarrow> [])"

definition stream :: "serial_read list \<Rightarrow> string" where
  "stream reads = concat (map chunk_text reads)"

definition no_failure :: "serial_read list \<Rightarrow> bool" where
  "no_failure reads \<longleftrightarrow> list_all (\<lambda>r. case r of Chunk s \<Rightarrow> True | ReadFails e \<Rightarrow> False) reads"

lemma collect_process:
  assumes "no_failure (co_reads co)"
    and "length (co_reads co) + length (complete_lines (co_buf co @ stream (co_reads co))) \<le> n"
  shows "fst (collect expected n co) = process expected (complete_lines (co_buf co @ stream (co_reads co))) co"
  using assms
proof (induction n arbitrary: co)
  case 0
  then have "length (complete_lines (co_buf co @ stream (co_reads co))) = 0" by linarith
  then have "complete_lines (co_buf co @ stream (co_reads co)) = []" by (simp only: length_0_conv)
  then show ?case by (simp only: collect.simps process.simps fst_conv)
next
  case (Suc n)
  have step: "fst (collect expected (Suc n) co) = process expected (l # complete_lines (buf @ stream reads)) co"
    if "next_line (co_buf co) (co_reads co) = Inr (l, buf, reads)" "no_failure reads"
      "length reads + length (complete_lines (buf @ stream reads)) \<le> n" for l buf reads
  proof (cases "take_in expected l co")
    case (Inl out)
    then show ?thesis using that(1) by (simp add: take_in_input Let_def)
  next
    case (Inr co')
    have "fst (collect expected n (at_input buf reads co')) =
        process expected (complete_lines (buf @ stream reads)) (at_input buf reads co')"
      using Suc.IH [of "at_input buf reads co'"] that(2,3) by simp
    then show ?thesis using that(1) Inr by (simp add: take_in_input process_input Let_def)
  qed
  show ?case
  proof (cases "take_line (co_buf co)")
    case (Some p)
    obtain l r where p: "p = (l, r)" by (cases p)
    have "complete_lines (co_buf co @ stream (co_reads co)) = l # complete_lines (r @ stream (co_reads co))"
      using Some p take_line_append complete_lines_cases(2) by blast
    then show ?thesis using step [of l r "co_reads co"] Some p Suc.prems by (simp add: next_line_def)
  next
    case None
    show ?thesis
    proof (cases "co_reads co")
      case Nil
      then show ?thesis using step [of "[]" "co_buf co" "[]"] None
        by (simp add: next_line_def no_failure_def stream_def complete_lines_cases(1))
    next
      case (Cons a rs)
      then obtain s where a: "a = Chunk s" using Suc.prems(1) by (cases a) (auto simp: no_failure_def)
      have st: "stream (co_reads co) = s @ stream rs" using Cons a by (simp add: stream_def chunk_text_def)
      have nf: "no_failure rs" using Suc.prems(1) Cons by (simp add: no_failure_def)
      show ?thesis
      proof (cases "take_line (co_buf co @ s)")
        case None': None
        then show ?thesis using step [of "[]" "co_buf co @ s" rs] None Cons a st nf Suc.prems(2)
          by (simp add: next_line_def)
      next
        case (Some p)
        obtain l r where p: "p = (l, r)" by (cases p)
        have "complete_lines (co_buf co @ stream (co_reads co)) = l # complete_lines (r @ stream rs)"
          using Some p take_line_append [of "co_buf co @ s" l r "stream rs"] complete_lines_cases(2) st by simp
        then show ?thesis using step [of l r rs] None Some p Cons a nf Suc.prems(2) by (simp add: next_line_def)
      qed
    qed
  qed
qed

text \<open>
  C39: what the collector makes of a board depends on the lines it writes alone. However the serial line cuts
  them into pieces and whatever pauses it makes, a collector with a turn for each read and each line ends as it
  would on the list of the complete lines.
\<close>

theorem collect_lines:
  assumes "no_failure reads" "length reads + length (complete_lines (stream reads)) \<le> n"
  shows "fst (collect expected n (collector0 reads w)) = process expected (complete_lines (stream reads)) (collector0 [] w)"
proof -
  have "collector0 reads w = at_input [] reads (collector0 [] w)" by (simp add: collector0_def)
  then show ?thesis
    using collect_process [of "collector0 reads w" n expected] assms process_input [where co = "collector0 [] w" and buf = "[]" and reads = reads]
    by (simp add: collector0_def)
qed

text \<open>A run of the board, in two ways of cutting it.\<close>

definition demo_run :: "string \<Rightarrow> string list" where
  "demo_run crc = [''noise'', ''CMK READY'', ''CMK MAGIC=0x4B4D434A'', ''CMK GITREV=0x12'', ''CMK CRC='' @ crc,
     ''CMK ITERATIONS=100'', ''CMK CYCLES=110611250'', ''CMK CLKHZ=12_0'', ''CMK CLKHZ=12000000'', ''CMK DONE'']"

definition demo_stream :: "string \<Rightarrow> string" where
  "demo_stream crc = concat (map crlf (demo_run crc))"

definition demo_result :: result where
  "demo_result = \<lparr>r_magic = Magic, r_git_rev = 0x12, r_crc = ExpectedCRC, r_iterations = 100, r_cycles = 110611250,
     r_clk_hz = 12000000\<rparr>"

definition demo_fields :: "string \<Rightarrow> string strmap" where
  "demo_fields crc = [(''MAGIC'', ''0x4B4D434A''), (''GITREV'', ''0x12''), (''CRC'', crc), (''ITERATIONS'', ''100''),
     (''CYCLES'', ''110611250''), (''CLKHZ'', ''12000000'')]"

lemma demo_ints:
  "ParseUint ''0x4B4D434A'' 0 32 = Inr 0x4B4D434A" "ParseUint ''0x12'' 0 32 = Inr 0x12"
  "ParseUint ''100'' 10 32 = Inr 100" "ParseUint ''110611250'' 10 32 = Inr 110611250"
  "ParseUint ''12000000'' 10 32 = Inr 12000000"
  "ParseUint ''0x988c'' 0 32 = Inr 0x988c" "ParseUint ''0x1988c'' 0 32 = Inr 0x1988c"
  by (simp_all add: ParseUint_def base_prefix_def uint_digit_def is_digit_def is_lower_def is_upper_def to_lower_char_def
      char_code_def)

text \<open>Lines that are gathered.\<close>

definition field_text :: "string \<Rightarrow> bool" where
  "field_text l \<longleftrightarrow> \<not> sublist ''CMK READY'' l \<and> prefix cmk l \<and> \<not> sublist ''CMK DONE'' l"

lemma process_fields:
  "list_all field_text ls \<Longrightarrow>
     process expected (ls @ rest) co = process expected rest (co\<lparr>co_record := co_record co @ ls\<rparr>)"
proof (induction ls arbitrary: co)
  case Nil
  then show ?case by simp
next
  case (Cons l ls)
  have "take_in expected l co = Inr (co\<lparr>co_record := co_record co @ [l]\<rparr>)"
    using Cons.prems by (auto simp: take_in_def field_text_def cmk_def)
  then show ?case using Cons by simp
qed

definition demo_lines :: "string \<Rightarrow> string list" where
  "demo_lines crc = butlast (drop 2 (demo_run crc))"

lemma demo_process:
  assumes "crc = ''0x988c'' \<or> crc = ''0x1988c''"
  shows "process ExpectedCRC (demo_run crc) (collector0 [] None) = Collected demo_result"
proof -
  have fs: "record_fields (demo_lines crc) = demo_fields crc" using assms by (elim disjE; hypsubst) code_simp+
  have ft: "list_all field_text (demo_lines crc)" using assms by (elim disjE; hypsubst) code_simp+
  have ends: "sublist ''CMK READY'' ''CMK READY''" "\<not> sublist ''CMK READY'' ''noise''" "\<not> prefix cmk ''noise''"
    "\<not> sublist ''CMK READY'' ''CMK DONE''" "prefix cmk ''CMK DONE''" "sublist ''CMK DONE'' ''CMK DONE''" by code_simp+
  have r: "ParseRecord (demo_lines crc) = Inr demo_result"
    unfolding ParseRecord_def Let_def fs using assms
    by (auto simp: demo_fields_def parseHex32_def parseDecimal_def parse_field_def demo_ints demo_result_def
        Magic_def ExpectedCRC_def)
  have run: "demo_run crc = ''noise'' # ''CMK READY'' # demo_lines crc @ [''CMK DONE'']"
    by (simp add: demo_run_def demo_lines_def)
  have first: "take_in ExpectedCRC ''noise'' co = Inr co"
    "take_in ExpectedCRC ''CMK READY'' co = (case (if co_armed co then None else co_write co) of
       Some e \<Rightarrow> Inl (TriggerFailed e)
     | None \<Rightarrow> Inr (co\<lparr>co_saw_ready := True, co_record := [], co_armed := True,
         co_triggers := co_triggers co + (if co_armed co then 0 else 1)\<rparr>))"
    "take_in ExpectedCRC ''CMK DONE'' co =
       (case ParseRecord (co_record co) of Inl e \<Rightarrow> Inl (Malformed e)
        | Inr r \<Rightarrow> (case validate r ExpectedCRC of Some e \<Rightarrow> Inl (Rejected e) | None \<Rightarrow> Inl (Collected r)))" for co
    by (simp_all only: take_in_def ends list.distinct if_True if_False not_False_eq_True simp_thms)
  have quiet: "(if co_armed (collector0 [] None) then None else co_write (collector0 [] None)) = None"
    by (simp add: collector0_def)
  show ?thesis unfolding run process.simps first sum.case quiet option.case
    by (simp only: process_fields [OF ft] process.simps first collector.simps append_Nil sum.case r)
      (simp add: r validate_def, simp add: demo_result_def)
qed

theorem collect_lines_witness:
  "fst (collect ExpectedCRC 20 (collector0 [Chunk (take 50 (demo_stream ''0x988c'')), Chunk [],
      Chunk (drop 50 (demo_stream ''0x988c''))] None)) = Collected demo_result"
proof -
  let ?reads = "[Chunk (take 50 (demo_stream ''0x988c'')), Chunk [], Chunk (drop 50 (demo_stream ''0x988c''))]"
  have s: "stream ?reads = demo_stream ''0x988c''" by (simp add: stream_def chunk_text_def)
  have c: "complete_lines (demo_stream ''0x988c'') = demo_run ''0x988c''"
    unfolding demo_stream_def by (rule complete_lines_crlf) code_simp
  have "fst (collect ExpectedCRC 20 (collector0 ?reads None)) =
      process ExpectedCRC (complete_lines (stream ?reads)) (collector0 [] None)"
    by (rule collect_lines) (simp_all add: s c no_failure_def demo_run_def)
  also have "\<dots> = Collected demo_result" unfolding s c by (rule demo_process) simp
  finally show ?thesis .
qed

section \<open>What a success means\<close>

text \<open>The lines of the text that arrives before a read fails, without the empty ones.\<close>

definition is_chunk :: "serial_read \<Rightarrow> bool" where
  "is_chunk r \<longleftrightarrow> (case r of Chunk s \<Rightarrow> True | ReadFails e \<Rightarrow> False)"

definition arriving :: "string \<Rightarrow> serial_read list \<Rightarrow> string list" where
  "arriving buf reads = filter (\<lambda>l. l \<noteq> []) (complete_lines (buf @ stream (takeWhile is_chunk reads)))"

text \<open>The lines that the collector has taken from it when it ends.\<close>

fun taken :: "16 word \<Rightarrow> nat \<Rightarrow> collector \<Rightarrow> string list" where
  "taken expected 0 co = []"
| "taken expected (Suc n) co =
     (case next_line (co_buf co) (co_reads co) of
        Inl e \<Rightarrow> []
      | Inr (txt, buf, reads) \<Rightarrow>
          (if txt = [] then [] else [txt]) @
          (case take_in expected txt (at_input buf reads co) of Inl out \<Rightarrow> [] | Inr co' \<Rightarrow> taken expected n co'))"

lemma next_line_arriving:
  assumes "next_line buf reads = Inr (l, buf', reads')"
  shows "arriving buf reads = (if l = [] then [] else [l]) @ arriving buf' reads'"
proof (cases "take_line buf")
  case (Some p)
  then have "take_line buf = Some (l, buf')" "reads' = reads" using assms by (cases p; simp add: next_line_def)+
  then show ?thesis using complete_lines_cases(2) [OF take_line_append] by (simp add: arriving_def)
next
  case None
  show ?thesis
  proof (cases reads)
    case Nil
    then have "l = []" "buf' = buf" "reads' = []" using None assms by (simp_all add: next_line_def)
    then show ?thesis using Nil by (simp add: arriving_def)
  next
    case (Cons a rs)
    then obtain s where a: "a = Chunk s" using None assms by (cases a) (auto simp: next_line_def)
    have st: "arriving b reads = filter (\<lambda>l. l \<noteq> []) (complete_lines (b @ s @ stream (takeWhile is_chunk rs)))" for b
      by (simp add: arriving_def Cons a is_chunk_def stream_def chunk_text_def)
    show ?thesis
    proof (cases "take_line (buf @ s)")
      case None': None
      then have "l = []" "buf' = buf @ s" "reads' = rs" using None assms Cons a by (simp_all add: next_line_def)
      then show ?thesis by (simp add: st) (simp add: arriving_def)
    next
      case (Some p)
      then have "take_line (buf @ s) = Some (l, buf')" "reads' = rs"
        using None assms Cons a by (cases p; simp add: next_line_def)+
      then show ?thesis
        using complete_lines_cases(2) [OF take_line_append [of "buf @ s" l buf' "stream (takeWhile is_chunk rs)"]]
        by (simp add: st) (simp add: arriving_def)
    qed
  qed
qed

lemma take_in_keeps_input: "take_in expected l co = Inr co' \<Longrightarrow> co_buf co' = co_buf co \<and> co_reads co' = co_reads co"
  by (auto simp: take_in_def split: if_splits sum.splits option.splits)

lemma taken_arriving: "prefix (taken expected n co) (arriving (co_buf co) (co_reads co))"
proof (induction n arbitrary: co)
  case 0
  then show ?case by simp
next
  case (Suc n)
  show ?case
  proof (cases "next_line (co_buf co) (co_reads co)")
    case (Inr p)
    obtain l buf reads where p: "p = (l, buf, reads)" by (rule prod_cases3)
    have "prefix (taken expected n co') (arriving buf reads)" if "take_in expected l (at_input buf reads co) = Inr co'" for co'
      using Suc.IH [of co'] take_in_keeps_input [OF that] by simp
    then show ?thesis using next_line_arriving [of "co_buf co" "co_reads co" l buf reads] Inr p by (simp split: sum.split)
  qed simp
qed

text \<open>
  What a record is: the lines that start with \<open>CMK\<close> after the last one that says that the board is ready. The value
  of a field is that of the last line that gives it.
\<close>

definition ready_line :: "string \<Rightarrow> bool" where
  "ready_line l \<longleftrightarrow> sublist ''CMK READY'' l"

definition done_line :: "string \<Rightarrow> bool" where
  "done_line l \<longleftrightarrow> \<not> ready_line l \<and> prefix ''CMK '' l \<and> sublist ''CMK DONE'' l"

definition record_of :: "string list \<Rightarrow> string list" where
  "record_of ls = filter (prefix ''CMK '') (rev (takeWhile (\<lambda>l. \<not> ready_line l) (rev ls)))"

definition field_prefix :: "string \<Rightarrow> string" where
  "field_prefix key = ''CMK '' @ key @ ''=''"

definition last_value :: "string list \<Rightarrow> string \<Rightarrow> string option" where
  "last_value ls key =
     (case filter (\<lambda>l. prefix (field_prefix key) (trim_space l)) ls of
        [] \<Rightarrow> None
      | fs \<Rightarrow> Some (drop (length (field_prefix key)) (trim_space (last fs))))"

definition field_number :: "nat \<Rightarrow> string list \<Rightarrow> string \<Rightarrow> nat \<Rightarrow> bool" where
  "field_number base ls key n \<longleftrightarrow>
     (case last_value ls key of None \<Rightarrow> False | Some v \<Rightarrow> ParseUint v base 32 = Inr n)"

text \<open>The result that a record reports, of the checksum the low 16 bits.\<close>

definition reports :: "string list \<Rightarrow> result \<Rightarrow> bool" where
  "reports ls r \<longleftrightarrow>
     (\<exists>magic rev crc iterations cycles hz.
        field_number 0 ls ''MAGIC'' magic \<and> field_number 0 ls ''GITREV'' rev \<and> field_number 0 ls ''CRC'' crc \<and>
        field_number 10 ls ''ITERATIONS'' iterations \<and> field_number 10 ls ''CYCLES'' cycles \<and> field_number 10 ls ''CLKHZ'' hz \<and>
        r = \<lparr>r_magic = of_nat magic, r_git_rev = of_nat rev, r_crc = of_nat crc, r_iterations = of_nat iterations,
             r_cycles = of_nat cycles, r_clk_hz = of_nat hz\<rparr>)"

lemma cut_key: "CHR ''='' \<notin> set key \<Longrightarrow> cut ''='' s = Some (key, v) \<longleftrightarrow> s = key @ ''='' @ v"
proof (induction s arbitrary: key)
  case (Cons a s)
  then show ?case by (cases key) (auto split: option.splits if_splits)
qed auto

lemma last_value_snoc:
  "last_value (ls @ [l]) key = (if prefix (field_prefix key) (trim_space l)
     then Some (drop (length (field_prefix key)) (trim_space l)) else last_value ls key)"
  by (cases "filter (\<lambda>l. prefix (field_prefix key) (trim_space l)) ls") (simp_all add: last_value_def)

lemma line_field_key:
  assumes "CHR ''='' \<notin> set key"
  shows "line_field l = Some (key, v) \<longleftrightarrow> trim_space l = field_prefix key @ v"
  using cut_key [OF assms, of "drop 4 (trim_space l)" v]
  by (auto simp: line_field_def Let_def cmk_def field_prefix_def prefix_def)

lemma record_fields_last:
  assumes "CHR ''='' \<notin> set key"
  shows "map_of (record_fields ls) key = last_value ls key"
proof (induction ls rule: rev_induct)
  case Nil
  then show ?case by (simp add: record_fields_def last_value_def)
next
  case (snoc l ls)
  have step: "record_fields (ls @ [l]) =
      (case line_field l of None \<Rightarrow> record_fields ls | Some (k, v) \<Rightarrow> AList.update k v (record_fields ls))"
    unfolding record_fields_def by simp
  show ?case
  proof (cases "prefix (field_prefix key) (trim_space l)")
    case True
    then obtain v where "trim_space l = field_prefix key @ v" by (auto simp: prefix_def)
    then show ?thesis unfolding step last_value_snoc using True line_field_key [OF assms, of l v] by simp
  next
    case False
    then have "line_field l \<noteq> Some (key, v)" for v using line_field_key [OF assms, of l v] by auto
    then show ?thesis unfolding step last_value_snoc using False snoc by (auto split: option.split prod.split)
  qed
qed

lemma parse_field_number:
  assumes "CHR ''='' \<notin> set key" "parse_field base (record_fields ls) key = Inr w"
  shows "\<exists>n. field_number base ls key n \<and> w = of_nat n"
  using assms(2) unfolding parse_field_def record_fields_last [OF assms(1)]
  by (auto simp: field_number_def split: option.splits sum.splits)

lemma ParseRecord_reports:
  assumes "ParseRecord ls = Inr r"
  shows "reports ls r" "r_cycles r \<noteq> 0"
proof -
  let ?fs = "record_fields ls"
  obtain magic gitrev crc iterations cycles clkhz where p: "parse_field 0 ?fs ''MAGIC'' = Inr magic"
    "parse_field 0 ?fs ''GITREV'' = Inr gitrev" "parse_field 0 ?fs ''CRC'' = Inr crc"
    "parse_field 10 ?fs ''ITERATIONS'' = Inr iterations" "parse_field 10 ?fs ''CYCLES'' = Inr cycles"
    "parse_field 10 ?fs ''CLKHZ'' = Inr clkhz" "cycles \<noteq> 0"
    and r: "r = \<lparr>r_magic = magic, r_git_rev = gitrev, r_crc = ucast crc, r_iterations = iterations, r_cycles = cycles, r_clk_hz = clkhz\<rparr>"
    using assms by (auto simp: ParseRecord_def Let_def parseHex32_def parseDecimal_def split: sum.splits if_splits)
  have "ucast (of_nat n :: 32 word) = (of_nat n :: 16 word)" for n by (simp add: unsigned_of_nat word_of_nat_eq_iff take_bit_take_bit)
  with p r parse_field_number [OF _ p(1)] parse_field_number [OF _ p(2)] parse_field_number [OF _ p(3)]
    parse_field_number [OF _ p(4)] parse_field_number [OF _ p(5)] parse_field_number [OF _ p(6)]
  show "reports ls r" unfolding reports_def by clarsimp blast
  show "r_cycles r \<noteq> 0" using p(7) r by simp
qed

text \<open>The state after a number of lines.\<close>

definition after :: "string list \<Rightarrow> collector \<Rightarrow> bool" where
  "after ls co \<longleftrightarrow> co_record co = record_of ls \<and> (co_armed co \<longleftrightarrow> list_ex ready_line ls) \<and>
     co_triggers co = (if list_ex ready_line ls then 1 else 0)"

lemma record_of_snoc: "record_of (ls @ [l]) = (if ready_line l then [] else record_of ls @ (if prefix ''CMK '' l then [l] else []))"
  by (simp add: record_of_def)

lemma take_in_after:
  assumes "take_in expected l co = Inr co'" "after ls co" "l \<noteq> []"
  shows "after (ls @ [l]) co'"
  using assms by (auto simp: take_in_def after_def record_of_snoc ready_line_def cmk_def split: if_splits sum.splits option.splits)

definition ends_as :: "16 word \<Rightarrow> string list \<Rightarrow> outcome \<Rightarrow> nat \<Rightarrow> bool" where
  "ends_as expected ls out triggers \<longleftrightarrow>
     (case out of
        Collected r \<Rightarrow> ls \<noteq> [] \<and> done_line (last ls) \<and> reports (record_of (butlast ls)) r \<and>
          r_magic r = 0x4B4D434A \<and> r_crc r = expected \<and> r_cycles r \<noteq> 0
      | _ \<Rightarrow> True) \<and>
     triggers = (if list_ex ready_line ls \<and> (case out of TriggerFailed e \<Rightarrow> False | _ \<Rightarrow> True) then 1 else 0)"

lemma take_in_ends:
  assumes "take_in expected l co = Inl out" "after ls co"
  shows "ends_as expected (ls @ [l]) out (co_triggers co)"
proof (cases "ready_line l")
  case True
  with assms show ?thesis by (auto simp: take_in_def ready_line_def after_def ends_as_def split: if_splits option.splits)
next
  case False
  then have d: "prefix ''CMK '' l" "sublist ''CMK DONE'' l"
    and o: "out = (case ParseRecord (co_record co) of Inl e \<Rightarrow> Malformed e
      | Inr r \<Rightarrow> (case validate r expected of Some e \<Rightarrow> Rejected e | None \<Rightarrow> Collected r))"
    using assms(1) by (auto simp: take_in_def ready_line_def cmk_def split: if_splits sum.splits option.splits)
  have "reports (record_of ls) r \<and> r_magic r = 0x4B4D434A \<and> r_crc r = expected \<and> r_cycles r \<noteq> 0" if "out = Collected r" for r
    using that o assms(2) ParseRecord_reports [of "record_of ls" r]
    by (auto simp: after_def validate_def Magic_def split: sum.splits option.splits if_splits)
  with d False o assms(2) show ?thesis
    by (auto simp: ends_as_def after_def done_line_def split: sum.splits option.splits outcome.splits)
qed

lemma collect_ends:
  assumes "after ls co"
  shows "case collect expected n co of (out, co') \<Rightarrow> ends_as expected (ls @ taken expected n co) out (co_triggers co')"
  using assms
proof (induction n arbitrary: ls co)
  case 0
  then show ?case by (simp add: ends_as_def timed_out_def after_def)
next
  case (Suc n)
  show ?case
  proof (cases "next_line (co_buf co) (co_reads co)")
    case (Inl e)
    then show ?thesis using Suc.prems by (simp add: ends_as_def after_def)
  next
    case (Inr p)
    obtain l buf reads where p: "p = (l, buf, reads)" by (rule prod_cases3)
    let ?co = "at_input buf reads co"
    have a: "after ls ?co" using Suc.prems by (simp add: after_def)
    show ?thesis
    proof (cases "take_in expected l ?co")
      case (Inl out)
      then have "l \<noteq> []" by auto
      with Inl Inr p take_in_ends [OF Inl a] show ?thesis by (simp add: Let_def)
    next
      case in_r: (Inr co')
      show ?thesis
      proof (cases "l = []")
        case True
        with in_r have "co' = ?co" by simp
        with Suc.IH [OF a] True in_r Inr p show ?thesis by (simp add: Let_def)
      next
        case False
        with Suc.IH [OF take_in_after [OF in_r a False]] in_r Inr p show ?thesis by (simp add: Let_def)
      qed
    qed
  qed
qed


text \<open>
  The checksum field is read with 32 bits and cut to 16 before it is compared: a board that reports a value with
  other upper bits passes as well.
\<close>

lemma wide_checksum_accepted:
  "process ExpectedCRC (demo_run ''0x1988c'') (collector0 [] None) = Collected demo_result"
  by (rule demo_process) simp

lemma assemble_layout:
  assumes "assemble bitstream payload = Some img"
  shows "length img = flashBase + length payload \<and> take (length bitstream) img = bitstream \<and>
    drop flashBase img = payload \<and> (\<forall>i. length bitstream \<le> i \<and> i < flashBase \<longrightarrow> img ! i = 0xFF)"
  using assms by (auto simp: assemble_def nth_append split: if_splits)

end
