(* ===== verification/Design_Decode.thy ===== *)
theory Design_Decode
  imports Go_Uint Design_Pins_File
begin

text \<open>
  Model of the decoders that \<open>src/tools/socgen/design\<close> supplies to the YAML library (\<open>model.go\<close>, \<open>pins.go\<close>):
  the values that a plain decoding of the library would get wrong. Where a decoder calls the library again the
  answer is a parameter; so is \<open>strconv.ParseFloat\<close>. Line numbers are erased.
\<close>

section \<open>Numbers\<close>

text \<open>\<open>strconv.ParseInt\<close> with 64 bits, for the bases 0 and 10, and \<open>strconv.Atoi\<close>.\<close>

definition ParseInt :: "string \<Rightarrow> nat \<Rightarrow> uint_error + int" where
  "ParseInt s base =
     (if s = [] then Inl UintSyntax
      else
        let neg = (hd s = CHR ''-''); r = (if hd s \<in> {CHR ''-'', CHR ''+''} then tl s else s) in
        case ParseUint r base 64 of
          Inl e \<Rightarrow> Inl e
        | Inr n \<Rightarrow>
            if (if neg then 2 ^ 63 < n else 2 ^ 63 \<le> n) then Inl UintRange
            else Inr (if neg then - int n else int n))"

definition Atoi :: "string \<Rightarrow> uint_error + int" where
  "Atoi s = ParseInt s 10"

definition ParseBool :: "string \<Rightarrow> uint_error + bool" where
  "ParseBool s =
     (if s \<in> {''1'', ''t'', ''T'', ''true'', ''TRUE'', ''True''} then Inr True
      else if s \<in> {''0'', ''f'', ''F'', ''false'', ''FALSE'', ''False''} then Inr False
      else Inl UintSyntax)"

definition num_error_text :: "string \<Rightarrow> string \<Rightarrow> uint_error \<Rightarrow> string" where
  "num_error_text fn s e =
     ''strconv.'' @ fn @ '': parsing '' @ go_quote s @ '': '' @
     (case e of UintSyntax \<Rightarrow> ''invalid syntax'' | UintRange \<Rightarrow> ''value out of range'')"

section \<open>Errors and the library\<close>

text \<open>The message with the text of the cause, or the error of a library call as it is.\<close>

datatype spec_error = SpecError string "string option" | LibraryError string

record yaml_library =
  yl_any :: "ynode \<Rightarrow> string + go_any"
  yl_keys :: "ynode \<Rightarrow> string + string list"
  yl_irqs :: "ynode \<Rightarrow> string + irq_entry strmap"
  yl_name :: "ynode \<Rightarrow> string + string"
  yl_signal :: "ynode \<Rightarrow> string + (string \<times> string \<times> bool)"
  yl_float :: "string \<Rightarrow> string + u64"
  yl_props :: "ynode \<Rightarrow> string + dt_props"
  yl_children :: "ynode \<Rightarrow> string + dt_child list"

text \<open>The numbers of \<open>yaml.Kind\<close>.\<close>

fun node_kind :: "ynode \<Rightarrow> nat" where
  "node_kind (YSeq xs) = 2"
| "node_kind (YMap xs) = 4"
| "node_kind (YScalar st tag v) = 8"
| "node_kind (YAlias a t) = 16"

text \<open>The keys and values of a mapping.\<close>

fun node_pairs :: "ynode list \<Rightarrow> (ynode \<times> ynode) list" where
  "node_pairs (k # v # r) = (k, v) # node_pairs r"
| "node_pairs _ = []"

text \<open>The first error of a list of results stops.\<close>

fun collect_results :: "('e + 'a) list \<Rightarrow> 'e + 'a list" where
  "collect_results [] = Inr []"
| "collect_results (Inl e # rs) = Inl e"
| "collect_results (Inr x # rs) = (case collect_results rs of Inl e \<Rightarrow> Inl e | Inr xs \<Rightarrow> Inr (x # xs))"

section \<open>Addresses and memory\<close>

definition unmarshalHex :: "ynode \<Rightarrow> spec_error + u64" where
  "unmarshalHex n =
     (case ParseUint (y_value n) 0 64 of
        Inl e \<Rightarrow> Inl (SpecError (''invalid address '' @ go_quote (y_value n)) (Some (num_error_text ''ParseUint'' (y_value n) e)))
      | Inr u \<Rightarrow> Inr (of_nat u))"

definition dram_part :: "nat \<Rightarrow> ynode \<Rightarrow> spec_error + u64" where
  "dram_part i e =
     (case ParseUint (y_value e) 0 64 of
        Inl err \<Rightarrow> Inl (SpecError (''dram['' @ nat_str i @ '']: invalid uint '' @ go_quote (y_value e))
                        (Some (num_error_text ''ParseUint'' (y_value e) err)))
      | Inr u \<Rightarrow> Inr (of_nat u))"

definition unmarshalDram :: "ynode \<Rightarrow> spec_error + u64 \<times> u64" where
  "unmarshalDram n =
     (case n of
        YSeq [a, b] \<Rightarrow>
          (case dram_part 0 a of
             Inl e \<Rightarrow> Inl e
           | Inr base \<Rightarrow> (case dram_part 1 b of Inl e \<Rightarrow> Inl e | Inr len \<Rightarrow> Inr (base, len)))
      | _ \<Rightarrow> Inl (SpecError ''dram: expected a [base, size] pair'' None))"

section \<open>Parallel I/O\<close>

definition pio_number :: "string \<Rightarrow> string \<Rightarrow> spec_error + int" where
  "pio_number s f =
     (case Atoi f of
        Inl e \<Rightarrow> Inl (SpecError (''pio key '' @ go_quote s) (Some (num_error_text ''Atoi'' f e)))
      | Inr i \<Rightarrow> Inr i)"

definition parsePioKey :: "ynode \<Rightarrow> spec_error + int \<times> int" where
  "parsePioKey kn =
     (let s = trim_space (y_value kn);
          bad = Inl (SpecError (''pio key '' @ go_quote s @ '': want '' @ [CHR 0x22] @ ''[lo hi]'' @ [CHR 0x22]) None) in
      if prefix ''['' s then
        if \<not> suffix '']'' s then bad
        else (case str_fields (butlast (tl s)) of
                [a, b] \<Rightarrow>
                  (case pio_number s a of
                     Inl e \<Rightarrow> Inl e
                   | Inr lo \<Rightarrow>
                       (case pio_number s b of
                          Inl e \<Rightarrow> Inl e
                        | Inr hi \<Rightarrow>
                            if hi < lo then Inl (SpecError (''pio key '' @ go_quote s @ '': lo > hi'') None) else Inr (lo, hi)))
              | _ \<Rightarrow> bad)
      else map_sum id (\<lambda>n. (n, n)) (pio_number s s))"

definition pio_item :: "yaml_library \<Rightarrow> ynode \<times> ynode \<Rightarrow> spec_error + pio_entry" where
  "pio_item lib kv =
     (case kv of (kn, vn) \<Rightarrow>
      case parsePioKey kn of
        Inl e \<Rightarrow> Inl e
      | Inr (lo, hi) \<Rightarrow>
          (let err = (\<lambda>msg cause. Inl (SpecError (''pio['' @ y_value kn @ '']: '' @ msg) cause));
               entry = \<lparr>pe_lo = lo, pe_hi = hi, pe_const = None, pe_name = []\<rparr> in
           case vn of
             YScalar st tag v \<Rightarrow>
               (case Atoi (trim_space v) of
                  Inl e \<Rightarrow> err (''expected int constant, got '' @ go_quote v) (Some (num_error_text ''Atoi'' (trim_space v) e))
                | Inr c \<Rightarrow>
                    if c \<noteq> 0 \<and> c \<noteq> 1
                    then err (''constant must be 0 or 1 (a std_logic bit), got '' @ itoa c) None
                    else Inr (entry\<lparr>pe_const := Some c\<rparr>))
           | YMap xs \<Rightarrow>
               (case yl_name lib vn of
                  Inl e \<Rightarrow> err ''invalid value map'' (Some e)
                | Inr n \<Rightarrow> Inr (entry\<lparr>pe_name := n\<rparr>))
           | _ \<Rightarrow> err (''unexpected value node kind '' @ nat_str (node_kind vn)) None))"

definition unmarshalPio :: "yaml_library \<Rightarrow> ynode \<Rightarrow> spec_error + pio_entry list" where
  "unmarshalPio lib n =
     (case n of
        YMap xs \<Rightarrow> collect_results (map (pio_item lib) (node_pairs xs))
      | _ \<Rightarrow> Inl (SpecError (''pio: expected mapping, got node kind '' @ nat_str (node_kind n)) None))"

section \<open>Device-tree properties and children\<close>

definition dt_item :: "yaml_library \<Rightarrow> ynode \<times> ynode \<Rightarrow> spec_error + string \<times> go_any" where
  "dt_item lib kv =
     (case yl_any lib (snd kv) of
        Inl e \<Rightarrow> Inl (SpecError ''dt-props: value decode'' (Some e))
      | Inr v \<Rightarrow> Inr (y_value (fst kv), v))"

definition unmarshalDtProps :: "yaml_library \<Rightarrow> ynode \<Rightarrow> spec_error + dt_props" where
  "unmarshalDtProps lib n =
     (case n of
        YMap xs \<Rightarrow> collect_results (map (dt_item lib) (node_pairs xs))
      | _ \<Rightarrow> Inl (SpecError ''dt-props: expected a mapping'' None))"

text \<open>The library decodes the parts of a child; it calls \<open>unmarshalDtProps\<close> and the decoder of children again.\<close>

fun child_parts :: "yaml_library \<Rightarrow> string \<Rightarrow> dt_props \<times> dt_child list \<Rightarrow> (ynode \<times> ynode) list \<Rightarrow> spec_error + dt_child" where
  "child_parts lib name (ps, cs) [] = Inr (DtChild name ps cs)"
| "child_parts lib name (ps, cs) ((k, v) # kvs) =
     (if y_value k = ''properties'' then
        (case yl_props lib v of Inl e \<Rightarrow> Inl (LibraryError e) | Inr ps' \<Rightarrow> child_parts lib name (ps', cs) kvs)
      else if y_value k = ''children'' then
        (case yl_children lib v of Inl e \<Rightarrow> Inl (LibraryError e) | Inr cs' \<Rightarrow> child_parts lib name (ps, cs') kvs)
      else child_parts lib name (ps, cs) kvs)"

definition unmarshalDtChild :: "yaml_library \<Rightarrow> ynode \<Rightarrow> spec_error + dt_child" where
  "unmarshalDtChild lib n =
     (case n of
        YSeq [name, body] \<Rightarrow>
          (case body of
             YMap xs \<Rightarrow> child_parts lib (y_value name) ([], []) (node_pairs xs)
           | _ \<Rightarrow> Inl (SpecError ''dt-children body: expected a mapping'' None))
      | _ \<Rightarrow> Inl (SpecError ''dt-children entry: expected [name, body]'' None))"

section \<open>Interrupts\<close>

definition unmarshalIRQRef :: "yaml_library \<Rightarrow> ynode \<Rightarrow> spec_error + irq_ref" where
  "unmarshalIRQRef lib n =
     (case n of
        YMap xs \<Rightarrow>
          (case yl_irqs lib n of
             Inl e \<Rightarrow> Inl (SpecError ''invalid irq map'' (Some e))
           | Inr m \<Rightarrow> Inr \<lparr>ir_int = None, ir_named = Some m\<rparr>)
      | _ \<Rightarrow>
          (case Atoi (y_value n) of
             Inl e \<Rightarrow> Inl (SpecError (''invalid irq '' @ go_quote (y_value n)) (Some (num_error_text ''Atoi'' (y_value n) e)))
           | Inr i \<Rightarrow> Inr \<lparr>ir_int = Some i, ir_named = None\<rparr>))"

section \<open>Generic and port values\<close>

definition unmarshalValue :: "yaml_library \<Rightarrow> ynode \<Rightarrow> spec_error + go_value" where
  "unmarshalValue lib n =
     (case n of
        YMap xs \<Rightarrow>
          (case yl_keys lib n of
             Inl e \<Rightarrow> Inl (SpecError ''invalid value map'' (Some e))
           | Inr ks \<Rightarrow> Inr (zero_value\<lparr>v_kind := KindMap, v_map := ks\<rparr>))
      | YScalar st tag v \<Rightarrow>
          (let err = (\<lambda>what cause. Inl (SpecError (''invalid '' @ what @ '' '' @ go_quote v) (Some cause))) in
           if tag = ''!str'' then Inr (zero_value\<lparr>v_kind := KindStr, v_text := v\<rparr>)
           else if tag = ''!!int'' then
             (case ParseInt v 0 of
                Inl e \<Rightarrow> err ''int'' (num_error_text ''ParseInt'' v e)
              | Inr i \<Rightarrow> Inr (zero_value\<lparr>v_kind := KindInt, v_int := i\<rparr>))
           else if tag = ''!!float'' then
             (case yl_float lib v of
                Inl e \<Rightarrow> err ''float'' e
              | Inr f \<Rightarrow> Inr (zero_value\<lparr>v_kind := KindFloat, v_float := f\<rparr>))
           else if tag = ''!!bool'' then
             (case ParseBool v of
                Inl e \<Rightarrow> err ''bool'' (num_error_text ''ParseBool'' v e)
              | Inr b \<Rightarrow> Inr (zero_value\<lparr>v_kind := KindBool, v_bool := b\<rparr>))
           else Inr (zero_value\<lparr>v_kind := KindExpr, v_text := v\<rparr>))
      | _ \<Rightarrow> Inl (SpecError (''unsupported generic/port value kind '' @ nat_str (node_kind n)) None))"

section \<open>Signals of pin rules\<close>

definition zero_sig_spec :: sig_spec where
  "zero_sig_spec = \<lparr>ss_kind = SigName, ss_name = [], ss_int = 0, ss_parts = [], ss_diff = [], ss_invert = False\<rparr>"

definition unmarshalSignal :: "yaml_library \<Rightarrow> ynode \<Rightarrow> spec_error + sig_spec" where
  "unmarshalSignal lib n =
     (case n of
        YScalar st tag v \<Rightarrow>
          if tag = ''!!bool'' then
            if v \<noteq> ''true'' then Inl (SpecError (''signal bool must be true, got '' @ go_quote v) None)
            else Inr (zero_sig_spec\<lparr>ss_kind := SigTrue\<rparr>)
          else if tag = ''!!int'' then
            (case ParseInt v 0 of
               Inl e \<Rightarrow> Inl (SpecError (''invalid int signal '' @ go_quote v) (Some (num_error_text ''ParseInt'' v e)))
             | Inr i \<Rightarrow> Inr (zero_sig_spec\<lparr>ss_kind := SigConst, ss_int := i\<rparr>))
          else Inr (zero_sig_spec\<lparr>ss_name := v\<rparr>)
      | YSeq xs \<Rightarrow> Inr (zero_sig_spec\<lparr>ss_kind := SigTemplate, ss_parts := seqParts xs\<rparr>)
      | YMap xs \<Rightarrow>
          (case yl_signal lib n of
             Inl e \<Rightarrow> Inl (SpecError ''invalid signal map'' (Some e))
           | Inr (name, diff, invert) \<Rightarrow>
               Inr (zero_sig_spec\<lparr>ss_kind := SigMap, ss_name := name, ss_diff := diff, ss_invert := invert\<rparr>))
      | YAlias a t \<Rightarrow> Inl (SpecError ''invalid signal node'' None))"

end
