(* ===== verification/Design_Decode_Props.thy ===== *)
theory Design_Decode_Props
  imports Design_Decode
begin

text \<open>
  Round trips and ranges of the decoders of \<open>Design_Decode\<close>: what the program prints as a number is read back as
  that number, and the entries of the parallel I/O are ranges with a bit or a name.
\<close>

section \<open>Numbers read back\<close>

lemma uint_digits_append:
  "uint_digits b bits us n (s @ t) =
     (case uint_digits b bits us n s of Inl e \<Rightarrow> Inl e | Inr m \<Rightarrow> uint_digits b bits us m t)"
  by (induction s arbitrary: n) (auto split: option.split)

lemma digit_code: "d < 16 \<Longrightarrow> char_code (digit_char d) = (if d < 10 then 48 + d else 87 + d)"
  by (simp add: digit_char_def char_code_def)

lemma digit_char_facts:
  assumes "d < 16"
  shows "uint_digit (digit_char d) = Some d" "digit_char d \<noteq> CHR ''_''" "\<not> is_space (digit_char d)"
    "digit_char d \<notin> {CHR ''['', CHR '']'', CHR ''-'', CHR ''+''}" "digit_char d = CHR ''0'' \<Longrightarrow> d = 0"
proof -
  have ne: "digit_char d \<noteq> c" if "char_code c \<noteq> char_code (digit_char d)" for c using that by auto
  show "uint_digit (digit_char d) = Some d"
    using digit_code [OF assms] assms
    by (auto simp: uint_digit_def is_digit_def is_lower_def to_lower_char_def is_upper_def Let_def)
  show "digit_char d \<noteq> CHR ''_''" "digit_char d \<notin> {CHR ''['', CHR '']'', CHR ''-'', CHR ''+''}"
    using digit_code [OF assms] assms by (auto simp: char_code_def split: if_splits)
  show "\<not> is_space (digit_char d)" using digit_code [OF assms] by (simp add: is_space_def)
  show "digit_char d = CHR ''0'' \<Longrightarrow> d = 0" using digit_code [OF assms] by (auto simp: char_code_def split: if_splits)
qed

lemma radix_digits: "2 \<le> b \<Longrightarrow> b \<le> 16 \<Longrightarrow> c \<in> set (radix_str b n) \<Longrightarrow> \<exists>d < 16. c = digit_char d"
proof (induction b n rule: radix_str.induct)
  case (1 b n)
  show ?case
  proof (cases "n < b")
    case True
    then have "c = digit_char n" "n < 16" using "1.prems" by (simp_all add: radix_str.simps [of b n])
    then show ?thesis by blast
  next
    case False
    then have "c \<in> set (radix_str b (n div b)) \<or> c = digit_char (n mod b)"
      using "1.prems" by (auto simp: radix_str.simps [of b n])
    moreover have "n mod b < 16" using "1.prems" by (auto intro: order.strict_trans2 [OF mod_less_divisor])
    ultimately show ?thesis using "1.IH" "1.prems" False by auto
  qed
qed

lemma radix_hd: "2 \<le> b \<Longrightarrow> b \<le> 16 \<Longrightarrow> hd (radix_str b n) = CHR ''0'' \<Longrightarrow> n = 0"
proof (induction b n rule: radix_str.induct)
  case (1 b n)
  show ?case
  proof (cases "n < b")
    case True
    then show ?thesis using "1.prems" digit_char_facts(5) [of n] by (auto simp: radix_str.simps [of b n])
  next
    case False
    then have "n div b = 0" using "1.IH" "1.prems" by (simp add: radix_str.simps [of b n] hd_append)
    then show ?thesis using False "1.prems" by (simp add: div_eq_0_iff)
  qed
qed

lemma uint_digits_radix:
  "2 \<le> b \<Longrightarrow> b \<le> 16 \<Longrightarrow> n < 2 ^ bits \<Longrightarrow> uint_digits b bits us 0 (radix_str b n) = Inr n"
proof (induction b n rule: radix_str.induct)
  case (1 b n)
  show ?case
  proof (cases "n < b")
    case True
    then show ?thesis using "1.prems" digit_char_facts(1,2) [of n] by (simp add: radix_str.simps [of b n])
  next
    case False
    have m: "n mod b < 16" "n mod b < b" using "1.prems" by (auto intro: order.strict_trans2 [OF mod_less_divisor])
    have "n div b < 2 ^ bits" using "1.prems" by (meson div_le_dividend le_less_trans)
    then have "uint_digits b bits us 0 (radix_str b (n div b)) = Inr (n div b)" using "1.IH" "1.prems" False by simp
    then show ?thesis using False "1.prems" m digit_char_facts(1,2) [OF m(1)]
      by (simp add: radix_str.simps [of b n] uint_digits_append not_le)
  qed
qed

lemma no_underscore: "2 \<le> b \<Longrightarrow> b \<le> 16 \<Longrightarrow> CHR ''_'' \<notin> set (radix_str b n)"
  using radix_digits digit_char_facts(2) by metis

lemma ParseUint_nat_str:
  assumes "n < 2 ^ bits" "base = 0 \<or> base = 10"
  shows "ParseUint (nat_str n) base bits = Inr n"
proof (cases "hd (nat_str n) = CHR ''0'' \<and> base = 0")
  case True
  then have "n = 0" using radix_hd [of 10 n] by (simp add: nat_str_def)
  then show ?thesis using True by (simp add: ParseUint_def base_prefix_def nat_str_def radix_str.simps)
next
  case False
  then have b: "(if base = 0 then base_prefix (nat_str n) else (base, nat_str n)) = (10, nat_str n)"
    using assms(2) by (auto simp: base_prefix_def)
  have "uint_digits 10 bits (base = 0) 0 (nat_str n) = Inr n" "CHR ''_'' \<notin> set (nat_str n)"
    using uint_digits_radix [of 10 n bits] no_underscore [of 10 n] assms(1) by (simp_all add: nat_str_def)
  then show ?thesis unfolding ParseUint_def Let_def b by simp
qed

lemma ParseUint_hex:
  assumes "n < 2 ^ bits"
  shows "ParseUint (''0x'' @ radix_str 16 n) 0 bits = Inr n"
proof -
  have "3 \<le> length (''0x'' @ radix_str 16 n)" by (cases "radix_str 16 n") simp_all
  then have "base_prefix (''0x'' @ radix_str 16 n) = (16, radix_str 16 n)"
    by (simp add: base_prefix_def to_lower_char_def is_upper_def char_code_def)
  then show ?thesis using uint_digits_radix [of 16 n bits True] no_underscore [of 16 n] assms
    by (simp add: ParseUint_def Let_def)
qed

lemma itoa_char: "c \<in> set (itoa i) \<Longrightarrow> \<not> is_space c \<and> c \<noteq> CHR ''[''"
proof -
  assume c: "c \<in> set (itoa i)"
  have "\<not> is_space CHR ''-''" by code_simp
  moreover have "\<not> is_space x \<and> x \<noteq> CHR ''[''" if "x \<in> set (nat_str n)" for x n
    using radix_digits [of 10 x n] that digit_char_facts(3,4) by (auto simp: nat_str_def)
  ultimately show ?thesis using c by (auto simp: itoa_def split: if_splits)
qed

lemma notin_signs: "\<exists>d < 16. c = digit_char d \<Longrightarrow> c \<notin> {CHR ''-'', CHR ''+''}"
  by (elim exE conjE) (simp add: digit_char_facts(4) [simplified])

lemma ParseInt_itoa:
  assumes "- (2 ^ 63) \<le> i" "i < 2 ^ 63" "base = 0 \<or> base = 10"
  shows "ParseInt (itoa i) base = Inr i"
proof (cases "i < 0")
  case True
  then have "ParseUint (nat_str (nat (- i))) base 64 = Inr (nat (- i))"
    using assms by (intro ParseUint_nat_str) simp_all
  moreover have "\<not> 2 ^ 63 < nat (- i)" using assms by simp
  ultimately show ?thesis using True by (simp add: ParseInt_def itoa_def)
next
  case False
  have digit_start: "\<exists>d < 16. hd (nat_str (nat i)) = digit_char d"
    unfolding nat_str_def by (rule radix_digits [OF _ _ hd_in_set]) simp_all
  have "ParseUint (nat_str (nat i)) base 64 = Inr (nat i)"
    using assms False by (intro ParseUint_nat_str) simp_all
  moreover have "hd (nat_str (nat i)) \<notin> {CHR ''-'', CHR ''+''}"
    using digit_start by (rule notin_signs)
  moreover have "\<not> 2 ^ 63 \<le> nat i" using assms False by simp
  ultimately show ?thesis using False
    by (simp only: ParseInt_def itoa_def if_False nat_str_nonempty Let_def sum.case) simp
qed


section \<open>Keys of the parallel I/O\<close>

lemma split_word: "\<forall>c \<in> set w. \<not> P c \<Longrightarrow> P c \<Longrightarrow> split_on P (w @ c # s) = w # split_on P s"
  "\<forall>c \<in> set w. \<not> P c \<Longrightarrow> split_on P w = [w]"
  by (induction w) (auto split: list.split)

lemma itoa_nonempty [simp]: "itoa i \<noteq> []"
  by (simp add: itoa_def)

lemma str_fields_pair: "str_fields (itoa i @ CHR '' '' # itoa j) = [itoa i, itoa j]"
proof -
  have "is_space CHR '' ''" by code_simp
  then have "split_on is_space (itoa i @ CHR '' '' # itoa j) = [itoa i, itoa j]"
    using split_word(1) [of "itoa i" is_space] split_word(2) [of "itoa j" is_space] itoa_char by simp
  then show ?thesis by (simp add: str_fields_def)
qed

lemma trim_words: "\<not> is_space (hd s) \<Longrightarrow> \<not> is_space (last s) \<Longrightarrow> s \<noteq> [] \<Longrightarrow> trim_space s = s"
  by (simp add: trim_space_def dropWhile_eq_self_iff [THEN iffD2] hd_rev)

lemma trim_itoa: "trim_space (itoa i) = itoa i"
  by (rule trim_words) (use itoa_char [OF hd_in_set] itoa_char [OF last_in_set] in simp_all)

abbreviation pair_text :: "int \<Rightarrow> int \<Rightarrow> string" where
  "pair_text lo hi \<equiv> ''['' @ itoa lo @ '' '' @ itoa hi @ '']''"

lemma trim_range: "trim_space (pair_text lo hi) = pair_text lo hi"
proof (rule trim_words)
  show "\<not> is_space (hd (pair_text lo hi))" "\<not> is_space (last (pair_text lo hi))" by (simp_all, code_simp+)
qed simp

lemma pio_number_itoa: "- (2 ^ 63) \<le> i \<Longrightarrow> i < 2 ^ 63 \<Longrightarrow> pio_number s (itoa i) = Inr i"
  by (simp add: pio_number_def Atoi_def ParseInt_itoa)

lemma parsePioKey_number:
  assumes "- (2 ^ 63) \<le> i" "i < 2 ^ 63"
  shows "parsePioKey (YScalar st tag (itoa i)) = Inr (i, i)"
proof -
  have "\<not> prefix ''['' (itoa i)" using itoa_char [of "hd (itoa i)" i] by (cases "itoa i") auto
  then show ?thesis using assms by (simp add: parsePioKey_def y_value_def trim_itoa pio_number_itoa)
qed

lemma parsePioKey_range:
  assumes "- (2 ^ 63) \<le> lo" "lo < 2 ^ 63" "- (2 ^ 63) \<le> hi" "hi < 2 ^ 63"
  shows "isl (parsePioKey (YScalar st tag (pair_text lo hi))) \<longleftrightarrow> hi < lo"
    "lo \<le> hi \<Longrightarrow> parsePioKey (YScalar st tag (pair_text lo hi)) = Inr (lo, hi)"
proof -
  have "butlast (tl (pair_text lo hi)) = itoa lo @ CHR '' '' # itoa hi" by (simp add: butlast_append)
  moreover have "suffix '']'' (pair_text lo hi)" by (simp add: suffix_def)
  ultimately have "parsePioKey (YScalar st tag (pair_text lo hi)) =
      (if hi < lo then Inl (SpecError (''pio key '' @ go_quote (pair_text lo hi) @ '': lo > hi'') None) else Inr (lo, hi))"
    using assms by (simp only: parsePioKey_def y_value_def ynode.case Let_def trim_range str_fields_pair list.case
        pio_number_itoa sum.case) simp
  then show "isl (parsePioKey (YScalar st tag (pair_text lo hi))) \<longleftrightarrow> hi < lo"
    "lo \<le> hi \<Longrightarrow> parsePioKey (YScalar st tag (pair_text lo hi)) = Inr (lo, hi)" by simp_all
qed

text \<open>The decimal and the hexadecimal text of a number.\<close>

definition num_texts :: "nat \<Rightarrow> string list" where
  "num_texts n = [nat_str n, ''0x'' @ radix_str 16 n]"

lemma ParseUint_num_texts: "n < 2 ^ 64 \<Longrightarrow> t \<in> set (num_texts n) \<Longrightarrow> ParseUint t 0 64 = Inr n"
  using ParseUint_nat_str [of n 64] ParseUint_hex [of n 64] by (auto simp: num_texts_def)

lemma ParseInt_num_texts:
  assumes "n < 2 ^ 63" "t \<in> set (num_texts n)"
  shows "ParseInt t 0 = Inr (int n)"
proof -
  have "hd t \<notin> {CHR ''-'', CHR ''+''} \<and> t \<noteq> []"
  proof (cases "t = nat_str n")
    case True
    have "\<exists>d < 16. hd (nat_str n) = digit_char d"
      unfolding nat_str_def by (rule radix_digits [OF _ _ hd_in_set]) simp_all
    from notin_signs [OF this] True show ?thesis by simp
  next
    case False
    then show ?thesis using assms(2) by (simp add: num_texts_def)
  qed
  moreover have "ParseUint t 0 64 = Inr n" by (rule ParseUint_num_texts [OF _ assms(2)]) (use assms(1) in simp)
  ultimately show ?thesis using assms(1) by (simp add: ParseInt_def Let_def)
qed

lemma pio_item_const:
  assumes "- (2 ^ 63) \<le> i" "i < 2 ^ 63" "- (2 ^ 63) \<le> c" "c < 2 ^ 63"
  shows "if c = 0 \<or> c = 1 then pio_item lib (YScalar st tag (itoa i), YScalar st' tag' (itoa c)) =
      Inr \<lparr>pe_lo = i, pe_hi = i, pe_const = Some c, pe_name = []\<rparr>
    else isl (pio_item lib (YScalar st tag (itoa i), YScalar st' tag' (itoa c)))"
  using parsePioKey_number [OF assms(1,2), of st tag] ParseInt_itoa [OF assms(3,4), of 10]
  by (simp add: pio_item_def Let_def trim_itoa Atoi_def)

text \<open>
  C36: numbers survive being written in a description, in the places that this program reads itself. A 64-bit
  number without sign is read back from its decimal and from its hexadecimal text as an address and as either
  number of a \<open>dram\<close> pair, and, below \<open>2 ^ 63\<close>, as an integer value of a generic or port and as a pin constant. A
  signed 64-bit number is read back from its decimal text as such a value, as a pin constant, as an interrupt and
  as a key of the parallel I/O. A key with two numbers is read back as that range exactly when the first is not
  above the second, and the constant of an entry is read back exactly when it is 0 or 1.
\<close>

theorem numbers_read_back:
  fixes a b :: u64 and i j c :: "64 word"
  shows "list_all (\<lambda>t. unmarshalHex (YScalar st tag t) = Inr a) (num_texts (unat a)) \<and>
    list_all (\<lambda>t. list_all (\<lambda>u. unmarshalDram (YSeq [YScalar st tag t, YScalar st' tag' u]) = Inr (a, b)) (num_texts (unat b)))
      (num_texts (unat a)) \<and>
    (if unat a < 2 ^ 63
     then list_all (\<lambda>t.
        unmarshalValue lib (YScalar st ''!!int'' t) = Inr (zero_value\<lparr>v_kind := KindInt, v_int := int (unat a)\<rparr>) \<and>
        unmarshalSignal lib (YScalar st ''!!int'' t) = Inr (zero_sig_spec\<lparr>ss_kind := SigConst, ss_int := int (unat a)\<rparr>))
      (num_texts (unat a)) else True) \<and>
    unmarshalValue lib (YScalar st ''!!int'' (itoa (sint i))) = Inr (zero_value\<lparr>v_kind := KindInt, v_int := sint i\<rparr>) \<and>
    unmarshalSignal lib (YScalar st ''!!int'' (itoa (sint i))) = Inr (zero_sig_spec\<lparr>ss_kind := SigConst, ss_int := sint i\<rparr>) \<and>
    unmarshalIRQRef lib (YScalar st tag (itoa (sint i))) = Inr \<lparr>ir_int = Some (sint i), ir_named = None\<rparr> \<and>
    parsePioKey (YScalar st tag (itoa (sint i))) = Inr (sint i, sint i) \<and>
    (if sint i \<le> sint j then parsePioKey (YScalar st tag (pair_text (sint i) (sint j))) = Inr (sint i, sint j)
     else isl (parsePioKey (YScalar st tag (pair_text (sint i) (sint j))))) \<and>
    (if sint c = 0 \<or> sint c = 1
     then pio_item lib (YScalar st tag (itoa (sint i)), YScalar st' tag' (itoa (sint c))) =
       Inr \<lparr>pe_lo = sint i, pe_hi = sint i, pe_const = Some (sint c), pe_name = []\<rparr>
     else isl (pio_item lib (YScalar st tag (itoa (sint i)), YScalar st' tag' (itoa (sint c)))))"
proof -
  have s: "- (2 ^ 63) \<le> sint w" "sint w < 2 ^ 63" for w :: "64 word"
    using sint_ge [of w] sint_lt [of w] by simp_all
  have u: "unat w < 2 ^ 64" for w :: u64 using unsigned_less [of w] by simp
  note facts = ParseUint_num_texts [OF u] ParseInt_itoa [OF s]
  have "list_all (\<lambda>t. unmarshalHex (YScalar st tag t) = Inr a) (num_texts (unat a))"
    by (simp add: list_all_iff unmarshalHex_def y_value_def facts)
  moreover have "list_all (\<lambda>t. list_all (\<lambda>u. unmarshalDram (YSeq [YScalar st tag t, YScalar st' tag' u]) = Inr (a, b)) (num_texts (unat b)))
      (num_texts (unat a))"
    by (simp add: list_all_iff unmarshalDram_def dram_part_def y_value_def facts)
  moreover have "if unat a < 2 ^ 63
     then list_all (\<lambda>t.
        unmarshalValue lib (YScalar st ''!!int'' t) = Inr (zero_value\<lparr>v_kind := KindInt, v_int := int (unat a)\<rparr>) \<and>
        unmarshalSignal lib (YScalar st ''!!int'' t) = Inr (zero_sig_spec\<lparr>ss_kind := SigConst, ss_int := int (unat a)\<rparr>))
      (num_texts (unat a)) else True"
    using ParseInt_num_texts [of "unat a"] by (simp add: list_all_iff unmarshalValue_def unmarshalSignal_def)
  moreover have "unmarshalValue lib (YScalar st ''!!int'' (itoa (sint i))) = Inr (zero_value\<lparr>v_kind := KindInt, v_int := sint i\<rparr>)"
    "unmarshalSignal lib (YScalar st ''!!int'' (itoa (sint i))) = Inr (zero_sig_spec\<lparr>ss_kind := SigConst, ss_int := sint i\<rparr>)"
    "unmarshalIRQRef lib (YScalar st tag (itoa (sint i))) = Inr \<lparr>ir_int = Some (sint i), ir_named = None\<rparr>"
    by (simp_all add: unmarshalValue_def unmarshalSignal_def unmarshalIRQRef_def y_value_def Atoi_def facts)
  moreover have "if sint i \<le> sint j then parsePioKey (YScalar st tag (pair_text (sint i) (sint j))) = Inr (sint i, sint j)
     else isl (parsePioKey (YScalar st tag (pair_text (sint i) (sint j))))"
    using parsePioKey_range [OF s s] by (simp add: not_le)
  moreover note parsePioKey_number [OF s] pio_item_const [OF s s]
  ultimately show ?thesis by (intro conjI)
qed

section \<open>What is accepted\<close>

lemma Atoi_bound: "Atoi s = Inr i \<Longrightarrow> - (2 ^ 63) \<le> i \<and> i < 2 ^ 63"
  by (auto simp: Atoi_def ParseInt_def Let_def split: if_splits sum.splits)

lemma parsePioKey_sound: "parsePioKey kn = Inr (lo, hi) \<Longrightarrow> lo \<le> hi \<and> - (2 ^ 63) \<le> lo \<and> hi < 2 ^ 63"
  by (auto simp: parsePioKey_def pio_number_def Let_def split: if_splits sum.splits list.splits dest!: Atoi_bound)

lemma collect_results_Inr: "collect_results rs = Inr xs \<Longrightarrow> rs = map Inr xs"
  by (induction rs arbitrary: xs rule: collect_results.induct) (auto split: sum.splits)

lemma results_pointwise: "map f xs = map Inr es \<Longrightarrow> (\<And>x e. f x = Inr e \<Longrightarrow> P x e) \<Longrightarrow> list_all2 P xs es"
  by (induction xs arbitrary: es) (auto simp: Cons_eq_map_conv)

text \<open>The entries follow the mapping, each a range with a bit or the name the library reads.\<close>

lemma unmarshalPio_entries:
  assumes "unmarshalPio lib (YMap xs) = Inr es"
  shows "list_all2 (\<lambda>(k, v) e. parsePioKey k = Inr (pe_lo e, pe_hi e) \<and> pe_lo e \<le> pe_hi e \<and>
    (pe_const e \<in> {Some 0, Some 1} \<and> pe_name e = [] \<or> pe_const e = None \<and> yl_name lib v = Inr (pe_name e)))
    (node_pairs xs) es"
proof -
  have "map (pio_item lib) (node_pairs xs) = map Inr es"
    using assms collect_results_Inr by (simp add: unmarshalPio_def)
  moreover have "parsePioKey k = Inr (pe_lo e, pe_hi e) \<and> pe_lo e \<le> pe_hi e \<and>
    (pe_const e \<in> {Some 0, Some 1} \<and> pe_name e = [] \<or> pe_const e = None \<and> yl_name lib v = Inr (pe_name e))"
    if item: "pio_item lib (k, v) = Inr e" for k v e
  proof -
    obtain lo hi where k: "parsePioKey k = Inr (lo, hi)" using item
      by (cases "parsePioKey k") (auto simp: pio_item_def)
    then show ?thesis using item parsePioKey_sound [OF k]
      by (auto simp: pio_item_def Let_def split: sum.splits ynode.splits if_splits)
  qed
  ultimately show ?thesis by - (rule results_pointwise, assumption, blast)
qed

text \<open>
  YAML reads \<open>True\<close> and \<open>TRUE\<close> as the boolean; as the signal of a pin rule only the spelling \<open>true\<close> is taken.
\<close>

lemma signal_true_spelling:
  "isl (unmarshalSignal lib (YScalar 0 ''!!bool'' ''True''))"
  "unmarshalValue lib (YScalar 0 ''!!bool'' ''True'') = Inr (zero_value\<lparr>v_kind := KindBool, v_bool := True\<rparr>)"
  by (simp_all add: unmarshalSignal_def unmarshalValue_def ParseBool_def)

text \<open>A decimal address with a leading zero is read in base eight.\<close>

lemma leading_zero_octal: "unmarshalHex (YScalar 0 ''!!int'' ''010'') = Inr 8"
  by (simp add: unmarshalHex_def y_value_def ParseUint_def base_prefix_def uint_digit_def is_digit_def is_lower_def
      to_lower_char_def is_upper_def char_code_def)

end
