(* ===== verification/Elab_Error_Text.thy ===== *)
theory Elab_Error_Text
  imports Elab_Top
begin

text \<open>
  The messages of the errors that elaboration joins: the \<open>Error\<close> methods of \<open>src/tools/socgen/elaborate/errors.go\<close>
  and \<open>irq.go\<close>. The unreachable default branches, for a kind that does not exist, have no counterpart.
\<close>

text \<open>The format verb \<open>%08x\<close> of an unsigned value.\<close>

definition hex_lower8 :: "u64 \<Rightarrow> string" where
  "hex_lower8 a = (let s = radix_str 16 (unat a) in ''0x'' @ replicate (8 - length s) (CHR ''0'') @ s)"

definition signal_error_text :: "signal_error \<Rightarrow> string" where
  "signal_error_text e =
     (case se_kind e of
        ErrTypeMismatch \<Rightarrow> ''type mismatch for signal '' @ go_quote (se_signal e) @ '': '' @ se_detail e
      | ErrMultiDriver \<Rightarrow> ''signal '' @ go_quote (se_signal e) @ '' is driven by multiple ports: '' @ se_detail e
      | ErrUndrivenSignal \<Rightarrow> ''nothing drives signal '' @ go_quote (se_signal e) @ '' used by '' @ se_detail e
      | ErrMultiContextDriver \<Rightarrow>
          ''signal '' @ go_quote (se_signal e) @ '' driven from multiple contexts: '' @ se_detail e)"

definition region_text :: "string \<Rightarrow> u64 \<Rightarrow> u64 \<Rightarrow> string" where
  "region_text name lo hi = go_quote name @ '' ['' @ hex_lower8 lo @ '','' @ hex_lower8 hi @ '']''"

definition addr_error_text :: "addr_error \<Rightarrow> string" where
  "addr_error_text e =
     (case ae_kind e of
        ErrBadRegion \<Rightarrow>
          ''device '' @ go_quote (ae_device e) @ '' base address '' @ hex_lower8 (ae_base e) @
          '' is invalid: bits 31-28 must be 0xA''
      | ErrOverSpec \<Rightarrow>
          ''device '' @ go_quote (ae_device e) @ '' base address '' @ hex_lower8 (ae_base e) @
          '' has non-zero bits in its internal address range (low '' @ itoa (ae_bits e) @ '' bits)''
      | ErrAddrOverlap \<Rightarrow>
          ''memory regions overlap: '' @ region_text (ae_device e) (ae_lo e) (ae_hi e) @ '' and '' @
          region_text (ae_other e) (ae_olo e) (ae_ohi e)
      | ErrLeftAddrBit \<Rightarrow>
          ''device '' @ go_quote (ae_device e) @ '' class '' @ go_quote (ae_class e) @ '': left-addr-bit '' @
          itoa (ae_left_addr_bit e) @ '' out of range [0,'' @ itoa (ae_max e) @ '']'')"

definition irq_kind_text :: "irq_error_kind \<Rightarrow> string" where
  "irq_kind_text k =
     (case k of
        ErrIRQNoPort \<Rightarrow> ''device has no irq port''
      | ErrIRQBadCPU \<Rightarrow> ''irq cpu out of range''
      | ErrIRQBadPath \<Rightarrow> ''irq path out of range''
      | ErrIRQNamedPort \<Rightarrow> ''named irq port not found on entity''
      | ErrIRQVectorMismatch \<Rightarrow> ''or-combined irqs disagree on vector''
      | ErrIRQAicCoverage \<Rightarrow> ''aic cpus must cover {0..N-1}'')"

definition irq_error_text :: "irq_error \<Rightarrow> string" where
  "irq_error_text e =
     (let subject =
            (if iq_device e \<noteq> [] \<and> iq_port e \<noteq> [] then
               ''device '' @ go_quote (iq_device e) @ '' port '' @ go_quote (iq_port e)
             else if iq_device e \<noteq> [] then ''device '' @ go_quote (iq_device e)
             else []);
          k = irq_kind_text (iq_kind e) in
      if subject \<noteq> [] \<and> iq_detail e \<noteq> [] then subject @ '': '' @ k @ '': '' @ iq_detail e
      else if subject \<noteq> [] then subject @ '': '' @ k
      else if iq_detail e \<noteq> [] then k @ '': '' @ iq_detail e
      else k)"

text \<open>Every signal error names its signal.\<close>

lemma sublist_append_in: "sublist w (a @ w @ b)"
  by (simp add: sublist_appendI)

lemma signal_error_names: "sublist (go_quote (se_signal e)) (signal_error_text e)"
  unfolding signal_error_text_def by (cases "se_kind e") (simp_all only: signal_error_kind.case sublist_append_in)

end
