(* ===== verification/Spec2Isabelle.thy ===== *)
theory Spec2Isabelle
  imports Elab_Sound Vhdl_Lex_Props Vhdl_Roundtrip Vhdl_Parse_Progress Dt_Props C_Header_Props Emit_Decl_Props
    Emit_Sort_Props Emit_Pins_Props Gen_Props Coremark Design_Decode_Props Elab_Error_Text
begin

text \<open>
  A verification library for the Go programs of the jcore-soc repository: the SoC generator
  \<open>src/tools/socgen\<close>, the benchmark collector \<open>src/tools/coremark-collector\<close> and the image builder
  \<open>src/tools/mkflash\<close>.

  \<^bold>\<open>The program.\<close> \<open>socgen\<close> reads the description of a board (\<open>design\<close>), parses the VHDL sources of the board
  (\<open>vhdl\<close>) into an interface library (\<open>iface\<close>), and checks one against the other (\<open>board\<close>). \<open>elaborate\<close> turns
  them into a resolution: classes, device instances, ports, a net-list of global signals, address map, interrupt
  wiring, data-bus topology and pins. \<open>emit\<close> writes three VHDL architectures from it (the devices, the soc around
  them, the pad ring around both), the configuration of the CPUs and the pin constraints; \<open>devicetree\<close> with
  \<open>dts\<close>, and \<open>cheader\<close>, write the device tree and the boot loader header. \<open>generate\<close> collects the files,
  \<open>cmd/socgen\<close> runs it all. Most functions return their best result together with all errors they met; the model
  returns such results as pairs of the value and the list of the leaf errors, in the order of \<open>errors.Join\<close>.

  \<^bold>\<open>The theories.\<close> Every theory opens with the sources it models. A definition has the name of its Go function; a
  part of a function that is a definition of its own is named after what it computes.

  \<^item> \<open>Go_Prelude\<close>, \<open>Go_Float\<close>, \<open>Go_Uint\<close>, \<open>Go_Path\<close>: what the programs use of the Go library. Strings are
    byte lists, \<open>int\<close> is \<open>int\<close> with the wrap-around written out as \<open>wrap64\<close> where values of a description are
    computed with (the constants of \<open>Elab_Eval\<close>, the register layout of \<open>Elab_Class\<close>), \<open>uint64\<close> and \<open>uint32\<close> are words, a Go map is an association list.
  \<^item> \<open>Vhdl_Token\<close>, \<open>Vhdl_Ast\<close>, \<open>Vhdl_Lexer\<close>, \<open>Vhdl_Printer\<close>, \<open>Vhdl_Print_File\<close>, \<open>Vhdl_Parse_Monad\<close>,
    \<open>Vhdl_Parse_Expr\<close>, \<open>Vhdl_Parse_Stmt\<close>, \<open>Vhdl_Parse_Decl\<close>, \<open>Vhdl_Parse_File\<close>, \<open>Vhdl_Walk\<close>: the VHDL front end.
    The parser is a state monad over the remaining tokens and the reports; positions are erased from the syntax
    tree, as \<open>equalAST\<close> ignores them, and kept in tokens and reports.
  \<^item> \<open>Iface_Model\<close>, \<open>Iface_Extract\<close>: the interface library and its extraction.
  \<^item> \<open>Design_Model\<close>, \<open>Design_Yaml\<close>, \<open>Design_Decode\<close>, \<open>Design_Pins_File\<close>, \<open>Design_Validate\<close>: the description, its
    inclusions and merges, the decoders the code gives to the YAML library, pin files, and the cross-check.
  \<^item> \<open>Elab_Model\<close> (the resolution), \<open>Elab_Eval\<close>, \<open>Elab_Addr\<close>, \<open>Elab_Class\<close>, \<open>Elab_Port\<close>, \<open>Elab_Device\<close>,
    \<open>Elab_Netlist\<close>, \<open>Elab_Databus\<close>, \<open>Elab_Irq\<close>, \<open>Elab_Pins\<close>, \<open>Elab_Categorize\<close>, \<open>Elab_Cpu\<close>, \<open>Elab_Error_Text\<close>:
    one pass each; \<open>Elab_Top\<close> composes them as \<open>Elaborate\<close> does.
  \<^item> \<open>Emit_Decoder\<close>, \<open>Emit_Base\<close>, \<open>Emit_Devices\<close>, \<open>Emit_Soc\<close>, \<open>Emit_Cpus\<close>: the generated VHDL, as syntax trees and
    as text; \<open>Dts_Print\<close>, \<open>Dt_Node\<close>, \<open>Dt_Tree\<close>, \<open>C_Header\<close>: the device tree and the C header.
  \<^item> \<open>Gen_Build\<close>, \<open>Board_Load\<close>, \<open>Soc_Gen\<close>: the file set, the loading of a board, the command and its watch loop.
  \<^item> \<open>Coremark\<close>: the collector and the image builder.

  \<^bold>\<open>What is shown.\<close>

  \<^item> \<open>Emit_Decoder_Spec\<close>, \<open>Emit_Decoder_Trie\<close>, \<open>Emit_Decoder_Correct\<close>, \<open>Emit_Decoder_Props\<close>, \<open>Elab_Sound\<close>: the
    meaning of the generated \<open>decode_address\<close> function and its correctness. The locale \<open>prefix_scheme\<close> is the
    contract of the two ways to choose prefixes; both are interpretations of it. With the address checks of
    \<open>Elab_Addr\<close> this gives: a board that elaborates without an error, whose base addresses fit 32 bits and of
    whose devices none is named \<open>none\<close>, decodes every address of a device to that device; a lemma each shows that
    the two conditions are needed, as the code does not check them. \<open>Gen_Props\<close> carries it to the text of the generated file's syntax tree.
  \<^item> \<open>Vhdl_Lex_Props\<close>: the lexer terminates within its bound, and the source is the texts of its tokens with gaps
    of white space and comments between them (the relation \<open>lexes\<close>). \<open>Vhdl_Written\<close>,
    \<open>Vhdl_Relex\<close>, \<open>Vhdl_Parse_Run\<close>, \<open>Vhdl_Parse_Names\<close>, \<open>Vhdl_Roundtrip\<close>: printed expressions are read back.
    \<open>Vhdl_Parse_Inv\<close>, \<open>Vhdl_Parse_Progress\<close>: the locale \<open>parser_invariant\<close> proves once that all parsers keep an
    invariant of the stream; its interpretations give located reports and progress.
  \<^item> The theories of elaboration hold the properties of their pass: what it accepts, what it computes, what it
    leaves unchanged. \<open>Elab_Class\<close> states the register layout on its own (\<open>reg_layout\<close>); its properties hold for
    registers below \<open>2 ^ 48\<close> (the address bits) and \<open>2 ^ 63\<close> (the overlaps), above which the arithmetic of the code
    rounds and wraps. \<open>Emit_Decl_Props\<close> joins them with the emitters: what the generated architectures connect is
    declared. \<open>Emit_Pins_Props\<close> relates the statements of the pad ring to the legs in the net-list.
    \<open>Emit_Sort_Props\<close> relates the sorting of port maps to the traversal it uses.
  \<^item> \<open>Dt_Props\<close>, \<open>C_Header_Props\<close>: bus range, names and timer trap of the tree, layout of the register structs.
  \<^item> \<open>Design_Validate\<close>, \<open>Design_Yaml\<close>, \<open>Design_Decode_Props\<close>: what the description's checks accept, what
    inclusion and merging leave, numbers read back.
  \<^item> \<open>Gen_Props\<close>: the file set, and what a run has written when it succeeds or fails. \<open>Coremark\<close>: the
    collector depends on the lines only, and what it reports with success is the record that has arrived.

  Where the code does not do what a comment says or what the property needs, a lemma of the theory shows the case.

  \<^bold>\<open>Bounds.\<close> A parser that calls itself through the levels of the grammar takes the number of remaining tokens
  as fuel, and so does each loop: each turn of a loop, and each turn of the recursion, consumes a token, so the
  fuel is not used up on a token stream that ends in the end-of-file token. For the file loop this is proved
  (\<open>parseFileN_ends\<close> in \<open>Vhdl_Parse_Progress\<close>), and for
  expressions the round trip shows that every printed expression is parsed with that fuel. The token loop runs at
  most once per byte (\<open>Vhdl_Lex_Props\<close>). Inclusions are cut at depth 16 by the code itself. The collector's loop
  has a number of turns for its deadline. All other recursion ends by structure or by a measure given with it.

  \<^bold>\<open>Not modelled.\<close>

  \<^item> Parameters: the YAML library (parsing a text to nodes, decoding nodes into records), the TOML decoder, Go's
    regular expressions, files, make, the logarithm of a register extent above \<open>2 ^ 48\<close> (\<open>lg\<close>, \<open>w_log2\<close> in the
    world of \<open>Soc_Gen\<close>; up to there the rounded-up logarithm of a double is the exact one), the conversion of a double outside the range of \<open>uint64\<close>, and
    \<open>strconv.ParseFloat\<close>.
  \<^item> \<open>vhdl/cpp.go\<close>, which runs the C preprocessor; the functional options of the parser that configure it; the
    flag parsing of the three commands; the ticker and the interrupt signal of the watch loop (a list of ticks
    instead); the terminal settings of the collector and the text of its result.
  \<^item> The \<open>Pos\<close> and \<open>End\<close> methods of the syntax tree and \<open>equalAST\<close>, a test helper; \<open>Value.String\<close>, which no code
    calls; \<open>internal/errutil\<close>, as the model keeps the lists of errors.
  \<^item> Texts are ASCII for case folding and white space. The order of a Go map is that of its association list;
    theorems hold for every such order. Sorting that leaves the order of ties open is the stable sort.
\<close>

end
